(* ===== verification/Go_Prelude.thy ===== *)
theory Go_Prelude
  imports Main "HOL-Library.Char_ord" "HOL-Library.List_Lexorder"
    "HOL-Library.Product_Lexorder" "HOL-Library.AList" "HOL-Library.Multiset"
begin

section \<open>Go values, strings and sorting\<close>

text \<open>
  What every component of the development uses of the Go language and its
  standard library: byte strings with the operations of packages
  \<^verbatim>\<open>strings\<close>, \<^verbatim>\<open>strconv\<close> and \<^verbatim>\<open>fmt\<close> that the sources call, time as a count of
  nanoseconds, errors as texts, maps as association lists with distinct keys
  (the order of the list is one order in which \<^verbatim>\<open>range\<close> may visit the map) and
  sorting by a \<^verbatim>\<open>less\<close> function. A Go string is a byte sequence, so it is a
  \<^typ>\<open>string\<close> here; strings are ordered lexicographically by byte.
\<close>

named_theorems go_defs \<open>definitions of standard-library functions\<close>
named_theorems decide_defs \<open>unfolding rules of the aggregates' command handlers\<close>
named_theorems apply_defs \<open>unfolding rules of the aggregates' event folds\<close>

type_synonym bytes = string
type_synonym go_error = string

text \<open>
  \<^verbatim>\<open>time.Time\<close> is the number of nanoseconds since Go's zero time (January 1,
  year 1, 00:00:00 UTC) and \<^verbatim>\<open>time.Duration\<close> a number of nanoseconds; the
  location of a time is presentation only. \<^verbatim>\<open>Before\<close> is \<open><\<close>, \<^verbatim>\<open>Add\<close> is \<open>+\<close>,
  \<^verbatim>\<open>IsZero\<close> is equality with 0.
\<close>

type_synonym go_time = int
type_synonym duration = int

definition time_truncate :: "go_time \<Rightarrow> duration \<Rightarrow> go_time" where
  "time_truncate t d = t - t mod d"

abbreviation Microsecond :: duration where "Microsecond \<equiv> 1000"
abbreviation Second :: duration where "Second \<equiv> 1000000000"
abbreviation Hour :: duration where "Hour \<equiv> 3600000000000"

lemma time_truncate_idem [simp]: "time_truncate (time_truncate t d) d = time_truncate t d"
  by (simp add: time_truncate_def minus_mod_eq_mult_div)

subsection \<open>Package strings\<close>

definition HasPrefix :: "string \<Rightarrow> string \<Rightarrow> bool" where
  "HasPrefix s p \<longleftrightarrow> take (length p) s = p"

definition HasSuffix :: "string \<Rightarrow> string \<Rightarrow> bool" where
  "HasSuffix s p \<longleftrightarrow> length p \<le> length s \<and> drop (length s - length p) s = p"

definition TrimPrefix :: "string \<Rightarrow> string \<Rightarrow> string" where
  "TrimPrefix s p = (if HasPrefix s p then drop (length p) s else s)"

definition CutSuffix :: "string \<Rightarrow> string \<Rightarrow> string \<times> bool" where
  "CutSuffix s p = (if HasSuffix s p then (take (length s - length p) s, True) else (s, False))"

definition TrimSuffix :: "string \<Rightarrow> string \<Rightarrow> string" where
  "TrimSuffix s p = fst (CutSuffix s p)"

definition ContainsAny :: "string \<Rightarrow> string \<Rightarrow> bool" where
  "ContainsAny s cs \<longleftrightarrow> list_ex (\<lambda>c. c \<in> set cs) s"

fun Cut :: "string \<Rightarrow> string \<Rightarrow> string \<times> string \<times> bool" where
  "Cut [] sep = (if sep = [] then ([], [], True) else ([], [], False))"
| "Cut (c # cs) sep =
     (if HasPrefix (c # cs) sep then ([], drop (length sep) (c # cs), True)
      else case Cut cs sep of (b, a, ok) \<Rightarrow> (c # b, a, ok))"

text \<open>\<^verbatim>\<open>strings.Split\<close> with a separator of one byte, the only kind the sources use.\<close>

fun Split :: "string \<Rightarrow> char \<Rightarrow> string list" where
  "Split [] c = [[]]"
| "Split (x # xs) c =
     (if x = c then [] # Split xs c
      else case Split xs c of [] \<Rightarrow> [[x]] | y # ys \<Rightarrow> (x # y) # ys)"

fun Join :: "string list \<Rightarrow> string \<Rightarrow> string" where
  "Join [] sep = []"
| "Join [x] sep = x"
| "Join (x # xs) sep = x @ sep @ Join xs sep"

text \<open>
  \<^verbatim>\<open>strings.ToUpper\<close> on ASCII bytes; bytes outside ASCII stay as they are (the
  sources apply it to HTTP methods only).
\<close>

definition upper_byte :: "char \<Rightarrow> char" where
  "upper_byte c = (if CHR ''a'' \<le> c \<and> c \<le> CHR ''z'' then char_of (of_char c - 32 :: nat) else c)"

definition ToUpper :: "string \<Rightarrow> string" where
  "ToUpper s = map upper_byte s"

lemma HasPrefix_append [simp]: "HasPrefix (p @ s) p"
  by (simp add: HasPrefix_def)

lemma HasPrefix_iff: "HasPrefix s p \<longleftrightarrow> (\<exists>t. s = p @ t)"
  by (metis HasPrefix_append HasPrefix_def append_take_drop_id)

lemma HasPrefix_Nil [simp]: "HasPrefix s []"
  by (simp add: HasPrefix_def)

lemma HasPrefix_Nil_iff [simp]: "HasPrefix [] p \<longleftrightarrow> p = []"
  by (auto simp: HasPrefix_iff)

lemma HasPrefix_Cons_Cons [simp]: "HasPrefix (x # xs) (y # ys) \<longleftrightarrow> x = y \<and> HasPrefix xs ys"
  by (auto simp: HasPrefix_iff)

lemma HasPrefix_cancel [simp]: "HasPrefix (p @ s) (p @ t) \<longleftrightarrow> HasPrefix s t"
  by (induction p) simp_all

lemma TrimPrefix_append [simp]: "TrimPrefix (p @ s) p = s"
  by (simp add: TrimPrefix_def)

lemma HasSuffix_append [simp]: "HasSuffix (s @ p) p"
  by (simp add: HasSuffix_def)

lemma HasSuffix_iff: "HasSuffix s p \<longleftrightarrow> (\<exists>t. s = t @ p)"
  by (metis HasSuffix_append HasSuffix_def append_take_drop_id)

lemma TrimSuffix_append [simp]: "TrimSuffix (s @ p) p = s"
  by (simp add: TrimSuffix_def CutSuffix_def)

lemma TrimSuffix_other [simp]: "\<not> HasSuffix s p \<Longrightarrow> TrimSuffix s p = s"
  by (simp add: TrimSuffix_def CutSuffix_def)

lemma ContainsAny_iff: "ContainsAny s cs \<longleftrightarrow> set s \<inter> set cs \<noteq> {}"
  by (auto simp: ContainsAny_def list_ex_iff)

lemma Cut_found: "Cut s sep = (b, a, True) \<Longrightarrow> s = b @ sep @ a"
  by (induction s sep arbitrary: b a rule: Cut.induct)
     (auto simp: HasPrefix_iff split: if_splits prod.splits)

lemma Cut_not_found: "Cut s sep = (b, a, False) \<Longrightarrow> b = s \<and> a = []"
  by (induction s sep arbitrary: b a rule: Cut.induct) (auto split: if_splits prod.splits)

lemma Cut_byte_found [simp]: "c \<notin> set b \<Longrightarrow> Cut (b @ c # a) [c] = (b, a, True)"
  by (induction b) auto

lemma Cut_byte_absent [simp]: "c \<notin> set s \<Longrightarrow> Cut s [c] = (s, [], False)"
  by (induction s) auto

lemma Cut_byte_before: "Cut s [c] = (b, a, ok) \<Longrightarrow> c \<notin> set b"
  by (induction s "[c]" arbitrary: b a ok rule: Cut.induct) (auto split: if_splits prod.splits)

lemma Split_nonempty [simp]: "Split s c \<noteq> []"
  by (cases s) (auto split: list.splits)

lemma Split_absent: "c \<notin> set s \<Longrightarrow> Split s c = [s]"
  by (induction s) auto

lemma Split_append: "c \<notin> set x \<Longrightarrow> Split (x @ c # ys) c = x # Split ys c"
  by (induction x) auto

lemma Split_Join:
  "xs \<noteq> [] \<Longrightarrow> \<forall>x \<in> set xs. c \<notin> set x \<Longrightarrow> Split (Join xs [c]) c = xs"
  by (induction xs "[c]" rule: Join.induct) (auto simp: Split_absent Split_append)

lemma Join_Split: "Join (Split s c) [c] = s"
proof (induction s)
  case (Cons x xs)
  obtain y ys where ys: "Split xs c = y # ys"
    by (metis Split_nonempty list.exhaust)
  have "Join ((x # y) # ys) [c] = x # xs" and "Join ([] # y # ys) [c] = c # xs"
    using Cons.IH ys by (cases ys; simp)+
  with ys show ?case
    by (simp del: Join.simps)
qed simp

subsection \<open>Packages strconv and fmt\<close>

fun nat_digits :: "nat \<Rightarrow> string" where
  "nat_digits n =
     (if n < 10 then [char_of (48 + n)] else nat_digits (n div 10) @ [char_of (48 + n mod 10)])"

declare nat_digits.simps [simp del]

definition Itoa :: "int \<Rightarrow> string" where
  "Itoa i = (if i < 0 then CHR ''-'' # nat_digits (nat (- i)) else nat_digits (nat i))"

text \<open>\<^verbatim>\<open>strconv.Atoi\<close> restricted to digit strings, used to state what \<open>Itoa\<close> means.\<close>

definition digits_value :: "string \<Rightarrow> nat" where
  "digits_value s = foldl (\<lambda>v c. 10 * v + (of_char c - 48)) 0 s"

lemma digits_value_append: "digits_value (s @ [c]) = 10 * digits_value s + (of_char c - 48)"
  by (simp add: digits_value_def)

lemma of_char_digit: "d < 10 \<Longrightarrow> of_char (char_of (48 + d :: nat) :: char) = 48 + d"
  by (simp add: of_char_of)

lemma digits_value_nat_digits [simp]: "digits_value (nat_digits n) = n"
proof (induction n rule: nat_digits.induct)
  case (1 n)
  show ?case
  proof (cases "n < 10")
    case True
    then show ?thesis
      by (subst nat_digits.simps) (simp add: digits_value_def of_char_digit)
  next
    case False
    then show ?thesis
      using 1 by (subst nat_digits.simps) (simp add: digits_value_append of_char_digit)
  qed
qed

lemma nat_digits_inject [simp]: "nat_digits m = nat_digits n \<longleftrightarrow> m = n"
  by (metis digits_value_nat_digits)

lemma nat_digits_set: "c \<in> set (nat_digits n) \<Longrightarrow> CHR ''0'' \<le> c \<and> c \<le> CHR ''9''"
proof (induction n rule: nat_digits.induct)
  case (1 n)
  have digit: "CHR ''0'' \<le> char_of (48 + d :: nat) \<and> char_of (48 + d :: nat) \<le> CHR ''9''"
    if "d < 10" for d
    using that by (simp add: less_eq_char_def of_char_digit)
  show ?case
    using 1 digit[of n] digit[of "n mod 10"] by (subst (asm) nat_digits.simps) (auto split: if_splits)
qed

text \<open>
  \<^verbatim>\<open>strconv.Quote\<close> (the verb \<^verbatim>\<open>%q\<close>): ASCII is quoted as Go does; bytes from 128
  up are copied, which is what Go does for printable characters in valid UTF-8.
\<close>

definition hex_digit :: "nat \<Rightarrow> char" where
  "hex_digit d = (if d < 10 then char_of (48 + d) else char_of (87 + d))"

definition quote_byte :: "char \<Rightarrow> string" where
  "quote_byte c = (let n = of_char c :: nat in
     if n = 34 then [CHR 0x5C, CHR 0x22]
     else if n = 92 then [CHR 0x5C, CHR 0x5C]
     else if n = 7 then [CHR 0x5C, CHR ''a'']
     else if n = 8 then [CHR 0x5C, CHR ''b'']
     else if n = 12 then [CHR 0x5C, CHR ''f'']
     else if n = 10 then [CHR 0x5C, CHR ''n'']
     else if n = 13 then [CHR 0x5C, CHR ''r'']
     else if n = 9 then [CHR 0x5C, CHR ''t'']
     else if n = 11 then [CHR 0x5C, CHR ''v'']
     else if n < 32 \<or> n = 127 then [CHR 0x5C, CHR ''x'', hex_digit (n div 16), hex_digit (n mod 16)]
     else [c])"

definition Quote :: "string \<Rightarrow> string" where
  "Quote s = CHR 0x22 # concat (map quote_byte s) @ [CHR 0x22]"

text \<open>
  \<^verbatim>\<open>fmt.Sprintf\<close> for the verbs of the sources: \<^verbatim>\<open>%s\<close>, \<^verbatim>\<open>%v\<close> and \<^verbatim>\<open>%d\<close> insert the
  argument's text, \<^verbatim>\<open>%q\<close> inserts it quoted. Arguments are given as their texts.
\<close>

fun Sprintf :: "string \<Rightarrow> string list \<Rightarrow> string" where
  "Sprintf [] args = []"
| "Sprintf (c # f) args =
     (if c \<noteq> CHR ''%'' then c # Sprintf f args
      else case f of
        [] \<Rightarrow> ''%!(NOVERB)''
      | v # f' \<Rightarrow>
          (case args of
             [] \<Rightarrow> ''%!'' @ [v] @ ''(MISSING)'' @ Sprintf f' []
           | a # args' \<Rightarrow> (if v = CHR ''q'' then Quote a else a) @ Sprintf f' args'))"

declare Sprintf.simps [simp del]

text \<open>The first error of a loop that returns at the first failing element.\<close>

fun first_error :: "('a \<Rightarrow> go_error option) \<Rightarrow> 'a list \<Rightarrow> go_error option" where
  "first_error f [] = None"
| "first_error f (x # xs) = (case f x of Some e \<Rightarrow> Some e | None \<Rightarrow> first_error f xs)"

lemma first_error_None: "first_error f xs = None \<longleftrightarrow> (\<forall>x \<in> set xs. f x = None)"
  by (induction xs) (auto split: option.splits)

subsection \<open>Package sort\<close>

text \<open>
  \<^verbatim>\<open>sort.SliceStable\<close> and \<^verbatim>\<open>sort.Slice\<close> with a \<^verbatim>\<open>less\<close> function. Where no two elements
  are equivalent under \<^verbatim>\<open>less\<close> the result does not depend on the stability of the
  algorithm or on the order of the input.
\<close>

fun go_insert :: "('a \<Rightarrow> 'a \<Rightarrow> bool) \<Rightarrow> 'a \<Rightarrow> 'a list \<Rightarrow> 'a list" where
  "go_insert lt x [] = [x]"
| "go_insert lt x (y # ys) = (if lt y x then y # go_insert lt x ys else x # y # ys)"

definition go_sort :: "('a \<Rightarrow> 'a \<Rightarrow> bool) \<Rightarrow> 'a list \<Rightarrow> 'a list" where
  "go_sort lt xs = foldr (go_insert lt) xs []"

lemma go_insert_insort: "go_insert (\<lambda>a b. f a < f b) x ys = insort_key f x ys"
  by (induction ys) auto

lemma go_sort_sort_key: "go_sort (\<lambda>a b. f a < f b) xs = sort_key f xs"
proof -
  have "go_insert (\<lambda>a b. f a < f b) = insort_key f"
    by (intro ext) (rule go_insert_insort)
  then show ?thesis
    by (simp add: go_sort_def sort_key_def)
qed

lemma set_go_insert [simp]: "set (go_insert lt x ys) = insert x (set ys)"
  by (induction ys) auto

lemma set_go_sort [simp]: "set (go_sort lt xs) = set xs"
  by (induction xs) (simp_all add: go_sort_def)

lemma mset_go_insert [simp]: "mset (go_insert lt x ys) = add_mset x (mset ys)"
  by (induction ys) auto

lemma mset_go_sort [simp]: "mset (go_sort lt xs) = mset xs"
  by (induction xs) (simp_all add: go_sort_def)

lemma length_go_sort [simp]: "length (go_sort lt xs) = length xs"
  by (metis mset_go_sort size_mset)

lemma distinct_go_sort [simp]: "distinct (go_sort lt xs) = distinct xs"
  by (metis mset_go_sort mset_eq_imp_distinct_iff)

text \<open>Sorting by a key that separates the elements forgets the order of the input.\<close>

lemma filter_same_key:
  assumes "inj_on f (set ys)" and "mset ys = mset xs" and "k \<in> set ys"
  shows "filter (\<lambda>x. f k = f x) ys = filter (\<lambda>x. f k = f x) xs"
proof -
  have sets: "set ys = set xs"
    using assms(2) by (metis set_mset_mset)
  have eq: "filter (\<lambda>x. f k = f x) zs = filter ((=) k) zs" if "set zs = set ys" for zs
    using that assms(1,3) by (intro filter_cong) (auto dest: inj_onD)
  have rep: "filter ((=) k) zs = replicate (count (mset zs) k) k" for zs
    by (induction zs) auto
  show ?thesis
    using assms(2) by (simp add: eq sets rep)
qed

lemma sort_key_permutation:
  assumes "inj_on f (set xs)" and "mset xs = mset ys"
  shows "sort_key f xs = sort_key f ys"
proof (rule properties_for_sort_key)
  have "set (sort_key f ys) = set xs"
    using assms(2) by (metis set_mset_mset set_sort)
  then show "mset (sort_key f ys) = mset xs"
    and "\<And>k. k \<in> set (sort_key f ys) \<Longrightarrow>
      filter (\<lambda>x. f k = f x) (sort_key f ys) = filter (\<lambda>x. f k = f x) xs"
    using assms by (auto intro!: filter_same_key)
qed simp

subsection \<open>Go maps as association lists\<close>

definition map_get :: "'v \<Rightarrow> ('k \<times> 'v) list \<Rightarrow> 'k \<Rightarrow> 'v" where
  "map_get zero m k = (case map_of m k of None \<Rightarrow> zero | Some v \<Rightarrow> v)"

abbreviation map_put :: "'k \<Rightarrow> 'v \<Rightarrow> ('k \<times> 'v) list \<Rightarrow> ('k \<times> 'v) list" where
  "map_put \<equiv> AList.update"

abbreviation map_keys :: "('k \<times> 'v) list \<Rightarrow> 'k list" where
  "map_keys m \<equiv> map fst m"

lemma map_of_put [simp]: "map_of (map_put k v m) = (map_of m)(k \<mapsto> v)"
  by (rule update_conv')

lemma map_get_put [simp]: "map_get z (map_put k v m) k' = (if k' = k then v else map_get z m k')"
  by (simp add: map_get_def)

lemma distinct_map_put [simp]: "distinct (map_keys m) \<Longrightarrow> distinct (map_keys (map_put k v m))"
  by (rule distinct_update)

lemma map_of_eq_mset:
  assumes "distinct (map_keys m)" "distinct (map_keys m')" "map_of m = map_of m'"
  shows "mset m = mset m'"
proof -
  have "set m = set m'"
    using assms by (metis map_of_inject_set)
  moreover have "distinct m" "distinct m'"
    using assms by (simp_all add: distinct_map)
  ultimately show ?thesis
    by (simp add: set_eq_iff_mset_eq_distinct)
qed

end
