(* ===== verification/Core_Types.thy ===== *)
theory Core_Types
  imports Go_Prelude
begin

section \<open>Identities, levels, decision context and rejections\<close>

text \<open>
  The value objects of \<^verbatim>\<open>internal/core\<close> that every aggregate shares: actor
  references (\<^verbatim>\<open>ids.go\<close>), autonomy levels and their transition table
  (\<^verbatim>\<open>level.go\<close>), the decision context and the policy (\<^verbatim>\<open>context.go\<close>), rejections
  and replay (\<^verbatim>\<open>event.go\<close>). A string-typed enumeration of the source is a
  datatype with one constructor per constant and, where the code accepts and
  checks arbitrary values, a constructor \<open>...Other\<close> for every other string.
\<close>

subsection \<open>ids.go\<close>

type_synonym ID = string

definition ID_IsZero :: "ID \<Rightarrow> bool" where
  [simp]: "ID_IsZero i \<longleftrightarrow> i = ''''"

datatype actor_kind = ActorHuman | ActorAgent | ActorKindOther string

record actor_ref =
  ar_Kind :: actor_kind
  ar_ID :: ID
  ar_Key :: string
  ar_Owner :: ID

definition IsHuman :: "actor_ref \<Rightarrow> bool" where
  [simp]: "IsHuman a \<longleftrightarrow> ar_Kind a = ActorHuman"

definition IsAgent :: "actor_ref \<Rightarrow> bool" where
  [simp]: "IsAgent a \<longleftrightarrow> ar_Kind a = ActorAgent"

definition Actor_Validate :: "actor_ref \<Rightarrow> go_error option" where
  "Actor_Validate a =
     (case ar_Kind a of
        ActorHuman \<Rightarrow> (if ID_IsZero (ar_ID a) then Some ''actor: empty id'' else None)
      | ActorAgent \<Rightarrow>
          (if ID_IsZero (ar_Owner a) then Some ''actor: agent requires an owner''
           else if ID_IsZero (ar_ID a) then Some ''actor: empty id'' else None)
      | ActorKindOther _ \<Rightarrow> Some ''actor: unknown kind'')"

lemma Actor_Validate_None:
  "Actor_Validate a = None \<longleftrightarrow>
     (IsHuman a \<or> IsAgent a \<and> ar_Owner a \<noteq> '''') \<and> ar_ID a \<noteq> ''''"
  by (auto simp: Actor_Validate_def split: actor_kind.splits if_splits)

subsection \<open>level.go\<close>

text \<open>
  \<^verbatim>\<open>Level\<close> is a Go \<^verbatim>\<open>int\<close>: values outside L0..L3 exist and the code checks for
  them with \<^verbatim>\<open>Valid\<close>.
\<close>

type_synonym level = int

abbreviation L0 :: level where "L0 \<equiv> 0"
abbreviation L1 :: level where "L1 \<equiv> 1"
abbreviation L2 :: level where "L2 \<equiv> 2"
abbreviation L3 :: level where "L3 \<equiv> 3"
abbreviation MaxLevel :: level where "MaxLevel \<equiv> L3"

definition Level_Valid :: "level \<Rightarrow> bool" where
  "Level_Valid l \<longleftrightarrow> l \<ge> L0 \<and> l \<le> MaxLevel"

definition Level_String :: "level \<Rightarrow> string" where
  "Level_String l = ''L'' @ Itoa l"

definition ParseLevel :: "string \<Rightarrow> go_error + level" where
  "ParseLevel s =
     (case s of
        [a, b] \<Rightarrow>
          (if a = CHR ''L'' \<and> CHR ''0'' \<le> b \<and> b \<le> CHR ''3''
           then Inr (of_char b - 48)
           else Inl (Sprintf ''level: invalid %q'' [s]))
      | _ \<Rightarrow> Inl (Sprintf ''level: invalid %q'' [s]))"

definition Level_MarshalText :: "level \<Rightarrow> go_error + string" where
  "Level_MarshalText l =
     (if \<not> Level_Valid l then Inl (Sprintf ''level: invalid %d'' [Itoa l])
      else Inr (Level_String l))"

definition Level_UnmarshalText :: "string \<Rightarrow> go_error + level" where
  "Level_UnmarshalText b = ParseLevel b"

datatype trigger = TriggerPromote | TriggerRegress | TriggerOther string

text \<open>The table \<^verbatim>\<open>Transitions\<close>: rows by level, columns by trigger.\<close>

definition Transitions :: "(level \<times> (trigger \<times> level) list) list" where
  "Transitions =
     [(L0, [(TriggerPromote, L1), (TriggerRegress, L0)]),
      (L1, [(TriggerPromote, L2), (TriggerRegress, L0)]),
      (L2, [(TriggerPromote, L3), (TriggerRegress, L1)]),
      (L3, [(TriggerPromote, L3), (TriggerRegress, L2)])]"

definition Transition :: "level \<Rightarrow> trigger \<Rightarrow> level \<times> bool" where
  "Transition from t =
     (case map_of Transitions from of
        None \<Rightarrow> (from, False)
      | Some row \<Rightarrow> (case map_of row t of None \<Rightarrow> (0, False) | Some to \<Rightarrow> (to, True)))"

lemma Level_Valid_cases:
  "Level_Valid l \<longleftrightarrow> l = 0 \<or> l = 1 \<or> l = 2 \<or> l = 3"
  by (auto simp: Level_Valid_def)

lemma Level_Valid_consts [simp]: "Level_Valid 0" "Level_Valid 1" "Level_Valid 2" "Level_Valid 3"
  by (simp_all add: Level_Valid_def)

lemma Transition_promote:
  "Level_Valid l \<Longrightarrow> Transition l TriggerPromote = (min (l + 1) MaxLevel, True)"
  by (auto simp: Level_Valid_cases Transition_def Transitions_def)

lemma Transition_regress:
  "Level_Valid l \<Longrightarrow> Transition l TriggerRegress = (max (l - 1) L0, True)"
  by (auto simp: Level_Valid_cases Transition_def Transitions_def)

subsection \<open>context.go\<close>

record policy =
  PromotionMinOutcomes :: int
  OutcomeWindow :: duration
  GateTTL :: duration

definition DefaultPolicy :: policy where
  "DefaultPolicy = \<lparr>PromotionMinOutcomes = 10, OutcomeWindow = 24 * Hour, GateTTL = 1 * Hour\<rparr>"

definition zero_policy :: policy where
  "zero_policy = \<lparr>PromotionMinOutcomes = 0, OutcomeWindow = 0, GateTTL = 0\<rparr>"

record decide_context =
  Now :: go_time
  Actor :: actor_ref
  Autonomy :: level
  Cap :: level
  Policy :: policy
  Judges :: "ID list"
  ConstraintsHash :: string

definition RequiresJudge :: "decide_context \<Rightarrow> ID \<Rightarrow> bool" where
  "RequiresJudge c i \<longleftrightarrow> list_ex (\<lambda>j. j = i) (Judges c)"

lemma RequiresJudge_iff [simp]: "RequiresJudge c i \<longleftrightarrow> i \<in> set (Judges c)"
  by (auto simp: RequiresJudge_def list_ex_iff)

subsection \<open>event.go\<close>

record rejection =
  Code :: string
  Reason :: string

definition Reject :: "string \<Rightarrow> string \<Rightarrow> string list \<Rightarrow> rejection" where
  "Reject code fmt args = \<lparr>Code = code, Reason = Sprintf fmt args\<rparr>"

lemma Code_Reject [simp]: "Code (Reject code fmt args) = code"
  by (simp add: Reject_def)

definition Rejection_Error :: "rejection \<Rightarrow> string" where
  "Rejection_Error r = Code r @ '': '' @ Reason r"

text \<open>\<^verbatim>\<open>Replay\<close> folds events onto the zero aggregate.\<close>

fun Replay :: "('s \<Rightarrow> 'e \<Rightarrow> 's) \<Rightarrow> 's \<Rightarrow> 'e list \<Rightarrow> 's" where
  "Replay ap s [] = s"
| "Replay ap s (e # evs) = Replay ap (ap s e) evs"

lemma Replay_append [simp]: "Replay ap s (xs @ ys) = Replay ap (Replay ap s xs) ys"
  by (induction xs arbitrary: s) auto

text \<open>
  What the ledger can hold for one stream: \<open>history dec ap zero evs\<close> says that
  \<open>evs\<close> is a concatenation of batches, each decided by \<^verbatim>\<open>Decide\<close> on the state
  replayed from the batches before it.
\<close>

inductive history ::
  "('s \<Rightarrow> 'c \<Rightarrow> decide_context \<Rightarrow> rejection + 'e list) \<Rightarrow> ('s \<Rightarrow> 'e \<Rightarrow> 's) \<Rightarrow> 's \<Rightarrow> 'e list \<Rightarrow> bool"
  for dec :: "'s \<Rightarrow> 'c \<Rightarrow> decide_context \<Rightarrow> rejection + 'e list"
    and ap :: "'s \<Rightarrow> 'e \<Rightarrow> 's" and zero :: 's where
  history_start: "history dec ap zero []"
| history_step: "history dec ap zero evs \<Longrightarrow> dec (Replay ap zero evs) c ctx = Inr es \<Longrightarrow>
    history dec ap zero (evs @ es)"

text \<open>
  The interface \<^verbatim>\<open>core.Root\<close>. An aggregate promises an invariant of its state:
  it holds of the zero state, and the events \<^verbatim>\<open>Decide\<close> returns keep it when they
  are applied. Every state replayed from a history then satisfies it.
\<close>

locale aggregate =
  fixes dec :: "'s \<Rightarrow> 'c \<Rightarrow> decide_context \<Rightarrow> rejection + 'e list"
    and ap :: "'s \<Rightarrow> 'e \<Rightarrow> 's"
    and zero :: 's
    and inv :: "'s \<Rightarrow> bool"
  assumes inv_zero: "inv zero"
    and inv_decide: "inv s \<Longrightarrow> dec s c ctx = Inr es \<Longrightarrow> inv (Replay ap s es)"
begin

lemma history_inv: "history dec ap zero evs \<Longrightarrow> inv (Replay ap zero evs)"
proof (induction rule: history.induct)
  case history_start
  then show ?case
    by (simp add: inv_zero)
next
  case (history_step evs c ctx es)
  then show ?case
    by (simp add: inv_decide)
qed

text \<open>A property of the events that every decision guarantees holds of all events of a history.\<close>

lemma history_events:
  assumes "history dec ap zero evs"
    and "\<And>s c ctx es e. inv s \<Longrightarrow> dec s c ctx = Inr es \<Longrightarrow> e \<in> set es \<Longrightarrow> P e"
  shows "\<forall>e \<in> set evs. P e"
  using assms(1)
proof (induction rule: history.induct)
  case (history_step evs c ctx es)
  then show ?case
    using assms(2) [OF history_inv [OF history_step(1)] history_step(2)] by auto
qed simp

text \<open>A state predicate that every decision keeps, once reached, is never left.\<close>

lemma history_stable:
  assumes "\<And>s c ctx es. inv s \<Longrightarrow> Q s \<Longrightarrow> dec s c ctx = Inr es \<Longrightarrow> Q (Replay ap s es)"
    and "history dec ap (Replay ap zero pre) post" "history dec ap zero pre"
    and "Q (Replay ap zero pre)"
  shows "inv (Replay ap zero (pre @ post)) \<and> Q (Replay ap zero (pre @ post))"
  using assms(2)
proof (induction rule: history.induct)
  case history_start
  then show ?case
    using assms(3,4) history_inv by simp
next
  case (history_step evs c ctx es)
  then show ?case
    using assms(1) inv_decide by simp
qed

end

record rejected =
  rj_Command :: string
  rj_Target :: string
  rj_Code :: string
  rj_Reason :: string
  rj_Actor :: actor_ref

abbreviation RejectedStream :: string where "RejectedStream \<equiv> ''rejected''"

end
