(* ===== verification/Go_Path.thy ===== *)
theory Go_Path
  imports Go_Prelude
begin

section \<open>Package path: Clean and Match\<close>

text \<open>
  The parts of Go's package \<^verbatim>\<open>path\<close> (and of \<^verbatim>\<open>unicode/utf8\<close>) on which scope globs
  and repository paths rest. \<open>path_Match\<close> follows the library's algorithm chunk
  by chunk; the main facts are that \<open>path_Clean\<close> leaves exactly the paths without
  empty, dot and dot-dot segments (and the path \<^verbatim>\<open>.\<close>) unchanged, and that whether a
  pattern is malformed does not depend on the name it is matched against.
\<close>

subsection \<open>utf8.DecodeRuneInString\<close>

definition cont_byte :: "nat \<Rightarrow> bool" where
  "cont_byte b \<longleftrightarrow> 128 \<le> b \<and> b < 192"

definition RuneError :: nat where "RuneError = 65533"

definition decode_rune_bytes :: "nat list \<Rightarrow> nat \<times> nat" where
  "decode_rune_bytes bs =
     (case bs of
        [] \<Rightarrow> (RuneError, 0)
      | b0 # r0 \<Rightarrow>
        if b0 < 128 then (b0, 1)
        else if b0 < 194 \<or> b0 > 244 then (RuneError, 1)
        else (case r0 of
            [] \<Rightarrow> (RuneError, 1)
          | b1 # r1 \<Rightarrow>
            let lo = (if b0 = 224 then 160 else if b0 = 240 then 144 else 128);
                hi = (if b0 = 237 then 159 else if b0 = 244 then 143 else 191)
            in if b1 < lo \<or> hi < b1 then (RuneError, 1)
               else if b0 < 224 then ((b0 - 192) * 64 + (b1 - 128), 2)
               else (case r1 of
                   [] \<Rightarrow> (RuneError, 1)
                 | b2 # r2 \<Rightarrow>
                   if \<not> cont_byte b2 then (RuneError, 1)
                   else if b0 < 240 then ((b0 - 224) * 4096 + (b1 - 128) * 64 + (b2 - 128), 3)
                   else (case r2 of
                       [] \<Rightarrow> (RuneError, 1)
                     | b3 # _ \<Rightarrow>
                       if \<not> cont_byte b3 then (RuneError, 1)
                       else ((b0 - 240) * 262144 + (b1 - 128) * 4096 + (b2 - 128) * 64 + (b3 - 128), 4)))))"

definition DecodeRuneInString :: "string \<Rightarrow> nat \<times> nat" where
  "DecodeRuneInString s = decode_rune_bytes (map of_char (take 4 s))"

lemma DecodeRune_progress: "s \<noteq> [] \<Longrightarrow> 0 < snd (DecodeRuneInString s)"
  by (cases s)
     (auto simp: DecodeRuneInString_def decode_rune_bytes_def Let_def split: list.splits if_splits)

subsection \<open>path.Clean\<close>

fun clean_segments :: "bool \<Rightarrow> string list \<Rightarrow> string list \<Rightarrow> string list" where
  "clean_segments rooted out [] = rev out"
| "clean_segments rooted out (seg # segs) =
     (if seg = '''' \<or> seg = ''.'' then clean_segments rooted out segs
      else if seg = ''..'' then
        (case out of
           [] \<Rightarrow> clean_segments rooted (if rooted then [] else [''..'']) segs
         | o1 # out' \<Rightarrow>
             if o1 = ''..'' then clean_segments rooted (''..'' # out) segs
             else clean_segments rooted out' segs)
      else clean_segments rooted (seg # out) segs)"

definition path_Clean :: "string \<Rightarrow> string" where
  "path_Clean p =
     (let rooted = HasPrefix p ''/'';
          segs = clean_segments rooted [] (Split p (CHR ''/''));
          body = Join segs ''/''
      in if rooted then ''/'' @ body else if segs = [] then ''.'' else body)"

definition plain_segment :: "string \<Rightarrow> bool" where
  "plain_segment seg \<longleftrightarrow> seg \<noteq> '''' \<and> seg \<noteq> ''.'' \<and> seg \<noteq> ''..''"

lemma clean_segments_plain:
  "\<forall>s \<in> set segs. plain_segment s \<Longrightarrow> clean_segments r out segs = rev out @ segs"
  by (induction segs arbitrary: out) (auto simp: plain_segment_def)

lemma clean_segments_subset:
  "set (clean_segments r out segs) \<subseteq> set out \<union> {s \<in> set segs. s \<noteq> '''' \<and> s \<noteq> ''.''} \<union> {''..''}"
proof (induction segs arbitrary: out)
  case (Cons seg segs)
  note IH = Cons.IH[of out] Cons.IH[of "seg # out"] Cons.IH[of "tl out"] Cons.IH[of "[]"] Cons.IH[of "[''..'']"]
  show ?case
    using IH by (cases out) auto
qed auto

lemma Split_slash_free: "s \<in> set (Split p c) \<Longrightarrow> c \<notin> set s"
proof (induction p arbitrary: s)
  case (Cons x p)
  obtain y ys where "Split p c = y # ys"
    by (metis Split_nonempty list.exhaust)
  with Cons show ?case
    by (auto split: if_splits)
qed simp

text \<open>Exactly the repository-relative paths made of plain segments, and \<^verbatim>\<open>.\<close>, are clean and do not escape.\<close>

lemma path_Clean_plain:
  assumes "p \<noteq> ''''" and "\<forall>s \<in> set (Split p (CHR ''/'')). plain_segment s"
  shows "path_Clean p = p \<and> \<not> HasPrefix p ''/''"
proof -
  have rel: "\<not> HasPrefix p ''/''"
  proof
    assume "HasPrefix p ''/''"
    then obtain t where "p = CHR ''/'' # t"
      by (auto simp: HasPrefix_iff)
    then have "'''' \<in> set (Split p (CHR ''/''))"
      by simp
    with assms(2) show False
      by (auto simp: plain_segment_def)
  qed
  have "clean_segments False [] (Split p (CHR ''/'')) = Split p (CHR ''/'')"
    using assms(2) by (simp add: clean_segments_plain)
  then show ?thesis
    using rel by (simp add: path_Clean_def Join_Split)
qed

lemma path_Clean_segments:
  assumes "path_Clean p = p" and "\<not> HasPrefix p ''/''" and "p \<noteq> ''.''"
    and "''..'' \<notin> set (Split p (CHR ''/''))"
  shows "\<forall>s \<in> set (Split p (CHR ''/'')). plain_segment s"
proof -
  let ?segs = "clean_segments False [] (Split p (CHR ''/''))"
  have "?segs \<noteq> []" and p: "Join ?segs ''/'' = p"
    using assms(1-3) by (auto simp: path_Clean_def Let_def split: if_splits)
  moreover have free: "\<forall>s \<in> set ?segs. CHR ''/'' \<notin> set s"
    using clean_segments_subset[of False "[]" "Split p (CHR ''/'')"] by (auto dest: Split_slash_free)
  ultimately have "Split p (CHR ''/'') = ?segs"
    by (metis Split_Join)
  with assms(4) show ?thesis
    using clean_segments_subset[of False "[]" "Split p (CHR ''/'')"]
    by (auto simp: plain_segment_def)
qed

subsection \<open>path.Match\<close>

abbreviation ErrBadPattern :: go_error where "ErrBadPattern \<equiv> ''syntax error in pattern''"

fun scan_stars :: "string \<Rightarrow> bool \<times> string" where
  "scan_stars [] = (False, [])"
| "scan_stars (c # cs) = (if c = CHR ''*'' then (True, snd (scan_stars cs)) else (False, c # cs))"

fun scan_body :: "bool \<Rightarrow> string \<Rightarrow> string \<times> string" where
  "scan_body inrange [] = ([], [])"
| "scan_body inrange (c # cs) =
     (if c = CHR 0x5C then
        (case cs of [] \<Rightarrow> ([c], [])
         | d # ds \<Rightarrow> (case scan_body inrange ds of (a, b) \<Rightarrow> (c # d # a, b)))
      else if c = CHR ''*'' \<and> \<not> inrange then ([], c # cs)
      else (case scan_body (if c = CHR ''['' then True else if c = CHR '']'' then False else inrange) cs
            of (a, b) \<Rightarrow> (c # a, b)))"

definition scanChunk :: "string \<Rightarrow> bool \<times> string \<times> string" where
  "scanChunk pattern =
     (case scan_stars pattern of (star, p) \<Rightarrow>
        (case scan_body False p of (chunk, rest) \<Rightarrow> (star, chunk, rest)))"

definition getEsc :: "string \<Rightarrow> (nat \<times> string) option" where
  "getEsc chunk =
     (case chunk of
        [] \<Rightarrow> None
      | c # cs \<Rightarrow>
        if c = CHR ''-'' \<or> c = CHR '']'' then None
        else let chunk' = (if c = CHR 0x5C then cs else chunk) in
          if chunk' = [] then None
          else (case DecodeRuneInString chunk' of (r, n) \<Rightarrow>
                  let nchunk = drop n chunk' in
                  if r = RuneError \<and> n = 1 then None
                  else if nchunk = [] then None
                  else Some (r, nchunk)))"

lemma getEsc_shrinks:
  assumes "getEsc chunk = Some (r, nchunk)"
  shows "length nchunk < length chunk"
proof -
  obtain c cs where c: "chunk = c # cs"
    using assms by (auto simp: getEsc_def split: list.splits)
  define chunk' where "chunk' = (if c = CHR 0x5C then cs else chunk)"
  have "nchunk = drop (snd (DecodeRuneInString chunk')) chunk'" and "chunk' \<noteq> []"
    using assms by (auto simp: getEsc_def c chunk'_def Let_def split: if_splits prod.splits)
  moreover have "length chunk' \<le> length chunk"
    by (simp add: chunk'_def c)
  ultimately show ?thesis
    using DecodeRune_progress[of chunk'] by (cases chunk') auto
qed

text \<open>The loop over the ranges of a character class: what is left of the chunk, and whether \<open>r\<close> matched.\<close>

function matchRanges :: "nat \<Rightarrow> string \<Rightarrow> bool \<Rightarrow> bool \<Rightarrow> (string \<times> bool) option" where
  "matchRanges r chunk started matched =
     (if chunk \<noteq> [] \<and> hd chunk = CHR '']'' \<and> started then Some (tl chunk, matched)
      else case getEsc chunk of
        None \<Rightarrow> None
      | Some (lo, chunk1) \<Rightarrow>
          if hd chunk1 = CHR ''-'' then
            (case getEsc (tl chunk1) of
               None \<Rightarrow> None
             | Some (hi, chunk2) \<Rightarrow> matchRanges r chunk2 True (matched \<or> lo \<le> r \<and> r \<le> hi))
          else matchRanges r chunk1 True (matched \<or> lo \<le> r \<and> r \<le> lo))"
  by pat_completeness auto
termination
proof (relation "measure (\<lambda>(r, chunk, started, matched). length chunk)", goal_cases)
  case (2 r chunk started matched p lo chunk1 q hi chunk2)
  then have "length chunk1 < length chunk" and "length chunk2 < length (tl chunk1)"
    using getEsc_shrinks by metis+
  then show ?case by simp
next
  case (3 r chunk started matched p lo chunk1)
  then show ?case
    using getEsc_shrinks[of chunk lo chunk1] by simp
qed simp

declare matchRanges.simps [simp del]

lemma matchRanges_shrinks:
  "matchRanges r chunk started matched = Some (rest, m) \<Longrightarrow> length rest < length chunk"
proof (induction r chunk started matched arbitrary: rest m rule: matchRanges.induct)
  case (1 r chunk started matched)
  show ?case
  proof (cases "chunk \<noteq> [] \<and> hd chunk = CHR '']'' \<and> started")
    case True
    with "1.prems" have "rest = tl chunk"
      by (simp add: matchRanges.simps[of r chunk])
    with True show ?thesis
      by (cases chunk) auto
  next
    case False
    with "1.prems" obtain lo chunk1 where e1: "getEsc chunk = Some (lo, chunk1)"
      by (auto simp: matchRanges.simps[of r chunk] split: option.splits)
    show ?thesis
    proof (cases "hd chunk1 = CHR ''-''")
      case True
      with False e1 "1.prems" obtain hi chunk2 where e2: "getEsc (tl chunk1) = Some (hi, chunk2)"
        by (auto simp: matchRanges.simps[of r chunk] split: option.splits)
      have "length rest < length chunk2"
        using "1.IH"(1)[OF False e1 refl True e2 refl] "1.prems" False e1 e2 True
        by (simp add: matchRanges.simps[of r chunk])
      then show ?thesis
        using getEsc_shrinks[OF e1] getEsc_shrinks[OF e2] by simp
    next
      case no: False
      have "length rest < length chunk1"
        using "1.IH"(2)[OF False e1 refl no] "1.prems" False e1 no
        by (simp add: matchRanges.simps[of r chunk])
      then show ?thesis
        using getEsc_shrinks[OF e1] by simp
    qed
  qed
qed

lemma matchRanges_error_indep:
  "map_option fst (matchRanges r chunk started matched) = map_option fst (matchRanges r' chunk started matched')"
proof (induction r chunk started matched arbitrary: matched' rule: matchRanges.induct)
  case (1 r chunk started matched)
  show ?case
  proof (cases "chunk \<noteq> [] \<and> hd chunk = CHR '']'' \<and> started")
    case True
    then show ?thesis
      by (simp add: matchRanges.simps[of r chunk] matchRanges.simps[of r' chunk])
  next
    case False
    then show ?thesis
      using "1.IH"(1)[OF False] "1.IH"(2)[OF False]
      by (subst (1 2) matchRanges.simps) (auto split: option.splits)
  qed
qed

text \<open>
  \<open>matchChunk\<close> returns \<open>Inl\<close> for a malformed chunk, \<open>Inr (Some rest)\<close> when the chunk
  matches a prefix of the name and \<open>Inr None\<close> when it does not; once the match has
  failed the rest of the chunk is still parsed.
\<close>

definition classHead :: "string \<Rightarrow> bool \<times> string" where
  "classHead cs = (case cs of [] \<Rightarrow> (False, []) | d # ds \<Rightarrow> if d = CHR ''^'' then (True, ds) else (False, cs))"

function matchChunk :: "string \<Rightarrow> string \<Rightarrow> bool \<Rightarrow> go_error + string option" where
  "matchChunk [] s failed = Inr (if failed then None else Some s)"
| "matchChunk (c # cs) s failed0 =
     (let failed = (failed0 \<or> s = []);
          rune = DecodeRuneInString s
      in if c = CHR ''['' then
           (case matchRanges (if failed then 0 else fst rune) (snd (classHead cs)) False False of
              None \<Rightarrow> Inl ErrBadPattern
            | Some (cs', matched) \<Rightarrow>
                matchChunk cs' (if failed then s else drop (snd rune) s)
                  (failed \<or> matched = fst (classHead cs)))
         else if c = CHR ''?'' then
           (if failed then matchChunk cs s True
            else matchChunk cs (drop (snd rune) s) (hd s = CHR ''/''))
         else if c = CHR 0x5C then
           (case cs of
              [] \<Rightarrow> Inl ErrBadPattern
            | d # ds \<Rightarrow>
                if failed then matchChunk ds s True else matchChunk ds (tl s) (d \<noteq> hd s))
         else
           if failed then matchChunk cs s True else matchChunk cs (tl s) (c \<noteq> hd s))"
  by pat_completeness auto
termination
proof (relation "measure (\<lambda>(chunk, s, failed). length chunk)", goal_cases)
  case (2 c cs s failed0 failed rune p cs' matched)
  then have "length cs' < length (snd (classHead cs))"
    using matchRanges_shrinks by metis
  moreover have "length (snd (classHead cs)) \<le> length cs"
    by (auto simp: classHead_def split: list.splits)
  ultimately show ?case by simp
qed auto

declare matchChunk.simps(2) [simp del]

abbreviation isr :: "'e + 'a \<Rightarrow> bool" where
  "isr r \<equiv> \<not> isl r"

lemma matchChunk_error_indep: "isr (matchChunk chunk s failed) = isr (matchChunk chunk s' failed')"
proof (induction chunk s failed arbitrary: s' failed' rule: matchChunk.induct)
  case (2 c cs s failed0)
  show ?case
  proof (cases "c = CHR ''[''")
    case True
    let ?r = "if failed0 \<or> s = [] then 0 else fst (DecodeRuneInString s)"
    let ?r' = "if failed' \<or> s' = [] then 0 else fst (DecodeRuneInString s')"
    let ?m = "\<lambda>r. matchRanges r (snd (classHead cs)) False False"
    have same: "map_option fst (?m ?r) = map_option fst (?m ?r')"
      by (rule matchRanges_error_indep)
    show ?thesis
    proof (cases "?m ?r")
      case None
      then have "?m ?r' = None"
        using same by simp
      then show ?thesis
        using True None by (simp add: matchChunk.simps(2) Let_def)
    next
      case (Some p)
      obtain cs' b where p: "p = (cs', b)" by fastforce
      then obtain b' where m': "?m ?r' = Some (cs', b')"
        using same Some by (cases "?m ?r'") auto
      show ?thesis
        using True Some m' p "2.IH"(1)[OF refl refl True Some p[symmetric]]
        by (simp add: matchChunk.simps(2) Let_def)
    qed
  next
    case False
    let ?f = "failed0 \<or> s = []" and ?f' = "failed' \<or> s' = []"
    let ?n = "snd (DecodeRuneInString s)" and ?n' = "snd (DecodeRuneInString s')"
    note IH = "2.IH"(2-)[OF refl refl False]
    consider (any) "c = CHR ''?''" | (esc) "c = CHR 0x5C" | (lit) "c \<noteq> CHR ''?''" "c \<noteq> CHR 0x5C"
      by blast
    then show ?thesis
    proof cases
      case any
      have key: "isl (matchChunk cs u v) = isl (matchChunk cs [] True)" for u v
        using IH(1)[OF any, of u v] IH(1)[OF any, of "[]" True]
          IH(2)[OF any, of u v] IH(2)[OF any, of "[]" True] by (cases ?f) auto
      show ?thesis
        using False any
        by (simp add: matchChunk.simps(2) Let_def key[of s True] key[of s' True]
            key[of "drop ?n s" "hd s = CHR ''/''"] key[of "drop ?n' s'" "hd s' = CHR ''/''"])
    next
      case esc
      then have n: "c \<noteq> CHR ''?''" by simp
      show ?thesis
      proof (cases cs)
        case Nil
        then show ?thesis
          using esc by (simp add: matchChunk.simps(2) Let_def)
      next
        case (Cons d ds)
        have key: "isl (matchChunk ds u v) = isl (matchChunk ds [] True)" for u v
          using IH(3)[OF n esc Cons, of u v] IH(3)[OF n esc Cons, of "[]" True]
            IH(4)[OF n esc Cons, of u v] IH(4)[OF n esc Cons, of "[]" True] by (cases ?f) auto
        show ?thesis
          using esc Cons
          by (simp add: matchChunk.simps(2) Let_def key[of s True] key[of s' True]
              key[of "tl s" "d \<noteq> hd s"] key[of "tl s'" "d \<noteq> hd s'"])
      qed
    next
      case lit
      have key: "isl (matchChunk cs u v) = isl (matchChunk cs [] True)" for u v
        using IH(5)[OF lit, of u v] IH(5)[OF lit, of "[]" True]
          IH(6)[OF lit, of u v] IH(6)[OF lit, of "[]" True] by (cases ?f) auto
      show ?thesis
        using False lit
        by (simp add: matchChunk.simps(2) Let_def key[of s True] key[of s' True]
            key[of "tl s" "c \<noteq> hd s"] key[of "tl s'" "c \<noteq> hd s'"])
    qed
  qed
qed simp

lemma scan_stars_len: "length (snd (scan_stars p)) \<le> length p"
  by (induction p) auto

lemma scan_body_split: "scan_body i p = (a, b) \<Longrightarrow> p = a @ b"
proof (induction i p arbitrary: a b rule: scan_body.induct)
  case (2 i c cs)
  then show ?case
    by (auto split: if_splits list.splits prod.splits)
qed simp

lemma scan_stars_snd: "snd (scan_stars p) = [] \<or> hd (snd (scan_stars p)) \<noteq> CHR ''*''"
  by (induction p) auto

lemma scan_stars_no_star: "scan_stars p = (st, q) \<Longrightarrow> q = [] \<or> hd q \<noteq> CHR ''*''"
  using scan_stars_snd[of p] by simp

lemma scan_body_progress: "p \<noteq> [] \<Longrightarrow> hd p \<noteq> CHR ''*'' \<Longrightarrow> fst (scan_body False p) \<noteq> []"
  by (cases p) (simp_all add: case_prod_unfold split: list.split)

lemma scanChunk_shrinks:
  assumes "scanChunk pattern = (star, chunk, rest)" "pattern \<noteq> []"
  shows "length rest < length pattern"
proof -
  obtain q where q: "scan_stars pattern = (star, q)" and b: "scan_body False q = (chunk, rest)"
    using assms(1) by (auto simp: scanChunk_def split: prod.splits)
  have "q = chunk @ rest" and "length q \<le> length pattern"
    using scan_body_split[OF b] scan_stars_len[of pattern] q by auto
  moreover have "q = [] \<or> chunk \<noteq> []"
    using scan_stars_no_star[OF q] scan_body_progress[of q] b by auto
  ultimately show ?thesis
    using assms(2) by (cases chunk) auto
qed

lemma scanChunk_empty:
  assumes "scanChunk pattern = (star, [], rest)"
  shows "rest = []"
proof -
  obtain q where q: "scan_stars pattern = (star, q)" and b: "scan_body False q = ([], rest)"
    using assms(1) by (auto simp: scanChunk_def split: prod.splits)
  then show ?thesis
    using scan_stars_no_star[OF q] scan_body_progress[of q] scan_body_split[OF b] by auto
qed

fun starSearch :: "string \<Rightarrow> bool \<Rightarrow> string \<Rightarrow> go_error + string option" where
  "starSearch chunk lastc [] = Inr None"
| "starSearch chunk lastc (c # cs) =
     (if c = CHR ''/'' then Inr None
      else case matchChunk chunk cs False of
        Inl e \<Rightarrow> Inl e
      | Inr None \<Rightarrow> starSearch chunk lastc cs
      | Inr (Some t) \<Rightarrow> if lastc \<and> t \<noteq> [] then starSearch chunk lastc cs else Inr (Some t))"

text \<open>The check that the remainder of the pattern is well formed.\<close>

function checkRest :: "string \<Rightarrow> go_error option" where
  "checkRest pattern =
     (if pattern = [] then None
      else case scanChunk pattern of (_, chunk, rest) \<Rightarrow>
        (case matchChunk chunk '''' False of Inl e \<Rightarrow> Some e | Inr _ \<Rightarrow> checkRest rest))"
  by pat_completeness auto
termination
  by (relation "measure length") (auto dest: scanChunk_shrinks[OF sym])

declare checkRest.simps [simp del]

function path_Match :: "string \<Rightarrow> string \<Rightarrow> go_error + bool" where
  "path_Match pattern name =
     (if pattern = [] then Inr (name = [])
      else case scanChunk pattern of (star, chunk, rest) \<Rightarrow>
        if star \<and> chunk = [] then Inr (CHR ''/'' \<notin> set name)
        else case matchChunk chunk name False of
          Inl e \<Rightarrow> Inl e
        | Inr r \<Rightarrow>
            (case (case r of Some t \<Rightarrow> t = [] \<or> rest \<noteq> [] | None \<Rightarrow> False) of
               True \<Rightarrow> path_Match rest (the r)
             | False \<Rightarrow>
                 (case (if star then starSearch chunk (rest = []) name else Inr None) of
                    Inl e \<Rightarrow> Inl e
                  | Inr (Some t) \<Rightarrow> path_Match rest t
                  | Inr None \<Rightarrow> (case checkRest rest of Some e \<Rightarrow> Inl e | None \<Rightarrow> Inr False))))"
  by pat_completeness auto
termination
  by (relation "measure (\<lambda>(p, n). length p)") (auto dest: scanChunk_shrinks[OF sym])

declare path_Match.simps [simp del]

lemma starSearch_no_error: "isr (matchChunk chunk [] False) \<Longrightarrow> isr (starSearch chunk l name)"
proof (induction name)
  case (Cons c cs)
  have "isr (matchChunk chunk cs False)"
    using Cons.prems matchChunk_error_indep by metis
  with Cons show ?case
    by (auto split: sum.splits option.splits)
qed simp

text \<open>
  Whether \<^verbatim>\<open>path.Match\<close> reports a malformed pattern depends on the pattern alone:
  it does so exactly when one of the pattern's chunks is malformed.
\<close>

lemma path_Match_error_iff: "isr (path_Match pattern name) \<longleftrightarrow> checkRest pattern = None"
proof (induction pattern name rule: path_Match.induct)
  case (1 pattern name)
  show ?case
  proof (cases "pattern = []")
    case True
    then show ?thesis
      by (simp add: path_Match.simps checkRest.simps)
  next
    case ne: False
    obtain star chunk rest where sc: "scanChunk pattern = (star, chunk, rest)"
      by (metis prod_cases3)
    have ck: "checkRest pattern = (case matchChunk chunk [] False of Inl e \<Rightarrow> Some e | Inr _ \<Rightarrow> checkRest rest)"
      using ne sc by (subst checkRest.simps) simp
    show ?thesis
    proof (cases "star \<and> chunk = []")
      case True
      then show ?thesis
        using ne sc ck scanChunk_empty[of pattern star rest] by (subst path_Match.simps) (simp add: checkRest.simps)
    next
      case nstar: False
      show ?thesis
      proof (cases "matchChunk chunk name False")
        case (Inl e)
        then show ?thesis
          using ne sc ck nstar matchChunk_error_indep[of chunk name False "[]" False]
          by (subst path_Match.simps) (auto split: sum.splits)
      next
        case (Inr r)
        have ok: "isr (matchChunk chunk [] False)"
          using Inr matchChunk_error_indep[of chunk name False "[]" False] by simp
        then have ck': "checkRest pattern = checkRest rest"
          using ck by (auto split: sum.splits)
        note IH = "1.IH"[OF ne sc[symmetric] refl nstar Inr]
        show ?thesis
          unfolding ck' using ne sc nstar Inr starSearch_no_error[OF ok, of "rest = []" name] IH
          by (subst path_Match.simps) (auto split: sum.splits option.splits bool.splits)
      qed
    qed
  qed
qed

corollary path_Match_error_indep: "isr (path_Match p n) = isr (path_Match p n')"
  by (simp add: path_Match_error_iff)

end
