(* ===== verification/Anchor_Key.thy ===== *)
theory Anchor_Key
  imports Core_Types Go_Path
begin

section \<open>Anchors and three-layer hashes\<close>

text \<open>
  \<^verbatim>\<open>internal/core/anchor.go\<close> (the canonical anchor string: parsing, printing,
  repository paths) and \<^verbatim>\<open>internal/core/hash3.go\<close> (which layer of an anchor's
  hash changed).
\<close>

subsection \<open>anchor.go\<close>

datatype scheme_kind = SchemeCode | SchemeRoute | SchemeUI | SchemeSchema | SchemeInfra
  | SchemeDoc | SchemeContract | SchemeOther string

definition scheme_of :: "string \<Rightarrow> scheme_kind" where
  "scheme_of s =
     (if s = ''code'' then SchemeCode else if s = ''route'' then SchemeRoute
      else if s = ''ui'' then SchemeUI else if s = ''schema'' then SchemeSchema
      else if s = ''infra'' then SchemeInfra else if s = ''doc'' then SchemeDoc
      else if s = ''contract'' then SchemeContract else SchemeOther s)"

fun scheme_string :: "scheme_kind \<Rightarrow> string" where
  "scheme_string SchemeCode = ''code''"
| "scheme_string SchemeRoute = ''route''"
| "scheme_string SchemeUI = ''ui''"
| "scheme_string SchemeSchema = ''schema''"
| "scheme_string SchemeInfra = ''infra''"
| "scheme_string SchemeDoc = ''doc''"
| "scheme_string SchemeContract = ''contract''"
| "scheme_string (SchemeOther s) = s"

record anchor =
  an_Scheme :: scheme_kind
  an_Path :: string
  an_Symbol :: string

definition zero_anchor :: anchor where
  "zero_anchor = \<lparr>an_Scheme = SchemeOther '''', an_Path = '''', an_Symbol = ''''\<rparr>"

definition validateRepoPath :: "string \<Rightarrow> go_error option" where
  "validateRepoPath p =
     (if p = '''' then Some ''empty path''
      else if HasPrefix p ''/'' then Some (Sprintf ''path %q must be repo-relative'' [p])
      else if path_Clean p \<noteq> p then Some (Sprintf ''path %q is not clean'' [p])
      else first_error (\<lambda>seg. if seg = ''..'' then Some (Sprintf ''path %q escapes the repo'' [p]) else None)
             (Split p (CHR ''/'')))"

definition ParseAnchor :: "string \<Rightarrow> go_error + anchor" where
  "ParseAnchor s =
     (case Cut s ''://'' of (schemeStr, rest, ok) \<Rightarrow>
        if \<not> ok \<or> rest = '''' then Inl (Sprintf ''anchor: %q is not <scheme>://<path>'' [s])
        else if ContainsAny rest [CHR 0x0A, CHR 0x0D, CHR 0x09]
          then Inl (Sprintf ''anchor: %q contains control characters'' [s])
        else
          let scheme = scheme_of schemeStr in
          (case scheme of
             SchemeCode \<Rightarrow>
               (case Cut rest ''#'' of (p, symb, _) \<Rightarrow>
                  (case validateRepoPath p of
                     Some err \<Rightarrow> Inl (Sprintf ''anchor: %v'' [err])
                   | None \<Rightarrow>
                       if ContainsAny symb ''#'' \<or> ContainsAny symb '' ''
                       then Inl (Sprintf ''anchor: bad symbol %q'' [symb])
                       else Inr \<lparr>an_Scheme = scheme, an_Path = p, an_Symbol = symb\<rparr>))
           | SchemeRoute \<Rightarrow>
               (case Cut rest '' '' of (method, p, ok) \<Rightarrow>
                  if \<not> ok \<or> method = '''' \<or> method \<noteq> ToUpper method \<or> \<not> HasPrefix p ''/''
                  then Inl (Sprintf ''anchor: route must be \"<METHOD> /path\", got %q'' [rest])
                  else Inr \<lparr>an_Scheme = scheme, an_Path = method @ '' '' @ p, an_Symbol = ''''\<rparr>)
           | SchemeOther _ \<Rightarrow> Inl (Sprintf ''anchor: unknown scheme %q'' [schemeStr])
           | _ \<Rightarrow>
               if ContainsAny rest '' #''
               then Inl (Sprintf ''anchor: %q contains a reserved character'' [rest])
               else Inr \<lparr>an_Scheme = scheme, an_Path = rest, an_Symbol = ''''\<rparr>))"

definition Anchor_String :: "anchor \<Rightarrow> string" where
  "Anchor_String a =
     (let s = scheme_string (an_Scheme a) @ ''://'' @ an_Path a
      in if an_Symbol a \<noteq> '''' then s @ ''#'' @ an_Symbol a else s)"

definition Anchor_Equal :: "anchor \<Rightarrow> anchor \<Rightarrow> bool" where
  "Anchor_Equal a b \<longleftrightarrow> Anchor_String a = Anchor_String b"

definition Anchor_IsFile :: "anchor \<Rightarrow> bool" where
  "Anchor_IsFile a \<longleftrightarrow> an_Scheme a = SchemeCode \<and> an_Symbol a = ''''"

text \<open>The loops of the aggregates that parse every anchor of a command.\<close>

definition ParseAnchors_error :: "string list \<Rightarrow> go_error option" where
  "ParseAnchors_error as =
     first_error (\<lambda>a. case ParseAnchor a of Inl e \<Rightarrow> Some e | Inr _ \<Rightarrow> None) as"

lemma ParseAnchors_error_None:
  "ParseAnchors_error as = None \<longleftrightarrow> (\<forall>a \<in> set as. \<exists>an. ParseAnchor a = Inr an)"
  by (auto simp: ParseAnchors_error_def first_error_None split: sum.splits)
     (metis sum.exhaust)

subsubsection \<open>Repository paths\<close>

lemma validateRepoPath_None:
  "validateRepoPath p = None \<longleftrightarrow>
     p = ''.'' \<or> p \<noteq> '''' \<and> (\<forall>s \<in> set (Split p (CHR ''/'')). plain_segment s)"
proof
  assume ok: "validateRepoPath p = None"
  then have "p \<noteq> ''''" "\<not> HasPrefix p ''/''" "path_Clean p = p" "''..'' \<notin> set (Split p (CHR ''/''))"
    by (auto simp: validateRepoPath_def first_error_None split: if_splits)
  then show "p = ''.'' \<or> p \<noteq> '''' \<and> (\<forall>s \<in> set (Split p (CHR ''/'')). plain_segment s)"
    using path_Clean_segments by blast
next
  assume "p = ''.'' \<or> p \<noteq> '''' \<and> (\<forall>s \<in> set (Split p (CHR ''/'')). plain_segment s)"
  then show "validateRepoPath p = None"
  proof
    assume "p = ''.''"
    then show ?thesis
      by (simp add: validateRepoPath_def path_Clean_def)
  next
    assume p: "p \<noteq> '''' \<and> (\<forall>s \<in> set (Split p (CHR ''/'')). plain_segment s)"
    then show ?thesis
      using path_Clean_plain[of p]
      by (auto simp: validateRepoPath_def first_error_None plain_segment_def)
  qed
qed

subsubsection \<open>Printing and parsing\<close>

lemma scheme_string_of [simp]: "scheme_string (scheme_of s) = s"
  by (auto simp: scheme_of_def)

lemma scheme_of_string: "(\<And>s. sch \<noteq> SchemeOther s) \<Longrightarrow> scheme_of (scheme_string sch) = sch"
  by (cases sch) (auto simp: scheme_of_def)

lemma Cut_scheme:
  assumes "\<And>s. sch \<noteq> SchemeOther s"
  shows "Cut (scheme_string sch @ CHR '':'' # CHR ''/'' # CHR ''/'' # rest) ''://'' = (scheme_string sch, rest, True)"
  using assms by (cases sch) auto

text \<open>What a parsed anchor looks like: the known schemes with their reserved characters excluded.\<close>

definition anchor_wf :: "anchor \<Rightarrow> bool" where
  "anchor_wf a \<longleftrightarrow>
     (let body = an_Path a @ (if an_Symbol a \<noteq> '''' then ''#'' @ an_Symbol a else '''') in
      \<not> ContainsAny body [CHR 0x0A, CHR 0x0D, CHR 0x09] \<and> body \<noteq> '''' \<and>
      (case an_Scheme a of
         SchemeCode \<Rightarrow> validateRepoPath (an_Path a) = None \<and> CHR ''#'' \<notin> set (an_Path a)
           \<and> \<not> ContainsAny (an_Symbol a) ''# ''
       | SchemeRoute \<Rightarrow> an_Symbol a = '''' \<and> (\<exists>m p. an_Path a = m @ '' /'' @ p \<and> m \<noteq> ''''
           \<and> CHR '' '' \<notin> set m \<and> m = ToUpper m)
       | SchemeOther _ \<Rightarrow> False
       | _ \<Rightarrow> an_Symbol a = '''' \<and> \<not> ContainsAny (an_Path a) '' #''))"

lemma ParseAnchor_code:
  assumes "validateRepoPath p = None" "CHR ''#'' \<notin> set p" "\<not> ContainsAny symb ''# ''"
    and "rest = p @ (if symb \<noteq> '''' then ''#'' @ symb else '''')"
    and "\<not> ContainsAny rest [CHR 0x0A, CHR 0x0D, CHR 0x09]"
  shows "ParseAnchor (''code://'' @ rest) = Inr \<lparr>an_Scheme = SchemeCode, an_Path = p, an_Symbol = symb\<rparr>"
proof -
  have "\<exists>ok. Cut rest ''#'' = (p, symb, ok)"
    using assms(2,4) by auto
  moreover have "rest \<noteq> ''''"
    using assms(1,4) by (auto simp: validateRepoPath_def split: if_splits)
  moreover have "Cut (''code://'' @ rest) ''://'' = (''code'', rest, True)"
    using Cut_scheme[of SchemeCode rest] by simp
  ultimately show ?thesis
    using assms(1,3,5) by (auto simp: ParseAnchor_def scheme_of_def ContainsAny_iff)
qed

lemma ParseAnchor_wf:
  assumes "ParseAnchor s = Inr a"
  shows "anchor_wf a"
proof -
  obtain schemeStr rest where cut: "Cut s ''://'' = (schemeStr, rest, True)" and rest: "rest \<noteq> ''''"
    and ctl: "\<not> ContainsAny rest [CHR 0x0A, CHR 0x0D, CHR 0x09]"
    using assms by (auto simp: ParseAnchor_def split: prod.splits if_splits)
  show ?thesis
  proof (cases "scheme_of schemeStr")
    case SchemeCode
    obtain p symb ok where hash: "Cut rest ''#'' = (p, symb, ok)"
      by (metis prod_cases3)
    have a: "a = \<lparr>an_Scheme = SchemeCode, an_Path = p, an_Symbol = symb\<rparr>"
      and "validateRepoPath p = None" "\<not> ContainsAny symb ''#''" "\<not> ContainsAny symb '' ''"
      using assms cut rest ctl SchemeCode hash
      by (auto simp: ParseAnchor_def split: option.splits if_splits)
    moreover have "CHR ''#'' \<notin> set p"
      using Cut_byte_before[OF hash] .
    moreover have "rest = p @ ''#'' @ symb \<or> rest = p \<and> symb = ''''"
      using Cut_found[of rest "''#''" p symb] Cut_not_found[of rest "''#''" p symb] hash
      by (cases ok) auto
    ultimately show ?thesis
      using rest ctl by (auto simp: anchor_wf_def Let_def ContainsAny_iff validateRepoPath_def)
  next
    case SchemeRoute
    obtain m p ok where sp: "Cut rest '' '' = (m, p, ok)"
      by (metis prod_cases3)
    have a: "a = \<lparr>an_Scheme = SchemeRoute, an_Path = m @ '' '' @ p, an_Symbol = ''''\<rparr>"
      and ok: "ok" "m \<noteq> ''''" "m = ToUpper m" "HasPrefix p ''/''"
      using assms cut rest ctl SchemeRoute sp
      by (auto simp: ParseAnchor_def split: if_splits)
    moreover have "rest = m @ '' '' @ p"
      using Cut_found[of rest "'' ''" m p] sp ok(1) by auto
    ultimately show ?thesis
      using ctl Cut_byte_before[OF sp] by (auto simp: anchor_wf_def Let_def HasPrefix_iff)
  qed (use assms cut rest ctl in \<open>auto simp: ParseAnchor_def anchor_wf_def Let_def split: if_splits\<close>)
qed

lemma wf_ParseAnchor:
  assumes "anchor_wf a"
  shows "ParseAnchor (Anchor_String a) = Inr a"
proof (cases "an_Scheme a")
  case SchemeCode
  let ?rest = "an_Path a @ (if an_Symbol a \<noteq> '''' then ''#'' @ an_Symbol a else '''')"
  have "ParseAnchor (''code://'' @ ?rest)
      = Inr \<lparr>an_Scheme = SchemeCode, an_Path = an_Path a, an_Symbol = an_Symbol a\<rparr>"
    using assms SchemeCode by (intro ParseAnchor_code) (simp_all add: anchor_wf_def Let_def)
  moreover have "Anchor_String a = ''code://'' @ ?rest"
    by (simp add: Anchor_String_def SchemeCode)
  moreover have "a = \<lparr>an_Scheme = SchemeCode, an_Path = an_Path a, an_Symbol = an_Symbol a\<rparr>"
    using SchemeCode by simp
  ultimately show ?thesis
    by metis
next
  case SchemeRoute
  obtain m p where mp: "an_Path a = m @ '' /'' @ p" "m \<noteq> ''''" "CHR '' '' \<notin> set m" "m = ToUpper m"
    and symb: "an_Symbol a = ''''"
    and ctl: "\<not> ContainsAny (an_Path a) [CHR 0x0A, CHR 0x0D, CHR 0x09]"
    using assms by (auto simp: anchor_wf_def SchemeRoute Let_def)
  have "Cut (Anchor_String a) ''://'' = (''route'', an_Path a, True)"
    using Cut_scheme[of SchemeRoute "an_Path a"] by (simp add: Anchor_String_def SchemeRoute symb)
  moreover have "Cut (an_Path a) '' '' = (m, CHR ''/'' # p, True)"
    using mp by simp
  ultimately show ?thesis
    using mp symb ctl SchemeRoute by (cases a) (simp add: ParseAnchor_def scheme_of_def)
next
  case (SchemeOther x)
  then show ?thesis
    using assms by (simp add: anchor_wf_def Let_def)
qed (use assms Cut_scheme[of "an_Scheme a" "an_Path a"] in
      \<open>cases a, simp add: ParseAnchor_def Anchor_String_def scheme_of_def anchor_wf_def Let_def\<close>)+

subsection \<open>hash3.go\<close>

record hash3 =
  h3_Signature :: string
  h3_Body :: string
  h3_File :: string

definition zero_hash3 :: hash3 where
  "zero_hash3 = \<lparr>h3_Signature = '''', h3_Body = '''', h3_File = ''''\<rparr>"

datatype hash_change = HashNone | HashFile | HashBody | HashSignature

fun hash_change_string :: "hash_change \<Rightarrow> string" where
  "hash_change_string HashNone = ''none''"
| "hash_change_string HashFile = ''file''"
| "hash_change_string HashBody = ''body''"
| "hash_change_string HashSignature = ''signature''"

text \<open>The constants are consecutive integers; \<open>hash_change_rank\<close> is their value.\<close>

fun hash_change_rank :: "hash_change \<Rightarrow> nat" where
  "hash_change_rank HashNone = 0"
| "hash_change_rank HashFile = 1"
| "hash_change_rank HashBody = 2"
| "hash_change_rank HashSignature = 3"

definition Hash3_Cmp :: "hash3 \<Rightarrow> hash3 \<Rightarrow> hash_change" where
  "Hash3_Cmp a b =
     (if h3_Signature a \<noteq> h3_Signature b then HashSignature
      else if h3_Body a \<noteq> h3_Body b then HashBody
      else if h3_File a \<noteq> h3_File b then HashFile
      else HashNone)"

lemma Hash3_Cmp_None [simp]: "Hash3_Cmp a b = HashNone \<longleftrightarrow> a = b"
  by (cases a; cases b) (auto simp: Hash3_Cmp_def)

lemma Hash3_Cmp_sym: "Hash3_Cmp a b = Hash3_Cmp b a"
  by (auto simp: Hash3_Cmp_def)

lemma Hash3_Cmp_trans:
  "hash_change_rank (Hash3_Cmp a c) \<le> max (hash_change_rank (Hash3_Cmp a b)) (hash_change_rank (Hash3_Cmp b c))"
  by (auto simp: Hash3_Cmp_def)

end
