(* ===== verification/Scope_Key.thy ===== *)
theory Scope_Key
  imports Core_Types Go_Path
begin

section \<open>Scope keys and their resolution\<close>

text \<open>
  \<^verbatim>\<open>internal/core/scope.go\<close>: the six axes of a scope, its canonical string, when a
  scope applies to a target, and the order in which the applicable scopes are
  resolved for constraints (wide first) and for context (narrow first).
\<close>

record scope_key =
  sk_Org :: string
  sk_Product :: string
  sk_Team :: string
  sk_Repo :: string
  sk_PathGlob :: string
  sk_Person :: string

definition zero_scope_key :: scope_key where
  "zero_scope_key = \<lparr>sk_Org = '''', sk_Product = '''', sk_Team = '''', sk_Repo = '''',
     sk_PathGlob = '''', sk_Person = ''''\<rparr>"

datatype object_kind = KindConstraint | KindContext

definition axis_values :: "scope_key \<Rightarrow> string list" where
  "axis_values k = [sk_Org k, sk_Product k, sk_Team k, sk_Repo k, sk_PathGlob k, sk_Person k]"

definition axis_names :: "string list" where
  "axis_names = [''org'', ''product'', ''team'', ''repo'', ''path'', ''person'']"

definition ScopeKey_String :: "scope_key \<Rightarrow> string" where
  "ScopeKey_String k =
     ''org='' @ sk_Org k @ ''|'' @ ''product='' @ sk_Product k @ ''|'' @ ''team='' @ sk_Team k @
     ''|'' @ ''repo='' @ sk_Repo k @ ''|'' @ ''path='' @ sk_PathGlob k @ ''|'' @ ''person='' @ sk_Person k"

definition ScopeKey_Validate :: "scope_key \<Rightarrow> go_error option" where
  "ScopeKey_Validate k =
     (case first_error
             (\<lambda>v. if ContainsAny v [CHR ''|'', CHR ''='', CHR 0x0A]
                  then Some (Sprintf ''scope: axis value %q contains a reserved character'' [v]) else None)
             (axis_values k) of
        Some e \<Rightarrow> Some e
      | None \<Rightarrow>
          if sk_PathGlob k \<noteq> '''' then
            (if sk_Repo k = '''' then Some ''scope: path glob requires repo''
             else (case path_Match (TrimSuffix (sk_PathGlob k) ''/**'') '''' of
                     Inl err \<Rightarrow> Some (Sprintf ''scope: bad path glob %q: %w'' [sk_PathGlob k, err])
                   | Inr _ \<Rightarrow> None))
          else None)"

definition set_axis :: "string \<Rightarrow> string \<Rightarrow> scope_key \<Rightarrow> scope_key" where
  "set_axis want val k =
     (if want = ''org'' then k\<lparr>sk_Org := val\<rparr>
      else if want = ''product'' then k\<lparr>sk_Product := val\<rparr>
      else if want = ''team'' then k\<lparr>sk_Team := val\<rparr>
      else if want = ''repo'' then k\<lparr>sk_Repo := val\<rparr>
      else if want = ''path'' then k\<lparr>sk_PathGlob := val\<rparr>
      else if want = ''person'' then k\<lparr>sk_Person := val\<rparr>
      else k)"

fun parse_axes :: "int \<Rightarrow> (string \<times> string) list \<Rightarrow> scope_key \<Rightarrow> go_error + scope_key" where
  "parse_axes i [] k = Inr k"
| "parse_axes i ((want, part) # rest) k =
     (case Cut part ''='' of (name, val, ok) \<Rightarrow>
        if \<not> ok \<or> name \<noteq> want then Inl (Sprintf ''scope: axis %d must be %q'' [Itoa i, want])
        else parse_axes (i + 1) rest (set_axis want val k))"

text \<open>The key is returned beside the error, as \<^verbatim>\<open>return k, k.Validate()\<close> does.\<close>

definition ParseScopeKey :: "string \<Rightarrow> scope_key \<times> go_error option" where
  "ParseScopeKey s =
     (let parts = Split s (CHR ''|'') in
      if length parts \<noteq> 6
      then (zero_scope_key, Some (Sprintf ''scope: expected 6 axes, got %d'' [Itoa (int (length parts))]))
      else (case parse_axes 0 (zip axis_names parts) zero_scope_key of
              Inl e \<Rightarrow> (zero_scope_key, Some e)
            | Inr k \<Rightarrow> (k, ScopeKey_Validate k)))"

definition ScopeKey_IsZero :: "scope_key \<Rightarrow> bool" where
  "ScopeKey_IsZero k \<longleftrightarrow> k = zero_scope_key"

definition Width :: "scope_key \<Rightarrow> nat" where
  "Width k = length (filter (\<lambda>v. v = '''') (axis_values k))"

definition globMatch :: "string \<Rightarrow> string \<Rightarrow> bool" where
  "globMatch pattern p =
     (case CutSuffix pattern ''/**'' of
        (dir, True) \<Rightarrow> p = dir \<or> HasPrefix p (dir @ ''/'')
      | (_, False) \<Rightarrow>
          if pattern = ''**'' then True
          else (case path_Match pattern p of Inl _ \<Rightarrow> False | Inr ok \<Rightarrow> ok))"

definition Contains :: "scope_key \<Rightarrow> scope_key \<Rightarrow> bool" where
  "Contains k target \<longleftrightarrow>
     (if sk_Org k \<noteq> '''' \<and> sk_Org k \<noteq> sk_Org target then False
      else if sk_Product k \<noteq> '''' \<and> sk_Product k \<noteq> sk_Product target then False
      else if sk_Team k \<noteq> '''' \<and> sk_Team k \<noteq> sk_Team target then False
      else if sk_Repo k \<noteq> '''' \<and> sk_Repo k \<noteq> sk_Repo target then False
      else if sk_Person k \<noteq> '''' \<and> sk_Person k \<noteq> sk_Person target then False
      else if sk_PathGlob k \<noteq> '''' then
        (if sk_PathGlob target = '''' \<or> sk_PathGlob k = sk_PathGlob target then sk_PathGlob target \<noteq> ''''
         else globMatch (sk_PathGlob k) (sk_PathGlob target))
      else True)"

fun resolve_filter :: "scope_key \<Rightarrow> string list \<Rightarrow> scope_key list \<Rightarrow> scope_key list" where
  "resolve_filter target seen [] = []"
| "resolve_filter target seen (k # keys) =
     (if \<not> Contains k target then resolve_filter target seen keys
      else if ScopeKey_String k \<in> set seen then resolve_filter target seen keys
      else k # resolve_filter target (ScopeKey_String k # seen) keys)"

definition resolve_less :: "object_kind \<Rightarrow> scope_key \<Rightarrow> scope_key \<Rightarrow> bool" where
  "resolve_less kind a b =
     (if Width a \<noteq> Width b then (if kind = KindContext then Width a < Width b else Width a > Width b)
      else ScopeKey_String a < ScopeKey_String b)"

definition Resolve :: "scope_key list \<Rightarrow> scope_key \<Rightarrow> object_kind \<Rightarrow> scope_key list" where
  "Resolve keys target kind = go_sort (resolve_less kind) (resolve_filter target [] keys)"

subsection \<open>The canonical string\<close>

definition valid_axis :: "string \<Rightarrow> bool" where
  "valid_axis v \<longleftrightarrow> CHR ''|'' \<notin> set v \<and> CHR ''='' \<notin> set v \<and> CHR 0x0A \<notin> set v"

lemma ScopeKey_Validate_axes:
  "ScopeKey_Validate k = None \<Longrightarrow> \<forall>v \<in> set (axis_values k). valid_axis v"
  by (auto simp: ScopeKey_Validate_def first_error_None ContainsAny_iff valid_axis_def split: option.splits if_splits)

lemma ScopeKey_Validate_None:
  "ScopeKey_Validate k = None \<longleftrightarrow>
     (\<forall>v \<in> set (axis_values k). valid_axis v) \<and>
     (sk_PathGlob k \<noteq> '''' \<longrightarrow>
        sk_Repo k \<noteq> '''' \<and> (\<exists>b. path_Match (TrimSuffix (sk_PathGlob k) ''/**'') '''' = Inr b))"
proof -
  let ?axes = "first_error (\<lambda>v. if ContainsAny v [CHR ''|'', CHR ''='', CHR 0x0A]
    then Some (Sprintf ''scope: axis value %q contains a reserved character'' [v]) else None) (axis_values k)"
  have "?axes = None \<longleftrightarrow> (\<forall>v \<in> set (axis_values k). valid_axis v)"
    by (auto simp: first_error_None ContainsAny_iff valid_axis_def split: if_splits)
  then show ?thesis
    unfolding ScopeKey_Validate_def
    by (cases ?axes; cases "sk_PathGlob k = ''''") (simp_all split: sum.splits)
qed

lemma ScopeKey_String_Join:
  "ScopeKey_String k = Join [''org='' @ sk_Org k, ''product='' @ sk_Product k, ''team='' @ sk_Team k,
     ''repo='' @ sk_Repo k, ''path='' @ sk_PathGlob k, ''person='' @ sk_Person k] [CHR ''|'']"
  by (simp add: ScopeKey_String_def)

lemma Split_ScopeKey_String:
  assumes "\<forall>v \<in> set (axis_values k). valid_axis v"
  shows "Split (ScopeKey_String k) (CHR ''|'') =
    [''org='' @ sk_Org k, ''product='' @ sk_Product k, ''team='' @ sk_Team k,
     ''repo='' @ sk_Repo k, ''path='' @ sk_PathGlob k, ''person='' @ sk_Person k]"
  unfolding ScopeKey_String_Join using assms
  by (intro Split_Join) (auto simp: axis_values_def valid_axis_def)

lemma Cut_axis: "CHR ''='' \<notin> set name \<Longrightarrow> Cut (name @ CHR ''='' # v) ''='' = (name, v, True)"
  by simp

lemma parse_axes_String:
  "parse_axes 0 (zip axis_names [''org='' @ sk_Org k, ''product='' @ sk_Product k, ''team='' @ sk_Team k,
     ''repo='' @ sk_Repo k, ''path='' @ sk_PathGlob k, ''person='' @ sk_Person k]) zero_scope_key = Inr k"
proof -
  have cuts: "Cut (''org='' @ v) ''='' = (''org'', v, True)" "Cut (''product='' @ v) ''='' = (''product'', v, True)"
    "Cut (''team='' @ v) ''='' = (''team'', v, True)" "Cut (''repo='' @ v) ''='' = (''repo'', v, True)"
    "Cut (''path='' @ v) ''='' = (''path'', v, True)" "Cut (''person='' @ v) ''='' = (''person'', v, True)" for v
    by simp_all
  show ?thesis
    unfolding axis_names_def zip_Cons_Cons zip_Nil parse_axes.simps cuts
    by (simp add: set_axis_def zero_scope_key_def)
qed

lemma ParseScopeKey_String:
  assumes "\<forall>v \<in> set (axis_values k). valid_axis v"
  shows "ParseScopeKey (ScopeKey_String k) = (k, ScopeKey_Validate k)"
  unfolding ParseScopeKey_def Split_ScopeKey_String[OF assms] Let_def parse_axes_String by simp

lemma ScopeKey_String_inject:
  assumes "\<forall>v \<in> set (axis_values k). valid_axis v" "\<forall>v \<in> set (axis_values k'). valid_axis v"
  shows "ScopeKey_String k = ScopeKey_String k' \<longleftrightarrow> k = k'"
  using ParseScopeKey_String[OF assms(1)] ParseScopeKey_String[OF assms(2)] by (metis fst_conv)

subsection \<open>Containment\<close>

lemma Contains_refl [simp]: "Contains k k"
  by (auto simp: Contains_def)

lemma Contains_zero [simp]: "Contains zero_scope_key target"
  by (simp add: Contains_def zero_scope_key_def)

lemma Contains_axes:
  assumes "Contains k t"
  shows "sk_Org k = '''' \<or> sk_Org k = sk_Org t" "sk_Product k = '''' \<or> sk_Product k = sk_Product t"
    "sk_Team k = '''' \<or> sk_Team k = sk_Team t" "sk_Repo k = '''' \<or> sk_Repo k = sk_Repo t"
    "sk_Person k = '''' \<or> sk_Person k = sk_Person t"
    "sk_PathGlob k = '''' \<or> sk_PathGlob t \<noteq> ''''"
  using assms by (auto simp: Contains_def split: if_splits)

lemma Contains_iff:
  "Contains k t \<longleftrightarrow>
     (sk_Org k = '''' \<or> sk_Org k = sk_Org t) \<and> (sk_Product k = '''' \<or> sk_Product k = sk_Product t) \<and>
     (sk_Team k = '''' \<or> sk_Team k = sk_Team t) \<and> (sk_Repo k = '''' \<or> sk_Repo k = sk_Repo t) \<and>
     (sk_Person k = '''' \<or> sk_Person k = sk_Person t) \<and>
     (sk_PathGlob k = '''' \<or> sk_PathGlob t \<noteq> '''' \<and>
        (sk_PathGlob k = sk_PathGlob t \<or> globMatch (sk_PathGlob k) (sk_PathGlob t)))"
  by (auto simp: Contains_def)

lemma Width_sum:
  "Width k = of_bool (sk_Org k = '''') + of_bool (sk_Product k = '''') + of_bool (sk_Team k = '''') +
     of_bool (sk_Repo k = '''') + of_bool (sk_PathGlob k = '''') + of_bool (sk_Person k = '''')"
  by (simp add: Width_def axis_values_def)

lemma Width_antimono:
  assumes "Contains k t"
  shows "Width t \<le> Width k"
  using Contains_axes[OF assms] unfolding Width_sum by (intro add_mono) auto

subsection \<open>Resolution\<close>

definition resolve_key :: "object_kind \<Rightarrow> scope_key \<Rightarrow> int \<times> string" where
  "resolve_key kind k = (if kind = KindContext then int (Width k) else - int (Width k), ScopeKey_String k)"

lemma resolve_less_key: "resolve_less kind = (\<lambda>a b. resolve_key kind a < resolve_key kind b)"
  by (intro ext) (auto simp: resolve_less_def resolve_key_def less_prod_def)

lemma Resolve_sort_key: "Resolve keys target kind = sort_key (resolve_key kind) (resolve_filter target [] keys)"
  by (simp add: Resolve_def resolve_less_key go_sort_sort_key)

lemma resolve_filter_strings:
  "ScopeKey_String ` set (resolve_filter target seen keys) =
     ScopeKey_String ` {k \<in> set keys. Contains k target} - set seen"
  by (induction keys arbitrary: seen) auto

lemma resolve_filter_distinct:
  "distinct (map ScopeKey_String (resolve_filter target seen keys)) \<and>
   set (resolve_filter target seen keys) \<subseteq> {k \<in> set keys. Contains k target}"
proof (induction keys arbitrary: seen)
  case (Cons k keys)
  have "ScopeKey_String ` set (resolve_filter target (ScopeKey_String k # seen) keys) \<inter> {ScopeKey_String k} = {}"
    using resolve_filter_strings[of target "ScopeKey_String k # seen" keys] by auto
  with Cons[of seen] Cons[of "ScopeKey_String k # seen"] show ?case
    by auto
qed simp

lemma set_Resolve_valid:
  assumes "\<forall>k \<in> set keys. ScopeKey_Validate k = None"
  shows "set (Resolve keys target kind) = {k \<in> set keys. Contains k target}"
proof -
  have inj: "inj_on ScopeKey_String (set keys)"
    using assms by (intro inj_onI) (metis ScopeKey_String_inject ScopeKey_Validate_axes)
  let ?out = "set (resolve_filter target [] keys)" and ?in = "{k \<in> set keys. Contains k target}"
  have "?out \<subseteq> set keys" "?in \<subseteq> set keys" "ScopeKey_String ` ?out = ScopeKey_String ` ?in"
    using resolve_filter_distinct[of target "[]" keys] resolve_filter_strings[of target "[]" keys] by auto
  then have "?out = ?in"
    using inj_on_image_eq_iff[OF inj] by blast
  then show ?thesis
    by (simp add: Resolve_def)
qed

lemma distinct_Resolve: "distinct (map ScopeKey_String (Resolve keys target kind))"
proof -
  have "mset (map ScopeKey_String (Resolve keys target kind)) = mset (map ScopeKey_String (resolve_filter target [] keys))"
    by (simp add: Resolve_def)
  then show ?thesis
    using resolve_filter_distinct[of target "[]" keys] by (metis mset_eq_imp_distinct_iff)
qed

lemma resolve_key_inj: "inj_on (resolve_key kind) (set (Resolve keys target kind'))"
  using distinct_Resolve[of keys target kind'] by (auto simp: distinct_map inj_on_def resolve_key_def)

lemma Resolve_sorted: "sorted (map (resolve_key kind) (Resolve keys target kind))"
  by (simp add: Resolve_sort_key)

text \<open>For valid keys the result depends only on the set of keys, not on their order or multiplicity.\<close>

lemma Resolve_set_cong:
  assumes "\<forall>k \<in> set keys. ScopeKey_Validate k = None" and "set keys = set keys'"
  shows "Resolve keys target kind = Resolve keys' target kind"
proof -
  let ?r = "\<lambda>ks. resolve_filter target [] ks"
  have set_eq: "set (?r keys) = set (?r keys')"
    using set_Resolve_valid[of keys target kind] set_Resolve_valid[of keys' target kind] assms
    by (simp add: Resolve_def)
  moreover have "distinct (?r keys)" "distinct (?r keys')"
    using resolve_filter_distinct[of target "[]"] by (auto simp: distinct_map)
  ultimately have "mset (?r keys) = mset (?r keys')"
    by (simp add: set_eq_iff_mset_eq_distinct)
  moreover have "inj_on (resolve_key kind) (set (?r keys))"
    using resolve_key_inj[of kind keys target kind] by (simp add: Resolve_def)
  ultimately show ?thesis
    unfolding Resolve_sort_key by (rule sort_key_permutation[rotated])
qed

end
