(* ===== verification/Envelope.thy ===== *)
theory Envelope
  imports Core_Types
begin

section \<open>Envelopes and the hash chain\<close>

text \<open>
  \<^verbatim>\<open>internal/core/envelope.go\<close>. Two functions of the standard library are arguments:
  \<open>H\<close> is SHA-256 (\<^verbatim>\<open>sum\<close> hashes the concatenation of its parts) and \<open>J\<close> is the JSON
  text of \<^verbatim>\<open>sealedMeta\<close> (its time printed in UTC), which fails when the level is not
  valid, as \<^verbatim>\<open>Level.MarshalText\<close> does. What is proved holds for all \<open>H\<close> and \<open>J\<close>; where
  the absence of collisions matters it is a hypothesis about the inputs hashed.
\<close>

type_synonym hash = bytes

record event_meta =
  em_Refs :: "string list"
  em_ConstraintsHash :: string
  em_Autonomy :: level

record origin =
  og_DaemonID :: string
  og_LocalSeq :: int
  og_PrevHash :: hash

record envelope =
  e_Seq :: int
  e_Stream :: string
  e_Ver :: int
  e_Kind :: string
  e_V :: int
  e_TS :: go_time
  e_Actor :: actor_ref
  e_Meta :: event_meta
  e_Body :: bytes
  e_MetaHash :: hash
  e_BodyHash :: hash
  e_PrevHash :: hash
  e_Hash :: hash
  e_Sig :: bytes
  e_Idem :: string
  e_Origin :: "origin option"

record sealed_meta =
  me_Stream :: string
  me_Ver :: int
  me_Kind :: string
  me_V :: int
  me_TS :: go_time
  me_Actor :: actor_ref
  me_Meta :: event_meta
  me_BodyHash :: hash

type_synonym digest = "bytes \<Rightarrow> hash"
type_synonym meta_json = "sealed_meta \<Rightarrow> go_error + bytes"

definition hash_sum :: "digest \<Rightarrow> bytes list \<Rightarrow> hash" where
  "hash_sum H parts = H (concat parts)"

definition OriginHash :: "digest \<Rightarrow> envelope \<Rightarrow> hash" where
  "OriginHash H e =
     (case e_Origin e of
        None \<Rightarrow> e_Hash e
      | Some og \<Rightarrow> hash_sum H [og_PrevHash og, e_MetaHash e, e_BodyHash e])"

definition sealedMeta :: "envelope \<Rightarrow> sealed_meta" where
  "sealedMeta e = \<lparr>me_Stream = e_Stream e, me_Ver = e_Ver e, me_Kind = e_Kind e, me_V = e_V e, me_TS = e_TS e,
     me_Actor = e_Actor e, me_Meta = e_Meta e, me_BodyHash = e_BodyHash e\<rparr>"

definition metaHash :: "digest \<Rightarrow> meta_json \<Rightarrow> envelope \<Rightarrow> go_error + hash" where
  "metaHash H J e =
     (case J (sealedMeta e) of Inl err \<Rightarrow> Inl err | Inr b \<Rightarrow> Inr (hash_sum H [b]))"

definition Seal :: "digest \<Rightarrow> meta_json \<Rightarrow> hash \<Rightarrow> envelope \<Rightarrow> go_error + envelope" where
  "Seal H J prev e =
     (if e_Stream e = '''' \<or> e_Kind e = '''' \<or> e_Ver e \<le> 0
        then Inl ''envelope: stream, kind and ver are required''
      else let e1 = e\<lparr>e_TS := time_truncate (e_TS e) Microsecond, e_BodyHash := hash_sum H [e_Body e]\<rparr> in
        case metaHash H J e1 of
          Inl err \<Rightarrow> Inl err
        | Inr mh \<Rightarrow>
            let e2 = e1\<lparr>e_MetaHash := mh, e_PrevHash := prev\<rparr> in
            Inr (e2\<lparr>e_Hash := hash_sum H [e_PrevHash e2, e_MetaHash e2, e_BodyHash e2]\<rparr>))"

definition Verify :: "digest \<Rightarrow> meta_json \<Rightarrow> hash \<Rightarrow> envelope \<Rightarrow> go_error option" where
  "Verify H J prev e =
     (if e_PrevHash e \<noteq> prev then Some (Sprintf ''envelope seq %d: prev_hash mismatch'' [Itoa (e_Seq e)])
      else if hash_sum H [e_Body e] \<noteq> e_BodyHash e
        then Some (Sprintf ''envelope seq %d: body_hash mismatch'' [Itoa (e_Seq e)])
      else case metaHash H J e of
        Inl err \<Rightarrow> Some err
      | Inr mh \<Rightarrow>
        if mh \<noteq> e_MetaHash e then Some (Sprintf ''envelope seq %d: meta_hash mismatch'' [Itoa (e_Seq e)])
        else if hash_sum H [e_PrevHash e, e_MetaHash e, e_BodyHash e] \<noteq> e_Hash e
          then Some (Sprintf ''envelope seq %d: hash mismatch'' [Itoa (e_Seq e)])
        else None)"

text \<open>The loop of \<^verbatim>\<open>VerifyChain\<close>; \<open>before\<close> is the sequence number of the preceding envelope, if any.\<close>

fun verify_from :: "digest \<Rightarrow> meta_json \<Rightarrow> int option \<Rightarrow> hash \<Rightarrow> envelope list \<Rightarrow> go_error + hash" where
  "verify_from H J before prev [] = Inr prev"
| "verify_from H J before prev (e # evs) =
     (if before \<noteq> None \<and> e_Seq e \<noteq> the before + 1
        then Inl (Sprintf ''envelope seq %d: gap after %d'' [Itoa (e_Seq e), Itoa (the before)])
      else case Verify H J prev e of
        Some err \<Rightarrow> Inl err
      | None \<Rightarrow> verify_from H J (Some (e_Seq e)) (e_Hash e) evs)"

definition VerifyChain :: "digest \<Rightarrow> meta_json \<Rightarrow> hash \<Rightarrow> envelope list \<Rightarrow> go_error + hash" where
  "VerifyChain H J prev evs = verify_from H J None prev evs"

subsection \<open>Sealing\<close>

lemma Verify_None:
  "Verify H J prev e = None \<longleftrightarrow>
     e_PrevHash e = prev \<and> e_BodyHash e = H (e_Body e) \<and>
     (\<exists>b. J (sealedMeta e) = Inr b \<and> e_MetaHash e = H b) \<and>
     e_Hash e = H (e_PrevHash e @ e_MetaHash e @ e_BodyHash e)"
  by (auto simp: Verify_def metaHash_def hash_sum_def split: sum.splits)

lemma Seal_Inr:
  "Seal H J prev e = Inr e' \<longleftrightarrow>
     e_Stream e \<noteq> '''' \<and> e_Kind e \<noteq> '''' \<and> e_Ver e > 0 \<and>
     (\<exists>b. J (sealedMeta (e\<lparr>e_TS := time_truncate (e_TS e) Microsecond, e_BodyHash := H (e_Body e)\<rparr>)) = Inr b \<and>
        e' = e\<lparr>e_TS := time_truncate (e_TS e) Microsecond, e_BodyHash := H (e_Body e), e_MetaHash := H b,
               e_PrevHash := prev, e_Hash := H (prev @ H b @ H (e_Body e))\<rparr>)"
  by (auto simp: Seal_def metaHash_def hash_sum_def Let_def split: sum.splits)

lemma Seal_Verify: "Seal H J prev e = Inr e' \<Longrightarrow> Verify H J prev e' = None"
  by (auto simp: Seal_Inr Verify_None sealedMeta_def)

text \<open>What sealing leaves as it was.\<close>

lemma Seal_frame:
  assumes "Seal H J prev e = Inr e'"
  shows "e_Seq e' = e_Seq e" "e_Stream e' = e_Stream e" "e_Ver e' = e_Ver e" "e_Kind e' = e_Kind e"
    "e_V e' = e_V e" "e_Actor e' = e_Actor e" "e_Meta e' = e_Meta e" "e_Body e' = e_Body e"
    "e_Sig e' = e_Sig e" "e_Idem e' = e_Idem e" "e_Origin e' = e_Origin e"
    "e_TS e' = time_truncate (e_TS e) Microsecond" "e_PrevHash e' = prev"
  using assms by (auto simp: Seal_Inr)

text \<open>
  Sealing is idempotent, and the sequence number and the idempotency key take no
  part in the hashes: a record renumbered by another ledger keeps them.
\<close>

lemma Seal_again: "Seal H J prev e = Inr e' \<Longrightarrow> Seal H J prev e' = Inr e'"
  by (auto simp: Seal_Inr sealedMeta_def)

lemma Seal_resealed:
  assumes "Seal H J prev e = Inr e'"
  shows "Seal H J prev' (e'\<lparr>e_Seq := n, e_Idem := i, e_Origin := og, e_Sig := sg\<rparr>) =
    Inr (e'\<lparr>e_Seq := n, e_Idem := i, e_Origin := og, e_Sig := sg, e_PrevHash := prev',
            e_Hash := H (prev' @ e_MetaHash e' @ e_BodyHash e')\<rparr>)"
  using assms by (auto simp: Seal_Inr sealedMeta_def)

subsection \<open>Chains\<close>

lemma verify_from_append:
  "verify_from H J before prev (xs @ ys) =
     (case verify_from H J before prev xs of
        Inl err \<Rightarrow> Inl err
      | Inr h \<Rightarrow> verify_from H J (if xs = [] then before else Some (e_Seq (last xs))) h ys)"
  by (induction H J before prev xs rule: verify_from.induct) (auto split: option.splits sum.splits)

lemma verify_from_head:
  "verify_from H J before prev evs = Inr h \<Longrightarrow> h = (if evs = [] then prev else e_Hash (last evs))"
  by (induction H J before prev evs rule: verify_from.induct) (auto split: option.splits if_splits)

lemma verify_from_seqs:
  assumes "verify_from H J before prev evs = Inr h" "i < length evs"
  shows "e_Seq (evs ! i) = (case before of None \<Rightarrow> e_Seq (hd evs) | Some n \<Rightarrow> n + 1) + int i"
  using assms
proof (induction H J before prev evs arbitrary: i rule: verify_from.induct)
  case (2 H J before prev e evs)
  show ?case
  proof (cases i)
    case 0
    then show ?thesis
      using 2(2) by (auto split: option.splits if_splits)
  next
    case (Suc k)
    then have "verify_from H J (Some (e_Seq e)) (e_Hash e) evs = Inr h"
      using 2(2) by (auto split: option.splits if_splits)
    moreover have "Verify H J prev e = None" "\<not> (before \<noteq> None \<and> e_Seq e \<noteq> the before + 1)"
      using 2(2) by (auto split: option.splits if_splits)
    ultimately have "e_Seq (evs ! k) = e_Seq e + 1 + int k"
      using 2(1) [of k] 2(3) Suc by auto
    then show ?thesis
      using Suc 2(2) by (auto split: option.splits if_splits)
  qed
qed simp

lemma verify_from_Cons:
  "verify_from H J before prev (e # evs) = Inr h \<longleftrightarrow>
     (before = None \<or> before = Some (e_Seq e - 1)) \<and> Verify H J prev e = None \<and>
     verify_from H J (Some (e_Seq e)) (e_Hash e) evs = Inr h"
  by (cases before) (auto split: option.splits)

lemma verify_from_snoc:
  "verify_from H J before prev (evs @ [e]) = Inr h \<longleftrightarrow>
     (\<exists>h'. verify_from H J before prev evs = Inr h' \<and> Verify H J h' e = None \<and> h = e_Hash e \<and>
        (let b = (if evs = [] then before else Some (e_Seq (last evs)))
         in b = None \<or> b = Some (e_Seq e - 1)))"
proof (cases "verify_from H J before prev evs")
  case (Inr h')
  then show ?thesis
    by (cases "evs = []") (auto simp: verify_from_append verify_from_Cons simp del: verify_from.simps(2))
qed (simp add: verify_from_append)

subsection \<open>Tampering is seen\<close>

text \<open>The inputs that verifying a run of envelopes gives to the digest.\<close>

definition hash_inputs :: "meta_json \<Rightarrow> envelope list \<Rightarrow> bytes set" where
  "hash_inputs J evs = (\<Union>e \<in> set evs. {e_Body e, e_PrevHash e @ e_MetaHash e @ e_BodyHash e} \<union>
     (case J (sealedMeta e) of Inl _ \<Rightarrow> {} | Inr b \<Rightarrow> {b}))"

lemma hash_inputs_simps [simp]:
  "hash_inputs J [] = {}"
  "hash_inputs J (xs @ ys) = hash_inputs J xs \<union> hash_inputs J ys"
  by (auto simp: hash_inputs_def)

lemma hash_inputs_single:
  "J (sealedMeta e) = Inr b \<Longrightarrow>
    hash_inputs J [e] = {e_Body e, e_PrevHash e @ e_MetaHash e @ e_BodyHash e, b}"
  by (auto simp: hash_inputs_def)

text \<open>
  Two verified envelopes with the same hash have the same predecessor and the same
  sealed content. Digests have one length, \<open>n > 0\<close>; only the first record of a chain has an
  empty predecessor.
\<close>

lemma Verify_same_hash:
  assumes ok: "Verify H J p e = None" "Verify H J q e' = None" and same: "e_Hash e = e_Hash e'"
    and len: "\<And>x. length (H x) = n" and pre: "p = [] \<or> length p = n" "q = [] \<or> length q = n"
    and inj: "inj_on H (hash_inputs J [e] \<union> hash_inputs J [e'])"
    and jinj: "inj_on J {sealedMeta e, sealedMeta e'}"
  shows "p = q \<and> e_Body e = e_Body e' \<and> sealedMeta e = sealedMeta e'"
proof -
  obtain b b' where J: "J (sealedMeta e) = Inr b" "J (sealedMeta e') = Inr b'"
    and mh: "e_MetaHash e = H b" "e_MetaHash e' = H b'"
    using ok by (auto simp: Verify_None)
  have bh: "e_BodyHash e = H (e_Body e)" "e_BodyHash e' = H (e_Body e')"
    and ph: "e_PrevHash e = p" "e_PrevHash e' = q"
    using ok by (auto simp: Verify_None)
  have eqI: "H x = H y \<Longrightarrow> x \<in> hash_inputs J [e] \<Longrightarrow> y \<in> hash_inputs J [e'] \<Longrightarrow> x = y" for x y
    using inj by (auto dest: inj_onD)
  note ins = hash_inputs_single [of J e, OF J(1)] hash_inputs_single [of J e', OF J(2)]
  have hh: "e_Hash e = H (p @ H b @ H (e_Body e))" "e_Hash e' = H (q @ H b' @ H (e_Body e'))"
    using ok unfolding Verify_None mh bh ph by simp_all
  have eq: "p @ H b @ H (e_Body e) = q @ H b' @ H (e_Body e')"
    by (rule eqI) (use same in \<open>simp_all add: hh ins ph mh bh\<close>)
  from arg_cong [OF eq, of length] have "length p = length q"
    by (simp add: len)
  then have hs: "p = q" "H b = H b'" "H (e_Body e) = H (e_Body e')"
    using eq by (simp_all add: len)
  moreover have "b = b'"
    by (rule eqI [OF hs(2)]) (simp_all add: ins)
  moreover have "e_Body e = e_Body e'"
    by (rule eqI [OF hs(3)]) (simp_all add: ins)

  ultimately show ?thesis
    using J inj_onD [OF jinj, of "sealedMeta e" "sealedMeta e'"] by simp
qed

lemma Verify_hash_length: "Verify H J p e = None \<Longrightarrow> (\<And>x. length (H x) = n) \<Longrightarrow> length (e_Hash e) = n"
  by (simp add: Verify_None)

lemma verify_from_hash_length:
  assumes "verify_from H J before prev evs = Inr h" "\<And>x. length (H x) = n"
  shows "length h = (if evs = [] then length prev else n)"
  using assms
  by (induction H J before prev evs rule: verify_from.induct)
     (auto simp: Verify_hash_length split: option.splits if_splits)

end
