(* ===== verification/Ledger.thy ===== *)
theory Ledger
  imports Envelope
begin

section \<open>The ledger port and the in-memory ledger\<close>

text \<open>
  \<^verbatim>\<open>internal/port/ledger.go\<close> and \<^verbatim>\<open>internal/adapter/memory/ledger.go\<close>. The Go interface
  \<^verbatim>\<open>port.Ledger\<close> is the record \<open>port_ledger\<close> of its methods over a state \<open>'l\<close>; the
  in-memory ledger is one such record. Its mutex makes every method atomic, so
  a method is a function on the state. \<^verbatim>\<open>clone\<close> copies an envelope so that callers
  share no memory with the ledger; on values it is the identity. Sequence
  numbers and versions (\<^verbatim>\<open>int64\<close>) are integers.
\<close>

subsection \<open>port/ledger.go\<close>

abbreviation AnyVersion :: int where "AnyVersion \<equiv> - 1"

datatype ledger_error = ErrVersionConflict | ErrDuplicateIdempotencyKey | ErrEmptyAppend | ErrNotFound
  | ErrDuplicateOrigin | LedgerError go_error

record append_range =
  rg_Stream :: string
  rg_FromVer :: int
  rg_ToVer :: int
  rg_FromSeq :: int
  rg_ToSeq :: int

record head =
  hd_Seq :: int
  hd_Hash :: hash

record 'l port_ledger =
  pl_Append :: "'l \<Rightarrow> string \<Rightarrow> int \<Rightarrow> envelope list \<Rightarrow> (ledger_error + append_range) \<times> 'l"
  pl_Read :: "'l \<Rightarrow> string \<Rightarrow> int \<Rightarrow> ledger_error + envelope list"
  pl_ReadAll :: "'l \<Rightarrow> int \<Rightarrow> int \<Rightarrow> ledger_error + envelope list"
  pl_Head :: "'l \<Rightarrow> ledger_error + head"
  pl_Lookup :: "'l \<Rightarrow> string \<Rightarrow> string \<Rightarrow> ledger_error + envelope"

subsection \<open>adapter/memory/ledger.go\<close>

type_synonym signer = "hash \<Rightarrow> go_error + bytes"

record mem_ledger =
  l_all :: "envelope list"
  l_streams :: "(string \<times> nat list) list"
  l_idem :: "(string \<times> nat) list"
  l_origins :: "(string \<times> nat) list"
  l_signer :: "signer option"

definition NewLedger :: "signer option \<Rightarrow> mem_ledger" where
  "NewLedger sg = \<lparr>l_all = [], l_streams = [], l_idem = [], l_origins = [], l_signer = sg\<rparr>"

definition idemKey :: "string \<Rightarrow> string \<Rightarrow> string" where
  "idemKey stream idem = stream @ [CHR 0x00] @ idem"

definition originKey :: "string \<Rightarrow> int \<Rightarrow> string" where
  "originKey daemon localSeq = daemon @ [CHR 0x00] @ Itoa localSeq"

fun idem_check :: "(string \<times> nat) list \<Rightarrow> string \<Rightarrow> string list \<Rightarrow> envelope list \<Rightarrow> ledger_error option" where
  "idem_check im stream batch [] = None"
| "idem_check im stream batch (e # evs) =
     (if e_Idem e = '''' then idem_check im stream batch evs
      else let k = idemKey stream (e_Idem e) in
        if map_of im k \<noteq> None then Some ErrDuplicateIdempotencyKey
        else if k \<in> set batch then Some ErrDuplicateIdempotencyKey
        else idem_check im stream (k # batch) evs)"

fun origin_check :: "(string \<times> nat) list \<Rightarrow> envelope list \<Rightarrow> ledger_error option" where
  "origin_check om [] = None"
| "origin_check om (e # evs) =
     (case e_Origin e of
        None \<Rightarrow> origin_check om evs
      | Some og \<Rightarrow>
          if map_of om (originKey (og_DaemonID og) (og_LocalSeq og)) \<noteq> None then Some ErrDuplicateOrigin
          else origin_check om evs)"

text \<open>Signing inside the loop: only when a signer is configured and the envelope carries no signature.\<close>

definition sign_unsigned :: "signer option \<Rightarrow> envelope \<Rightarrow> go_error + envelope" where
  "sign_unsigned sg e =
     (case sg of
        None \<Rightarrow> Inr e
      | Some sign \<Rightarrow>
          if length (e_Sig e) = 0
          then (case sign (e_Hash e) of Inl err \<Rightarrow> Inl err | Inr sig \<Rightarrow> Inr (e\<lparr>e_Sig := sig\<rparr>))
          else Inr e)"

text \<open>The sealing loop: \<open>cur\<close> is the stream's version, \<open>n\<close> the length of the ledger, \<open>i\<close> the loop index.\<close>

fun seal_batch :: "digest \<Rightarrow> meta_json \<Rightarrow> signer option \<Rightarrow> string \<Rightarrow> int \<Rightarrow> int \<Rightarrow> int \<Rightarrow> hash \<Rightarrow>
    envelope list \<Rightarrow> ledger_error + envelope list" where
  "seal_batch H J sg stream cur n i prev [] = Inr []"
| "seal_batch H J sg stream cur n i prev (e # evs) =
     (case Seal H J prev (e\<lparr>e_Stream := stream, e_Ver := cur + i + 1, e_Seq := n + i + 1\<rparr>) of
        Inl err \<Rightarrow> Inl (LedgerError err)
      | Inr e1 \<Rightarrow>
          (case sign_unsigned sg e1 of
             Inl err \<Rightarrow> Inl (LedgerError err)
           | Inr e2 \<Rightarrow>
               (case seal_batch H J sg stream cur n (i + 1) (e_Hash e2) evs of
                  Inl err \<Rightarrow> Inl err
                | Inr sealed \<Rightarrow> Inr (e2 # sealed))))"

definition commit_one :: "string \<Rightarrow> mem_ledger \<Rightarrow> envelope \<Rightarrow> mem_ledger" where
  "commit_one stream l e =
     (let idx = length (l_all l);
          l1 = l\<lparr>l_all := l_all l @ [e],
                 l_streams := map_put stream (map_get [] (l_streams l) stream @ [idx]) (l_streams l)\<rparr>;
          l2 = (if e_Idem e \<noteq> '''' then l1\<lparr>l_idem := map_put (idemKey stream (e_Idem e)) idx (l_idem l1)\<rparr> else l1)
      in case e_Origin e of
           None \<Rightarrow> l2
         | Some og \<Rightarrow> l2\<lparr>l_origins := map_put (originKey (og_DaemonID og) (og_LocalSeq og)) idx (l_origins l2)\<rparr>)"

definition last_hash :: "mem_ledger \<Rightarrow> hash" where
  "last_hash l = (if length (l_all l) > 0 then e_Hash (last (l_all l)) else [])"

definition mem_Append :: "digest \<Rightarrow> meta_json \<Rightarrow> mem_ledger \<Rightarrow> string \<Rightarrow> int \<Rightarrow> envelope list \<Rightarrow>
    (ledger_error + append_range) \<times> mem_ledger" where
  "mem_Append H J l stream expected evs =
     (if length evs = 0 then (Inl ErrEmptyAppend, l)
      else case idem_check (l_idem l) stream [] evs of
        Some err \<Rightarrow> (Inl err, l)
      | None \<Rightarrow>
        (case origin_check (l_origins l) evs of
           Some err \<Rightarrow> (Inl err, l)
         | None \<Rightarrow>
           let cur = int (length (map_get [] (l_streams l) stream)) in
           if expected \<noteq> AnyVersion \<and> expected \<noteq> cur then (Inl ErrVersionConflict, l)
           else case seal_batch H J (l_signer l) stream cur (int (length (l_all l))) 0 (last_hash l) evs of
               Inl err \<Rightarrow> (Inl err, l)
             | Inr sealed \<Rightarrow>
                 let l' = foldl (commit_one stream) l sealed in
                 (Inr \<lparr>rg_Stream = stream, rg_FromVer = cur + 1, rg_ToVer = cur + int (length evs),
                       rg_FromSeq = int (length (l_all l)) + 1, rg_ToSeq = int (length (l_all l'))\<rparr>, l')))"

definition mem_Read :: "mem_ledger \<Rightarrow> string \<Rightarrow> int \<Rightarrow> ledger_error + envelope list" where
  "mem_Read l stream from =
     Inr (filter (\<lambda>e. e_Ver e \<ge> from) (map (\<lambda>i. l_all l ! i) (map_get [] (l_streams l) stream)))"

definition mem_ReadAll :: "mem_ledger \<Rightarrow> int \<Rightarrow> int \<Rightarrow> ledger_error + envelope list" where
  "mem_ReadAll l fromSeq limit =
     (let from = (if fromSeq < 1 then 1 else fromSeq);
          rest = drop (nat (from - 1)) (l_all l)
      in Inr (if limit > 0 then take (nat limit) rest else rest))"

definition mem_Head :: "mem_ledger \<Rightarrow> ledger_error + head" where
  "mem_Head l =
     (let n = length (l_all l) in
      if n = 0 then Inr \<lparr>hd_Seq = 0, hd_Hash = []\<rparr>
      else Inr \<lparr>hd_Seq = int n, hd_Hash = e_Hash (l_all l ! (n - 1))\<rparr>)"

definition FindOrigin :: "mem_ledger \<Rightarrow> string \<Rightarrow> int \<Rightarrow> ledger_error + int" where
  "FindOrigin l daemonID localSeq =
     (case map_of (l_origins l) (originKey daemonID localSeq) of
        None \<Rightarrow> Inl ErrNotFound
      | Some i \<Rightarrow> Inr (e_Seq (l_all l ! i)))"

definition mem_Lookup :: "mem_ledger \<Rightarrow> string \<Rightarrow> string \<Rightarrow> ledger_error + envelope" where
  "mem_Lookup l stream idem =
     (case map_of (l_idem l) (idemKey stream idem) of
        None \<Rightarrow> Inl ErrNotFound
      | Some i \<Rightarrow> Inr (l_all l ! i))"

definition mem_port :: "digest \<Rightarrow> meta_json \<Rightarrow> mem_ledger port_ledger" where
  "mem_port H J = \<lparr>pl_Append = mem_Append H J, pl_Read = mem_Read, pl_ReadAll = mem_ReadAll, pl_Head = mem_Head,
     pl_Lookup = mem_Lookup\<rparr>"

subsection \<open>Well-formed ledgers\<close>

definition stream_log :: "envelope list \<Rightarrow> string \<Rightarrow> envelope list" where
  "stream_log es s = filter (\<lambda>e. e_Stream e = s) es"

lemma stream_log_simps [simp]:
  "stream_log [] s = []"
  "stream_log (xs @ ys) s = stream_log xs s @ stream_log ys s"
  "stream_log [e] s = (if e_Stream e = s then [e] else [])"
  by (simp_all add: stream_log_def)

definition env_idem_key :: "envelope \<Rightarrow> string" where
  "env_idem_key e = idemKey (e_Stream e) (e_Idem e)"

definition env_origin_key :: "envelope \<Rightarrow> string option" where
  "env_origin_key e = map_option (\<lambda>og. originKey (og_DaemonID og) (og_LocalSeq og)) (e_Origin e)"

text \<open>
  What \<open>e\<close> must be to extend the log \<open>es\<close>: the next sequence number and version,
  sealed on the last hash, with a fresh idempotency key.
\<close>

definition log_head :: "envelope list \<Rightarrow> hash" where
  "log_head es = (if es = [] then [] else e_Hash (last es))"

definition extends :: "digest \<Rightarrow> meta_json \<Rightarrow> envelope list \<Rightarrow> envelope \<Rightarrow> bool" where
  "extends H J es e \<longleftrightarrow>
     e_Seq e = int (length es) + 1 \<and> e_Ver e = int (length (stream_log es (e_Stream e))) + 1 \<and>
     Verify H J (log_head es) e = None \<and>
     (e_Idem e \<noteq> '''' \<longrightarrow> (\<forall>p \<in> set es. e_Idem p \<noteq> '''' \<longrightarrow> env_idem_key p \<noteq> env_idem_key e))"

text \<open>A log that only appends built: every envelope extends the ones before it.\<close>

inductive log_ok :: "digest \<Rightarrow> meta_json \<Rightarrow> envelope list \<Rightarrow> bool" for H J where
  log_empty: "log_ok H J []"
| log_snoc: "log_ok H J es \<Longrightarrow> extends H J es e \<Longrightarrow> log_ok H J (es @ [e])"

inductive_cases log_ok_snocE: "log_ok H J (es @ [e])"

text \<open>The index maps of the in-memory ledger are determined by its log, but for duplicate origins.\<close>

definition index_ok :: "mem_ledger \<Rightarrow> bool" where
  "index_ok l \<longleftrightarrow>
     (\<forall>s. map_get [] (l_streams l) s = filter (\<lambda>i. e_Stream (l_all l ! i) = s) [0..<length (l_all l)]) \<and>
     (\<forall>k i. map_of (l_idem l) k = Some i \<longleftrightarrow>
        i < length (l_all l) \<and> e_Idem (l_all l ! i) \<noteq> '''' \<and> env_idem_key (l_all l ! i) = k) \<and>
     (\<forall>k i. map_of (l_origins l) k = Some i \<longrightarrow> i < length (l_all l) \<and> env_origin_key (l_all l ! i) = Some k) \<and>
     (\<forall>i < length (l_all l). \<forall>k. env_origin_key (l_all l ! i) = Some k \<longrightarrow> map_of (l_origins l) k \<noteq> None)"

definition ledger_inv :: "digest \<Rightarrow> meta_json \<Rightarrow> mem_ledger \<Rightarrow> bool" where
  "ledger_inv H J l \<longleftrightarrow> log_ok H J (l_all l) \<and> index_ok l"

subsection \<open>Facts about logs\<close>

lemma log_ok_verify: "log_ok H J es \<Longrightarrow> verify_from H J None [] es = Inr (log_head es) \<and> (es \<noteq> [] \<longrightarrow> e_Seq (last es) = int (length es))"
proof (induction rule: log_ok.induct)
  case (log_snoc es e)
  then show ?case
    by (auto simp: verify_from_snoc extends_def log_head_def)
qed (simp add: log_head_def)

lemma log_ok_prefix: "log_ok H J (xs @ ys) \<Longrightarrow> log_ok H J xs"
proof (induction ys rule: rev_induct)
  case (snoc y ys)
  then show ?case
    by (simp flip: append_assoc) (blast elim: log_ok_snocE)
qed simp

lemma log_ok_nth: "log_ok H J es \<Longrightarrow> i < length es \<Longrightarrow> extends H J (take i es) (es ! i)"
proof (induction arbitrary: i rule: log_ok.induct)
  case (log_snoc es e)
  then show ?case
    by (cases "i < length es") (auto simp: nth_append less_Suc_eq)
qed simp

lemma log_ok_seq: "log_ok H J es \<Longrightarrow> i < length es \<Longrightarrow> e_Seq (es ! i) = int i + 1"
  using log_ok_nth [of H J es i] by (simp add: extends_def)

lemma log_ok_versions:
  "log_ok H J es \<Longrightarrow> map e_Ver (stream_log es s) = map (\<lambda>k. int k + 1) [0..<length (stream_log es s)]"
proof (induction rule: log_ok.induct)
  case (log_snoc es e)
  then show ?case
    by (auto simp: extends_def)
qed simp

lemma log_ok_ver_nth:
  assumes "log_ok H J es" "k < length (stream_log es s)"
  shows "e_Ver (stream_log es s ! k) = int k + 1"
proof -
  have "map e_Ver (stream_log es s) ! k = map (\<lambda>k. int k + 1) [0..<length (stream_log es s)] ! k"
    by (simp only: log_ok_versions [OF assms(1)])
  then show ?thesis
    using assms(2) by simp
qed

lemma log_ok_ver_pos: "log_ok H J es \<Longrightarrow> e \<in> set es \<Longrightarrow> e_Ver e \<ge> 1"
  using log_ok_nth [of H J es] by (fastforce simp: in_set_conv_nth extends_def)

lemma log_ok_idem_unique:
  assumes "log_ok H J es" "i < length es" "j < length es" "e_Idem (es ! i) \<noteq> ''''" "e_Idem (es ! j) \<noteq> ''''"
    "env_idem_key (es ! i) = env_idem_key (es ! j)"
  shows "i = j"
proof (rule ccontr)
  have lt: False if "a < b" "b < length es" "e_Idem (es ! a) \<noteq> ''''" "e_Idem (es ! b) \<noteq> ''''"
    "env_idem_key (es ! a) = env_idem_key (es ! b)" for a b
  proof -
    have "es ! a \<in> set (take b es)"
      using that by (metis in_set_conv_nth length_take min.absorb4 nth_take)
    then show False
      using log_ok_nth [OF assms(1) that(2)] that by (auto simp: extends_def)
  qed
  assume "i \<noteq> j"
  then show False
    using lt [of i j] lt [of j i] assms by (auto simp: linorder_neq_iff)
qed

subsection \<open>Append keeps the ledger well-formed\<close>

lemma commit_one_all [simp]: "l_all (commit_one s l e) = l_all l @ [e]"
  by (simp add: commit_one_def Let_def split: option.splits)

lemma commit_one_signer [simp]: "l_signer (commit_one s l e) = l_signer l"
  by (simp add: commit_one_def Let_def split: option.splits)

lemma commit_one_streams [simp]:
  "l_streams (commit_one s l e) = map_put s (map_get [] (l_streams l) s @ [length (l_all l)]) (l_streams l)"
  by (simp add: commit_one_def Let_def split: option.splits)

lemma commit_one_idem [simp]:
  "l_idem (commit_one s l e) =
     (if e_Idem e = '''' then l_idem l else map_put (idemKey s (e_Idem e)) (length (l_all l)) (l_idem l))"
  by (simp add: commit_one_def Let_def split: option.splits)

lemma commit_one_origins:
  "map_of (l_origins (commit_one s l e)) =
     (case env_origin_key e of None \<Rightarrow> map_of (l_origins l) | Some k \<Rightarrow> (map_of (l_origins l))(k \<mapsto> length (l_all l)))"
  by (simp add: commit_one_def env_origin_key_def Let_def split: option.splits)

lemma index_ok_idem:
  assumes "index_ok l"
  shows "map_of (l_idem l) k = Some i \<longleftrightarrow>
    i < length (l_all l) \<and> e_Idem (l_all l ! i) \<noteq> '''' \<and> env_idem_key (l_all l ! i) = k"
  using assms by (simp add: index_ok_def)

lemma index_ok_fresh:
  assumes "index_ok l" and "\<forall>p \<in> set (l_all l). e_Idem p \<noteq> '''' \<longrightarrow> env_idem_key p \<noteq> k"
  shows "map_of (l_idem l) k = None"
proof (cases "map_of (l_idem l) k")
  case (Some i)
  then show ?thesis
    using assms index_ok_idem [OF assms(1), of k i] nth_mem [of i "l_all l"] by auto
qed simp

lemma commit_one_index:
  assumes ix: "index_ok l" and s: "e_Stream e = s"
    and fresh: "e_Idem e \<noteq> '''' \<longrightarrow> (\<forall>p \<in> set (l_all l). e_Idem p \<noteq> '''' \<longrightarrow> env_idem_key p \<noteq> env_idem_key e)"
  shows "index_ok (commit_one s l e)"
proof -
  let ?l = "commit_one s l e" and ?n = "length (l_all l)"
  have nth: "i < ?n \<Longrightarrow> (l_all l @ [e]) ! i = l_all l ! i" for i
    by (simp add: nth_append)
  have streams: "map_get [] (l_streams ?l) t = filter (\<lambda>i. e_Stream (l_all ?l ! i) = t) [0..<length (l_all ?l)]" for t
  proof -
    have "filter (\<lambda>i. e_Stream ((l_all l @ [e]) ! i) = t) [0..<?n] = filter (\<lambda>i. e_Stream (l_all l ! i) = t) [0..<?n]"
      by (rule filter_cong) (auto simp: nth)
    then show ?thesis
      using ix s by (auto simp: index_ok_def)
  qed
  have idem: "map_of (l_idem ?l) k = Some i \<longleftrightarrow>
      i < length (l_all ?l) \<and> e_Idem (l_all ?l ! i) \<noteq> '''' \<and> env_idem_key (l_all ?l ! i) = k" for k i
  proof (cases "e_Idem e = ''''")
    case True
    then show ?thesis
      using index_ok_idem [OF ix, of k i] by (auto simp: nth_append less_Suc_eq)
  next
    case False
    then have "map_of (l_idem l) (env_idem_key e) = None"
      using index_ok_fresh [OF ix] fresh by blast
    then show ?thesis
      using False index_ok_idem [OF ix, of k i] index_ok_idem [OF ix, of "env_idem_key e" i] s
      by (auto simp: nth_append less_Suc_eq env_idem_key_def)
  qed
  have origin: "map_of (l_origins ?l) k = Some i \<Longrightarrow> i < length (l_all ?l) \<and> env_origin_key (l_all ?l ! i) = Some k"
    "i < length (l_all ?l) \<Longrightarrow> env_origin_key (l_all ?l ! i) = Some k \<Longrightarrow> map_of (l_origins ?l) k \<noteq> None" for k i
    using ix unfolding index_ok_def
    by (fastforce simp: commit_one_origins nth_append less_Suc_eq split: option.splits if_splits)+
  show ?thesis
    unfolding index_ok_def using streams idem origin by blast
qed

lemma commit_one_inv:
  assumes "ledger_inv H J l" "extends H J (l_all l) e" "e_Stream e = s"
  shows "ledger_inv H J (commit_one s l e)"
  using assms by (auto simp: ledger_inv_def extends_def intro!: commit_one_index log_snoc)

text \<open>What a stored envelope keeps of the one that was handed in.\<close>

definition sealed_as :: "string \<Rightarrow> envelope \<Rightarrow> envelope \<Rightarrow> bool" where
  "sealed_as s e e' \<longleftrightarrow> e_Stream e' = s \<and> e_Kind e' = e_Kind e \<and> e_V e' = e_V e \<and> e_Actor e' = e_Actor e \<and>
     e_Meta e' = e_Meta e \<and> e_Body e' = e_Body e \<and> e_Idem e' = e_Idem e \<and> e_Origin e' = e_Origin e \<and>
     e_TS e' = time_truncate (e_TS e) Microsecond"

lemma Verify_sig [simp]: "Verify H J prev (e\<lparr>e_Sig := sg\<rparr>) = Verify H J prev e"
  by (simp add: Verify_def metaHash_def sealedMeta_def split: sum.split)

lemma seal_batch_Cons:
  assumes "seal_batch H J sg s cur n i prev (e # evs) = Inr sealed"
  obtains e' sealed' where "sealed = e' # sealed'" "sealed_as s e e'" "e_Ver e' = cur + i + 1"
    "e_Seq e' = n + i + 1" "Verify H J prev e' = None" "seal_batch H J sg s cur n (i + 1) (e_Hash e') evs = Inr sealed'"
proof -
  obtain e1 where e1: "Seal H J prev (e\<lparr>e_Stream := s, e_Ver := cur + i + 1, e_Seq := n + i + 1\<rparr>) = Inr e1"
    using assms by (auto split: sum.splits)
  obtain e' where sg: "sign_unsigned sg e1 = Inr e'"
    using assms e1 by (auto split: sum.splits)
  then have e': "e' = e1 \<or> (\<exists>sig. e' = e1\<lparr>e_Sig := sig\<rparr>)"
    by (auto simp: sign_unsigned_def split: option.splits if_splits sum.splits)
  have rest: "(case seal_batch H J sg s cur n (i + 1) (e_Hash e') evs of
      Inl err \<Rightarrow> Inl err | Inr sealed \<Rightarrow> Inr (e' # sealed)) = Inr sealed"
    using assms e1 sg by simp
  from rest obtain sealed' where "sealed = e' # sealed'" "seal_batch H J sg s cur n (i + 1) (e_Hash e') evs = Inr sealed'"
    by (auto split: sum.splits)
  moreover have "Verify H J prev e' = None"
    using e' Seal_Verify [OF e1] by auto
  moreover have "sealed_as s e e'" "e_Ver e' = cur + i + 1" "e_Seq e' = n + i + 1"
    using e' Seal_frame [OF e1] by (auto simp: sealed_as_def)
  ultimately show ?thesis
    using that by blast
qed

lemma idem_check_Cons:
  "idem_check im s batch (e # evs) = None \<longleftrightarrow>
     (if e_Idem e = '''' then idem_check im s batch evs = None
      else map_of im (idemKey s (e_Idem e)) = None \<and> idemKey s (e_Idem e) \<notin> set batch \<and>
        idem_check im s (idemKey s (e_Idem e) # batch) evs = None)"
  by (simp add: Let_def)

text \<open>The sealed batch extends the log one envelope after the other.\<close>

lemma seal_batch_log:
  assumes "seal_batch H J sg s cur n i prev evs = Inr sealed" "idem_check im s batch evs = None"
    and "log_ok H J es" "int (length es) = n + i" "int (length (stream_log es s)) = cur + i" "log_head es = prev"
    and "\<And>p. p \<in> set es \<Longrightarrow> e_Idem p \<noteq> '''' \<Longrightarrow> map_of im (env_idem_key p) \<noteq> None \<or> env_idem_key p \<in> set batch"
  shows "log_ok H J (es @ sealed) \<and> list_all2 (sealed_as s) evs sealed"
  using assms
proof (induction evs arbitrary: i prev batch es sealed)
  case (Cons e evs)
  obtain e' sealed' where sealed: "sealed = e' # sealed'" and as: "sealed_as s e e'"
    and num: "e_Ver e' = cur + i + 1" "e_Seq e' = n + i + 1" and ver: "Verify H J prev e' = None"
    and rest: "seal_batch H J sg s cur n (i + 1) (e_Hash e') evs = Inr sealed'"
    using seal_batch_Cons [OF Cons(2)] by blast
  define batch' where "batch' = (if e_Idem e = '''' then batch else idemKey s (e_Idem e) # batch)"
  have key: "e_Stream e' = s" "e_Idem e' = e_Idem e" "env_idem_key e' = idemKey s (e_Idem e)"
    using as by (simp_all add: sealed_as_def env_idem_key_def)
  have check: "idem_check im s batch' evs = None"
    using Cons(3) unfolding idem_check_Cons batch'_def by (simp split: if_splits)
  have fresh: "env_idem_key p \<noteq> env_idem_key e'" if "p \<in> set es" "e_Idem p \<noteq> ''''" "e_Idem e' \<noteq> ''''" for p
    using Cons(3) Cons(8) [OF that(1,2)] that(3) unfolding idem_check_Cons key by auto
  have ext: "extends H J es e'"
    using num ver fresh Cons(5-7) key by (auto simp: extends_def)
  have "log_ok H J ((es @ [e']) @ sealed') \<and> list_all2 (sealed_as s) evs sealed'"
  proof (rule Cons(1) [OF rest check])
    show "log_ok H J (es @ [e'])"
      using Cons(4) ext by (rule log_snoc)
    show "map_of im (env_idem_key p) \<noteq> None \<or> env_idem_key p \<in> set batch'"
      if "p \<in> set (es @ [e'])" "e_Idem p \<noteq> ''''" for p
      using that Cons(8) [of p] key by (auto simp: batch'_def)
  qed (use Cons(5,6) key in \<open>simp_all add: log_head_def\<close>)
  then show ?case
    using sealed as by simp
qed simp

lemma foldl_commit:
  assumes "ledger_inv H J l" "log_ok H J (l_all l @ sealed)" "\<And>e. e \<in> set sealed \<Longrightarrow> e_Stream e = s"
  shows "ledger_inv H J (foldl (commit_one s) l sealed) \<and> l_all (foldl (commit_one s) l sealed) = l_all l @ sealed \<and>
    l_signer (foldl (commit_one s) l sealed) = l_signer l"
  using assms
proof (induction sealed arbitrary: l)
  case (Cons e sealed)
  have "log_ok H J (l_all l @ [e])"
    using Cons(3) log_ok_prefix [of H J "l_all l @ [e]" sealed] by simp
  then have "extends H J (l_all l) e"
    by (auto elim: log_ok_snocE)
  then have "ledger_inv H J (commit_one s l e)"
    using Cons(2,4) by (simp add: commit_one_inv)
  then show ?case
    using Cons(1) [of "commit_one s l e"] Cons(3,4) by simp
qed simp

lemma stream_read:
  assumes "index_ok l"
  shows "map (\<lambda>i. l_all l ! i) (map_get [] (l_streams l) s) = stream_log (l_all l) s"
proof -
  have "stream_log (map (\<lambda>i. l_all l ! i) [0..<length (l_all l)]) s =
      map (\<lambda>i. l_all l ! i) (filter (\<lambda>i. e_Stream (l_all l ! i) = s) [0..<length (l_all l)])"
    by (simp add: stream_log_def filter_map comp_def)
  then show ?thesis
    using assms by (simp add: index_ok_def map_nth)
qed

lemma stream_length:
  "index_ok l \<Longrightarrow> length (map_get [] (l_streams l) s) = length (stream_log (l_all l) s)"
  using arg_cong [OF stream_read, of l length s] by simp

lemma mem_Append_Inr:
  assumes inv: "ledger_inv H J l" and ap: "mem_Append H J l s expected evs = (Inr r, l')"
  obtains sealed where "l_all l' = l_all l @ sealed" "list_all2 (sealed_as s) evs sealed" "ledger_inv H J l'"
    "expected = AnyVersion \<or> expected = int (length (stream_log (l_all l) s))" "evs \<noteq> []"
    "idem_check (l_idem l) s [] evs = None"
    "r = \<lparr>rg_Stream = s, rg_FromVer = int (length (stream_log (l_all l) s)) + 1,
          rg_ToVer = int (length (stream_log (l_all l) s)) + int (length evs),
          rg_FromSeq = int (length (l_all l)) + 1, rg_ToSeq = int (length (l_all l) + length evs)\<rparr>"
proof -
  let ?cur = "int (length (stream_log (l_all l) s))"
  have ix: "index_ok l" and lo: "log_ok H J (l_all l)"
    using inv by (simp_all add: ledger_inv_def)
  have ne: "evs \<noteq> []" and ck: "idem_check (l_idem l) s [] evs = None"
    and ex: "expected = AnyVersion \<or> expected = ?cur"
    using ap by (auto simp: mem_Append_def Let_def stream_length [OF ix] split: if_splits option.splits)
  obtain sealed where sb: "seal_batch H J (l_signer l) s ?cur (int (length (l_all l))) 0 (last_hash l) evs = Inr sealed"
    and l': "l' = foldl (commit_one s) l sealed" and r: "r = \<lparr>rg_Stream = s, rg_FromVer = ?cur + 1,
        rg_ToVer = ?cur + int (length evs), rg_FromSeq = int (length (l_all l)) + 1, rg_ToSeq = int (length (l_all l'))\<rparr>"
    using ap by (auto simp: mem_Append_def Let_def stream_length [OF ix] split: if_splits option.splits sum.splits)
  have keys: "map_of (l_idem l) (env_idem_key p) \<noteq> None \<or> env_idem_key p \<in> set []"
    if "p \<in> set (l_all l)" "e_Idem p \<noteq> ''''" for p
    using that index_ok_fresh [OF ix] index_ok_idem [OF ix] by (metis in_set_conv_nth option.distinct(1))
  have "log_head (l_all l) = last_hash l"
    by (simp add: log_head_def last_hash_def)
  from seal_batch_log [OF sb ck lo _ _ this keys]
  have lg: "log_ok H J (l_all l @ sealed)" and l2: "list_all2 (sealed_as s) evs sealed"
    by simp_all
  have "e_Stream e = s" if "e \<in> set sealed" for e
    using l2 that by (auto simp: list_all2_conv_all_nth in_set_conv_nth sealed_as_def)
  from foldl_commit [OF inv lg this] l' have "ledger_inv H J l'" "l_all l' = l_all l @ sealed"
    by simp_all
  then show ?thesis
    using that l2 ex ne ck r list_all2_lengthD [OF l2] by simp
qed

lemma mem_Append_Inl: "mem_Append H J l s expected evs = (Inl err, l') \<Longrightarrow> l' = l"
  by (auto simp: mem_Append_def Let_def split: if_splits option.splits sum.splits)

subsection \<open>The contract of the port\<close>

text \<open>
  What the comments of \<^verbatim>\<open>port.Ledger\<close> promise, over an abstraction \<open>log\<close> of the state to the
  sequence of all records.
\<close>

locale ledger_port =
  fixes H :: digest and J :: meta_json
    and P :: "'l port_ledger"
    and log :: "'l \<Rightarrow> envelope list"
    and inv :: "'l \<Rightarrow> bool"
  assumes log_wf: "inv l \<Longrightarrow> log_ok H J (log l)"
    and append_ok: "inv l \<Longrightarrow> pl_Append P l s expected evs = (Inr r, l') \<Longrightarrow>
      inv l' \<and> evs \<noteq> [] \<and> (\<exists>sealed. log l' = log l @ sealed \<and> list_all2 (sealed_as s) evs sealed) \<and>
      rg_FromVer r = int (length (stream_log (log l) s)) + 1 \<and>
      rg_ToVer r = int (length (stream_log (log l) s)) + int (length evs) \<and>
      (expected = AnyVersion \<or> expected = int (length (stream_log (log l) s)))"
    and append_atomic: "inv l \<Longrightarrow> pl_Append P l s expected evs = (Inl err, l') \<Longrightarrow> l' = l"
    and append_no_conflict: "inv l \<Longrightarrow> expected = int (length (stream_log (log l) s)) \<Longrightarrow>
      fst (pl_Append P l s expected evs) \<noteq> Inl ErrVersionConflict"
    and append_duplicate: "inv l \<Longrightarrow> e \<in> set evs \<Longrightarrow> e_Idem e \<noteq> '''' \<Longrightarrow> p \<in> set (log l) \<Longrightarrow> e_Idem p \<noteq> '''' \<Longrightarrow>
      env_idem_key p = idemKey s (e_Idem e) \<Longrightarrow>
      pl_Append P l s expected evs = (Inl ErrDuplicateIdempotencyKey, l)"
    and read: "inv l \<Longrightarrow> pl_Read P l s from = Inr (filter (\<lambda>e. e_Ver e \<ge> from) (stream_log (log l) s))"
    and read_all: "inv l \<Longrightarrow> pl_ReadAll P l from limit =
      Inr (let rest = drop (nat (from - 1)) (log l) in if limit > 0 then take (nat limit) rest else rest)"
    and chain_head: "inv l \<Longrightarrow> pl_Head P l = Inr \<lparr>hd_Seq = int (length (log l)), hd_Hash = log_head (log l)\<rparr>"
    and lookup: "inv l \<Longrightarrow> pl_Lookup P l s idem = Inr e \<longleftrightarrow>
      e \<in> set (log l) \<and> e_Idem e \<noteq> '''' \<and> env_idem_key e = idemKey s idem"
    and lookup_miss: "inv l \<Longrightarrow> pl_Lookup P l s idem = Inl err \<Longrightarrow> err = ErrNotFound"
begin

text \<open>Every ledger state verifies, and its head is the head of the chain.\<close>

lemma chain_verifies: "inv l \<Longrightarrow> VerifyChain H J [] (log l) = Inr (log_head (log l))"
  using log_ok_verify [OF log_wf] by (simp add: VerifyChain_def)

lemma read_all_stream: "inv l \<Longrightarrow> from \<le> 1 \<Longrightarrow> pl_Read P l s from = Inr (stream_log (log l) s)"
proof -
  assume inv: "inv l" and "from \<le> 1"
  then have "filter (\<lambda>e. e_Ver e \<ge> from) (stream_log (log l) s) = stream_log (log l) s"
    using log_ok_ver_pos [OF log_wf [OF inv]] by (intro filter_True) (fastforce simp: stream_log_def)
  then show ?thesis
    by (simp add: read [OF inv])
qed

lemma append_other_streams:
  assumes "inv l" "pl_Append P l s expected evs = (Inr r, l')" "t \<noteq> s"
  shows "stream_log (log l') t = stream_log (log l) t"
proof -
  obtain sealed where "log l' = log l @ sealed" "list_all2 (sealed_as s) evs sealed"
    using append_ok [OF assms(1,2)] by blast
  moreover from this(2) assms(3) have "stream_log sealed t = []"
    by (auto simp: stream_log_def filter_empty_conv list_all2_conv_all_nth in_set_conv_nth sealed_as_def)
  ultimately show ?thesis
    by simp
qed

lemma append_stream:
  assumes "inv l" "pl_Append P l s expected evs = (Inr r, l')"
  shows "\<exists>sealed. log l' = log l @ sealed \<and> stream_log (log l') s = stream_log (log l) s @ sealed \<and>
    list_all2 (sealed_as s) evs sealed"
proof -
  obtain sealed where "log l' = log l @ sealed" and l2: "list_all2 (sealed_as s) evs sealed"
    using append_ok [OF assms(1,2)] by blast
  moreover from l2 have "stream_log sealed s = sealed"
    by (auto simp: stream_log_def filter_id_conv list_all2_conv_all_nth in_set_conv_nth sealed_as_def)
  ultimately show ?thesis
    by auto
qed

end

lemma idem_check_duplicate:
  assumes "e \<in> set evs" "e_Idem e \<noteq> ''''" "map_of im (idemKey s (e_Idem e)) \<noteq> None"
  shows "idem_check im s batch evs = Some ErrDuplicateIdempotencyKey"
  using assms by (induction evs arbitrary: batch) (auto simp: Let_def)

lemma idem_check_error: "idem_check im s batch evs = Some err \<Longrightarrow> err = ErrDuplicateIdempotencyKey"
  by (induction evs arbitrary: batch) (auto simp: Let_def split: if_splits)

lemma origin_check_error: "origin_check om evs = Some err \<Longrightarrow> err = ErrDuplicateOrigin"
  by (induction evs) (auto split: if_splits option.splits)

lemma seal_batch_error: "seal_batch H J sg s cur n i prev evs = Inl err \<Longrightarrow> \<exists>m. err = LedgerError m"
  by (induction evs arbitrary: i prev) (auto split: sum.splits option.splits if_splits)

lemma ledger_idem_lookup:
  assumes "ledger_inv H J l"
  shows "map_of (l_idem l) k \<noteq> None \<longleftrightarrow> (\<exists>p \<in> set (l_all l). e_Idem p \<noteq> '''' \<and> env_idem_key p = k)"
proof -
  have "map_of (l_idem l) k \<noteq> None \<longleftrightarrow>
      (\<exists>i < length (l_all l). e_Idem (l_all l ! i) \<noteq> '''' \<and> env_idem_key (l_all l ! i) = k)"
    using assms index_ok_idem [of l k] by (auto simp: ledger_inv_def)
  then show ?thesis
    by (metis in_set_conv_nth)
qed

lemma mem_Append_no_conflict:
  assumes "index_ok l" "expected = int (length (stream_log (l_all l) s))"
  shows "fst (mem_Append H J l s expected evs) \<noteq> Inl ErrVersionConflict"
proof -
  let ?sb = "seal_batch H J (l_signer l) s expected (int (length (l_all l))) 0 (last_hash l) evs"
  have "?sb \<noteq> Inl ErrVersionConflict"
    using seal_batch_error [of H J "l_signer l" s expected "int (length (l_all l))" 0 "last_hash l" evs] by auto
  moreover have "idem_check (l_idem l) s [] evs \<noteq> Some ErrVersionConflict"
    "origin_check (l_origins l) evs \<noteq> Some ErrVersionConflict"
    using idem_check_error [of "l_idem l" s "[]" evs] origin_check_error [of "l_origins l" evs] by auto
  ultimately show ?thesis
    unfolding mem_Append_def Let_def stream_length [OF assms(1)] assms(2) [symmetric]
    by (auto split: option.split sum.split)
qed

lemma mem_Lookup_Inr:
  assumes "ledger_inv H J l"
  shows "mem_Lookup l s idem = Inr e \<longleftrightarrow> e \<in> set (l_all l) \<and> e_Idem e \<noteq> '''' \<and> env_idem_key e = idemKey s idem"
proof -
  have ix: "index_ok l"
    using assms by (simp add: ledger_inv_def)
  have "mem_Lookup l s idem = Inr e \<longleftrightarrow> (\<exists>i. map_of (l_idem l) (idemKey s idem) = Some i \<and> e = l_all l ! i)"
    by (auto simp: mem_Lookup_def split: option.splits)
  then show ?thesis
    unfolding index_ok_idem [OF ix] by (auto simp: in_set_conv_nth)
qed

interpretation memory: ledger_port H J "mem_port H J" l_all "ledger_inv H J" for H J
proof
  fix l l' :: mem_ledger and s expected evs r err e p "from" limit idem
  assume inv: "ledger_inv H J l"
  then have ix: "index_ok l"
    by (simp add: ledger_inv_def)
  show "log_ok H J (l_all l)"
    using inv by (simp add: ledger_inv_def)
  show "ledger_inv H J l' \<and> evs \<noteq> [] \<and> (\<exists>sealed. l_all l' = l_all l @ sealed \<and> list_all2 (sealed_as s) evs sealed) \<and>
      rg_FromVer r = int (length (stream_log (l_all l) s)) + 1 \<and>
      rg_ToVer r = int (length (stream_log (l_all l) s)) + int (length evs) \<and>
      (expected = AnyVersion \<or> expected = int (length (stream_log (l_all l) s)))"
    if "pl_Append (mem_port H J) l s expected evs = (Inr r, l')"
  proof -
    have "mem_Append H J l s expected evs = (Inr r, l')"
      using that by (simp add: mem_port_def)
    from mem_Append_Inr [OF inv this] show ?thesis
      by (metis append_range.select_convs(2,3))
  qed
  show "l' = l" if "pl_Append (mem_port H J) l s expected evs = (Inl err, l')"
    using that mem_Append_Inl by (simp add: mem_port_def)
  show "fst (pl_Append (mem_port H J) l s expected evs) \<noteq> Inl ErrVersionConflict"
    if "expected = int (length (stream_log (l_all l) s))"
    using mem_Append_no_conflict [OF ix that] by (simp add: mem_port_def)
  show "pl_Append (mem_port H J) l s expected evs = (Inl ErrDuplicateIdempotencyKey, l)"
    if "e \<in> set evs" "e_Idem e \<noteq> ''''" "p \<in> set (l_all l)" "e_Idem p \<noteq> ''''" "env_idem_key p = idemKey s (e_Idem e)"
  proof -
    have "map_of (l_idem l) (idemKey s (e_Idem e)) \<noteq> None"
      using that(3-5) ledger_idem_lookup [OF inv] by blast
    from idem_check_duplicate [OF that(1,2) this] show ?thesis
      using that(1) by (auto simp: mem_port_def mem_Append_def)
  qed
  show "pl_Read (mem_port H J) l s from = Inr (filter (\<lambda>e. e_Ver e \<ge> from) (stream_log (l_all l) s))"
    by (simp add: mem_port_def mem_Read_def stream_read [OF ix])
  show "pl_ReadAll (mem_port H J) l from limit =
      Inr (let rest = drop (nat (from - 1)) (l_all l) in if limit > 0 then take (nat limit) rest else rest)"
    by (simp add: mem_port_def mem_ReadAll_def Let_def)
  show "pl_Head (mem_port H J) l = Inr \<lparr>hd_Seq = int (length (l_all l)), hd_Hash = log_head (l_all l)\<rparr>"
    by (auto simp: mem_port_def mem_Head_def log_head_def last_conv_nth Let_def)
  show "pl_Lookup (mem_port H J) l s idem = Inr e \<longleftrightarrow>
      e \<in> set (l_all l) \<and> e_Idem e \<noteq> '''' \<and> env_idem_key e = idemKey s idem"
    using mem_Lookup_Inr [OF inv] by (simp add: mem_port_def)
  show "err = ErrNotFound" if "pl_Lookup (mem_port H J) l s idem = Inl err"
    using that by (auto simp: mem_port_def mem_Lookup_def split: option.splits)
qed

lemma NewLedger_inv [simp]: "ledger_inv H J (NewLedger sg)"
  by (auto simp: ledger_inv_def NewLedger_def index_ok_def map_get_def intro: log_empty)

end
