(* ===== verification/Codec.thy ===== *)
theory Codec
  imports Core_Types
begin

section \<open>The event codec\<close>

text \<open>
  \<^verbatim>\<open>internal/core/codec.go\<close>. The registry is generic in the events: \<open>kv\<close> is the pair
  of methods \<^verbatim>\<open>Kind\<close> and \<^verbatim>\<open>Version\<close>, \<open>marshal\<close> and \<open>unmarshal\<close> are \<^verbatim>\<open>encoding/json\<close>
  (\<open>unmarshal k\<close> decodes into the type registered under the key \<open>k\<close>). The
  registered type of a key is the key itself. A panic is \<open>None\<close>.
\<close>

type_synonym codec_key = "string \<times> nat"

record 'e codec =
  cx_types :: "codec_key list"
  cx_latest :: "(string \<times> nat) list"
  cx_upcasters :: "(codec_key \<times> ('e \<Rightarrow> 'e)) list"

definition empty_codec :: "'e codec" where
  "empty_codec = \<lparr>cx_types = [], cx_latest = [], cx_upcasters = []\<rparr>"

definition Codec_Register :: "codec_key \<Rightarrow> 'e codec \<Rightarrow> 'e codec option" where
  "Codec_Register k c =
     (if k \<in> set (cx_types c) then None
      else let c' = c\<lparr>cx_types := cx_types c @ [k]\<rparr> in
        Some (if snd k > map_get 0 (cx_latest c') (fst k)
              then c'\<lparr>cx_latest := map_put (fst k) (snd k) (cx_latest c')\<rparr> else c'))"

definition Codec_Upcast :: "string \<Rightarrow> nat \<Rightarrow> ('e \<Rightarrow> 'e) \<Rightarrow> 'e codec \<Rightarrow> 'e codec" where
  "Codec_Upcast kind from fn c = c\<lparr>cx_upcasters := map_put (kind, from) fn (cx_upcasters c)\<rparr>"

definition Codec_Latest :: "'e codec \<Rightarrow> string \<Rightarrow> nat" where
  "Codec_Latest c kind = map_get 0 (cx_latest c) kind"

definition Codec_Kinds :: "'e codec \<Rightarrow> string list" where
  "Codec_Kinds c = go_sort (\<lambda>a b. a < b) (map_keys (cx_latest c))"

definition Codec_Encode :: "('e \<Rightarrow> codec_key) \<Rightarrow> ('e \<Rightarrow> go_error + bytes) \<Rightarrow> 'e codec \<Rightarrow> 'e \<Rightarrow> go_error + bytes" where
  "Codec_Encode kv marshal c e =
     (if kv e \<notin> set (cx_types c)
        then Inl (Sprintf ''codec: %s v%d not registered'' [fst (kv e), Itoa (int (snd (kv e)))])
      else marshal e)"

text \<open>The loop of \<^verbatim>\<open>Decode\<close>: each round raises the version by one, up to the latest.\<close>

function upcast_loop :: "('e \<Rightarrow> codec_key) \<Rightarrow> 'e codec \<Rightarrow> string \<Rightarrow> 'e \<Rightarrow> go_error + 'e" where
  "upcast_loop kv c kind e =
     (if snd (kv e) < Codec_Latest c kind
      then case map_of (cx_upcasters c) (kind, snd (kv e)) of
          None \<Rightarrow> Inl (Sprintf ''codec: no upcaster for %s v%d'' [kind, Itoa (int (snd (kv e)))])
        | Some up \<Rightarrow>
            let nxt = up e in
            if kv nxt \<noteq> (kind, snd (kv e) + 1)
            then Inl (Sprintf ''codec: upcaster for %s v%d returned %s v%d''
                   [kind, Itoa (int (snd (kv e))), fst (kv nxt), Itoa (int (snd (kv nxt)))])
            else upcast_loop kv c kind nxt
      else Inr e)"
  by pat_completeness auto
termination
  by (relation "measure (\<lambda>(kv, c, kind, e). Codec_Latest c kind - snd (kv e))") auto

declare upcast_loop.simps [simp del]

definition Codec_Decode ::
  "('e \<Rightarrow> codec_key) \<Rightarrow> (codec_key \<Rightarrow> bytes \<Rightarrow> go_error + 'e) \<Rightarrow> 'e codec \<Rightarrow> string \<Rightarrow> nat \<Rightarrow> bytes \<Rightarrow> go_error + 'e" where
  "Codec_Decode kv unmarshal c kind v body =
     (if (kind, v) \<notin> set (cx_types c)
        then Inl (Sprintf ''codec: %s v%d not registered'' [kind, Itoa (int v)])
      else case unmarshal (kind, v) body of
        Inl err \<Rightarrow> Inl (Sprintf ''codec: decode %s v%d: %w'' [kind, Itoa (int v), err])
      | Inr e \<Rightarrow> upcast_loop kv c kind e)"

text \<open>The keys of the prototypes, in the order \<^verbatim>\<open>Prototypes\<close> returns them.\<close>

definition Codec_Prototypes :: "'e codec \<Rightarrow> codec_key list" where
  "Codec_Prototypes c =
     go_sort (\<lambda>a b. if fst a \<noteq> fst b then fst a < fst b else snd a < snd b) (cx_types c)"

subsection \<open>What the registry promises\<close>

text \<open>Registering in sequence; \<open>None\<close> when one of the calls panics.\<close>

fun register_seq :: "('e codec \<Rightarrow> 'e codec option) list \<Rightarrow> 'e codec \<Rightarrow> 'e codec option" where
  "register_seq [] c = Some c"
| "register_seq (f # fs) c = (case f c of None \<Rightarrow> None | Some c' \<Rightarrow> register_seq fs c')"

text \<open>
  What a complete registry promises: no registered version is above the latest one, and
  from every older version an upcaster leads to the next, which is registered too.
\<close>

locale complete_codec =
  fixes kv :: "'e \<Rightarrow> codec_key"
    and c :: "'e codec"
  assumes upcast_complete: "k \<in> set (cx_types c) \<Longrightarrow> snd k < Codec_Latest c (fst k) \<Longrightarrow> kv e = k \<Longrightarrow>
      \<exists>up. map_of (cx_upcasters c) k = Some up \<and> kv (up e) = (fst k, snd k + 1) \<and>
        (fst k, snd k + 1) \<in> set (cx_types c)"
    and latest_max: "k \<in> set (cx_types c) \<Longrightarrow> snd k \<le> Codec_Latest c (fst k)"
begin

lemma upcast_total:
  assumes "kv e \<in> set (cx_types c)"
  shows "\<exists>e'. upcast_loop kv c (fst (kv e)) e = Inr e' \<and> kv e' = (fst (kv e), Codec_Latest c (fst (kv e)))"
  using assms
proof (induction "Codec_Latest c (fst (kv e)) - snd (kv e)" arbitrary: e)
  case 0
  then have "snd (kv e) = Codec_Latest c (fst (kv e))"
    using latest_max [of "kv e"] by simp
  then show ?case
    by (metis nat_less_le prod.collapse upcast_loop.simps)
next
  case (Suc d)
  then have lt: "snd (kv e) < Codec_Latest c (fst (kv e))"
    by simp
  from upcast_complete [OF Suc(3) lt refl] obtain up where
    up: "map_of (cx_upcasters c) (kv e) = Some up" "kv (up e) = (fst (kv e), snd (kv e) + 1)"
      "(fst (kv e), snd (kv e) + 1) \<in> set (cx_types c)"
    by auto
  have "d = Codec_Latest c (fst (kv (up e))) - snd (kv (up e))"
    using Suc(2) up(2) by simp
  from Suc(1) [OF this] up have
    "\<exists>e'. upcast_loop kv c (fst (kv e)) (up e) = Inr e' \<and> kv e' = (fst (kv e), Codec_Latest c (fst (kv e)))"
    by simp
  then show ?case
    using lt up(1,2) by (subst upcast_loop.simps) simp
qed

text \<open>
  Decoding a registered event fails only when the JSON does, and gives the latest version.
  That decoding into the type of a key gives an event of that kind and version is a fact
  about Go types, stated as a premise about \<open>unmarshal\<close>.
\<close>

lemma decode_latest:
  assumes "(kind, v) \<in> set (cx_types c)" "unmarshal (kind, v) b = Inr e" "kv e = (kind, v)"
  shows "\<exists>e'. Codec_Decode kv unmarshal c kind v b = Inr e' \<and> kv e' = (kind, Codec_Latest c kind)"
  using assms upcast_total [of e] by (simp add: Codec_Decode_def)

lemma decode_current:
  assumes "(kind, v) \<in> set (cx_types c)" "unmarshal (kind, v) b = Inr e" "kv e = (kind, v)"
    and "v = Codec_Latest c kind"
  shows "Codec_Decode kv unmarshal c kind v b = Inr e"
  using assms by (simp add: Codec_Decode_def upcast_loop.simps [of kv c kind e])

end

end
