(* ===== verification/Harness_Scope.thy ===== *)
theory Harness_Scope
  imports Scope_Key
begin

section \<open>The Scope aggregate: autonomy level and cap\<close>

text \<open>
  \<^verbatim>\<open>internal/core/harness/scope.go\<close>. A scope holds an autonomy level and a cap.
  A human lowers the level freely and raises it one step at a time on evidence
  gathered since the last demotion; a regression lowers it one step at once.
\<close>

record scope =
  sc_Key :: scope_key
  sc_Level :: level
  sc_Cap :: level
  sc_Initialized :: bool
  sc_LastDemotedAt :: go_time
  sc_Regressions :: int
  sc_UpdatedAt :: go_time

definition ScopeStream :: "scope_key \<Rightarrow> string" where
  "ScopeStream k = ''scope/'' @ ScopeKey_String k"

definition NewScope :: "scope_key \<Rightarrow> scope" where
  "NewScope k = \<lparr>sc_Key = k, sc_Level = L0, sc_Cap = MaxLevel, sc_Initialized = False,
     sc_LastDemotedAt = 0, sc_Regressions = 0, sc_UpdatedAt = 0\<rparr>"

record evidence =
  ev_Since :: go_time
  ev_Outcomes :: int
  ev_Regressions :: int

record set_autonomy =
  sa_Key :: scope_key
  sa_Idem :: string
  sa_Level :: level
  sa_ChangeRef :: ID
  sa_Evidence :: evidence

record set_cap =
  sp_Key :: scope_key
  sp_Idem :: string
  sp_Cap :: level
  sp_ChangeRef :: ID

record record_regression =
  rr_Key :: scope_key
  rr_Idem :: string
  rr_ChangeRef :: ID

datatype scope_command = SetAutonomy set_autonomy | SetCap set_cap | RecordRegression record_regression

record autonomy_changed =
  ac_Key :: scope_key
  ac_From :: level
  ac_To :: level
  ac_Trigger :: trigger
  ac_ChangeRef :: ID
  ac_By :: actor_ref
  ac_At :: go_time

record cap_changed =
  cc_Key :: scope_key
  cc_From :: level
  cc_To :: level
  cc_ChangeRef :: ID
  cc_By :: actor_ref
  cc_At :: go_time

record exception_raised =
  er_Key :: scope_key
  er_Category :: string
  er_ChangeRef :: ID
  er_Level :: level
  er_At :: go_time

datatype scope_event = AutonomyChanged autonomy_changed | CapChanged cap_changed
  | ExceptionRaised exception_raised

fun Scope_cmd_Key :: "scope_command \<Rightarrow> scope_key" where
  "Scope_cmd_Key (SetAutonomy m) = sa_Key m"
| "Scope_cmd_Key (SetCap m) = sp_Key m"
| "Scope_cmd_Key (RecordRegression m) = rr_Key m"

fun Scope_cmd_Idem :: "scope_command \<Rightarrow> string" where
  "Scope_cmd_Idem (SetAutonomy m) = sa_Idem m"
| "Scope_cmd_Idem (SetCap m) = sp_Idem m"
| "Scope_cmd_Idem (RecordRegression m) = rr_Idem m"

fun Scope_cmd_Kind :: "scope_command \<Rightarrow> string" where
  "Scope_cmd_Kind (SetAutonomy _) = ''SetAutonomy''"
| "Scope_cmd_Kind (SetCap _) = ''SetCap''"
| "Scope_cmd_Kind (RecordRegression _) = ''RecordRegression''"

fun Scope_event_Kind :: "scope_event \<Rightarrow> string \<times> nat" where
  "Scope_event_Kind (AutonomyChanged _) = (''AutonomyChanged'', 1)"
| "Scope_event_Kind (CapChanged _) = (''CapChanged'', 1)"
| "Scope_event_Kind (ExceptionRaised _) = (''ExceptionRaised'', 1)"

text \<open>Presentation of a time in a message (RFC 3339) is not modelled; the nanosecond count stands for it.\<close>

definition setAutonomy :: "scope \<Rightarrow> set_autonomy \<Rightarrow> decide_context \<Rightarrow> rejection + scope_event list" where
  [decide_defs]: "setAutonomy s m ctx =
     (case ScopeKey_Validate (sa_Key m) of
        Some err \<Rightarrow> Inl (Reject ''invalid'' ''%v'' [err])
      | None \<Rightarrow>
        if \<not> Level_Valid (sa_Level m) then Inl (Reject ''invalid'' ''invalid level'' [])
        else if \<not> IsHuman (Actor ctx) then Inl (Reject ''human-only'' ''autonomy is set by a human'' [])
        else if sa_Level m > sc_Cap s
          then Inl (Reject ''over-cap'' ''level %s exceeds cap %s'' [Level_String (sa_Level m), Level_String (sc_Cap s)])
        else if sa_Level m = sc_Level s then Inr []
        else if sa_Level m < sc_Level s
          then Inr [AutonomyChanged \<lparr>ac_Key = sa_Key m, ac_From = sc_Level s, ac_To = sa_Level m,
                      ac_Trigger = TriggerPromote, ac_ChangeRef = sa_ChangeRef m, ac_By = Actor ctx, ac_At = Now ctx\<rparr>]
        else if ID_IsZero (sa_ChangeRef m)
          then Inl (Reject ''no-change'' ''raising autonomy is a harness Change; ChangeRef required'' [])
        else let next = fst (Transition (sc_Level s) TriggerPromote); ev = sa_Evidence m in
          if sa_Level m \<noteq> next
            then Inl (Reject ''one-step'' (''autonomy rises one step at a time (%s '' @ [CHR 0xE2, CHR 0x86, CHR 0x92] @ '' %s)'')
                       [Level_String (sc_Level s), Level_String next])
          else if ev_Since ev < sc_LastDemotedAt s
            then Inl (Reject ''stale-evidence'' ''evidence must be re-accumulated after the last demotion at %s''
                       [Itoa (sc_LastDemotedAt s)])
          else if ev_Regressions ev > 0
            then Inl (Reject ''regressed'' ''evidence contains %d regression(s)'' [Itoa (ev_Regressions ev)])
          else if ev_Outcomes ev < PromotionMinOutcomes (Policy ctx)
            then Inl (Reject ''insufficient-evidence'' ''need %d scored outcomes, have %d''
                       [Itoa (PromotionMinOutcomes (Policy ctx)), Itoa (ev_Outcomes ev)])
          else Inr [AutonomyChanged \<lparr>ac_Key = sa_Key m, ac_From = sc_Level s, ac_To = sa_Level m,
                      ac_Trigger = TriggerPromote, ac_ChangeRef = sa_ChangeRef m, ac_By = Actor ctx, ac_At = Now ctx\<rparr>])"

definition setCap :: "scope \<Rightarrow> set_cap \<Rightarrow> decide_context \<Rightarrow> rejection + scope_event list" where
  [decide_defs]: "setCap s m ctx =
     (case ScopeKey_Validate (sp_Key m) of
        Some err \<Rightarrow> Inl (Reject ''invalid'' ''%v'' [err])
      | None \<Rightarrow>
        if \<not> Level_Valid (sp_Cap m) then Inl (Reject ''invalid'' ''invalid cap'' [])
        else if \<not> IsHuman (Actor ctx) then Inl (Reject ''human-only'' ''the cap is set by a human'' [])
        else if ID_IsZero (sp_ChangeRef m)
          then Inl (Reject ''no-change'' ''a cap change is a harness Change; ChangeRef required'' [])
        else if sp_Cap m = sc_Cap s then Inr []
        else let evs = [CapChanged \<lparr>cc_Key = sp_Key m, cc_From = sc_Cap s, cc_To = sp_Cap m,
                          cc_ChangeRef = sp_ChangeRef m, cc_By = Actor ctx, cc_At = Now ctx\<rparr>]
          in Inr (if sc_Level s > sp_Cap m
                  then evs @ [AutonomyChanged \<lparr>ac_Key = sp_Key m, ac_From = sc_Level s, ac_To = sp_Cap m,
                         ac_Trigger = TriggerPromote, ac_ChangeRef = sp_ChangeRef m, ac_By = Actor ctx, ac_At = Now ctx\<rparr>]
                  else evs))"

definition regress :: "scope \<Rightarrow> record_regression \<Rightarrow> decide_context \<Rightarrow> rejection + scope_event list" where
  [decide_defs]: "regress s m ctx =
     (case ScopeKey_Validate (rr_Key m) of
        Some err \<Rightarrow> Inl (Reject ''invalid'' ''%v'' [err])
      | None \<Rightarrow>
        let to = fst (Transition (sc_Level s) TriggerRegress);
            evs = (if to \<noteq> sc_Level s
                   then [AutonomyChanged \<lparr>ac_Key = rr_Key m, ac_From = sc_Level s, ac_To = to,
                           ac_Trigger = TriggerRegress, ac_ChangeRef = rr_ChangeRef m, ac_By = Actor ctx, ac_At = Now ctx\<rparr>]
                   else [])
        in Inr (evs @ [ExceptionRaised \<lparr>er_Key = rr_Key m, er_Category = ''regression'',
                         er_ChangeRef = rr_ChangeRef m, er_Level = to, er_At = Now ctx\<rparr>]))"

fun Scope_Decide :: "scope \<Rightarrow> scope_command \<Rightarrow> decide_context \<Rightarrow> rejection + scope_event list" where
  "Scope_Decide s (SetAutonomy m) ctx = setAutonomy s m ctx"
| "Scope_Decide s (SetCap m) ctx = setCap s m ctx"
| "Scope_Decide s (RecordRegression m) ctx = regress s m ctx"

fun Scope_Apply :: "scope \<Rightarrow> scope_event \<Rightarrow> scope" where
  "Scope_Apply s (AutonomyChanged v) =
     (let s' = s\<lparr>sc_Key := ac_Key v, sc_Level := ac_To v, sc_Initialized := True, sc_UpdatedAt := ac_At v\<rparr>
      in if ac_Trigger v = TriggerRegress then s'\<lparr>sc_LastDemotedAt := ac_At v\<rparr> else s')"
| "Scope_Apply s (CapChanged v) =
     s\<lparr>sc_Key := cc_Key v, sc_Cap := cc_To v, sc_Initialized := True, sc_UpdatedAt := cc_At v\<rparr>"
| "Scope_Apply s (ExceptionRaised v) =
     (let s' = s\<lparr>sc_Regressions := sc_Regressions s + 1\<rparr>;
          s'' = (if er_Category v = ''regression'' \<and> sc_LastDemotedAt s' < er_At v
                 then s'\<lparr>sc_LastDemotedAt := er_At v\<rparr> else s')
      in s''\<lparr>sc_UpdatedAt := er_At v\<rparr>)"

subsection \<open>The level never exceeds the cap\<close>

definition scope_inv :: "scope \<Rightarrow> bool" where
  "scope_inv s \<longleftrightarrow> Level_Valid (sc_Level s) \<and> Level_Valid (sc_Cap s) \<and> sc_Level s \<le> sc_Cap s"

lemma setAutonomy_cases:
  assumes "setAutonomy s m ctx = Inr es"
  shows "ScopeKey_Validate (sa_Key m) = None \<and> Level_Valid (sa_Level m) \<and> IsHuman (Actor ctx) \<and>
    sa_Level m \<le> sc_Cap s \<and>
    (es = [] \<and> sa_Level m = sc_Level s \<or>
     es = [AutonomyChanged \<lparr>ac_Key = sa_Key m, ac_From = sc_Level s, ac_To = sa_Level m,
             ac_Trigger = TriggerPromote, ac_ChangeRef = sa_ChangeRef m, ac_By = Actor ctx, ac_At = Now ctx\<rparr>] \<and>
     (sa_Level m < sc_Level s \<or>
      sc_Level s < sa_Level m \<and> sa_Level m = fst (Transition (sc_Level s) TriggerPromote) \<and>
      sa_ChangeRef m \<noteq> '''' \<and> sc_LastDemotedAt s \<le> ev_Since (sa_Evidence m) \<and>
      ev_Regressions (sa_Evidence m) \<le> 0 \<and>
      PromotionMinOutcomes (Policy ctx) \<le> ev_Outcomes (sa_Evidence m)))"
  using assms unfolding setAutonomy_def Let_def by (auto split: option.splits if_splits)

lemma Scope_decide_inv:
  assumes "scope_inv s" and "Scope_Decide s c ctx = Inr es"
  shows "scope_inv (Replay Scope_Apply s es)"
proof (cases c)
  case (SetAutonomy m)
  then show ?thesis
    using assms setAutonomy_cases[of s m ctx es] by (auto simp: scope_inv_def Let_def)
next
  case (SetCap m)
  then show ?thesis
    using assms by (auto simp: setCap_def scope_inv_def Let_def split: option.splits if_splits)
next
  case (RecordRegression m)
  then show ?thesis
    using assms
    by (auto simp: regress_def scope_inv_def Let_def Transition_regress Level_Valid_def
        split: option.splits if_splits)
qed

interpretation scope_agg: aggregate Scope_Decide Scope_Apply "NewScope k" scope_inv for k
  by unfold_locales (auto simp: Scope_decide_inv, simp add: NewScope_def scope_inv_def)

end
