(* ===== verification/Harness_Constraint.thy ===== *)
theory Harness_Constraint
  imports Scope_Key Anchor_Key
begin

section \<open>The Constraint aggregate\<close>

text \<open>
  \<^verbatim>\<open>internal/core/harness/constraint.go\<close>: drafting, verifying, promoting (widening),
  demoting (narrowing), rebinding, superseding and retiring a constraint.
\<close>

datatype constraint_kind = KindContract | KindInvariant | KindRule | KindBudget | KindAutonomy
  | ConstraintKindOther string

fun constraint_kind_string :: "constraint_kind \<Rightarrow> string" where
  "constraint_kind_string KindContract = ''contract''"
| "constraint_kind_string KindInvariant = ''invariant''"
| "constraint_kind_string KindRule = ''rule''"
| "constraint_kind_string KindBudget = ''budget''"
| "constraint_kind_string KindAutonomy = ''autonomy''"
| "constraint_kind_string (ConstraintKindOther s) = s"

fun constraint_kind_valid :: "constraint_kind \<Rightarrow> bool" where
  "constraint_kind_valid (ConstraintKindOther _) = False"
| "constraint_kind_valid _ = True"

datatype constraint_state = CStateNone | CStateGenerated | CStateVerified | CStateReview
  | CStateStale | CStateRetired

fun constraint_state_string :: "constraint_state \<Rightarrow> string" where
  "constraint_state_string CStateNone = ''''"
| "constraint_state_string CStateGenerated = ''generated''"
| "constraint_state_string CStateVerified = ''verified''"
| "constraint_state_string CStateReview = ''review''"
| "constraint_state_string CStateStale = ''stale''"
| "constraint_state_string CStateRetired = ''retired''"

record constraint =
  co_ID :: ID
  co_Kind :: constraint_kind
  co_Scope :: scope_key
  co_Body :: string
  co_Checkable :: string
  co_Origin :: "ID list"
  co_Authored :: bool
  co_Explanation :: string
  co_Level :: level
  co_Anchors :: "string list"
  co_State :: constraint_state
  co_Supersedes :: ID
  co_SupersededBy :: ID
  co_UpdatedAt :: go_time

definition zero_constraint :: constraint where
  "zero_constraint = \<lparr>co_ID = '''', co_Kind = ConstraintKindOther '''', co_Scope = zero_scope_key, co_Body = '''',
     co_Checkable = '''', co_Origin = [], co_Authored = False, co_Explanation = '''', co_Level = 0,
     co_Anchors = [], co_State = CStateNone, co_Supersedes = '''', co_SupersededBy = '''', co_UpdatedAt = 0\<rparr>"

definition ConstraintStream :: "ID \<Rightarrow> string" where
  "ConstraintStream i = ''constraint/'' @ i"

record draft_constraint =
  dc_ID :: ID
  dc_Idem :: string
  dc_ConstraintKind :: constraint_kind
  dc_Scope :: scope_key
  dc_Body :: string
  dc_Checkable :: string
  dc_Origin :: "ID list"
  dc_Authored :: bool
  dc_Explanation :: string
  dc_Level :: level
  dc_Supersedes :: ID
  dc_Anchors :: "string list"

record constraint_cmd =
  cm_ID :: ID
  cm_Idem :: string

record promote_constraint =
  pc_Cmd :: constraint_cmd
  pc_ToScope :: scope_key
  pc_Origin :: "ID list"
  pc_Explanation :: string

record demote_constraint =
  dm_Cmd :: constraint_cmd
  dm_ToScope :: scope_key
  dm_Reason :: string

record supersede_constraint =
  su_Cmd :: constraint_cmd
  su_By :: ID

record retire_constraint =
  rt_Cmd :: constraint_cmd
  rt_Reason :: string

record rebind_constraint =
  rb_Cmd :: constraint_cmd
  rb_Anchors :: "string list"

datatype constraint_command = DraftConstraint draft_constraint | VerifyConstraint constraint_cmd
  | PromoteConstraint promote_constraint | DemoteConstraint demote_constraint
  | SupersedeConstraint supersede_constraint | RetireConstraint retire_constraint
  | RebindConstraint rebind_constraint

definition NewConstraintCmd :: "ID \<Rightarrow> string \<Rightarrow> constraint_cmd" where
  "NewConstraintCmd i idem = \<lparr>cm_ID = i, cm_Idem = idem\<rparr>"

fun Constraint_cmd_part :: "constraint_command \<Rightarrow> constraint_cmd" where
  "Constraint_cmd_part (DraftConstraint m) = \<lparr>cm_ID = dc_ID m, cm_Idem = dc_Idem m\<rparr>"
| "Constraint_cmd_part (VerifyConstraint m) = m"
| "Constraint_cmd_part (PromoteConstraint m) = pc_Cmd m"
| "Constraint_cmd_part (DemoteConstraint m) = dm_Cmd m"
| "Constraint_cmd_part (SupersedeConstraint m) = su_Cmd m"
| "Constraint_cmd_part (RetireConstraint m) = rt_Cmd m"
| "Constraint_cmd_part (RebindConstraint m) = rb_Cmd m"

fun Constraint_cmd_Kind :: "constraint_command \<Rightarrow> string" where
  "Constraint_cmd_Kind (DraftConstraint _) = ''DraftConstraint''"
| "Constraint_cmd_Kind (VerifyConstraint _) = ''VerifyConstraint''"
| "Constraint_cmd_Kind (PromoteConstraint _) = ''PromoteConstraint''"
| "Constraint_cmd_Kind (DemoteConstraint _) = ''DemoteConstraint''"
| "Constraint_cmd_Kind (SupersedeConstraint _) = ''SupersedeConstraint''"
| "Constraint_cmd_Kind (RetireConstraint _) = ''RetireConstraint''"
| "Constraint_cmd_Kind (RebindConstraint _) = ''RebindConstraint''"

record constraint_drafted_v1 =
  c1_ID :: ID
  c1_ConstraintKind :: constraint_kind
  c1_Scope :: scope_key
  c1_Body :: string
  c1_Checkable :: string
  c1_Origin :: "ID list"
  c1_Authored :: bool
  c1_Explanation :: string
  c1_Level :: level
  c1_Supersedes :: ID
  c1_At :: go_time

record constraint_drafted =
  cd_ID :: ID
  cd_ConstraintKind :: constraint_kind
  cd_Scope :: scope_key
  cd_Body :: string
  cd_Checkable :: string
  cd_Origin :: "ID list"
  cd_Authored :: bool
  cd_Explanation :: string
  cd_Level :: level
  cd_Supersedes :: ID
  cd_Anchors :: "string list"
  cd_At :: go_time

record constraint_rebound =
  cr_ID :: ID
  cr_Anchors :: "string list"
  cr_By :: actor_ref
  cr_At :: go_time

record constraint_verified =
  cv_ID :: ID
  cv_By :: actor_ref
  cv_At :: go_time

record constraint_promoted =
  cp_ID :: ID
  cp_From :: scope_key
  cp_To :: scope_key
  cp_Origin :: "ID list"
  cp_Explanation :: string
  cp_By :: actor_ref
  cp_At :: go_time

record constraint_demoted =
  ce_ID :: ID
  ce_From :: scope_key
  ce_To :: scope_key
  ce_Reason :: string
  ce_By :: actor_ref
  ce_At :: go_time

record constraint_superseded =
  cs_ID :: ID
  cs_By :: ID
  cs_At :: go_time
  cs_Actor :: actor_ref

record constraint_retired =
  ct_ID :: ID
  ct_Reason :: string
  ct_By :: actor_ref
  ct_At :: go_time

datatype constraint_event = ConstraintDraftedV1 constraint_drafted_v1
  | ConstraintDrafted constraint_drafted | ConstraintRebound constraint_rebound
  | ConstraintVerified constraint_verified | ConstraintPromoted constraint_promoted
  | ConstraintDemoted constraint_demoted | ConstraintSuperseded constraint_superseded
  | ConstraintRetired constraint_retired

text \<open>Kind and version of every event (the pair of methods \<^verbatim>\<open>Kind\<close> and \<^verbatim>\<open>Version\<close>).\<close>

fun Constraint_event_Kind :: "constraint_event \<Rightarrow> string \<times> nat" where
  "Constraint_event_Kind (ConstraintDraftedV1 _) = (''ConstraintDrafted'', 1)"
| "Constraint_event_Kind (ConstraintDrafted _) = (''ConstraintDrafted'', 2)"
| "Constraint_event_Kind (ConstraintRebound _) = (''ConstraintRebound'', 1)"
| "Constraint_event_Kind (ConstraintVerified _) = (''ConstraintVerified'', 1)"
| "Constraint_event_Kind (ConstraintPromoted _) = (''ConstraintPromoted'', 1)"
| "Constraint_event_Kind (ConstraintDemoted _) = (''ConstraintDemoted'', 1)"
| "Constraint_event_Kind (ConstraintSuperseded _) = (''ConstraintSuperseded'', 1)"
| "Constraint_event_Kind (ConstraintRetired _) = (''ConstraintRetired'', 1)"

subsection \<open>Decide and Apply\<close>

definition constraint_exists :: "constraint \<Rightarrow> bool" where
  [simp]: "constraint_exists c \<longleftrightarrow> co_State c \<noteq> CStateNone"

definition constraint_draft :: "constraint \<Rightarrow> draft_constraint \<Rightarrow> decide_context \<Rightarrow> rejection + constraint_event list" where
  [decide_defs]: "constraint_draft c m ctx =
     (if constraint_exists c then Inl (Reject ''exists'' ''constraint %s already exists'' [dc_ID m])
      else if ID_IsZero (dc_ID m) then Inl (Reject ''invalid'' ''constraint id required'' [])
      else if \<not> constraint_kind_valid (dc_ConstraintKind m)
        then Inl (Reject ''invalid'' ''unknown constraint kind %q'' [constraint_kind_string (dc_ConstraintKind m)])
      else case ScopeKey_Validate (dc_Scope m) of
        Some err \<Rightarrow> Inl (Reject ''invalid'' ''%v'' [err])
      | None \<Rightarrow>
        if dc_Body m = '''' then Inl (Reject ''invalid'' ''constraint body required'' [])
        else if \<not> dc_Authored m \<and> length (dc_Origin m) = 0
          then Inl (Reject ''no-origin'' ''a constraint is either authored or promoted from judgments'' [])
        else case ParseAnchors_error (dc_Anchors m) of
          Some err \<Rightarrow> Inl (Reject ''invalid'' ''%v'' [err])
        | None \<Rightarrow>
          if dc_ConstraintKind m = KindAutonomy \<and> \<not> Level_Valid (dc_Level m)
            then Inl (Reject ''invalid'' ''autonomy constraint needs a valid level'' [])
          else if dc_ConstraintKind m = KindAutonomy \<and> dc_Level m > Cap ctx
            then Inl (Reject ''over-cap'' ''level %s exceeds cap %s'' [Level_String (dc_Level m), Level_String (Cap ctx)])
          else Inr [ConstraintDrafted \<lparr>cd_ID = dc_ID m, cd_ConstraintKind = dc_ConstraintKind m, cd_Scope = dc_Scope m,
                 cd_Body = dc_Body m, cd_Checkable = dc_Checkable m, cd_Origin = dc_Origin m, cd_Authored = dc_Authored m,
                 cd_Explanation = dc_Explanation m, cd_Level = dc_Level m, cd_Supersedes = dc_Supersedes m,
                 cd_Anchors = dc_Anchors m, cd_At = Now ctx\<rparr>])"

definition constraint_rebind :: "constraint \<Rightarrow> rebind_constraint \<Rightarrow> decide_context \<Rightarrow> rejection + constraint_event list" where
  [decide_defs]: "constraint_rebind c m ctx =
     (if \<not> constraint_exists c then Inl (Reject ''not-found'' ''constraint does not exist'' [])
      else if co_State c = CStateRetired then Inl (Reject ''bad-state'' ''constraint is retired'' [])
      else case ParseAnchors_error (rb_Anchors m) of
        Some err \<Rightarrow> Inl (Reject ''invalid'' ''%v'' [err])
      | None \<Rightarrow> Inr [ConstraintRebound \<lparr>cr_ID = co_ID c, cr_Anchors = rb_Anchors m, cr_By = Actor ctx, cr_At = Now ctx\<rparr>])"

definition constraint_verify :: "constraint \<Rightarrow> decide_context \<Rightarrow> rejection + constraint_event list" where
  [decide_defs]: "constraint_verify c ctx =
     (if \<not> constraint_exists c then Inl (Reject ''not-found'' ''constraint does not exist'' [])
      else if \<not> IsHuman (Actor ctx) then Inl (Reject ''human-only'' ''verification is a human act'' [])
      else if co_State c = CStateGenerated \<or> co_State c = CStateReview \<or> co_State c = CStateStale
        then Inr [ConstraintVerified \<lparr>cv_ID = co_ID c, cv_By = Actor ctx, cv_At = Now ctx\<rparr>]
      else Inl (Reject ''bad-state'' ''cannot verify a %s constraint'' [constraint_state_string (co_State c)]))"

definition constraint_promote :: "constraint \<Rightarrow> promote_constraint \<Rightarrow> decide_context \<Rightarrow> rejection + constraint_event list" where
  [decide_defs]: "constraint_promote c m ctx =
     (if \<not> constraint_exists c then Inl (Reject ''not-found'' ''constraint does not exist'' [])
      else if \<not> IsHuman (Actor ctx)
        then Inl (Reject ''human-only'' ''promotion is a harness change: a human approves it'' [])
      else if co_State c \<noteq> CStateVerified
        then Inl (Reject ''bad-state'' ''only a verified constraint can be promoted (is %s)'' [constraint_state_string (co_State c)])
      else case ScopeKey_Validate (pc_ToScope m) of
        Some err \<Rightarrow> Inl (Reject ''invalid'' ''%v'' [err])
      | None \<Rightarrow>
        if \<not> Contains (pc_ToScope m) (co_Scope c) \<or> pc_ToScope m = co_Scope c
          then Inl (Reject ''not-wider'' ''promotion target %s must be wider than %s''
                 [ScopeKey_String (pc_ToScope m), ScopeKey_String (co_Scope c)])
        else let origin = co_Origin c @ pc_Origin m in
          if length origin = 0 then Inl (Reject ''no-origin'' ''promotion requires source judgments'' [])
          else if pc_Explanation m = ''''
            then Inl (Reject ''no-explanation'' ''promotion requires a human-readable explanation'' [])
          else if co_Kind c = KindAutonomy \<and> co_Level c > Cap ctx
            then Inl (Reject ''over-cap'' ''level %s exceeds cap %s at the target scope''
                   [Level_String (co_Level c), Level_String (Cap ctx)])
          else Inr [ConstraintPromoted \<lparr>cp_ID = co_ID c, cp_From = co_Scope c, cp_To = pc_ToScope m, cp_Origin = origin,
                 cp_Explanation = pc_Explanation m, cp_By = Actor ctx, cp_At = Now ctx\<rparr>])"

definition constraint_demote :: "constraint \<Rightarrow> demote_constraint \<Rightarrow> decide_context \<Rightarrow> rejection + constraint_event list" where
  [decide_defs]: "constraint_demote c m ctx =
     (if \<not> constraint_exists c then Inl (Reject ''not-found'' ''constraint does not exist'' [])
      else if co_State c = CStateRetired then Inl (Reject ''bad-state'' ''constraint is retired'' [])
      else case ScopeKey_Validate (dm_ToScope m) of
        Some err \<Rightarrow> Inl (Reject ''invalid'' ''%v'' [err])
      | None \<Rightarrow>
        if \<not> Contains (co_Scope c) (dm_ToScope m) \<or> dm_ToScope m = co_Scope c
          then Inl (Reject ''not-narrower'' ''demotion target %s must be narrower than %s''
                 [ScopeKey_String (dm_ToScope m), ScopeKey_String (co_Scope c)])
        else if dm_Reason m = '''' then Inl (Reject ''no-reason'' ''demotion requires a reason'' [])
        else Inr [ConstraintDemoted \<lparr>ce_ID = co_ID c, ce_From = co_Scope c, ce_To = dm_ToScope m,
               ce_Reason = dm_Reason m, ce_By = Actor ctx, ce_At = Now ctx\<rparr>])"

definition constraint_supersede :: "constraint \<Rightarrow> supersede_constraint \<Rightarrow> decide_context \<Rightarrow> rejection + constraint_event list" where
  [decide_defs]: "constraint_supersede c m ctx =
     (if \<not> constraint_exists c then Inl (Reject ''not-found'' ''constraint does not exist'' [])
      else if co_State c = CStateRetired then Inl (Reject ''bad-state'' ''constraint is retired'' [])
      else if ID_IsZero (su_By m) \<or> su_By m = co_ID c
        then Inl (Reject ''invalid'' ''supersede needs the successor id'' [])
      else Inr [ConstraintSuperseded \<lparr>cs_ID = co_ID c, cs_By = su_By m, cs_At = Now ctx, cs_Actor = Actor ctx\<rparr>])"

definition constraint_retire :: "constraint \<Rightarrow> retire_constraint \<Rightarrow> decide_context \<Rightarrow> rejection + constraint_event list" where
  [decide_defs]: "constraint_retire c m ctx =
     (if \<not> constraint_exists c then Inl (Reject ''not-found'' ''constraint does not exist'' [])
      else if co_State c = CStateRetired then Inl (Reject ''bad-state'' ''constraint is already retired'' [])
      else Inr [ConstraintRetired \<lparr>ct_ID = co_ID c, ct_Reason = rt_Reason m, ct_By = Actor ctx, ct_At = Now ctx\<rparr>])"

fun Constraint_Decide :: "constraint \<Rightarrow> constraint_command \<Rightarrow> decide_context \<Rightarrow> rejection + constraint_event list" where
  "Constraint_Decide c (DraftConstraint m) ctx = constraint_draft c m ctx"
| "Constraint_Decide c (VerifyConstraint m) ctx = constraint_verify c ctx"
| "Constraint_Decide c (PromoteConstraint m) ctx = constraint_promote c m ctx"
| "Constraint_Decide c (DemoteConstraint m) ctx = constraint_demote c m ctx"
| "Constraint_Decide c (SupersedeConstraint m) ctx = constraint_supersede c m ctx"
| "Constraint_Decide c (RetireConstraint m) ctx = constraint_retire c m ctx"
| "Constraint_Decide c (RebindConstraint m) ctx = constraint_rebind c m ctx"

text \<open>Version 1 of the creation event is unknown to \<^verbatim>\<open>Apply\<close>: the codec has upcast it before.\<close>

fun Constraint_Apply :: "constraint \<Rightarrow> constraint_event \<Rightarrow> constraint" where
  "Constraint_Apply c (ConstraintDrafted v) =
     zero_constraint\<lparr>co_ID := cd_ID v, co_Kind := cd_ConstraintKind v, co_Scope := cd_Scope v, co_Body := cd_Body v,
       co_Checkable := cd_Checkable v, co_Origin := cd_Origin v, co_Authored := cd_Authored v,
       co_Explanation := cd_Explanation v, co_Level := cd_Level v, co_Supersedes := cd_Supersedes v,
       co_Anchors := cd_Anchors v, co_State := CStateGenerated, co_UpdatedAt := cd_At v\<rparr>"
| "Constraint_Apply c (ConstraintRebound v) = c\<lparr>co_Anchors := cr_Anchors v, co_UpdatedAt := cr_At v\<rparr>"
| "Constraint_Apply c (ConstraintVerified v) = c\<lparr>co_State := CStateVerified, co_UpdatedAt := cv_At v\<rparr>"
| "Constraint_Apply c (ConstraintPromoted v) =
     c\<lparr>co_Scope := cp_To v, co_Origin := cp_Origin v, co_Explanation := cp_Explanation v, co_UpdatedAt := cp_At v\<rparr>"
| "Constraint_Apply c (ConstraintDemoted v) = c\<lparr>co_Scope := ce_To v, co_UpdatedAt := ce_At v\<rparr>"
| "Constraint_Apply c (ConstraintSuperseded v) =
     c\<lparr>co_State := CStateRetired, co_SupersededBy := cs_By v, co_UpdatedAt := cs_At v\<rparr>"
| "Constraint_Apply c (ConstraintRetired v) = c\<lparr>co_State := CStateRetired, co_UpdatedAt := ct_At v\<rparr>"
| "Constraint_Apply c (ConstraintDraftedV1 v) = c"

text \<open>The upcaster registered for version 1: anchors did not exist then.\<close>

definition upcast_ConstraintDrafted :: "constraint_drafted_v1 \<Rightarrow> constraint_drafted" where
  "upcast_ConstraintDrafted v = \<lparr>cd_ID = c1_ID v, cd_ConstraintKind = c1_ConstraintKind v, cd_Scope = c1_Scope v,
     cd_Body = c1_Body v, cd_Checkable = c1_Checkable v, cd_Origin = c1_Origin v, cd_Authored = c1_Authored v,
     cd_Explanation = c1_Explanation v, cd_Level = c1_Level v, cd_Supersedes = c1_Supersedes v,
     cd_Anchors = [], cd_At = c1_At v\<rparr>"

subsection \<open>Invariant\<close>

text \<open>
  A constraint that exists has an id, a known kind, a body, a valid scope,
  parseable anchors and a provenance (hand-written or with source judgments); an
  autonomy constraint has a valid level; a successor is recorded on retired
  constraints only and is another constraint. The states review and stale are
  never entered.
\<close>

definition constraint_inv :: "constraint \<Rightarrow> bool" where
  "constraint_inv c \<longleftrightarrow>
     (co_State c = CStateNone \<longrightarrow> c = zero_constraint) \<and>
     (co_State c \<noteq> CStateNone \<longrightarrow>
        co_ID c \<noteq> '''' \<and> constraint_kind_valid (co_Kind c) \<and> co_Body c \<noteq> '''' \<and>
        ScopeKey_Validate (co_Scope c) = None \<and> ParseAnchors_error (co_Anchors c) = None \<and>
        (co_Authored c \<or> co_Origin c \<noteq> []) \<and>
        (co_Kind c = KindAutonomy \<longrightarrow> Level_Valid (co_Level c)) \<and>
        (co_SupersededBy c \<noteq> '''' \<longrightarrow> co_State c = CStateRetired \<and> co_SupersededBy c \<noteq> co_ID c)) \<and>
     co_State c \<noteq> CStateReview \<and> co_State c \<noteq> CStateStale"

lemma constraint_inv_exists:
  assumes "constraint_inv c" "co_State c \<noteq> CStateNone"
  shows "co_ID c \<noteq> ''''" "constraint_kind_valid (co_Kind c)" "co_Body c \<noteq> ''''"
    "ScopeKey_Validate (co_Scope c) = None" "ParseAnchors_error (co_Anchors c) = None"
    "co_Authored c \<or> co_Origin c \<noteq> []"
  using assms by (auto simp: constraint_inv_def)

lemma Constraint_decide_inv:
  assumes "constraint_inv c" and "Constraint_Decide c cmd ctx = Inr es"
  shows "constraint_inv (Replay Constraint_Apply c es)"
proof (cases cmd)
  case (DraftConstraint m)
  then show ?thesis
    using assms(2)
    by (auto simp: constraint_draft_def constraint_inv_def zero_constraint_def split: option.splits if_splits)
next
  case (PromoteConstraint m)
  then show ?thesis
    using assms
    by (auto simp: constraint_promote_def constraint_inv_def Let_def split: option.splits if_splits)
qed (use assms in \<open>auto simp: decide_defs constraint_inv_def split: option.splits if_splits\<close>)

interpretation constraint_agg: aggregate Constraint_Decide Constraint_Apply zero_constraint constraint_inv
  by unfold_locales (auto simp: Constraint_decide_inv, simp add: zero_constraint_def constraint_inv_def)

end
