(* ===== verification/Harness_Decision.thy ===== *)
theory Harness_Decision
  imports Scope_Key Anchor_Key
begin

section \<open>The Decision aggregate\<close>

text \<open>
  \<^verbatim>\<open>internal/core/harness/decision.go\<close>: drafting (importing), verifying, revising,
  superseding and retiring an architecture decision record.
\<close>

datatype decision_state = DecisionStateNone | DecisionStateGenerated | DecisionStateVerified
  | DecisionStateRetired

fun decision_state_string :: "decision_state \<Rightarrow> string" where
  "decision_state_string DecisionStateNone = ''''"
| "decision_state_string DecisionStateGenerated = ''generated''"
| "decision_state_string DecisionStateVerified = ''verified''"
| "decision_state_string DecisionStateRetired = ''retired''"

record decision =
  de_ID :: ID
  de_DecisionKind :: string
  de_Title :: string
  de_Body :: string
  de_Scope :: scope_key
  de_From :: "ID list"
  de_Anchors :: "string list"
  de_Supersedes :: ID
  de_SupersededBy :: ID
  de_State :: decision_state
  de_UpdatedAt :: go_time

definition zero_decision :: decision where
  "zero_decision = \<lparr>de_ID = '''', de_DecisionKind = '''', de_Title = '''', de_Body = '''', de_Scope = zero_scope_key,
     de_From = [], de_Anchors = [], de_Supersedes = '''', de_SupersededBy = '''', de_State = DecisionStateNone,
     de_UpdatedAt = 0\<rparr>"

definition DecisionStream :: "ID \<Rightarrow> string" where
  "DecisionStream i = ''decision/'' @ i"

record decision_cmd =
  dn_ID :: ID
  dn_Idem :: string

record draft_decision =
  dd_Cmd :: decision_cmd
  dd_Title :: string
  dd_Body :: string
  dd_Scope :: scope_key
  dd_From :: "ID list"
  dd_Anchors :: "string list"
  dd_Supersedes :: ID

record revise_decision =
  rd_Cmd :: decision_cmd
  rd_Title :: string
  rd_Body :: string

record supersede_decision =
  sd_Cmd :: decision_cmd
  sd_By :: ID

datatype decision_command = DraftDecision draft_decision | VerifyDecision decision_cmd
  | ReviseDecision revise_decision | SupersedeDecision supersede_decision
  | RetireDecision decision_cmd

fun Decision_cmd_part :: "decision_command \<Rightarrow> decision_cmd" where
  "Decision_cmd_part (DraftDecision m) = dd_Cmd m"
| "Decision_cmd_part (VerifyDecision m) = m"
| "Decision_cmd_part (ReviseDecision m) = rd_Cmd m"
| "Decision_cmd_part (SupersedeDecision m) = sd_Cmd m"
| "Decision_cmd_part (RetireDecision m) = m"

fun Decision_cmd_Kind :: "decision_command \<Rightarrow> string" where
  "Decision_cmd_Kind (DraftDecision _) = ''DraftDecision''"
| "Decision_cmd_Kind (VerifyDecision _) = ''VerifyDecision''"
| "Decision_cmd_Kind (ReviseDecision _) = ''ReviseDecision''"
| "Decision_cmd_Kind (SupersedeDecision _) = ''SupersedeDecision''"
| "Decision_cmd_Kind (RetireDecision _) = ''RetireDecision''"

record decision_drafted =
  d1_ID :: ID
  d1_Title :: string
  d1_Body :: string
  d1_Scope :: scope_key
  d1_From :: "ID list"
  d1_Anchors :: "string list"
  d1_Supersedes :: ID
  d1_By :: actor_ref
  d1_At :: go_time

record decision_verified =
  dv_ID :: ID
  dv_By :: actor_ref
  dv_At :: go_time

record decision_revised =
  dr_ID :: ID
  dr_Title :: string
  dr_Body :: string
  dr_By :: actor_ref
  dr_At :: go_time

record decision_superseded =
  ds_ID :: ID
  ds_By :: ID
  ds_At :: go_time

record decision_retired =
  dt_ID :: ID
  dt_At :: go_time

datatype decision_event = DecisionDrafted decision_drafted | DecisionVerified decision_verified
  | DecisionRevised decision_revised | DecisionSuperseded decision_superseded
  | DecisionRetired decision_retired

fun Decision_event_Kind :: "decision_event \<Rightarrow> string \<times> nat" where
  "Decision_event_Kind (DecisionDrafted _) = (''DecisionDrafted'', 1)"
| "Decision_event_Kind (DecisionVerified _) = (''DecisionVerified'', 1)"
| "Decision_event_Kind (DecisionRevised _) = (''DecisionRevised'', 1)"
| "Decision_event_Kind (DecisionSuperseded _) = (''DecisionSuperseded'', 1)"
| "Decision_event_Kind (DecisionRetired _) = (''DecisionRetired'', 1)"

subsection \<open>Decide and Apply\<close>

fun Decision_Decide :: "decision \<Rightarrow> decision_command \<Rightarrow> decide_context \<Rightarrow> rejection + decision_event list" where
  "Decision_Decide d (DraftDecision m) ctx =
     (if de_State d \<noteq> DecisionStateNone
        then Inl (Reject ''exists'' ''decision %s already exists'' [dn_ID (dd_Cmd m)])
      else if ID_IsZero (dn_ID (dd_Cmd m)) \<or> dd_Title m = '''' \<or> dd_Body m = ''''
        then Inl (Reject ''invalid'' ''id, title and body required'' [])
      else case ScopeKey_Validate (dd_Scope m) of
        Some err \<Rightarrow> Inl (Reject ''invalid'' ''%v'' [err])
      | None \<Rightarrow>
        (case ParseAnchors_error (dd_Anchors m) of
           Some err \<Rightarrow> Inl (Reject ''invalid'' ''%v'' [err])
         | None \<Rightarrow> Inr [DecisionDrafted \<lparr>d1_ID = dn_ID (dd_Cmd m), d1_Title = dd_Title m, d1_Body = dd_Body m,
               d1_Scope = dd_Scope m, d1_From = dd_From m, d1_Anchors = dd_Anchors m,
               d1_Supersedes = dd_Supersedes m, d1_By = Actor ctx, d1_At = Now ctx\<rparr>]))"
| "Decision_Decide d (VerifyDecision m) ctx =
     (if de_State d = DecisionStateNone then Inl (Reject ''not-found'' ''decision does not exist'' [])
      else if \<not> IsHuman (Actor ctx) then Inl (Reject ''human-only'' ''verification is a human act'' [])
      else if de_State d \<noteq> DecisionStateGenerated
        then Inl (Reject ''bad-state'' ''cannot verify a %s decision'' [decision_state_string (de_State d)])
      else Inr [DecisionVerified \<lparr>dv_ID = de_ID d, dv_By = Actor ctx, dv_At = Now ctx\<rparr>])"
| "Decision_Decide d (ReviseDecision m) ctx =
     (if de_State d = DecisionStateNone then Inl (Reject ''not-found'' ''decision does not exist'' [])
      else if de_State d = DecisionStateRetired then Inl (Reject ''bad-state'' ''decision is retired'' [])
      else if rd_Title m = de_Title d \<and> rd_Body m = de_Body d then Inr []
      else if rd_Title m = '''' \<or> rd_Body m = '''' then Inl (Reject ''invalid'' ''title and body required'' [])
      else Inr [DecisionRevised \<lparr>dr_ID = de_ID d, dr_Title = rd_Title m, dr_Body = rd_Body m,
                  dr_By = Actor ctx, dr_At = Now ctx\<rparr>])"
| "Decision_Decide d (SupersedeDecision m) ctx =
     (if de_State d = DecisionStateNone then Inl (Reject ''not-found'' ''decision does not exist'' [])
      else if de_State d = DecisionStateRetired then Inl (Reject ''bad-state'' ''decision is retired'' [])
      else if ID_IsZero (sd_By m) \<or> sd_By m = de_ID d
        then Inl (Reject ''invalid'' ''supersede needs the successor id'' [])
      else Inr [DecisionSuperseded \<lparr>ds_ID = de_ID d, ds_By = sd_By m, ds_At = Now ctx\<rparr>])"
| "Decision_Decide d (RetireDecision m) ctx =
     (if de_State d = DecisionStateNone then Inl (Reject ''not-found'' ''decision does not exist'' [])
      else if de_State d = DecisionStateRetired then Inl (Reject ''bad-state'' ''already retired'' [])
      else Inr [DecisionRetired \<lparr>dt_ID = de_ID d, dt_At = Now ctx\<rparr>])"

fun Decision_Apply :: "decision \<Rightarrow> decision_event \<Rightarrow> decision" where
  "Decision_Apply d (DecisionDrafted v) =
     zero_decision\<lparr>de_ID := d1_ID v, de_DecisionKind := ''adr'', de_Title := d1_Title v, de_Body := d1_Body v,
       de_Scope := d1_Scope v, de_From := d1_From v, de_Anchors := d1_Anchors v, de_Supersedes := d1_Supersedes v,
       de_State := DecisionStateGenerated, de_UpdatedAt := d1_At v\<rparr>"
| "Decision_Apply d (DecisionVerified v) = d\<lparr>de_State := DecisionStateVerified, de_UpdatedAt := dv_At v\<rparr>"
| "Decision_Apply d (DecisionRevised v) =
     d\<lparr>de_Title := dr_Title v, de_Body := dr_Body v, de_State := DecisionStateGenerated, de_UpdatedAt := dr_At v\<rparr>"
| "Decision_Apply d (DecisionSuperseded v) =
     d\<lparr>de_State := DecisionStateRetired, de_SupersededBy := ds_By v, de_UpdatedAt := ds_At v\<rparr>"
| "Decision_Apply d (DecisionRetired v) = d\<lparr>de_State := DecisionStateRetired, de_UpdatedAt := dt_At v\<rparr>"

fun_cases Decision_verifyE: "Decision_Decide d (VerifyDecision m) ctx = Inr es"
fun_cases Decision_reviseE: "Decision_Decide d (ReviseDecision m) ctx = Inr es"

subsection \<open>Invariant\<close>

definition decision_inv :: "decision \<Rightarrow> bool" where
  "decision_inv d \<longleftrightarrow>
     (de_State d = DecisionStateNone \<longrightarrow> d = zero_decision) \<and>
     (de_State d \<noteq> DecisionStateNone \<longrightarrow>
        de_ID d \<noteq> '''' \<and> de_Title d \<noteq> '''' \<and> de_Body d \<noteq> '''' \<and> de_DecisionKind d = ''adr'' \<and>
        ScopeKey_Validate (de_Scope d) = None \<and> ParseAnchors_error (de_Anchors d) = None \<and>
        (de_SupersededBy d \<noteq> '''' \<longrightarrow> de_State d = DecisionStateRetired \<and> de_SupersededBy d \<noteq> de_ID d))"

lemma Decision_decide_inv:
  assumes "decision_inv d" and "Decision_Decide d c ctx = Inr es"
  shows "decision_inv (Replay Decision_Apply d es)"
  by (cases c) (use assms in \<open>auto simp: decision_inv_def zero_decision_def split: option.splits if_splits\<close>)

interpretation decision_agg: aggregate Decision_Decide Decision_Apply zero_decision decision_inv
  by unfold_locales (auto simp: Decision_decide_inv, simp add: zero_decision_def decision_inv_def)

text \<open>
  A state of verified names a human: it is entered by a verification only, and
  every change of the text leaves it.
\<close>

lemma Decision_text_change_unverifies:
  assumes "Decision_Decide d c ctx = Inr es"
    and "de_Title (Replay Decision_Apply d es) \<noteq> de_Title d \<or> de_Body (Replay Decision_Apply d es) \<noteq> de_Body d"
  shows "de_State (Replay Decision_Apply d es) = DecisionStateGenerated"
  by (cases c) (use assms in \<open>auto simp: zero_decision_def split: option.splits if_splits\<close>)

end
