(* ===== verification/Change.thy ===== *)
theory Change
  imports Scope_Key Anchor_Key
begin

section \<open>The Change aggregate\<close>

text \<open>
  \<^verbatim>\<open>internal/core/accountability/change.go\<close>: the lifecycle proposed, judged,
  deployed, observed, settled of one change, the judgments that let it proceed
  and the autonomy level it was opened at.
\<close>

subsection \<open>Data\<close>

datatype change_kind = KindRealization | KindHarness | ChangeKindOther string

fun change_kind_string :: "change_kind \<Rightarrow> string" where
  "change_kind_string KindRealization = ''realization''"
| "change_kind_string KindHarness = ''harness''"
| "change_kind_string (ChangeKindOther s) = s"

datatype change_mode = ModeManual | ModeSession | ModeDelegated | ModeAutonomous | ChangeModeOther string

fun change_mode_string :: "change_mode \<Rightarrow> string" where
  "change_mode_string ModeManual = ''manual''"
| "change_mode_string ModeSession = ''session''"
| "change_mode_string ModeDelegated = ''delegated''"
| "change_mode_string ModeAutonomous = ''autonomous''"
| "change_mode_string (ChangeModeOther s) = s"

datatype change_state = StateNone | StateProposed | StateJudged | StateDeployed | StateObserved | StateSettled

fun change_state_string :: "change_state \<Rightarrow> string" where
  "change_state_string StateNone = ''''"
| "change_state_string StateProposed = ''proposed''"
| "change_state_string StateJudged = ''judged''"
| "change_state_string StateDeployed = ''deployed''"
| "change_state_string StateObserved = ''observed''"
| "change_state_string StateSettled = ''settled''"

record proposal =
  pr_Ref :: string
  pr_Actor :: actor_ref
  pr_At :: go_time
  pr_Sig :: string

datatype impact_relation = RelReferences | RelViolates | RelConflicts | ImpactRelationOther string

record impact_ref =
  ir_Constraint :: ID
  ir_Relation :: impact_relation

record impact =
  im_Constraints :: "impact_ref list"
  im_Decisions :: "ID list"
  im_Anchors :: "string list"

definition Impact_Empty :: "impact \<Rightarrow> bool" where
  "Impact_Empty i \<longleftrightarrow> length (im_Constraints i) = 0 \<and> length (im_Decisions i) = 0"

datatype judgment_decision = DecisionAccept | DecisionModify | DecisionReject | JudgmentDecisionOther string

fun judgment_decision_string :: "judgment_decision \<Rightarrow> string" where
  "judgment_decision_string DecisionAccept = ''accept''"
| "judgment_decision_string DecisionModify = ''modify''"
| "judgment_decision_string DecisionReject = ''reject''"
| "judgment_decision_string (JudgmentDecisionOther s) = s"

datatype judgment_source = SourceSession | SourceReview | SourceHarness | JudgmentSourceOther string

record judgment_rec =
  jg_ID :: ID
  jg_Decision :: judgment_decision
  jg_Reason :: string
  jg_By :: actor_ref
  jg_At :: go_time
  jg_Source :: judgment_source
  jg_Sig :: string

datatype outcome_verdict = Confirmed | Regressed | Unknown | OutcomeVerdictOther string

fun outcome_verdict_string :: "outcome_verdict \<Rightarrow> string" where
  "outcome_verdict_string Confirmed = ''confirmed''"
| "outcome_verdict_string Regressed = ''regressed''"
| "outcome_verdict_string Unknown = ''unknown''"
| "outcome_verdict_string (OutcomeVerdictOther s) = s"

record outcome =
  oc_Window :: duration
  oc_Signals :: "string list"
  oc_Verdict :: outcome_verdict
  oc_At :: go_time

record deployment =
  dp_Ref :: string
  dp_At :: go_time

record change =
  ch_ID :: ID
  ch_Kind :: change_kind
  ch_Mode :: change_mode
  ch_IntentRef :: ID
  ch_NoIntent :: bool
  ch_Proposals :: "proposal list"
  ch_Impact :: impact
  ch_Judgments :: "judgment_rec list"
  ch_Deployment :: "deployment option"
  ch_Outcome :: "outcome option"
  ch_Derived :: "ID list"
  ch_Sessions :: "string list"
  ch_AutonomyApplied :: level
  ch_State :: change_state
  ch_OpenedAt :: go_time
  ch_SettledAt :: go_time

definition zero_change :: change where
  "zero_change = \<lparr>ch_ID = '''', ch_Kind = ChangeKindOther '''', ch_Mode = ChangeModeOther '''', ch_IntentRef = '''',
     ch_NoIntent = False, ch_Proposals = [], ch_Impact = \<lparr>im_Constraints = [], im_Decisions = [], im_Anchors = []\<rparr>,
     ch_Judgments = [], ch_Deployment = None, ch_Outcome = None, ch_Derived = [], ch_Sessions = [],
     ch_AutonomyApplied = 0, ch_State = StateNone, ch_OpenedAt = 0, ch_SettledAt = 0\<rparr>"

definition ChangeStream :: "ID \<Rightarrow> string" where
  "ChangeStream i = ''change/'' @ i"

subsection \<open>Commands\<close>

record change_cmd =
  hc_ID :: ID
  hc_Idem :: string

definition NewChangeCmd :: "ID \<Rightarrow> string \<Rightarrow> change_cmd" where
  "NewChangeCmd i idem = \<lparr>hc_ID = i, hc_Idem = idem\<rparr>"

record open_change =
  oh_Cmd :: change_cmd
  oh_ChangeKind :: change_kind
  oh_Mode :: change_mode
  oh_Scope :: scope_key
  oh_IntentRef :: ID
  oh_NoIntent :: bool
  oh_Impact :: impact
  oh_Proposal :: "proposal option"
  oh_Sessions :: "string list"

record add_proposal =
  ap_Cmd :: change_cmd
  ap_Proposal :: proposal

record judge_change =
  ju_Cmd :: change_cmd
  ju_Judgment :: judgment_rec

record deploy_change =
  dy_Cmd :: change_cmd
  dy_Ref :: string

record record_outcome =
  ro_Cmd :: change_cmd
  ro_Outcome :: outcome

record settle_change =
  st_Cmd :: change_cmd
  st_Derived :: "ID list"

datatype change_command = OpenChange open_change | AddProposal add_proposal | Judge judge_change
  | Deploy deploy_change | RecordOutcome record_outcome | Settle settle_change

fun Change_cmd_part :: "change_command \<Rightarrow> change_cmd" where
  "Change_cmd_part (OpenChange m) = oh_Cmd m"
| "Change_cmd_part (AddProposal m) = ap_Cmd m"
| "Change_cmd_part (Judge m) = ju_Cmd m"
| "Change_cmd_part (Deploy m) = dy_Cmd m"
| "Change_cmd_part (RecordOutcome m) = ro_Cmd m"
| "Change_cmd_part (Settle m) = st_Cmd m"

fun Change_cmd_Kind :: "change_command \<Rightarrow> string" where
  "Change_cmd_Kind (OpenChange _) = ''OpenChange''"
| "Change_cmd_Kind (AddProposal _) = ''AddProposal''"
| "Change_cmd_Kind (Judge _) = ''Judge''"
| "Change_cmd_Kind (Deploy _) = ''Deploy''"
| "Change_cmd_Kind (RecordOutcome _) = ''RecordOutcome''"
| "Change_cmd_Kind (Settle _) = ''Settle''"

subsection \<open>Events\<close>

record change_opened_v1 =
  o1_ID :: ID
  o1_ChangeKind :: change_kind
  o1_Mode :: change_mode
  o1_Scope :: scope_key
  o1_IntentRef :: ID
  o1_NoIntent :: bool
  o1_Impact :: impact
  o1_Proposal :: "proposal option"
  o1_AutonomyApplied :: level
  o1_By :: actor_ref
  o1_At :: go_time

record change_opened =
  op_ID :: ID
  op_ChangeKind :: change_kind
  op_Mode :: change_mode
  op_Scope :: scope_key
  op_IntentRef :: ID
  op_NoIntent :: bool
  op_Impact :: impact
  op_Proposal :: "proposal option"
  op_Sessions :: "string list"
  op_AutonomyApplied :: level
  op_By :: actor_ref
  op_At :: go_time

record proposal_added =
  pa_ID :: ID
  pa_Proposal :: proposal

record judged =
  jd_ID :: ID
  jd_Judgment :: judgment_rec

record deployed =
  dl_ID :: ID
  dl_Deployment :: deployment

record outcome_recorded =
  or_ID :: ID
  or_Outcome :: outcome

record settled =
  se_ID :: ID
  se_Derived :: "ID list"
  se_At :: go_time

datatype change_event = ChangeOpenedV1 change_opened_v1 | ChangeOpened change_opened
  | ProposalAdded proposal_added | Judged judged | Deployed deployed
  | OutcomeRecorded outcome_recorded | Settled settled

fun Change_event_Kind :: "change_event \<Rightarrow> string \<times> nat" where
  "Change_event_Kind (ChangeOpenedV1 _) = (''ChangeOpened'', 1)"
| "Change_event_Kind (ChangeOpened _) = (''ChangeOpened'', 2)"
| "Change_event_Kind (ProposalAdded _) = (''ProposalAdded'', 1)"
| "Change_event_Kind (Judged _) = (''Judged'', 1)"
| "Change_event_Kind (Deployed _) = (''Deployed'', 1)"
| "Change_event_Kind (OutcomeRecorded _) = (''OutcomeRecorded'', 1)"
| "Change_event_Kind (Settled _) = (''Settled'', 1)"

subsection \<open>Decide\<close>

definition change_exists :: "change \<Rightarrow> bool" where
  [simp]: "change_exists c \<longleftrightarrow> ch_State c \<noteq> StateNone"

definition change_mode_known :: "change_mode \<Rightarrow> bool" where
  "change_mode_known mode \<longleftrightarrow> mode \<in> {ModeManual, ModeSession, ModeDelegated, ModeAutonomous}"

definition change_open :: "change \<Rightarrow> open_change \<Rightarrow> decide_context \<Rightarrow> rejection + change_event list" where
  [decide_defs]: "change_open c m ctx =
     (if change_exists c then Inl (Reject ''exists'' ''change %s already exists'' [hc_ID (oh_Cmd m)])
      else if ID_IsZero (hc_ID (oh_Cmd m)) then Inl (Reject ''invalid'' ''change id required'' [])
      else if oh_ChangeKind m \<noteq> KindRealization \<and> oh_ChangeKind m \<noteq> KindHarness
        then Inl (Reject ''invalid'' ''unknown change kind %q'' [change_kind_string (oh_ChangeKind m)])
      else if \<not> change_mode_known (oh_Mode m)
        then Inl (Reject ''invalid'' ''unknown change mode %q'' [change_mode_string (oh_Mode m)])
      else case ScopeKey_Validate (oh_Scope m) of
        Some err \<Rightarrow> Inl (Reject ''invalid'' ''%v'' [err])
      | None \<Rightarrow>
        if ID_IsZero (oh_IntentRef m) \<and> \<not> oh_NoIntent m
          then Inl (Reject ''no-intent'' ''a change carries an intent or states explicitly that it has none'' [])
        else case ParseAnchors_error (im_Anchors (oh_Impact m)) of
          Some err \<Rightarrow> Inl (Reject ''invalid'' ''%v'' [err])
        | None \<Rightarrow>
          let level = (if oh_ChangeKind m = KindHarness then L0 else Autonomy ctx) in
          if oh_Mode m = ModeAutonomous \<and> level < L2
            then Inl (Reject ''autonomy'' ''autonomous mode requires L2 or above (effective %s)'' [Level_String level])
          else Inr [ChangeOpened \<lparr>op_ID = hc_ID (oh_Cmd m), op_ChangeKind = oh_ChangeKind m, op_Mode = oh_Mode m,
                 op_Scope = oh_Scope m, op_IntentRef = oh_IntentRef m, op_NoIntent = oh_NoIntent m,
                 op_Impact = oh_Impact m, op_Proposal = oh_Proposal m, op_Sessions = oh_Sessions m,
                 op_AutonomyApplied = level, op_By = Actor ctx, op_At = Now ctx\<rparr>])"

definition change_addProposal :: "change \<Rightarrow> add_proposal \<Rightarrow> rejection + change_event list" where
  [decide_defs]: "change_addProposal c m =
     (if \<not> change_exists c then Inl (Reject ''not-found'' ''change does not exist'' [])
      else if ch_State c \<noteq> StateProposed \<and> ch_State c \<noteq> StateJudged
        then Inl (Reject ''bad-state'' ''cannot add a proposal to a %s change'' [change_state_string (ch_State c)])
      else if pr_Ref (ap_Proposal m) = '''' then Inl (Reject ''invalid'' ''proposal ref required'' [])
      else case Actor_Validate (pr_Actor (ap_Proposal m)) of
        Some err \<Rightarrow> Inl (Reject ''invalid'' ''%v'' [err])
      | None \<Rightarrow> Inr [ProposalAdded \<lparr>pa_ID = ch_ID c, pa_Proposal = ap_Proposal m\<rparr>])"

definition judgment_decision_known :: "judgment_decision \<Rightarrow> bool" where
  "judgment_decision_known d \<longleftrightarrow> d \<in> {DecisionAccept, DecisionModify, DecisionReject}"

definition change_judge :: "change \<Rightarrow> judge_change \<Rightarrow> decide_context \<Rightarrow> rejection + change_event list" where
  [decide_defs]: "change_judge c m ctx =
     (if \<not> change_exists c then Inl (Reject ''not-found'' ''change does not exist'' [])
      else if ch_State c \<noteq> StateProposed \<and> ch_State c \<noteq> StateJudged
        then Inl (Reject ''bad-state'' ''cannot judge a %s change'' [change_state_string (ch_State c)])
      else let j = ju_Judgment m in
        if ID_IsZero (jg_ID j) then Inl (Reject ''invalid'' ''judgment id required'' [])
        else if \<not> judgment_decision_known (jg_Decision j)
          then Inl (Reject ''invalid'' ''unknown decision %q'' [judgment_decision_string (jg_Decision j)])
        else case Actor_Validate (jg_By j) of
          Some err \<Rightarrow> Inl (Reject ''invalid'' ''%v'' [err])
        | None \<Rightarrow>
          if IsAgent (jg_By j) \<and> ch_Kind c = KindHarness
            then Inl (Reject ''human-only'' ''a harness change is judged by a human'' [])
          else if IsAgent (jg_By j) \<and> ch_AutonomyApplied c < L1
            then Inl (Reject ''autonomy'' ''at L0 an agent only proposes'' [])
          else if \<not> Impact_Empty (ch_Impact c) \<and> jg_Reason j = ''''
            then Inl (Reject ''no-reason'' ''a judgment with impact needs a reason'' [])
          else if list_ex (\<lambda>prev. jg_ID prev = jg_ID j) (ch_Judgments c)
            then Inl (Reject ''duplicate'' ''judgment %s already recorded'' [jg_ID j])
          else Inr [Judged \<lparr>jd_ID = ch_ID c, jd_Judgment = j\<rparr>])"

text \<open>
  The loop of \<^verbatim>\<open>judgmentsAllow\<close> over the judgments: its variables \<open>humanOK\<close>,
  \<open>anyOK\<close> and the Go map \<open>judged\<close>.
\<close>

fun judgments_scan :: "judgment_rec list \<Rightarrow> bool \<Rightarrow> bool \<Rightarrow> (ID \<times> bool) list \<Rightarrow> bool \<times> bool \<times> (ID \<times> bool) list" where
  "judgments_scan [] humanOK anyOK jm = (humanOK, anyOK, jm)"
| "judgments_scan (j # js) humanOK anyOK jm =
     (if jg_Decision j = DecisionReject then judgments_scan js humanOK anyOK jm
      else judgments_scan js (if IsHuman (jg_By j) then True else humanOK) True (map_put (ar_ID (jg_By j)) True jm))"

definition judgmentsAllow :: "change \<Rightarrow> decide_context \<Rightarrow> rejection option" where
  "judgmentsAllow c ctx =
     (if length (ch_Judgments c) = 0 then Some (Reject ''unjudged'' ''no judgment recorded'' [])
      else if jg_Decision (last (ch_Judgments c)) = DecisionReject
        then Some (Reject ''rejected'' ''the latest judgment rejected the change'' [])
      else case judgments_scan (ch_Judgments c) False False [] of (humanOK, anyOK, jm) \<Rightarrow>
        if \<not> anyOK then Some (Reject ''unjudged'' ''no accepting judgment'' [])
        else if (ch_Kind c = KindHarness \<or> ch_AutonomyApplied c \<le> L1) \<and> \<not> humanOK
          then Some (Reject ''human-required'' ''a human confirms at %s'' [Level_String (ch_AutonomyApplied c)])
        else case List.find (\<lambda>owner. map_of jm owner \<noteq> Some True) (Judges ctx) of
          Some owner \<Rightarrow> Some (Reject ''owner-required'' ''judgment from owner %s is required'' [owner])
        | None \<Rightarrow> None)"

definition change_deploy :: "change \<Rightarrow> deploy_change \<Rightarrow> decide_context \<Rightarrow> rejection + change_event list" where
  [decide_defs]: "change_deploy c m ctx =
     (if \<not> change_exists c then Inl (Reject ''not-found'' ''change does not exist'' [])
      else if dy_Ref m = '''' then Inl (Reject ''invalid'' ''deployment ref required'' [])
      else case (case ch_State c of
                   StateJudged \<Rightarrow> judgmentsAllow c ctx
                 | StateProposed \<Rightarrow>
                     (if \<not> Impact_Empty (ch_Impact c)
                      then Some (Reject ''unjudged'' ''a change with impact is judged before deployment'' []) else None)
                 | _ \<Rightarrow> Some (Reject ''bad-state'' ''cannot deploy a %s change'' [change_state_string (ch_State c)])) of
        Some err \<Rightarrow> Inl err
      | None \<Rightarrow> Inr [Deployed \<lparr>dl_ID = ch_ID c, dl_Deployment = \<lparr>dp_Ref = dy_Ref m, dp_At = Now ctx\<rparr>\<rparr>])"

definition outcome_verdict_known :: "outcome_verdict \<Rightarrow> bool" where
  "outcome_verdict_known v \<longleftrightarrow> v \<in> {Confirmed, Regressed, Unknown}"

definition change_recordOutcome :: "change \<Rightarrow> record_outcome \<Rightarrow> decide_context \<Rightarrow> rejection + change_event list" where
  [decide_defs]: "change_recordOutcome c m ctx =
     (if \<not> change_exists c then Inl (Reject ''not-found'' ''change does not exist'' [])
      else if ch_State c \<noteq> StateDeployed
        then Inl (Reject ''bad-state'' ''outcome is recorded on a deployed change (is %s)'' [change_state_string (ch_State c)])
      else if \<not> outcome_verdict_known (oc_Verdict (ro_Outcome m))
        then Inl (Reject ''invalid'' ''unknown verdict %q'' [outcome_verdict_string (oc_Verdict (ro_Outcome m))])
      else let o' = ro_Outcome m in
        Inr [OutcomeRecorded \<lparr>or_ID = ch_ID c,
               or_Outcome = (if oc_At o' = 0 then o'\<lparr>oc_At := Now ctx\<rparr> else o')\<rparr>])"

definition change_settle :: "change \<Rightarrow> settle_change \<Rightarrow> decide_context \<Rightarrow> rejection + change_event list" where
  [decide_defs]: "change_settle c m ctx =
     (if \<not> change_exists c then Inl (Reject ''not-found'' ''change does not exist'' [])
      else if ch_State c = StateSettled then Inl (Reject ''bad-state'' ''already settled'' [])
      else if Impact_Empty (ch_Impact c)
        then (if length (st_Derived m) > 0
              then Inl (Reject ''no-derivation'' ''nothing is derived from a change without impact'' [])
              else Inr [Settled \<lparr>se_ID = ch_ID c, se_Derived = [], se_At = Now ctx\<rparr>])
      else case (case ch_State c of
                   StateObserved \<Rightarrow> None
                 | StateDeployed \<Rightarrow>
                     (case ch_Deployment c of
                        None \<Rightarrow> Some (Reject ''observing'' ''outcome window is still open'' [])
                      | Some d \<Rightarrow>
                          if Now ctx < dp_At d + OutcomeWindow (Policy ctx)
                          then Some (Reject ''observing'' ''outcome window is still open'' []) else None)
                 | _ \<Rightarrow> Some (Reject ''bad-state'' ''a change with impact settles after deployment and observation (is %s)''
                             [change_state_string (ch_State c)])) of
        Some err \<Rightarrow> Inl err
      | None \<Rightarrow>
        (case judgmentsAllow c ctx of
           Some err \<Rightarrow> Inl err
         | None \<Rightarrow>
           if IsAgent (Actor ctx) \<and> ch_AutonomyApplied c < L2
             then Inl (Reject ''autonomy'' ''below L2 a human settles'' [])
           else Inr [Settled \<lparr>se_ID = ch_ID c, se_Derived = st_Derived m, se_At = Now ctx\<rparr>]))"

fun Change_Decide :: "change \<Rightarrow> change_command \<Rightarrow> decide_context \<Rightarrow> rejection + change_event list" where
  "Change_Decide c (OpenChange m) ctx = change_open c m ctx"
| "Change_Decide c (AddProposal m) ctx = change_addProposal c m"
| "Change_Decide c (Judge m) ctx = change_judge c m ctx"
| "Change_Decide c (Deploy m) ctx = change_deploy c m ctx"
| "Change_Decide c (RecordOutcome m) ctx = change_recordOutcome c m ctx"
| "Change_Decide c (Settle m) ctx = change_settle c m ctx"

subsection \<open>Apply\<close>

fun Change_Apply :: "change \<Rightarrow> change_event \<Rightarrow> change" where
  "Change_Apply c (ChangeOpened v) =
     (let c' = zero_change\<lparr>ch_ID := op_ID v, ch_Kind := op_ChangeKind v, ch_Mode := op_Mode v,
                 ch_IntentRef := op_IntentRef v, ch_NoIntent := op_NoIntent v, ch_Impact := op_Impact v,
                 ch_Sessions := op_Sessions v, ch_AutonomyApplied := op_AutonomyApplied v,
                 ch_State := StateProposed, ch_OpenedAt := op_At v\<rparr>
      in case op_Proposal v of None \<Rightarrow> c' | Some p \<Rightarrow> c'\<lparr>ch_Proposals := [p]\<rparr>)"
| "Change_Apply c (ProposalAdded v) = c\<lparr>ch_Proposals := ch_Proposals c @ [pa_Proposal v]\<rparr>"
| "Change_Apply c (Judged v) = c\<lparr>ch_Judgments := ch_Judgments c @ [jd_Judgment v], ch_State := StateJudged\<rparr>"
| "Change_Apply c (Deployed v) = c\<lparr>ch_Deployment := Some (dl_Deployment v), ch_State := StateDeployed\<rparr>"
| "Change_Apply c (OutcomeRecorded v) = c\<lparr>ch_Outcome := Some (or_Outcome v), ch_State := StateObserved\<rparr>"
| "Change_Apply c (Settled v) = c\<lparr>ch_Derived := se_Derived v, ch_State := StateSettled, ch_SettledAt := se_At v\<rparr>"
| "Change_Apply c (ChangeOpenedV1 v) = c"

text \<open>The upcaster registered for version 1 (\<^verbatim>\<open>gate.go\<close>): sessions were not recorded then.\<close>

definition upcast_ChangeOpened :: "change_opened_v1 \<Rightarrow> change_opened" where
  "upcast_ChangeOpened v = \<lparr>op_ID = o1_ID v, op_ChangeKind = o1_ChangeKind v, op_Mode = o1_Mode v,
     op_Scope = o1_Scope v, op_IntentRef = o1_IntentRef v, op_NoIntent = o1_NoIntent v, op_Impact = o1_Impact v,
     op_Proposal = o1_Proposal v, op_Sessions = [], op_AutonomyApplied = o1_AutonomyApplied v, op_By = o1_By v,
     op_At = o1_At v\<rparr>"

subsection \<open>What the judgments must say\<close>

definition accepting :: "change \<Rightarrow> judgment_rec list" where
  "accepting c = filter (\<lambda>j. jg_Decision j \<noteq> DecisionReject) (ch_Judgments c)"

text \<open>The reference reading of \<^verbatim>\<open>judgmentsAllow\<close>, apart from the owners of the context.\<close>

definition approved :: "change \<Rightarrow> bool" where
  "approved c \<longleftrightarrow> ch_Judgments c \<noteq> [] \<and> jg_Decision (last (ch_Judgments c)) \<noteq> DecisionReject \<and>
     (ch_Kind c = KindHarness \<or> ch_AutonomyApplied c \<le> L1 \<longrightarrow> (\<exists>j \<in> set (accepting c). IsHuman (jg_By j)))"

lemma judgments_scan_accepting:
  "judgments_scan js h a jm =
     (h \<or> (\<exists>j \<in> set js. jg_Decision j \<noteq> DecisionReject \<and> IsHuman (jg_By j)),
      a \<or> (\<exists>j \<in> set js. jg_Decision j \<noteq> DecisionReject),
      foldl (\<lambda>m j. map_put (ar_ID (jg_By j)) True m) jm (filter (\<lambda>j. jg_Decision j \<noteq> DecisionReject) js))"
  by (induction js arbitrary: h a jm) auto

lemma map_of_foldl_put_True:
  "map_of (foldl (\<lambda>m j. map_put (f j) True m) jm js) k = Some True \<longleftrightarrow>
     map_of jm k = Some True \<or> k \<in> f ` set js"
  by (induction js arbitrary: jm) auto

lemma find_case_None:
  "(case List.find P xs of None \<Rightarrow> None | Some x \<Rightarrow> Some (f x)) = None \<longleftrightarrow> (\<forall>x \<in> set xs. \<not> P x)"
  using find_None_iff [of P xs] by (auto split: option.splits)

lemma judgmentsAllow_iff:
  "judgmentsAllow c ctx = None \<longleftrightarrow>
     approved c \<and> (\<forall>owner \<in> set (Judges ctx). \<exists>j \<in> set (accepting c). ar_ID (jg_By j) = owner)"
proof (cases "ch_Judgments c = [] \<or> jg_Decision (last (ch_Judgments c)) = DecisionReject")
  case True
  then show ?thesis
    by (auto simp: judgmentsAllow_def approved_def)
next
  case False
  then have "\<exists>j \<in> set (ch_Judgments c). jg_Decision j \<noteq> DecisionReject"
    by (intro bexI [of _ "last (ch_Judgments c)"]) auto
  with False show ?thesis
    by (auto simp: judgmentsAllow_def judgments_scan_accepting map_of_foldl_put_True approved_def accepting_def
        find_case_None image_iff)
qed

subsection \<open>Invariant\<close>

definition judgment_ok :: "change \<Rightarrow> judgment_rec \<Rightarrow> bool" where
  "judgment_ok c j \<longleftrightarrow> jg_ID j \<noteq> '''' \<and> judgment_decision_known (jg_Decision j) \<and> Actor_Validate (jg_By j) = None \<and>
     (IsAgent (jg_By j) \<longrightarrow> ch_Kind c \<noteq> KindHarness \<and> ch_AutonomyApplied c \<ge> L1) \<and>
     (\<not> Impact_Empty (ch_Impact c) \<longrightarrow> jg_Reason j \<noteq> '''')"

text \<open>What is fixed when the change is opened.\<close>

definition change_opened_ok :: "change \<Rightarrow> bool" where
  "change_opened_ok c \<longleftrightarrow> ch_ID c \<noteq> '''' \<and> ch_Kind c \<in> {KindRealization, KindHarness} \<and>
     change_mode_known (ch_Mode c) \<and> (ch_IntentRef c \<noteq> '''' \<or> ch_NoIntent c) \<and>
     ParseAnchors_error (im_Anchors (ch_Impact c)) = None \<and>
     (ch_Kind c = KindHarness \<longrightarrow> ch_AutonomyApplied c = L0) \<and>
     (ch_Mode c = ModeAutonomous \<longrightarrow> ch_Kind c = KindRealization \<and> ch_AutonomyApplied c \<ge> L2)"

text \<open>What each state of the lifecycle says about judgments, deployment and outcome.\<close>

definition change_state_ok :: "change \<Rightarrow> bool" where
  "change_state_ok c \<longleftrightarrow>
     (case ch_State c of
        StateNone \<Rightarrow> True
      | StateProposed \<Rightarrow> ch_Judgments c = [] \<and> ch_Deployment c = None \<and> ch_Outcome c = None \<and> ch_Derived c = []
      | StateJudged \<Rightarrow> ch_Judgments c \<noteq> [] \<and> ch_Deployment c = None \<and> ch_Outcome c = None \<and> ch_Derived c = []
      | StateDeployed \<Rightarrow> ch_Deployment c \<noteq> None \<and> ch_Outcome c = None \<and> ch_Derived c = [] \<and>
          (Impact_Empty (ch_Impact c) \<or> approved c)
      | StateObserved \<Rightarrow> ch_Deployment c \<noteq> None \<and> ch_Outcome c \<noteq> None \<and> ch_Derived c = [] \<and>
          (Impact_Empty (ch_Impact c) \<or> approved c)
      | StateSettled \<Rightarrow>
          (if Impact_Empty (ch_Impact c) then ch_Derived c = []
           else ch_Deployment c \<noteq> None \<and> approved c))"

definition change_inv :: "change \<Rightarrow> bool" where
  "change_inv c \<longleftrightarrow> (ch_State c = StateNone \<longrightarrow> c = zero_change) \<and>
     (ch_State c \<noteq> StateNone \<longrightarrow> change_opened_ok c \<and> list_all (judgment_ok c) (ch_Judgments c) \<and>
        distinct (map jg_ID (ch_Judgments c)) \<and> change_state_ok c)"

lemma change_open_inv:
  assumes "change_open c m ctx = Inr es"
  shows "change_inv (Replay Change_Apply c es)"
  using assms
  by (auto simp: change_open_def change_inv_def change_opened_ok_def change_state_ok_def zero_change_def Let_def
      split: option.splits if_splits)

lemma approved_cong:
  assumes "ch_Judgments c' = ch_Judgments c" "ch_Kind c' = ch_Kind c" "ch_AutonomyApplied c' = ch_AutonomyApplied c"
  shows "approved c' = approved c"
  using assms by (simp add: approved_def accepting_def)

lemma approved_updates [simp]:
  "approved (c\<lparr>ch_Deployment := d, ch_State := s\<rparr>) = approved c"
  "approved (c\<lparr>ch_Outcome := out, ch_State := s\<rparr>) = approved c"
  "approved (c\<lparr>ch_Derived := ds, ch_State := s, ch_SettledAt := t\<rparr>) = approved c"
  by (rule approved_cong; simp)+

lemma judgment_ok_updates [simp]:
  "judgment_ok (c\<lparr>ch_Deployment := d, ch_State := s\<rparr>) = judgment_ok c"
  "judgment_ok (c\<lparr>ch_Outcome := out, ch_State := s\<rparr>) = judgment_ok c"
  "judgment_ok (c\<lparr>ch_Derived := ds, ch_State := s, ch_SettledAt := t\<rparr>) = judgment_ok c"
  "judgment_ok (c\<lparr>ch_Proposals := ps\<rparr>) = judgment_ok c"
  "judgment_ok (c\<lparr>ch_Judgments := js, ch_State := s\<rparr>) = judgment_ok c"
  by (simp_all add: judgment_ok_def fun_eq_iff)

lemma change_opened_ok_updates [simp]:
  "change_opened_ok (c\<lparr>ch_Deployment := d, ch_State := s\<rparr>) = change_opened_ok c"
  "change_opened_ok (c\<lparr>ch_Outcome := out, ch_State := s\<rparr>) = change_opened_ok c"
  "change_opened_ok (c\<lparr>ch_Derived := ds, ch_State := s, ch_SettledAt := t\<rparr>) = change_opened_ok c"
  "change_opened_ok (c\<lparr>ch_Proposals := ps\<rparr>) = change_opened_ok c"
  "change_opened_ok (c\<lparr>ch_Judgments := js, ch_State := s\<rparr>) = change_opened_ok c"
  by (simp_all add: change_opened_ok_def)

text \<open>When each operation succeeds, and with which event.\<close>

lemma change_addProposal_Inr:
  "change_addProposal c m = Inr es \<longleftrightarrow>
     (ch_State c = StateProposed \<or> ch_State c = StateJudged) \<and> pr_Ref (ap_Proposal m) \<noteq> '''' \<and>
     Actor_Validate (pr_Actor (ap_Proposal m)) = None \<and>
     es = [ProposalAdded \<lparr>pa_ID = ch_ID c, pa_Proposal = ap_Proposal m\<rparr>]"
  unfolding change_addProposal_def by (auto split: option.split)

lemma change_judge_Inr:
  "change_judge c m ctx = Inr es \<longleftrightarrow>
     (ch_State c = StateProposed \<or> ch_State c = StateJudged) \<and> judgment_ok c (ju_Judgment m) \<and>
     jg_ID (ju_Judgment m) \<notin> jg_ID ` set (ch_Judgments c) \<and>
     es = [Judged \<lparr>jd_ID = ch_ID c, jd_Judgment = ju_Judgment m\<rparr>]"
proof -
  have dup: "list_ex (\<lambda>prev. jg_ID prev = jg_ID (ju_Judgment m)) (ch_Judgments c) \<longleftrightarrow>
      jg_ID (ju_Judgment m) \<in> jg_ID ` set (ch_Judgments c)"
    by (simp add: list_ex_iff image_iff) metis
  show ?thesis
    unfolding change_judge_def judgment_ok_def Let_def dup
    by (simp add: not_less split: option.split) blast
qed

lemma change_deploy_Inr:
  "change_deploy c m ctx = Inr es \<longleftrightarrow>
     dy_Ref m \<noteq> '''' \<and>
     (ch_State c = StateJudged \<and> judgmentsAllow c ctx = None \<or>
      ch_State c = StateProposed \<and> Impact_Empty (ch_Impact c)) \<and>
     es = [Deployed \<lparr>dl_ID = ch_ID c, dl_Deployment = \<lparr>dp_Ref = dy_Ref m, dp_At = Now ctx\<rparr>\<rparr>]"
  unfolding change_deploy_def by (cases "ch_State c") (auto split: option.splits)

lemma change_recordOutcome_Inr:
  "change_recordOutcome c m ctx = Inr es \<longleftrightarrow>
     ch_State c = StateDeployed \<and> outcome_verdict_known (oc_Verdict (ro_Outcome m)) \<and>
     es = [OutcomeRecorded \<lparr>or_ID = ch_ID c, or_Outcome = (ro_Outcome m)
            \<lparr>oc_At := if oc_At (ro_Outcome m) = 0 then Now ctx else oc_At (ro_Outcome m)\<rparr>\<rparr>]"
  unfolding change_recordOutcome_def Let_def by auto

lemma change_settle_Inr:
  "change_settle c m ctx = Inr es \<longleftrightarrow>
     (if Impact_Empty (ch_Impact c)
      then ch_State c \<noteq> StateNone \<and> ch_State c \<noteq> StateSettled \<and> st_Derived m = [] \<and>
        es = [Settled \<lparr>se_ID = ch_ID c, se_Derived = [], se_At = Now ctx\<rparr>]
      else (ch_State c = StateObserved \<or>
            ch_State c = StateDeployed \<and>
              (\<exists>d. ch_Deployment c = Some d \<and> dp_At d + OutcomeWindow (Policy ctx) \<le> Now ctx)) \<and>
        judgmentsAllow c ctx = None \<and> (IsAgent (Actor ctx) \<longrightarrow> ch_AutonomyApplied c \<ge> L2) \<and>
        es = [Settled \<lparr>se_ID = ch_ID c, se_Derived = st_Derived m, se_At = Now ctx\<rparr>])"
  unfolding change_settle_def by (cases "ch_State c") (auto split: option.splits)

lemma change_addProposal_inv:
  assumes "change_inv c" "change_addProposal c m = Inr es"
  shows "change_inv (Replay Change_Apply c es)"
  using assms by (auto simp: change_addProposal_Inr change_inv_def change_state_ok_def)

lemma change_judge_inv:
  assumes "change_inv c" "change_judge c m ctx = Inr es"
  shows "change_inv (Replay Change_Apply c es)"
  using assms by (auto simp: change_judge_Inr change_inv_def change_state_ok_def)

lemma change_deploy_inv:
  assumes "change_inv c" "change_deploy c m ctx = Inr es"
  shows "change_inv (Replay Change_Apply c es)"
  using assms by (auto simp: change_deploy_Inr change_inv_def change_state_ok_def judgmentsAllow_iff)

lemma change_recordOutcome_inv:
  assumes "change_inv c" "change_recordOutcome c m ctx = Inr es"
  shows "change_inv (Replay Change_Apply c es)"
  using assms by (simp add: change_recordOutcome_Inr change_inv_def change_state_ok_def)

lemma change_settle_inv:
  assumes "change_inv c" "change_settle c m ctx = Inr es"
  shows "change_inv (Replay Change_Apply c es)"
proof (cases "Impact_Empty (ch_Impact c)")
  case True
  with assms show ?thesis
    by (simp add: change_settle_Inr change_inv_def change_state_ok_def)
next
  case False
  with assms show ?thesis
    by (auto simp: change_settle_Inr change_inv_def change_state_ok_def judgmentsAllow_iff)
qed

lemma Change_decide_inv:
  assumes "change_inv c" and "Change_Decide c cmd ctx = Inr es"
  shows "change_inv (Replay Change_Apply c es)"
  using assms
  by (cases cmd)
     (auto intro: change_open_inv change_addProposal_inv change_judge_inv change_deploy_inv
        change_recordOutcome_inv change_settle_inv)

interpretation change_agg: aggregate Change_Decide Change_Apply zero_change change_inv
  by unfold_locales (auto simp: Change_decide_inv, simp add: zero_change_def change_inv_def)

end
