(* ===== verification/Gate.thy ===== *)
theory Gate
  imports Scope_Key Anchor_Key
begin

section \<open>The Gate aggregate\<close>

text \<open>
  \<^verbatim>\<open>internal/core/accountability/gate.go\<close>: an agent asks before it acts; the
  broker's policy answers allow, deny or ask; a human resolves an open gate
  before it expires.
\<close>

subsection \<open>Data\<close>

datatype gate_decision = GateAllow | GateDeny | GateAsk | GateDecisionOther string

datatype gate_state = GateStateNone | GateStateDecided | GateStateOpen | GateStateResolved | GateStateExpired

fun gate_state_string :: "gate_state \<Rightarrow> string" where
  "gate_state_string GateStateNone = ''''"
| "gate_state_string GateStateDecided = ''decided''"
| "gate_state_string GateStateOpen = ''open''"
| "gate_state_string GateStateResolved = ''resolved''"
| "gate_state_string GateStateExpired = ''expired''"

record resolution =
  rs_Decision :: gate_decision
  rs_Reason :: string
  rs_By :: actor_ref
  rs_At :: go_time
  rs_Sig :: string

record gate =
  ga_ID :: ID
  ga_Actor :: actor_ref
  ga_Scope :: scope_key
  ga_Anchors :: "string list"
  ga_Action :: string
  ga_ProposalRef :: string
  ga_RequestedLevel :: level
  ga_Decision :: gate_decision
  ga_PolicyRef :: string
  ga_State :: gate_state
  ga_OpenedAt :: go_time
  ga_ExpiresAt :: go_time
  ga_Resolution :: "resolution option"

definition zero_gate :: gate where
  "zero_gate = \<lparr>ga_ID = '''', ga_Actor = \<lparr>ar_Kind = ActorKindOther '''', ar_ID = '''', ar_Key = '''', ar_Owner = ''''\<rparr>,
     ga_Scope = zero_scope_key, ga_Anchors = [], ga_Action = '''', ga_ProposalRef = '''', ga_RequestedLevel = 0,
     ga_Decision = GateDecisionOther '''', ga_PolicyRef = '''', ga_State = GateStateNone, ga_OpenedAt = 0,
     ga_ExpiresAt = 0, ga_Resolution = None\<rparr>"

definition GateStream :: "ID \<Rightarrow> string" where
  "GateStream i = ''gate/'' @ i"

text \<open>
  \<^verbatim>\<open>hex.EncodeToString\<close>, and the gate id: 13 bytes of the SHA-256 digest of the
  actor id, a zero byte and the proposal reference. The digest function is the
  argument \<open>H\<close>: what is proved of the gates holds for every digest.
\<close>

definition hex_encode :: "bytes \<Rightarrow> string" where
  "hex_encode bs = concat (map (\<lambda>c. [hex_digit (of_char c div 16), hex_digit (of_char c mod 16)]) bs)"

lemma hex_digit_inject: "d < 16 \<Longrightarrow> e < 16 \<Longrightarrow> hex_digit d = hex_digit e \<longleftrightarrow> d = e"
  by (auto simp: hex_digit_def char_of_eq_iff take_bit_nat_eq_self split: if_splits)

lemma hex_encode_inject: "hex_encode xs = hex_encode ys \<longleftrightarrow> xs = ys"
proof (induction xs arbitrary: ys)
  case (Cons x xs)
  show ?case
  proof (cases ys)
    case (Cons y zs)
    have "(of_char c :: nat) < 256" for c :: char
      by (metis mod_less_divisor of_char_mod_256 zero_less_numeral)
    then have "of_char c div 16 < (16 :: nat)" for c :: char
      by (simp add: less_mult_imp_div_less)
    then have "[hex_digit (of_char x div 16), hex_digit (of_char x mod 16)] = [hex_digit (of_char y div 16), hex_digit (of_char y mod 16)] \<longleftrightarrow> x = y"
      by (simp add: hex_digit_inject) (metis div_mult_mod_eq of_char_eq_iff)
    then show ?thesis
      using Cons Cons.IH [of zs] by (auto simp: hex_encode_def)
  qed (simp add: hex_encode_def)
qed (auto simp: hex_encode_def)

definition GateIDFor :: "(bytes \<Rightarrow> bytes) \<Rightarrow> actor_ref \<Rightarrow> string \<Rightarrow> ID" where
  "GateIDFor H actor proposalRef =
     ''gate-'' @ hex_encode (take 13 (H (ar_ID actor @ [CHR 0x00] @ proposalRef)))"

subsection \<open>Commands and events\<close>

record gate_cmd =
  gc_ID :: ID
  gc_Idem :: string

definition NewGateCmd :: "ID \<Rightarrow> string \<Rightarrow> gate_cmd" where
  "NewGateCmd i idem = \<lparr>gc_ID = i, gc_Idem = idem\<rparr>"

record request_gate =
  rg_Cmd :: gate_cmd
  rg_Actor :: actor_ref
  rg_Scope :: scope_key
  rg_Anchors :: "string list"
  rg_Action :: string
  rg_ProposalRef :: string
  rg_RequestedLevel :: level

record resolve_gate =
  rv_Cmd :: gate_cmd
  rv_Resolution :: resolution

datatype gate_command = RequestGate request_gate | ResolveGate resolve_gate | ExpireGate gate_cmd

fun Gate_cmd_part :: "gate_command \<Rightarrow> gate_cmd" where
  "Gate_cmd_part (RequestGate m) = rg_Cmd m"
| "Gate_cmd_part (ResolveGate m) = rv_Cmd m"
| "Gate_cmd_part (ExpireGate m) = m"

fun Gate_cmd_Kind :: "gate_command \<Rightarrow> string" where
  "Gate_cmd_Kind (RequestGate _) = ''RequestGate''"
| "Gate_cmd_Kind (ResolveGate _) = ''ResolveGate''"
| "Gate_cmd_Kind (ExpireGate _) = ''ExpireGate''"

record gate_decided =
  gd_ID :: ID
  gd_Actor :: actor_ref
  gd_Scope :: scope_key
  gd_Anchors :: "string list"
  gd_Action :: string
  gd_ProposalRef :: string
  gd_RequestedLevel :: level
  gd_Decision :: gate_decision
  gd_PolicyRef :: string
  gd_At :: go_time

record gate_opened =
  go_ID :: ID
  go_Actor :: actor_ref
  go_Scope :: scope_key
  go_Anchors :: "string list"
  go_Action :: string
  go_ProposalRef :: string
  go_RequestedLevel :: level
  go_PolicyRef :: string
  go_At :: go_time
  go_ExpiresAt :: go_time

record gate_resolved =
  gr_ID :: ID
  gr_Resolution :: resolution

record gate_expired =
  ge_ID :: ID
  ge_At :: go_time

datatype gate_event = GateDecided gate_decided | GateOpened gate_opened | GateResolved gate_resolved
  | GateExpired gate_expired

fun Gate_event_Kind :: "gate_event \<Rightarrow> string \<times> nat" where
  "Gate_event_Kind (GateDecided _) = (''GateDecided'', 1)"
| "Gate_event_Kind (GateOpened _) = (''GateOpened'', 1)"
| "Gate_event_Kind (GateResolved _) = (''GateResolved'', 1)"
| "Gate_event_Kind (GateExpired _) = (''GateExpired'', 1)"

subsection \<open>Decide\<close>

definition gate_policy :: "decide_context \<Rightarrow> level \<Rightarrow> gate_decision \<times> string" where
  "gate_policy ctx requested =
     (if requested > Cap ctx
        then (GateDeny, ''cap:'' @ Level_String (Cap ctx) @ ''<requested:'' @ Level_String requested)
      else if length (Judges ctx) > 0 then (GateAsk, ''ownership:other-owner'')
      else if requested \<le> Autonomy ctx
        then (GateAllow, ''autonomy:'' @ Level_String (Autonomy ctx) @ ''>=requested:'' @ Level_String requested)
      else (GateAsk, ''autonomy:'' @ Level_String (Autonomy ctx) @ ''<requested:'' @ Level_String requested))"

definition gate_request :: "gate \<Rightarrow> request_gate \<Rightarrow> decide_context \<Rightarrow> rejection + gate_event list" where
  [decide_defs]: "gate_request g m ctx =
     (if ga_State g \<noteq> GateStateNone then Inr []
      else if ID_IsZero (gc_ID (rg_Cmd m)) then Inl (Reject ''invalid'' ''gate id required'' [])
      else case Actor_Validate (rg_Actor m) of
        Some err \<Rightarrow> Inl (Reject ''invalid'' ''%v'' [err])
      | None \<Rightarrow>
        if \<not> IsAgent (rg_Actor m) then Inl (Reject ''agent-only'' ''gates are asked by agents'' [])
        else case ScopeKey_Validate (rg_Scope m) of
          Some err \<Rightarrow> Inl (Reject ''invalid'' ''%v'' [err])
        | None \<Rightarrow>
          if rg_ProposalRef m = '''' then Inl (Reject ''invalid'' ''proposal ref required'' [])
          else if \<not> Level_Valid (rg_RequestedLevel m) then Inl (Reject ''invalid'' ''invalid requested level'' [])
          else case ParseAnchors_error (rg_Anchors m) of
            Some err \<Rightarrow> Inl (Reject ''invalid'' ''%v'' [err])
          | None \<Rightarrow>
            (case gate_policy ctx (rg_RequestedLevel m) of (decision, ref) \<Rightarrow>
              if decision = GateAsk
              then Inr [GateOpened \<lparr>go_ID = gc_ID (rg_Cmd m), go_Actor = rg_Actor m, go_Scope = rg_Scope m,
                     go_Anchors = rg_Anchors m, go_Action = rg_Action m, go_ProposalRef = rg_ProposalRef m,
                     go_RequestedLevel = rg_RequestedLevel m, go_PolicyRef = ref, go_At = Now ctx,
                     go_ExpiresAt = Now ctx + GateTTL (Policy ctx)\<rparr>]
              else Inr [GateDecided \<lparr>gd_ID = gc_ID (rg_Cmd m), gd_Actor = rg_Actor m, gd_Scope = rg_Scope m,
                     gd_Anchors = rg_Anchors m, gd_Action = rg_Action m, gd_ProposalRef = rg_ProposalRef m,
                     gd_RequestedLevel = rg_RequestedLevel m, gd_Decision = decision, gd_PolicyRef = ref,
                     gd_At = Now ctx\<rparr>]))"

definition gate_resolve :: "gate \<Rightarrow> resolve_gate \<Rightarrow> decide_context \<Rightarrow> rejection + gate_event list" where
  [decide_defs]: "gate_resolve g m ctx =
     (if ga_State g = GateStateNone then Inl (Reject ''not-found'' ''gate does not exist'' [])
      else if ga_State g \<noteq> GateStateOpen
        then Inl (Reject ''bad-state'' ''gate is %s'' [gate_state_string (ga_State g)])
      else let r = rv_Resolution m in
        if rs_Decision r \<noteq> GateAllow \<and> rs_Decision r \<noteq> GateDeny
          then Inl (Reject ''invalid'' ''resolution is allow or deny'' [])
        else case Actor_Validate (rs_By r) of
          Some err \<Rightarrow> Inl (Reject ''invalid'' ''%v'' [err])
        | None \<Rightarrow>
          if \<not> IsHuman (rs_By r) then Inl (Reject ''human-only'' ''a gate is resolved by a human'' [])
          else if length (Judges ctx) > 0 \<and> \<not> RequiresJudge ctx (ar_ID (rs_By r))
            then Inl (Reject ''not-a-judge'' ''only a judge of the scope resolves this gate'' [])
          else if rs_Reason r = '''' then Inl (Reject ''no-reason'' ''a resolution carries a reason'' [])
          else if \<not> (Now ctx < ga_ExpiresAt g)
            then Inl (Reject ''expired'' ''gate expired at %s'' [Itoa (ga_ExpiresAt g)])
          else Inr [GateResolved \<lparr>gr_ID = ga_ID g,
                 gr_Resolution = (if rs_At r = 0 then r\<lparr>rs_At := Now ctx\<rparr> else r)\<rparr>])"

definition gate_expire :: "gate \<Rightarrow> decide_context \<Rightarrow> rejection + gate_event list" where
  [decide_defs]: "gate_expire g ctx =
     (if ga_State g = GateStateNone then Inl (Reject ''not-found'' ''gate does not exist'' [])
      else if ga_State g \<noteq> GateStateOpen then Inr []
      else if Now ctx < ga_ExpiresAt g
        then Inl (Reject ''not-yet'' ''gate expires at %s'' [Itoa (ga_ExpiresAt g)])
      else Inr [GateExpired \<lparr>ge_ID = ga_ID g, ge_At = Now ctx\<rparr>])"

fun Gate_Decide :: "gate \<Rightarrow> gate_command \<Rightarrow> decide_context \<Rightarrow> rejection + gate_event list" where
  "Gate_Decide g (RequestGate m) ctx = gate_request g m ctx"
| "Gate_Decide g (ResolveGate m) ctx = gate_resolve g m ctx"
| "Gate_Decide g (ExpireGate m) ctx = gate_expire g ctx"

subsection \<open>Apply\<close>

fun Gate_Apply :: "gate \<Rightarrow> gate_event \<Rightarrow> gate" where
  "Gate_Apply g (GateDecided v) =
     zero_gate\<lparr>ga_ID := gd_ID v, ga_Actor := gd_Actor v, ga_Scope := gd_Scope v, ga_Anchors := gd_Anchors v,
       ga_Action := gd_Action v, ga_ProposalRef := gd_ProposalRef v, ga_RequestedLevel := gd_RequestedLevel v,
       ga_Decision := gd_Decision v, ga_PolicyRef := gd_PolicyRef v, ga_State := GateStateDecided,
       ga_OpenedAt := gd_At v\<rparr>"
| "Gate_Apply g (GateOpened v) =
     zero_gate\<lparr>ga_ID := go_ID v, ga_Actor := go_Actor v, ga_Scope := go_Scope v, ga_Anchors := go_Anchors v,
       ga_Action := go_Action v, ga_ProposalRef := go_ProposalRef v, ga_RequestedLevel := go_RequestedLevel v,
       ga_Decision := GateAsk, ga_PolicyRef := go_PolicyRef v, ga_State := GateStateOpen,
       ga_OpenedAt := go_At v, ga_ExpiresAt := go_ExpiresAt v\<rparr>"
| "Gate_Apply g (GateResolved v) =
     g\<lparr>ga_Resolution := Some (gr_Resolution v), ga_Decision := rs_Decision (gr_Resolution v),
       ga_State := GateStateResolved\<rparr>"
| "Gate_Apply g (GateExpired v) = g\<lparr>ga_State := GateStateExpired\<rparr>"

subsection \<open>When each operation succeeds\<close>

lemma gate_policy_spec:
  "fst (gate_policy ctx r) =
     (if r > Cap ctx then GateDeny else if Judges ctx = [] \<and> r \<le> Autonomy ctx then GateAllow else GateAsk)"
  by (simp add: gate_policy_def)

definition gate_request_ok :: "request_gate \<Rightarrow> bool" where
  "gate_request_ok m \<longleftrightarrow> gc_ID (rg_Cmd m) \<noteq> '''' \<and> Actor_Validate (rg_Actor m) = None \<and> IsAgent (rg_Actor m) \<and>
     ScopeKey_Validate (rg_Scope m) = None \<and> rg_ProposalRef m \<noteq> '''' \<and> Level_Valid (rg_RequestedLevel m) \<and>
     ParseAnchors_error (rg_Anchors m) = None"

lemma gate_request_Inr:
  "gate_request g m ctx = Inr es \<longleftrightarrow>
     (if ga_State g \<noteq> GateStateNone then es = []
      else gate_request_ok m \<and>
        (case gate_policy ctx (rg_RequestedLevel m) of (decision, ref) \<Rightarrow>
           es = (if decision = GateAsk
              then [GateOpened \<lparr>go_ID = gc_ID (rg_Cmd m), go_Actor = rg_Actor m, go_Scope = rg_Scope m,
                     go_Anchors = rg_Anchors m, go_Action = rg_Action m, go_ProposalRef = rg_ProposalRef m,
                     go_RequestedLevel = rg_RequestedLevel m, go_PolicyRef = ref, go_At = Now ctx,
                     go_ExpiresAt = Now ctx + GateTTL (Policy ctx)\<rparr>]
              else [GateDecided \<lparr>gd_ID = gc_ID (rg_Cmd m), gd_Actor = rg_Actor m, gd_Scope = rg_Scope m,
                     gd_Anchors = rg_Anchors m, gd_Action = rg_Action m, gd_ProposalRef = rg_ProposalRef m,
                     gd_RequestedLevel = rg_RequestedLevel m, gd_Decision = decision, gd_PolicyRef = ref,
                     gd_At = Now ctx\<rparr>])))"
  unfolding gate_request_def gate_request_ok_def by (auto split: option.split)

lemma gate_resolve_Inr:
  "gate_resolve g m ctx = Inr es \<longleftrightarrow>
     ga_State g = GateStateOpen \<and> rs_Decision (rv_Resolution m) \<in> {GateAllow, GateDeny} \<and>
     Actor_Validate (rs_By (rv_Resolution m)) = None \<and> IsHuman (rs_By (rv_Resolution m)) \<and>
     (Judges ctx \<noteq> [] \<longrightarrow> ar_ID (rs_By (rv_Resolution m)) \<in> set (Judges ctx)) \<and>
     rs_Reason (rv_Resolution m) \<noteq> '''' \<and> Now ctx < ga_ExpiresAt g \<and>
     es = [GateResolved \<lparr>gr_ID = ga_ID g, gr_Resolution = (rv_Resolution m)
            \<lparr>rs_At := if rs_At (rv_Resolution m) = 0 then Now ctx else rs_At (rv_Resolution m)\<rparr>\<rparr>]"
  unfolding gate_resolve_def Let_def by (auto split: option.split)

lemma gate_expire_Inr:
  "gate_expire g ctx = Inr es \<longleftrightarrow>
     ga_State g \<noteq> GateStateNone \<and>
     (if ga_State g = GateStateOpen
      then ga_ExpiresAt g \<le> Now ctx \<and> es = [GateExpired \<lparr>ge_ID = ga_ID g, ge_At = Now ctx\<rparr>]
      else es = [])"
  unfolding gate_expire_def by auto

lemmas gate_ops_Inr = gate_request_Inr gate_resolve_Inr gate_expire_Inr

subsection \<open>Invariant\<close>

definition gate_state_ok :: "gate \<Rightarrow> bool" where
  "gate_state_ok g \<longleftrightarrow>
     (case ga_State g of
        GateStateNone \<Rightarrow> True
      | GateStateDecided \<Rightarrow> ga_Decision g \<in> {GateAllow, GateDeny} \<and> ga_Resolution g = None
      | GateStateOpen \<Rightarrow> ga_Decision g = GateAsk \<and> ga_Resolution g = None
      | GateStateExpired \<Rightarrow> ga_Decision g = GateAsk \<and> ga_Resolution g = None
      | GateStateResolved \<Rightarrow>
          (\<exists>r. ga_Resolution g = Some r \<and> ga_Decision g = rs_Decision r \<and> rs_Decision r \<in> {GateAllow, GateDeny} \<and>
             IsHuman (rs_By r) \<and> Actor_Validate (rs_By r) = None \<and> rs_Reason r \<noteq> ''''))"

definition gate_asked_ok :: "gate \<Rightarrow> bool" where
  "gate_asked_ok g \<longleftrightarrow> ga_ID g \<noteq> '''' \<and> Actor_Validate (ga_Actor g) = None \<and> IsAgent (ga_Actor g) \<and>
     ScopeKey_Validate (ga_Scope g) = None \<and> ga_ProposalRef g \<noteq> '''' \<and> Level_Valid (ga_RequestedLevel g) \<and>
     ParseAnchors_error (ga_Anchors g) = None"

definition gate_inv :: "gate \<Rightarrow> bool" where
  "gate_inv g \<longleftrightarrow> (ga_State g = GateStateNone \<longrightarrow> g = zero_gate) \<and>
     (ga_State g \<noteq> GateStateNone \<longrightarrow> gate_asked_ok g \<and> gate_state_ok g)"

lemma gate_request_inv:
  assumes "gate_inv g" "gate_request g m ctx = Inr es"
  shows "gate_inv (Replay Gate_Apply g es)"
proof (cases "ga_State g = GateStateNone")
  case True
  then show ?thesis
    using assms
    by (auto simp: gate_request_Inr gate_request_ok_def gate_inv_def gate_asked_ok_def gate_state_ok_def
        gate_policy_def zero_gate_def split: if_splits)
qed (use assms in \<open>simp add: gate_request_Inr\<close>)

lemma gate_resolve_inv:
  assumes "gate_inv g" "gate_resolve g m ctx = Inr es"
  shows "gate_inv (Replay Gate_Apply g es)"
  using assms by (auto simp: gate_resolve_Inr gate_inv_def gate_asked_ok_def gate_state_ok_def)

lemma gate_expire_inv:
  assumes "gate_inv g" "gate_expire g ctx = Inr es"
  shows "gate_inv (Replay Gate_Apply g es)"
proof (cases "ga_State g = GateStateOpen")
  case True
  then show ?thesis
    using assms by (simp add: gate_expire_Inr gate_inv_def gate_asked_ok_def gate_state_ok_def)
qed (use assms in \<open>simp add: gate_expire_Inr\<close>)

lemma Gate_decide_inv:
  assumes "gate_inv g" and "Gate_Decide g c ctx = Inr es"
  shows "gate_inv (Replay Gate_Apply g es)"
  using assms by (cases c) (auto intro: gate_request_inv gate_resolve_inv gate_expire_inv)

interpretation gate_agg: aggregate Gate_Decide Gate_Apply zero_gate gate_inv
  by unfold_locales (auto simp: Gate_decide_inv, simp add: zero_gate_def gate_inv_def)

end
