(* ===== verification/Session.thy ===== *)
theory Session
  imports Core_Types
begin

section \<open>The Session aggregate\<close>

text \<open>
  \<^verbatim>\<open>internal/core/accountability/session.go\<close>: the personal record of a tool
  session, its classified turns, the files they touched and the judgment
  candidates extracted from redirect and revert turns.
\<close>

subsection \<open>Data\<close>

datatype turn_class = TurnAccept | TurnRedirect | TurnRevert | TurnClassOther string

fun turn_class_string :: "turn_class \<Rightarrow> string" where
  "turn_class_string TurnAccept = ''accept''"
| "turn_class_string TurnRedirect = ''redirect''"
| "turn_class_string TurnRevert = ''revert''"
| "turn_class_string (TurnClassOther s) = s"

record turn =
  tn_Seq :: int
  tn_Class :: turn_class
  tn_Files :: "string list"
  tn_Signal :: string
  tn_At :: go_time

record session_judgment =
  sj_Turn :: int
  sj_Class :: turn_class
  sj_Files :: "string list"
  sj_Signal :: string
  sj_At :: go_time

datatype session_state = SessionStateNone | SessionStateOpen | SessionStateEnded | SessionStateShared

fun session_state_string :: "session_state \<Rightarrow> string" where
  "session_state_string SessionStateNone = ''''"
| "session_state_string SessionStateOpen = ''open''"
| "session_state_string SessionStateEnded = ''ended''"
| "session_state_string SessionStateShared = ''shared''"

record session =
  ss_ID :: string
  ss_Tool :: string
  ss_Repo :: string
  ss_Agent :: actor_ref
  ss_Owner :: ID
  ss_State :: session_state
  ss_StartedAt :: go_time
  ss_EndedAt :: go_time
  ss_Reason :: string
  ss_Turns :: "turn list"
  ss_Touched :: "string list"
  ss_Judgments :: "session_judgment list"
  ss_Summary :: string
  ss_Shared :: "string list"

definition zero_session :: session where
  "zero_session = \<lparr>ss_ID = '''', ss_Tool = '''', ss_Repo = '''',
     ss_Agent = \<lparr>ar_Kind = ActorKindOther '''', ar_ID = '''', ar_Key = '''', ar_Owner = ''''\<rparr>, ss_Owner = '''',
     ss_State = SessionStateNone, ss_StartedAt = 0, ss_EndedAt = 0, ss_Reason = '''', ss_Turns = [],
     ss_Touched = [], ss_Judgments = [], ss_Summary = '''', ss_Shared = []\<rparr>"

definition SessionStream :: "string \<Rightarrow> string \<Rightarrow> string" where
  "SessionStream tool i = ''session/'' @ tool @ ''/'' @ i"

subsection \<open>Commands and events\<close>

record session_cmd =
  sm_Tool :: string
  sm_ID :: string
  sm_Idem :: string

record start_session =
  sn_Cmd :: session_cmd
  sn_Repo :: string
  sn_Agent :: actor_ref

record record_turn =
  rn_Cmd :: session_cmd
  rn_Class :: turn_class
  rn_Files :: "string list"
  rn_Signal :: string

record end_session =
  en_Cmd :: session_cmd
  en_Reason :: string
  en_Summary :: string

record share_session =
  sh_Cmd :: session_cmd
  sh_Parts :: "string list"

datatype session_command = StartSession start_session | RecordTurn record_turn | EndSession end_session
  | ShareSession share_session

fun Session_cmd_part :: "session_command \<Rightarrow> session_cmd" where
  "Session_cmd_part (StartSession m) = sn_Cmd m"
| "Session_cmd_part (RecordTurn m) = rn_Cmd m"
| "Session_cmd_part (EndSession m) = en_Cmd m"
| "Session_cmd_part (ShareSession m) = sh_Cmd m"

fun Session_cmd_Kind :: "session_command \<Rightarrow> string" where
  "Session_cmd_Kind (StartSession _) = ''StartSession''"
| "Session_cmd_Kind (RecordTurn _) = ''RecordTurn''"
| "Session_cmd_Kind (EndSession _) = ''EndSession''"
| "Session_cmd_Kind (ShareSession _) = ''ShareSession''"

record session_started =
  s1_ID :: string
  s1_Tool :: string
  s1_Repo :: string
  s1_Agent :: actor_ref
  s1_At :: go_time

record turn_recorded =
  tr_ID :: string
  tr_Turn :: turn

record session_ended =
  s2_ID :: string
  s2_Reason :: string
  s2_Summary :: string
  s2_At :: go_time

record session_shared =
  s3_ID :: string
  s3_Parts :: "string list"
  s3_At :: go_time

datatype session_event = SessionStarted session_started | TurnRecorded turn_recorded
  | SessionEnded session_ended | SessionShared session_shared

fun Session_event_Kind :: "session_event \<Rightarrow> string \<times> nat" where
  "Session_event_Kind (SessionStarted _) = (''SessionStarted'', 1)"
| "Session_event_Kind (TurnRecorded _) = (''TurnRecorded'', 1)"
| "Session_event_Kind (SessionEnded _) = (''SessionEnded'', 1)"
| "Session_event_Kind (SessionShared _) = (''SessionShared'', 1)"

subsection \<open>Helpers\<close>

text \<open>The loop of \<^verbatim>\<open>itoa\<close>: a digit is put in front while \<open>n > 0\<close>.\<close>

function itoa_loop :: "int \<Rightarrow> bytes \<Rightarrow> bytes" where
  "itoa_loop n b = (if n > 0 then itoa_loop (n div 10) ([char_of (48 + nat (n mod 10))] @ b) else b)"
  by auto
termination
  by (relation "measure (\<lambda>(n, b). nat n)") auto

declare itoa_loop.simps [simp del]

definition itoa :: "int \<Rightarrow> string" where
  "itoa n = (if n = 0 then ''0'' else itoa_loop n [])"

definition fallbackSummary :: "session \<Rightarrow> string" where
  "fallbackSummary s = ss_Tool s @ '' session: '' @ itoa (int (length (ss_Turns s))) @ '' turns, '' @
     itoa (int (length (ss_Touched s))) @ '' files, '' @ itoa (int (length (ss_Judgments s))) @ '' judgment candidates''"

fun containsStr :: "string list \<Rightarrow> string \<Rightarrow> bool" where
  "containsStr [] x = False"
| "containsStr (s # list) x = (if s = x then True else containsStr list x)"

lemma containsStr_iff [simp]: "containsStr list x \<longleftrightarrow> x \<in> set list"
  by (induction list) auto

subsection \<open>Decide and Apply\<close>

definition turn_class_known :: "turn_class \<Rightarrow> bool" where
  "turn_class_known c \<longleftrightarrow> c \<in> {TurnAccept, TurnRedirect, TurnRevert}"

fun Session_Decide :: "session \<Rightarrow> session_command \<Rightarrow> decide_context \<Rightarrow> rejection + session_event list" where
  "Session_Decide s (StartSession m) ctx =
     (if ss_State s \<noteq> SessionStateNone then Inr []
      else if sm_ID (sn_Cmd m) = '''' \<or> sm_Tool (sn_Cmd m) = ''''
        then Inl (Reject ''invalid'' ''session id and tool required'' [])
      else if Actor_Validate (sn_Agent m) \<noteq> None \<or> \<not> IsAgent (sn_Agent m)
        then Inl (Reject ''invalid'' ''a session is run by an agent actor with an owner'' [])
      else Inr [SessionStarted \<lparr>s1_ID = sm_ID (sn_Cmd m), s1_Tool = sm_Tool (sn_Cmd m), s1_Repo = sn_Repo m,
                  s1_Agent = sn_Agent m, s1_At = Now ctx\<rparr>])"
| "Session_Decide s (RecordTurn m) ctx =
     (if ss_State s \<noteq> SessionStateOpen
        then Inl (Reject ''bad-state'' ''session is %q'' [session_state_string (ss_State s)])
      else if \<not> turn_class_known (rn_Class m)
        then Inl (Reject ''invalid'' ''unknown turn class %q'' [turn_class_string (rn_Class m)])
      else Inr [TurnRecorded \<lparr>tr_ID = ss_ID s, tr_Turn = \<lparr>tn_Seq = int (length (ss_Turns s)) + 1, tn_Class = rn_Class m,
                  tn_Files = rn_Files m, tn_Signal = rn_Signal m, tn_At = Now ctx\<rparr>\<rparr>])"
| "Session_Decide s (EndSession m) ctx =
     (if ss_State s = SessionStateNone then Inl (Reject ''not-found'' ''session does not exist'' [])
      else if ss_State s \<noteq> SessionStateOpen then Inr []
      else Inr [SessionEnded \<lparr>s2_ID = ss_ID s, s2_Reason = en_Reason m,
                  s2_Summary = (if en_Summary m = '''' then fallbackSummary s else en_Summary m), s2_At = Now ctx\<rparr>])"
| "Session_Decide s (ShareSession m) ctx =
     (if ss_State s \<noteq> SessionStateEnded \<and> ss_State s \<noteq> SessionStateShared
        then Inl (Reject ''bad-state'' ''share an ended session'' [])
      else if \<not> IsHuman (Actor ctx) then Inl (Reject ''human-only'' ''sharing is the user's choice'' [])
      else case List.find (\<lambda>p. p \<noteq> ''summary'' \<and> p \<noteq> ''judgments'') (sh_Parts m) of
        Some p \<Rightarrow> Inl (Reject ''invalid'' ''unknown part %q'' [p])
      | None \<Rightarrow>
        if length (sh_Parts m) = 0 then Inl (Reject ''invalid'' ''nothing to share'' [])
        else Inr [SessionShared \<lparr>s3_ID = ss_ID s, s3_Parts = sh_Parts m, s3_At = Now ctx\<rparr>])"

fun touch :: "string list \<Rightarrow> string list \<Rightarrow> string list" where
  "touch touched [] = touched"
| "touch touched (f # fs) = touch (if \<not> containsStr touched f then touched @ [f] else touched) fs"

definition session_judgment_of :: "turn \<Rightarrow> session_judgment" where
  "session_judgment_of t = \<lparr>sj_Turn = tn_Seq t, sj_Class = tn_Class t, sj_Files = tn_Files t,
     sj_Signal = tn_Signal t, sj_At = tn_At t\<rparr>"

fun Session_Apply :: "session \<Rightarrow> session_event \<Rightarrow> session" where
  "Session_Apply s (SessionStarted v) =
     zero_session\<lparr>ss_ID := s1_ID v, ss_Tool := s1_Tool v, ss_Repo := s1_Repo v, ss_Agent := s1_Agent v,
       ss_Owner := ar_Owner (s1_Agent v), ss_State := SessionStateOpen, ss_StartedAt := s1_At v\<rparr>"
| "Session_Apply s (TurnRecorded v) =
     (let s' = s\<lparr>ss_Turns := ss_Turns s @ [tr_Turn v], ss_Touched := touch (ss_Touched s) (tn_Files (tr_Turn v))\<rparr>
      in if tn_Class (tr_Turn v) = TurnRedirect \<or> tn_Class (tr_Turn v) = TurnRevert
         then s'\<lparr>ss_Judgments := ss_Judgments s' @ [session_judgment_of (tr_Turn v)]\<rparr> else s')"
| "Session_Apply s (SessionEnded v) =
     s\<lparr>ss_State := SessionStateEnded, ss_EndedAt := s2_At v, ss_Reason := s2_Reason v, ss_Summary := s2_Summary v\<rparr>"
| "Session_Apply s (SessionShared v) = s\<lparr>ss_State := SessionStateShared, ss_Shared := s3_Parts v\<rparr>"

subsection \<open>Facts about the helpers\<close>

text \<open>\<^verbatim>\<open>itoa\<close> prints the decimal numeral, as \<^verbatim>\<open>strconv.Itoa\<close> does; it is used on lengths only.\<close>

lemma itoa_loop_digits: "itoa_loop (int n) b = (if n = 0 then b else nat_digits n @ b)"
proof (induction n arbitrary: b rule: nat_digits.induct)
  case (1 n)
  show ?case
  proof (cases "n < 10")
    case True
    then show ?thesis
      by (simp add: itoa_loop.simps [of "int n"] itoa_loop.simps [of 0] nat_digits.simps [of n]
          flip: zmod_int zdiv_int)
  next
    case False
    then have digit: "int n div 10 = int (n div 10)" "nat (int n mod 10) = n mod 10" "n div 10 \<noteq> 0"
      by (simp_all add: zdiv_int nat_mod_distrib div_eq_0_iff)
    from False show ?thesis
      using 1 [OF False, of "char_of (48 + n mod 10) # b"] digit(3)
      by (simp add: itoa_loop.simps [of "int n"] nat_digits.simps [of n] digit(1,2))
  qed
qed

lemma itoa_Itoa: "itoa (int n) = Itoa (int n)"
proof -
  have "nat_digits 0 = ''0''"
    by code_simp
  then show ?thesis
    by (simp add: itoa_def itoa_loop_digits Itoa_def)
qed

lemma set_touch [simp]: "set (touch xs fs) = set xs \<union> set fs"
  by (induction xs fs rule: touch.induct) auto

lemma distinct_touch: "distinct xs \<Longrightarrow> distinct (touch xs fs)"
  by (induction xs fs rule: touch.induct) auto

lemma touch_append: "touch xs (fs @ gs) = touch (touch xs fs) gs"
  by (induction xs fs rule: touch.induct) auto

subsection \<open>Invariant\<close>

text \<open>
  The turns determine the rest: they are numbered 1, 2, and so on; the touched files
  are the files of the turns in order of first occurrence; the judgment
  candidates are exactly the redirect and revert turns.
\<close>

definition session_derived :: "session \<Rightarrow> bool" where
  "session_derived s \<longleftrightarrow>
     map tn_Seq (ss_Turns s) = map (\<lambda>i. int i + 1) [0..<length (ss_Turns s)] \<and>
     list_all (turn_class_known \<circ> tn_Class) (ss_Turns s) \<and>
     ss_Touched s = touch [] (concat (map tn_Files (ss_Turns s))) \<and>
     ss_Judgments s = map session_judgment_of (filter (\<lambda>t. tn_Class t \<noteq> TurnAccept) (ss_Turns s))"

definition session_inv :: "session \<Rightarrow> bool" where
  "session_inv s \<longleftrightarrow> (ss_State s = SessionStateNone \<longrightarrow> s = zero_session) \<and>
     (ss_State s \<noteq> SessionStateNone \<longrightarrow>
        ss_ID s \<noteq> '''' \<and> ss_Tool s \<noteq> '''' \<and> IsAgent (ss_Agent s) \<and> Actor_Validate (ss_Agent s) = None \<and>
        ss_Owner s = ar_Owner (ss_Agent s) \<and> session_derived s \<and>
        (ss_State s = SessionStateEnded \<or> ss_State s = SessionStateShared \<longrightarrow> ss_Summary s \<noteq> '''') \<and>
        (ss_State s = SessionStateShared \<longrightarrow> ss_Shared s \<noteq> []) \<and>
        (ss_State s \<noteq> SessionStateShared \<longrightarrow> ss_Shared s = []) \<and>
        set (ss_Shared s) \<subseteq> {''summary'', ''judgments''})"

lemma session_derived_turn:
  assumes "session_derived s" "turn_class_known (tn_Class t)" "tn_Seq t = int (length (ss_Turns s)) + 1"
  shows "session_derived (Session_Apply s (TurnRecorded \<lparr>tr_ID = i, tr_Turn = t\<rparr>))"
  using assms by (auto simp: session_derived_def turn_class_known_def Let_def touch_append)

lemma fallbackSummary_nonempty: "fallbackSummary s \<noteq> ''''"
  by (simp add: fallbackSummary_def)

lemma session_derived_updates [simp]:
  "session_derived (s\<lparr>ss_State := x, ss_EndedAt := a, ss_Reason := b, ss_Summary := c\<rparr>) = session_derived s"
  "session_derived (s\<lparr>ss_State := x, ss_Shared := d\<rparr>) = session_derived s"
  by (simp_all add: session_derived_def)

lemma Session_turn_frame:
  "ss_State (Session_Apply s (TurnRecorded v)) = ss_State s"
  "ss_ID (Session_Apply s (TurnRecorded v)) = ss_ID s"
  "ss_Tool (Session_Apply s (TurnRecorded v)) = ss_Tool s"
  "ss_Agent (Session_Apply s (TurnRecorded v)) = ss_Agent s"
  "ss_Owner (Session_Apply s (TurnRecorded v)) = ss_Owner s"
  "ss_Shared (Session_Apply s (TurnRecorded v)) = ss_Shared s"
  by (simp_all add: Let_def)

lemma Session_start_inv:
  assumes "session_inv s" and "Session_Decide s (StartSession m) ctx = Inr es"
  shows "session_inv (Replay Session_Apply s es)"
proof (cases "ss_State s = SessionStateNone")
  case True
  then show ?thesis
    using assms(2) by (auto simp: session_inv_def session_derived_def zero_session_def split: if_splits)
qed (use assms in simp)

lemma Session_end_inv:
  assumes "session_inv s" and "Session_Decide s (EndSession m) ctx = Inr es"
  shows "session_inv (Replay Session_Apply s es)"
proof (cases "ss_State s = SessionStateOpen")
  case True
  define summary where "summary = (if en_Summary m = '''' then fallbackSummary s else en_Summary m)"
  have "es = [SessionEnded \<lparr>s2_ID = ss_ID s, s2_Reason = en_Reason m, s2_Summary = summary, s2_At = Now ctx\<rparr>]"
    using assms(2) True unfolding summary_def by auto
  moreover have "summary \<noteq> ''''"
    by (simp add: summary_def fallbackSummary_nonempty)
  ultimately show ?thesis
    using assms(1) True by (simp add: session_inv_def)
qed (use assms in \<open>simp split: if_splits\<close>)

lemma Session_turn_inv:
  assumes "session_inv s" and "Session_Decide s (RecordTurn m) ctx = Inr es"
  shows "session_inv (Replay Session_Apply s es)"
proof -
  have "ss_State s = SessionStateOpen" "turn_class_known (rn_Class m)"
    and es: "es = [TurnRecorded \<lparr>tr_ID = ss_ID s, tr_Turn = \<lparr>tn_Seq = int (length (ss_Turns s)) + 1,
      tn_Class = rn_Class m, tn_Files = rn_Files m, tn_Signal = rn_Signal m, tn_At = Now ctx\<rparr>\<rparr>]"
    using assms(2) by (auto split: if_splits)
  then show ?thesis
    using assms(1) by (simp add: session_inv_def Session_turn_frame session_derived_turn del: Session_Apply.simps(2))
qed

lemma Session_share_Inr:
  "Session_Decide s (ShareSession m) ctx = Inr es \<longleftrightarrow>
     (ss_State s = SessionStateEnded \<or> ss_State s = SessionStateShared) \<and> IsHuman (Actor ctx) \<and>
     set (sh_Parts m) \<subseteq> {''summary'', ''judgments''} \<and> sh_Parts m \<noteq> [] \<and>
     es = [SessionShared \<lparr>s3_ID = ss_ID s, s3_Parts = sh_Parts m, s3_At = Now ctx\<rparr>]"
proof -
  have parts: "List.find (\<lambda>p. p \<noteq> ''summary'' \<and> p \<noteq> ''judgments'') (sh_Parts m) = None \<longleftrightarrow>
      set (sh_Parts m) \<subseteq> {''summary'', ''judgments''}"
    unfolding find_None_iff by blast
  show ?thesis
    unfolding parts [symmetric] by (auto split: option.split)
qed

lemma Session_share_inv:
  assumes "session_inv s" and "Session_Decide s (ShareSession m) ctx = Inr es"
  shows "session_inv (Replay Session_Apply s es)"
proof -
  have "ss_State s \<noteq> SessionStateNone" "ss_Summary s \<noteq> ''''"
    using assms unfolding Session_share_Inr by (auto simp: session_inv_def)
  then show ?thesis
    using assms unfolding Session_share_Inr by (simp add: session_inv_def)
qed

lemma Session_decide_inv:
  assumes "session_inv s" and "Session_Decide s c ctx = Inr es"
  shows "session_inv (Replay Session_Apply s es)"
  using assms Session_start_inv Session_turn_inv Session_end_inv Session_share_inv by (cases c) blast+

interpretation session_agg: aggregate Session_Decide Session_Apply zero_session session_inv
  by unfold_locales (auto simp: Session_decide_inv, simp add: zero_session_def session_inv_def)

end
