(* ===== verification/Realization_Anchor.thy ===== *)
theory Realization_Anchor
  imports Anchor_Key
begin

section \<open>The Anchor aggregate\<close>

text \<open>
  \<^verbatim>\<open>internal/core/realization/anchor.go\<close>: the recorded baseline of one anchor and
  its staleness state (a body change asks for review, a signature change is
  stale, a vanished symbol is unrealized).
\<close>

datatype anchor_state = AStateNone | AStateRecorded | AStateVerified | AStateReview | AStateStale
  | AStateUnrealized

record anchor_agg =
  aa_Key :: string
  aa_Hash :: hash3
  aa_State :: anchor_state
  aa_Ref :: string
  aa_MovedTo :: string
  aa_UpdatedAt :: go_time
  aa_Verifies :: int
  aa_Staled :: int

definition zero_anchor_agg :: anchor_agg where
  "zero_anchor_agg = \<lparr>aa_Key = '''', aa_Hash = zero_hash3, aa_State = AStateNone, aa_Ref = '''', aa_MovedTo = '''',
     aa_UpdatedAt = 0, aa_Verifies = 0, aa_Staled = 0\<rparr>"

definition AnchorStream :: "string \<Rightarrow> string" where
  "AnchorStream key = ''anchor/'' @ key"

record anchor_cmd =
  at_Key :: string
  at_Idem :: string

record record_anchor =
  ra_Cmd :: anchor_cmd
  ra_Hash :: hash3
  ra_Ref :: string

record verify_anchor =
  va_Cmd :: anchor_cmd
  va_Current :: hash3
  va_Exists :: bool
  va_Ref :: string

record move_anchor =
  ma_Cmd :: anchor_cmd
  ma_To :: string
  ma_Hash :: hash3
  ma_Ref :: string

datatype anchor_command = RecordAnchor record_anchor | VerifyAnchor verify_anchor | MoveAnchor move_anchor

fun Anchor_cmd_part :: "anchor_command \<Rightarrow> anchor_cmd" where
  "Anchor_cmd_part (RecordAnchor m) = ra_Cmd m"
| "Anchor_cmd_part (VerifyAnchor m) = va_Cmd m"
| "Anchor_cmd_part (MoveAnchor m) = ma_Cmd m"

fun Anchor_cmd_Kind :: "anchor_command \<Rightarrow> string" where
  "Anchor_cmd_Kind (RecordAnchor _) = ''RecordAnchor''"
| "Anchor_cmd_Kind (VerifyAnchor _) = ''VerifyAnchor''"
| "Anchor_cmd_Kind (MoveAnchor _) = ''MoveAnchor''"

record anchor_recorded =
  a1_Key :: string
  a1_Hash :: hash3
  a1_Ref :: string
  a1_By :: actor_ref
  a1_At :: go_time

record anchor_verified =
  a2_Key :: string
  a2_Hash :: hash3
  a2_Change :: hash_change
  a2_Ref :: string
  a2_At :: go_time

record anchor_staled =
  a3_Key :: string
  a3_State :: anchor_state
  a3_Cause :: hash_change
  a3_Old :: hash3
  a3_New :: hash3
  a3_Ref :: string
  a3_At :: go_time

record anchor_moved =
  a4_Key :: string
  a4_To :: string
  a4_Hash :: hash3
  a4_Ref :: string
  a4_At :: go_time

datatype anchor_event = AnchorRecorded anchor_recorded | AnchorVerified anchor_verified
  | AnchorStaled anchor_staled | AnchorMoved anchor_moved

fun Anchor_event_Kind :: "anchor_event \<Rightarrow> string \<times> nat" where
  "Anchor_event_Kind (AnchorRecorded _) = (''AnchorRecorded'', 1)"
| "Anchor_event_Kind (AnchorVerified _) = (''AnchorVerified'', 1)"
| "Anchor_event_Kind (AnchorStaled _) = (''AnchorStaled'', 1)"
| "Anchor_event_Kind (AnchorMoved _) = (''AnchorMoved'', 1)"

subsection \<open>Decide and Apply\<close>

definition anchor_record :: "anchor_agg \<Rightarrow> record_anchor \<Rightarrow> decide_context \<Rightarrow> rejection + anchor_event list" where
  [decide_defs]: "anchor_record a m ctx =
     (case ParseAnchor (at_Key (ra_Cmd m)) of
        Inl err \<Rightarrow> Inl (Reject ''invalid'' ''%v'' [err])
      | Inr _ \<Rightarrow>
        if ra_Hash m = zero_hash3 then Inl (Reject ''invalid'' ''hash required'' [])
        else if aa_State a \<noteq> AStateNone \<and> aa_Hash a = ra_Hash m \<and> aa_State a \<noteq> AStateUnrealized then Inr []
        else Inr [AnchorRecorded \<lparr>a1_Key = at_Key (ra_Cmd m), a1_Hash = ra_Hash m, a1_Ref = ra_Ref m,
                    a1_By = Actor ctx, a1_At = Now ctx\<rparr>])"

definition anchor_verify :: "anchor_agg \<Rightarrow> verify_anchor \<Rightarrow> decide_context \<Rightarrow> rejection + anchor_event list" where
  [decide_defs]: "anchor_verify a m ctx =
     (if aa_State a = AStateNone
        then Inl (Reject ''not-found'' ''anchor %s was never recorded'' [at_Key (va_Cmd m)])
      else if \<not> va_Exists m
        then (if aa_State a = AStateUnrealized then Inr []
              else Inr [AnchorStaled \<lparr>a3_Key = aa_Key a, a3_State = AStateUnrealized, a3_Cause = HashSignature,
                     a3_Old = aa_Hash a, a3_New = va_Current m, a3_Ref = va_Ref m, a3_At = Now ctx\<rparr>])
      else let change = Hash3_Cmp (aa_Hash a) (va_Current m) in
        if change = HashNone \<or> change = HashFile
          then Inr [AnchorVerified \<lparr>a2_Key = aa_Key a, a2_Hash = va_Current m, a2_Change = change,
                      a2_Ref = va_Ref m, a2_At = Now ctx\<rparr>]
        else if change = HashBody
          then (if aa_State a = AStateStale then Inr []
                else Inr [AnchorStaled \<lparr>a3_Key = aa_Key a, a3_State = AStateReview, a3_Cause = change,
                       a3_Old = aa_Hash a, a3_New = va_Current m, a3_Ref = va_Ref m, a3_At = Now ctx\<rparr>])
        else Inr [AnchorStaled \<lparr>a3_Key = aa_Key a, a3_State = AStateStale, a3_Cause = change,
                    a3_Old = aa_Hash a, a3_New = va_Current m, a3_Ref = va_Ref m, a3_At = Now ctx\<rparr>])"

definition anchor_move :: "anchor_agg \<Rightarrow> move_anchor \<Rightarrow> decide_context \<Rightarrow> rejection + anchor_event list" where
  [decide_defs]: "anchor_move a m ctx =
     (if aa_State a = AStateNone
        then Inl (Reject ''not-found'' ''anchor %s was never recorded'' [at_Key (ma_Cmd m)])
      else case ParseAnchor (ma_To m) of
        Inl err \<Rightarrow> Inl (Reject ''invalid'' ''%v'' [err])
      | Inr _ \<Rightarrow>
        if ma_To m = aa_Key a then Inl (Reject ''invalid'' ''move to itself'' [])
        else if h3_Signature (ma_Hash m) \<noteq> h3_Signature (aa_Hash a)
          then Inl (Reject ''not-a-move'' ''signature differs: that is a change, not a move'' [])
        else Inr [AnchorMoved \<lparr>a4_Key = aa_Key a, a4_To = ma_To m, a4_Hash = ma_Hash m, a4_Ref = ma_Ref m,
                    a4_At = Now ctx\<rparr>])"

fun Anchor_Decide :: "anchor_agg \<Rightarrow> anchor_command \<Rightarrow> decide_context \<Rightarrow> rejection + anchor_event list" where
  "Anchor_Decide a (RecordAnchor m) ctx = anchor_record a m ctx"
| "Anchor_Decide a (VerifyAnchor m) ctx = anchor_verify a m ctx"
| "Anchor_Decide a (MoveAnchor m) ctx = anchor_move a m ctx"

fun Anchor_Apply :: "anchor_agg \<Rightarrow> anchor_event \<Rightarrow> anchor_agg" where
  "Anchor_Apply a (AnchorRecorded v) =
     zero_anchor_agg\<lparr>aa_Key := a1_Key v, aa_Hash := a1_Hash v, aa_State := AStateRecorded, aa_Ref := a1_Ref v,
       aa_UpdatedAt := a1_At v, aa_Verifies := aa_Verifies a, aa_Staled := aa_Staled a\<rparr>"
| "Anchor_Apply a (AnchorVerified v) =
     a\<lparr>aa_Hash := a2_Hash v, aa_State := AStateVerified, aa_Ref := a2_Ref v, aa_UpdatedAt := a2_At v,
       aa_Verifies := aa_Verifies a + 1\<rparr>"
| "Anchor_Apply a (AnchorStaled v) =
     a\<lparr>aa_State := a3_State v, aa_UpdatedAt := a3_At v, aa_Staled := aa_Staled a + 1\<rparr>"
| "Anchor_Apply a (AnchorMoved v) = a\<lparr>aa_MovedTo := a4_To v, aa_UpdatedAt := a4_At v\<rparr>"

subsection \<open>Invariant and baseline\<close>

definition anchor_inv :: "anchor_agg \<Rightarrow> bool" where
  "anchor_inv a \<longleftrightarrow>
     (aa_State a = AStateNone \<longrightarrow> a = zero_anchor_agg) \<and>
     (aa_State a \<noteq> AStateNone \<longrightarrow>
        isr (ParseAnchor (aa_Key a)) \<and> aa_Verifies a \<ge> 0 \<and> aa_Staled a \<ge> 0 \<and>
        (aa_MovedTo a \<noteq> '''' \<longrightarrow> isr (ParseAnchor (aa_MovedTo a)) \<and> aa_MovedTo a \<noteq> aa_Key a))"

lemma Anchor_decide_inv:
  assumes "anchor_inv a" and "Anchor_Decide a c ctx = Inr es"
  shows "anchor_inv (Replay Anchor_Apply a es)"
proof (cases c)
  case (RecordAnchor m)
  then show ?thesis
    using assms
    by (auto simp: anchor_record_def anchor_inv_def zero_anchor_agg_def split: sum.splits if_splits)
next
  case (VerifyAnchor m)
  then show ?thesis
    using assms by (auto simp: anchor_verify_def anchor_inv_def Let_def split: if_splits)
next
  case (MoveAnchor m)
  then show ?thesis
    using assms by (auto simp: anchor_move_def anchor_inv_def split: sum.splits if_splits)
qed

interpretation anchor_agg: aggregate Anchor_Decide Anchor_Apply zero_anchor_agg anchor_inv
  by unfold_locales (auto simp: Anchor_decide_inv, simp add: zero_anchor_agg_def anchor_inv_def)

text \<open>
  The part of the baseline that decides staleness. A verification may replace the
  file layer, never this part: only a recording does.
\<close>

definition baseline :: "anchor_agg \<Rightarrow> string \<times> string" where
  "baseline a = (h3_Signature (aa_Hash a), h3_Body (aa_Hash a))"

definition is_recording :: "anchor_event \<Rightarrow> bool" where
  "is_recording e \<longleftrightarrow> (\<exists>v. e = AnchorRecorded v)"

lemma Hash3_Cmp_baseline:
  "Hash3_Cmp h k = HashNone \<or> Hash3_Cmp h k = HashFile \<longleftrightarrow>
     h3_Signature h = h3_Signature k \<and> h3_Body h = h3_Body k"
  by (auto simp: Hash3_Cmp_def)

lemma Anchor_decide_baseline:
  assumes "Anchor_Decide a c ctx = Inr es" "\<not> list_ex is_recording es"
  shows "baseline (Replay Anchor_Apply a es) = baseline a"
proof (cases c)
  case (RecordAnchor m)
  then show ?thesis
    using assms by (auto simp: anchor_record_def is_recording_def split: sum.splits if_splits)
next
  case (VerifyAnchor m)
  then show ?thesis
    using assms Hash3_Cmp_baseline [of "aa_Hash a" "va_Current m"]
    by (auto simp: anchor_verify_def baseline_def Let_def split: if_splits)
next
  case (MoveAnchor m)
  then show ?thesis
    using assms by (auto simp: anchor_move_def baseline_def split: sum.splits if_splits)
qed

end
