(* ===== verification/Wire.thy ===== *)
theory Wire
  imports Codec Harness_Scope Harness_Constraint Harness_Decision Change Gate Session Realization_Anchor
begin

section \<open>All commands, events and aggregates; the codec of the application\<close>

text \<open>
  The interfaces \<^verbatim>\<open>core.Event\<close>, \<^verbatim>\<open>core.Command\<close>, \<^verbatim>\<open>core.Scoped\<close>, \<^verbatim>\<open>core.Anchored\<close> and
  \<^verbatim>\<open>core.Root\<close> (\<^verbatim>\<open>core/event.go\<close>) as sums over the bounded contexts, the registrations
  of \<^verbatim>\<open>RegisterEvents\<close> in the three contexts, and \<^verbatim>\<open>NewCodec\<close> and \<^verbatim>\<open>RegisterAll\<close> of
  \<^verbatim>\<open>app/wire.go\<close>.
\<close>

subsection \<open>Events\<close>

datatype event = EvRejected rejected | EvConstraint constraint_event | EvScope scope_event
  | EvDecision decision_event | EvChange change_event | EvGate gate_event | EvSession session_event
  | EvAnchor anchor_event

fun event_kv :: "event \<Rightarrow> codec_key" where
  "event_kv (EvRejected _) = (''Rejected'', 1)"
| "event_kv (EvConstraint e) = Constraint_event_Kind e"
| "event_kv (EvScope e) = Scope_event_Kind e"
| "event_kv (EvDecision e) = Decision_event_Kind e"
| "event_kv (EvChange e) = Change_event_Kind e"
| "event_kv (EvGate e) = Gate_event_Kind e"
| "event_kv (EvSession e) = Session_event_Kind e"
| "event_kv (EvAnchor e) = Anchor_event_Kind e"

subsection \<open>Commands\<close>

datatype command = CmdConstraint constraint_command | CmdScope scope_command | CmdDecision decision_command
  | CmdChange change_command | CmdGate gate_command | CmdSession session_command | CmdAnchor anchor_command

fun cmd_Kind :: "command \<Rightarrow> string" where
  "cmd_Kind (CmdConstraint c) = Constraint_cmd_Kind c"
| "cmd_Kind (CmdScope c) = Scope_cmd_Kind c"
| "cmd_Kind (CmdDecision c) = Decision_cmd_Kind c"
| "cmd_Kind (CmdChange c) = Change_cmd_Kind c"
| "cmd_Kind (CmdGate c) = Gate_cmd_Kind c"
| "cmd_Kind (CmdSession c) = Session_cmd_Kind c"
| "cmd_Kind (CmdAnchor c) = Anchor_cmd_Kind c"

fun cmd_Stream :: "command \<Rightarrow> string" where
  "cmd_Stream (CmdConstraint c) = ConstraintStream (cm_ID (Constraint_cmd_part c))"
| "cmd_Stream (CmdScope c) = ScopeStream (Scope_cmd_Key c)"
| "cmd_Stream (CmdDecision c) = DecisionStream (dn_ID (Decision_cmd_part c))"
| "cmd_Stream (CmdChange c) = ChangeStream (hc_ID (Change_cmd_part c))"
| "cmd_Stream (CmdGate c) = GateStream (gc_ID (Gate_cmd_part c))"
| "cmd_Stream (CmdSession c) = SessionStream (sm_Tool (Session_cmd_part c)) (sm_ID (Session_cmd_part c))"
| "cmd_Stream (CmdAnchor c) = AnchorStream (at_Key (Anchor_cmd_part c))"

fun cmd_Idem :: "command \<Rightarrow> string" where
  "cmd_Idem (CmdConstraint c) = cm_Idem (Constraint_cmd_part c)"
| "cmd_Idem (CmdScope c) = Scope_cmd_Idem c"
| "cmd_Idem (CmdDecision c) = dn_Idem (Decision_cmd_part c)"
| "cmd_Idem (CmdChange c) = hc_Idem (Change_cmd_part c)"
| "cmd_Idem (CmdGate c) = gc_Idem (Gate_cmd_part c)"
| "cmd_Idem (CmdSession c) = sm_Idem (Session_cmd_part c)"
| "cmd_Idem (CmdAnchor c) = at_Idem (Anchor_cmd_part c)"

text \<open>
  The commands that implement \<^verbatim>\<open>Scoped\<close>: drafting a constraint, every scope command, opening
  a change and requesting a gate. Those that implement \<^verbatim>\<open>Anchored\<close>: opening a change and
  requesting a gate.
\<close>

fun TargetScope :: "command \<Rightarrow> scope_key option" where
  "TargetScope (CmdConstraint (DraftConstraint m)) = Some (dc_Scope m)"
| "TargetScope (CmdScope c) = Some (Scope_cmd_Key c)"
| "TargetScope (CmdChange (OpenChange m)) = Some (oh_Scope m)"
| "TargetScope (CmdGate (RequestGate m)) = Some (rg_Scope m)"
| "TargetScope _ = None"

fun TouchedAnchors :: "command \<Rightarrow> string list option" where
  "TouchedAnchors (CmdChange (OpenChange m)) = Some (im_Anchors (oh_Impact m))"
| "TouchedAnchors (CmdGate (RequestGate m)) = Some (rg_Anchors m)"
| "TouchedAnchors _ = None"

subsection \<open>Aggregates\<close>

datatype aggregate_root = AggConstraint constraint | AggScope scope | AggDecision decision | AggChange change
  | AggGate gate | AggSession session | AggAnchor anchor_agg

definition lift_events :: "('e \<Rightarrow> event) \<Rightarrow> rejection + 'e list \<Rightarrow> rejection + event list" where
  "lift_events f r = (case r of Inl rej \<Rightarrow> Inl rej | Inr es \<Rightarrow> Inr (map f es))"

text \<open>A command of another aggregate falls out of the type switch.\<close>

fun Root_Decide :: "aggregate_root \<Rightarrow> command \<Rightarrow> decide_context \<Rightarrow> rejection + event list" where
  "Root_Decide (AggConstraint a) (CmdConstraint c) ctx = lift_events EvConstraint (Constraint_Decide a c ctx)"
| "Root_Decide (AggScope a) (CmdScope c) ctx = lift_events EvScope (Scope_Decide a c ctx)"
| "Root_Decide (AggDecision a) (CmdDecision c) ctx = lift_events EvDecision (Decision_Decide a c ctx)"
| "Root_Decide (AggChange a) (CmdChange c) ctx = lift_events EvChange (Change_Decide a c ctx)"
| "Root_Decide (AggGate a) (CmdGate c) ctx = lift_events EvGate (Gate_Decide a c ctx)"
| "Root_Decide (AggSession a) (CmdSession c) ctx = lift_events EvSession (Session_Decide a c ctx)"
| "Root_Decide (AggAnchor a) (CmdAnchor c) ctx = lift_events EvAnchor (Anchor_Decide a c ctx)"
| "Root_Decide (AggConstraint a) c ctx = Inl (Reject ''unknown-command'' ''constraint: %s'' [cmd_Kind c])"
| "Root_Decide (AggScope a) c ctx = Inl (Reject ''unknown-command'' ''scope: %s'' [cmd_Kind c])"
| "Root_Decide (AggDecision a) c ctx = Inl (Reject ''unknown-command'' ''decision: %s'' [cmd_Kind c])"
| "Root_Decide (AggChange a) c ctx = Inl (Reject ''unknown-command'' ''change: %s'' [cmd_Kind c])"
| "Root_Decide (AggGate a) c ctx = Inl (Reject ''unknown-command'' ''gate: %s'' [cmd_Kind c])"
| "Root_Decide (AggSession a) c ctx = Inl (Reject ''unknown-command'' ''session: %s'' [cmd_Kind c])"
| "Root_Decide (AggAnchor a) c ctx = Inl (Reject ''unknown-command'' ''anchor: %s'' [cmd_Kind c])"

fun Root_Apply :: "aggregate_root \<Rightarrow> event \<Rightarrow> aggregate_root" where
  "Root_Apply (AggConstraint a) (EvConstraint e) = AggConstraint (Constraint_Apply a e)"
| "Root_Apply (AggScope a) (EvScope e) = AggScope (Scope_Apply a e)"
| "Root_Apply (AggDecision a) (EvDecision e) = AggDecision (Decision_Apply a e)"
| "Root_Apply (AggChange a) (EvChange e) = AggChange (Change_Apply a e)"
| "Root_Apply (AggGate a) (EvGate e) = AggGate (Gate_Apply a e)"
| "Root_Apply (AggSession a) (EvSession e) = AggSession (Session_Apply a e)"
| "Root_Apply (AggAnchor a) (EvAnchor e) = AggAnchor (Anchor_Apply a e)"
| "Root_Apply a e = a"

subsection \<open>The codec\<close>

definition core_NewCodec :: "event codec option" where
  "core_NewCodec = Codec_Register (''Rejected'', 1) empty_codec"

text \<open>
  The upcasters. The type assertion inside panics on another event; the codec calls an
  upcaster on events of its key only.
\<close>

fun up_ConstraintDrafted :: "event \<Rightarrow> event" where
  "up_ConstraintDrafted (EvConstraint (ConstraintDraftedV1 v)) = EvConstraint (ConstraintDrafted (upcast_ConstraintDrafted v))"
| "up_ConstraintDrafted e = e"

fun up_ChangeOpened :: "event \<Rightarrow> event" where
  "up_ChangeOpened (EvChange (ChangeOpenedV1 v)) = EvChange (ChangeOpened (upcast_ChangeOpened v))"
| "up_ChangeOpened e = e"

definition harness_RegisterEvents :: "(event codec \<Rightarrow> event codec option) list" where
  "harness_RegisterEvents =
     [Codec_Register (''ConstraintDrafted'', 1), Codec_Register (''ConstraintDrafted'', 2),
      Some \<circ> Codec_Upcast ''ConstraintDrafted'' 1 up_ConstraintDrafted,
      Codec_Register (''ConstraintRebound'', 1), Codec_Register (''ConstraintVerified'', 1),
      Codec_Register (''ConstraintPromoted'', 1), Codec_Register (''ConstraintDemoted'', 1),
      Codec_Register (''ConstraintSuperseded'', 1), Codec_Register (''ConstraintRetired'', 1),
      Codec_Register (''AutonomyChanged'', 1), Codec_Register (''CapChanged'', 1),
      Codec_Register (''ExceptionRaised'', 1), Codec_Register (''DecisionDrafted'', 1),
      Codec_Register (''DecisionVerified'', 1), Codec_Register (''DecisionRevised'', 1),
      Codec_Register (''DecisionSuperseded'', 1), Codec_Register (''DecisionRetired'', 1)]"

definition accountability_RegisterEvents :: "(event codec \<Rightarrow> event codec option) list" where
  "accountability_RegisterEvents =
     [Codec_Register (''ChangeOpened'', 1), Codec_Register (''ChangeOpened'', 2),
      Some \<circ> Codec_Upcast ''ChangeOpened'' 1 up_ChangeOpened,
      Codec_Register (''ProposalAdded'', 1), Codec_Register (''Judged'', 1), Codec_Register (''Deployed'', 1),
      Codec_Register (''OutcomeRecorded'', 1), Codec_Register (''Settled'', 1),
      Codec_Register (''GateDecided'', 1), Codec_Register (''GateOpened'', 1), Codec_Register (''GateResolved'', 1),
      Codec_Register (''GateExpired'', 1), Codec_Register (''SessionStarted'', 1),
      Codec_Register (''TurnRecorded'', 1), Codec_Register (''SessionEnded'', 1), Codec_Register (''SessionShared'', 1)]"

definition realization_RegisterEvents :: "(event codec \<Rightarrow> event codec option) list" where
  "realization_RegisterEvents =
     [Codec_Register (''AnchorRecorded'', 1), Codec_Register (''AnchorVerified'', 1),
      Codec_Register (''AnchorStaled'', 1), Codec_Register (''AnchorMoved'', 1)]"

definition NewCodec :: "event codec option" where
  "NewCodec =
     (case core_NewCodec of
        None \<Rightarrow> None
      | Some c \<Rightarrow> register_seq (harness_RegisterEvents @ accountability_RegisterEvents @ realization_RegisterEvents) c)"

subsection \<open>RegisterAll\<close>

text \<open>The zero aggregate of a stream, one constructor function per \<^verbatim>\<open>Register\<close> call.\<close>

definition zero_scope_of :: "string \<Rightarrow> aggregate_root" where
  "zero_scope_of stream = AggScope (NewScope (fst (ParseScopeKey (TrimPrefix stream ''scope/''))))"

definition Pipeline_Register :: "(string \<Rightarrow> aggregate_root) \<Rightarrow> string list \<Rightarrow> (string \<times> (string \<Rightarrow> aggregate_root)) list \<Rightarrow>
    (string \<times> (string \<Rightarrow> aggregate_root)) list option" where
  "Pipeline_Register zero kinds hs =
     foldl (\<lambda>acc k. case acc of None \<Rightarrow> None
         | Some m \<Rightarrow> if map_of m k \<noteq> None then None else Some (map_put k zero m)) (Some hs) kinds"

fun register_aggregates :: "((string \<Rightarrow> aggregate_root) \<times> string list) list \<Rightarrow>
    (string \<times> (string \<Rightarrow> aggregate_root)) list \<Rightarrow> (string \<times> (string \<Rightarrow> aggregate_root)) list option" where
  "register_aggregates [] hs = Some hs"
| "register_aggregates ((zero, kinds) # rest) hs =
     (case Pipeline_Register zero kinds hs of None \<Rightarrow> None | Some hs' \<Rightarrow> register_aggregates rest hs')"

definition RegisterAll :: "(string \<times> (string \<Rightarrow> aggregate_root)) list option" where
  "RegisterAll = register_aggregates
     [(\<lambda>_. AggConstraint zero_constraint,
         [''DraftConstraint'', ''VerifyConstraint'', ''PromoteConstraint'', ''DemoteConstraint'',
          ''SupersedeConstraint'', ''RetireConstraint'', ''RebindConstraint'']),
      (\<lambda>_. AggDecision zero_decision,
         [''DraftDecision'', ''VerifyDecision'', ''ReviseDecision'', ''SupersedeDecision'', ''RetireDecision'']),
      (zero_scope_of, [''SetAutonomy'', ''SetCap'', ''RecordRegression'']),
      (\<lambda>_. AggChange zero_change,
         [''OpenChange'', ''AddProposal'', ''Judge'', ''Deploy'', ''RecordOutcome'', ''Settle'']),
      (\<lambda>_. AggGate zero_gate, [''RequestGate'', ''ResolveGate'', ''ExpireGate'']),
      (\<lambda>_. AggSession zero_session, [''StartSession'', ''RecordTurn'', ''EndSession'', ''ShareSession'']),
      (\<lambda>_. AggAnchor zero_anchor_agg, [''RecordAnchor'', ''VerifyAnchor'', ''MoveAnchor''])] []"

end
