(* ===== verification/Wire_Facts.thy ===== *)
theory Wire_Facts
  imports Wire
begin

section \<open>Facts about the wiring\<close>

text \<open>
  The application's codec is complete, every command has a handler that creates
  its own aggregate, and the invariants of the aggregates lift to the sum.
\<close>

definition app_codec :: "event codec" where
  "app_codec = the NewCodec"

lemma NewCodec_types: "map_option cx_types NewCodec = Some
   [(''Rejected'', 1), (''ConstraintDrafted'', 1), (''ConstraintDrafted'', 2), (''ConstraintRebound'', 1),
    (''ConstraintVerified'', 1), (''ConstraintPromoted'', 1), (''ConstraintDemoted'', 1),
    (''ConstraintSuperseded'', 1), (''ConstraintRetired'', 1), (''AutonomyChanged'', 1), (''CapChanged'', 1),
    (''ExceptionRaised'', 1), (''DecisionDrafted'', 1), (''DecisionVerified'', 1), (''DecisionRevised'', 1),
    (''DecisionSuperseded'', 1), (''DecisionRetired'', 1), (''ChangeOpened'', 1), (''ChangeOpened'', 2),
    (''ProposalAdded'', 1), (''Judged'', 1), (''Deployed'', 1), (''OutcomeRecorded'', 1), (''Settled'', 1),
    (''GateDecided'', 1), (''GateOpened'', 1), (''GateResolved'', 1), (''GateExpired'', 1),
    (''SessionStarted'', 1), (''TurnRecorded'', 1), (''SessionEnded'', 1), (''SessionShared'', 1),
    (''AnchorRecorded'', 1), (''AnchorVerified'', 1), (''AnchorStaled'', 1), (''AnchorMoved'', 1)]"
  by code_simp

lemma NewCodec_latest: "map_option cx_latest NewCodec = Some
   [(''Rejected'', 1), (''ConstraintDrafted'', 2), (''ConstraintRebound'', 1),
    (''ConstraintVerified'', 1), (''ConstraintPromoted'', 1), (''ConstraintDemoted'', 1),
    (''ConstraintSuperseded'', 1), (''ConstraintRetired'', 1), (''AutonomyChanged'', 1), (''CapChanged'', 1),
    (''ExceptionRaised'', 1), (''DecisionDrafted'', 1), (''DecisionVerified'', 1), (''DecisionRevised'', 1),
    (''DecisionSuperseded'', 1), (''DecisionRetired'', 1), (''ChangeOpened'', 2),
    (''ProposalAdded'', 1), (''Judged'', 1), (''Deployed'', 1), (''OutcomeRecorded'', 1), (''Settled'', 1),
    (''GateDecided'', 1), (''GateOpened'', 1), (''GateResolved'', 1), (''GateExpired'', 1),
    (''SessionStarted'', 1), (''TurnRecorded'', 1), (''SessionEnded'', 1), (''SessionShared'', 1),
    (''AnchorRecorded'', 1), (''AnchorVerified'', 1), (''AnchorStaled'', 1), (''AnchorMoved'', 1)]"
  by code_simp

lemma register_upcasters:
  "Codec_Register k c = Some c' \<Longrightarrow> cx_upcasters c' = cx_upcasters c"
  by (auto simp: Codec_Register_def Let_def split: if_splits)

lemma upcast_upcasters:
  "(Some \<circ> Codec_Upcast kind n f) c = Some c' \<Longrightarrow> cx_upcasters c' = map_put (kind, n) f (cx_upcasters c)"
  by (auto simp: Codec_Upcast_def)

lemma register_seq_upcasters:
  assumes "list_all2 (\<lambda>f g. \<forall>d d'. f d = Some d' \<longrightarrow> cx_upcasters d' = g (cx_upcasters d)) fs gs"
    and "register_seq fs c = Some c'"
  shows "cx_upcasters c' = foldl (\<lambda>u g. g u) (cx_upcasters c) gs"
  using assms by (induction arbitrary: c rule: list_all2_induct) (auto split: option.splits)

lemma NewCodec_upcasters: "map_option cx_upcasters NewCodec = Some
   [((''ConstraintDrafted'', 1), up_ConstraintDrafted), ((''ChangeOpened'', 1), up_ChangeOpened)]"
proof -
  let ?fs = "harness_RegisterEvents @ accountability_RegisterEvents @ realization_RegisterEvents"
  let ?gs = "[id, id, map_put (''ConstraintDrafted'', 1) up_ConstraintDrafted] @ replicate 14 id @
    [id, id, map_put (''ChangeOpened'', 1) up_ChangeOpened] @ replicate 17 id"
  obtain c where c: "NewCodec = Some c"
    using NewCodec_types by (cases NewCodec) auto
  then obtain c0 where c0: "core_NewCodec = Some c0" "register_seq ?fs c0 = Some c"
    by (auto simp: NewCodec_def split: option.splits)
  have "list_all2 (\<lambda>f g. \<forall>d d'. f d = Some d' \<longrightarrow> cx_upcasters d' = g (cx_upcasters d)) ?fs ?gs"
    by (simp add: harness_RegisterEvents_def accountability_RegisterEvents_def realization_RegisterEvents_def
        register_upcasters upcast_upcasters numeral_eq_Suc del: comp_apply)
  from register_seq_upcasters [OF this c0(2)] register_upcasters [OF c0(1) [unfolded core_NewCodec_def]]
  show ?thesis
    unfolding c by (simp add: empty_codec_def numeral_eq_Suc)
qed

lemma NewCodec_app_codec: "NewCodec = Some app_codec"
proof -
  obtain c where c: "NewCodec = Some c"
    using NewCodec_upcasters by (cases NewCodec) auto
  then show ?thesis
    unfolding app_codec_def c by simp
qed

lemma app_codec_types: "cx_types app_codec = the (map_option cx_types NewCodec)"
  and app_codec_latest: "cx_latest app_codec = the (map_option cx_latest NewCodec)"
  and app_codec_upcasters: "cx_upcasters app_codec = the (map_option cx_upcasters NewCodec)"
  by (simp_all add: NewCodec_app_codec)

lemmas app_codec_simps = app_codec_types [unfolded NewCodec_types option.sel]
  app_codec_latest [unfolded NewCodec_latest option.sel]
  app_codec_upcasters [unfolded NewCodec_upcasters option.sel]

lemma app_codec_latest_max: "\<forall>k \<in> set (cx_types app_codec). snd k \<le> Codec_Latest app_codec (fst k)"
  unfolding app_codec_simps Codec_Latest_def by code_simp

lemma app_codec_old: "\<forall>k \<in> set (cx_types app_codec). snd k < Codec_Latest app_codec (fst k) \<longrightarrow>
    k \<in> {(''ConstraintDrafted'', 1), (''ChangeOpened'', 1)} \<and> (fst k, snd k + 1) \<in> set (cx_types app_codec)"
  unfolding app_codec_simps Codec_Latest_def by code_simp

lemma event_kv_registered: "event_kv e \<in> set (cx_types app_codec)"
proof (cases e)
  case (EvConstraint x)
  then show ?thesis by (cases x) (simp_all add: app_codec_simps)
next
  case (EvScope x)
  then show ?thesis by (cases x) (simp_all add: app_codec_simps)
next
  case (EvDecision x)
  then show ?thesis by (cases x) (simp_all add: app_codec_simps)
next
  case (EvChange x)
  then show ?thesis by (cases x) (simp_all add: app_codec_simps)
next
  case (EvGate x)
  then show ?thesis by (cases x) (simp_all add: app_codec_simps)
next
  case (EvSession x)
  then show ?thesis by (cases x) (simp_all add: app_codec_simps)
next
  case (EvAnchor x)
  then show ?thesis by (cases x) (simp_all add: app_codec_simps)
qed (simp add: app_codec_simps)

text \<open>The two kinds with an older version.\<close>

lemma event_kv_ConstraintDrafted1:
  "event_kv e = (''ConstraintDrafted'', 1) \<longleftrightarrow> (\<exists>v. e = EvConstraint (ConstraintDraftedV1 v))"
  by (cases e rule: event_kv.cases; (rename_tac x, case_tac x)?; simp)

lemma event_kv_ChangeOpened1:
  "event_kv e = (''ChangeOpened'', 1) \<longleftrightarrow> (\<exists>v. e = EvChange (ChangeOpenedV1 v))"
  by (cases e rule: event_kv.cases; (rename_tac x, case_tac x)?; simp)

lemma app_upcast_complete:
  assumes "k \<in> set (cx_types app_codec)" "snd k < Codec_Latest app_codec (fst k)" "event_kv e = k"
  shows "\<exists>up. map_of (cx_upcasters app_codec) k = Some up \<and> event_kv (up e) = (fst k, snd k + 1) \<and>
    (fst k, snd k + 1) \<in> set (cx_types app_codec)"
proof -
  have "k = (''ConstraintDrafted'', 1) \<or> k = (''ChangeOpened'', 1)" and nx: "(fst k, snd k + 1) \<in> set (cx_types app_codec)"
    using app_codec_old assms(1,2) by blast+
  then show ?thesis
  proof (elim disjE)
    assume k: "k = (''ConstraintDrafted'', 1)"
    then obtain v where "e = EvConstraint (ConstraintDraftedV1 v)"
      using assms(3) event_kv_ConstraintDrafted1 by blast
    then show ?thesis
      using nx k app_codec_simps(3) by simp
  next
    assume k: "k = (''ChangeOpened'', 1)"
    then obtain v where "e = EvChange (ChangeOpenedV1 v)"
      using assms(3) event_kv_ChangeOpened1 by blast
    then show ?thesis
      using nx k app_codec_simps(3) by simp
  qed
qed

interpretation app_events: complete_codec event_kv app_codec
  by unfold_locales (use app_upcast_complete app_codec_latest_max in blast)+

subsection \<open>Handlers\<close>

definition app_handlers :: "(string \<times> (string \<Rightarrow> aggregate_root)) list" where
  "app_handlers = the RegisterAll"

text \<open>The zero aggregate that the handler of a command builds.\<close>

fun cmd_zero :: "command \<Rightarrow> aggregate_root" where
  "cmd_zero (CmdConstraint c) = AggConstraint zero_constraint"
| "cmd_zero (CmdScope c) = zero_scope_of (ScopeStream (Scope_cmd_Key c))"
| "cmd_zero (CmdDecision c) = AggDecision zero_decision"
| "cmd_zero (CmdChange c) = AggChange zero_change"
| "cmd_zero (CmdGate c) = AggGate zero_gate"
| "cmd_zero (CmdSession c) = AggSession zero_session"
| "cmd_zero (CmdAnchor c) = AggAnchor zero_anchor_agg"

lemma RegisterAll_handlers: "RegisterAll = Some (
    map (\<lambda>k. (k, \<lambda>_. AggConstraint zero_constraint))
      [''DraftConstraint'', ''VerifyConstraint'', ''PromoteConstraint'', ''DemoteConstraint'',
       ''SupersedeConstraint'', ''RetireConstraint'', ''RebindConstraint''] @
    map (\<lambda>k. (k, \<lambda>_. AggDecision zero_decision))
      [''DraftDecision'', ''VerifyDecision'', ''ReviseDecision'', ''SupersedeDecision'', ''RetireDecision''] @
    map (\<lambda>k. (k, zero_scope_of)) [''SetAutonomy'', ''SetCap'', ''RecordRegression''] @
    map (\<lambda>k. (k, \<lambda>_. AggChange zero_change))
      [''OpenChange'', ''AddProposal'', ''Judge'', ''Deploy'', ''RecordOutcome'', ''Settle''] @
    map (\<lambda>k. (k, \<lambda>_. AggGate zero_gate)) [''RequestGate'', ''ResolveGate'', ''ExpireGate''] @
    map (\<lambda>k. (k, \<lambda>_. AggSession zero_session)) [''StartSession'', ''RecordTurn'', ''EndSession'', ''ShareSession''] @
    map (\<lambda>k. (k, \<lambda>_. AggAnchor zero_anchor_agg)) [''RecordAnchor'', ''VerifyAnchor'', ''MoveAnchor''])"
  by (simp add: RegisterAll_def Pipeline_Register_def)

lemma handler_of_command: "\<exists>zero. map_of app_handlers (cmd_Kind c) = Some zero \<and> zero (cmd_Stream c) = cmd_zero c"
proof (cases c)
  case (CmdConstraint x)
  then show ?thesis by (cases x) (simp_all add: app_handlers_def RegisterAll_handlers)
next
  case (CmdScope x)
  then show ?thesis by (cases x) (simp_all add: app_handlers_def RegisterAll_handlers)
next
  case (CmdDecision x)
  then show ?thesis by (cases x) (simp_all add: app_handlers_def RegisterAll_handlers)
next
  case (CmdChange x)
  then show ?thesis by (cases x) (simp_all add: app_handlers_def RegisterAll_handlers)
next
  case (CmdGate x)
  then show ?thesis by (cases x) (simp_all add: app_handlers_def RegisterAll_handlers)
next
  case (CmdSession x)
  then show ?thesis by (cases x) (simp_all add: app_handlers_def RegisterAll_handlers)
next
  case (CmdAnchor x)
  then show ?thesis by (cases x) (simp_all add: app_handlers_def RegisterAll_handlers)
qed

subsection \<open>Streams\<close>

text \<open>The prefix of a stream determines the aggregate that lives on it.\<close>

definition stream_zero :: "string \<Rightarrow> aggregate_root" where
  "stream_zero s =
     (if HasPrefix s ''constraint/'' then AggConstraint zero_constraint
      else if HasPrefix s ''scope/'' then zero_scope_of s
      else if HasPrefix s ''decision/'' then AggDecision zero_decision
      else if HasPrefix s ''change/'' then AggChange zero_change
      else if HasPrefix s ''gate/'' then AggGate zero_gate
      else if HasPrefix s ''session/'' then AggSession zero_session
      else AggAnchor zero_anchor_agg)"

lemma cmd_zero_stream: "cmd_zero c = stream_zero (cmd_Stream c)"
  by (cases c)
     (simp_all add: stream_zero_def ConstraintStream_def ScopeStream_def DecisionStream_def ChangeStream_def
       GateStream_def SessionStream_def AnchorStream_def)

lemma cmd_Stream_not_rejected: "cmd_Stream c \<noteq> RejectedStream"
  by (cases c)
     (simp_all add: ConstraintStream_def ScopeStream_def DecisionStream_def ChangeStream_def
       GateStream_def SessionStream_def AnchorStream_def)

lemma zero_scope_of_valid:
  "ScopeKey_Validate k = None \<Longrightarrow> zero_scope_of (ScopeStream k) = AggScope (NewScope k)"
  unfolding zero_scope_of_def ScopeStream_def TrimPrefix_append
  by (simp add: ParseScopeKey_String [OF ScopeKey_Validate_axes])

subsection \<open>The invariant of the sum\<close>

fun root_inv :: "aggregate_root \<Rightarrow> bool" where
  "root_inv (AggConstraint a) = constraint_inv a"
| "root_inv (AggScope a) = scope_inv a"
| "root_inv (AggDecision a) = decision_inv a"
| "root_inv (AggChange a) = change_inv a"
| "root_inv (AggGate a) = gate_inv a"
| "root_inv (AggSession a) = session_inv a"
| "root_inv (AggAnchor a) = anchor_inv a"

lemma Replay_lift:
  "Replay Root_Apply (AggConstraint a) (map EvConstraint es1) = AggConstraint (Replay Constraint_Apply a es1)"
  "Replay Root_Apply (AggScope s) (map EvScope es2) = AggScope (Replay Scope_Apply s es2)"
  "Replay Root_Apply (AggDecision d) (map EvDecision es3) = AggDecision (Replay Decision_Apply d es3)"
  "Replay Root_Apply (AggChange c) (map EvChange es4) = AggChange (Replay Change_Apply c es4)"
  "Replay Root_Apply (AggGate g) (map EvGate es5) = AggGate (Replay Gate_Apply g es5)"
  "Replay Root_Apply (AggSession n) (map EvSession es6) = AggSession (Replay Session_Apply n es6)"
  "Replay Root_Apply (AggAnchor k) (map EvAnchor es7) = AggAnchor (Replay Anchor_Apply k es7)"
  by (induction es1 arbitrary: a, simp_all) (induction es2 arbitrary: s, simp_all,
      induction es3 arbitrary: d, simp_all, induction es4 arbitrary: c, simp_all,
      induction es5 arbitrary: g, simp_all, induction es6 arbitrary: n, simp_all,
      induction es7 arbitrary: k, simp_all)

lemma lift_events_Inr: "lift_events f r = Inr es \<longleftrightarrow> (\<exists>xs. r = Inr xs \<and> es = map f xs)"
  by (auto simp: lift_events_def split: sum.splits)

lemma Root_decide_inv:
  assumes "root_inv a" "Root_Decide a c ctx = Inr es"
  shows "root_inv (Replay Root_Apply a es)"
  using assms
  by (cases a; cases c)
     (auto simp: lift_events_Inr Replay_lift Constraint_decide_inv Scope_decide_inv Decision_decide_inv
        Change_decide_inv Gate_decide_inv Session_decide_inv Anchor_decide_inv)

lemma stream_zero_inv: "root_inv (stream_zero s)"
  using constraint_agg.inv_zero scope_agg.inv_zero decision_agg.inv_zero change_agg.inv_zero gate_agg.inv_zero
    session_agg.inv_zero anchor_agg.inv_zero
  by (simp add: stream_zero_def zero_scope_of_def)

interpretation root_agg: aggregate Root_Decide Root_Apply "stream_zero s" root_inv for s
  by unfold_locales (auto simp: Root_decide_inv stream_zero_inv)

end
