(* ===== verification/Sample_Inputs.thy ===== *)
theory Sample_Inputs
  imports Ledger Scope_Key
begin

section \<open>Concrete inputs\<close>

text \<open>
  The actors, decision contexts, digests and envelopes at which the theorems with
  hypotheses are applied.
\<close>

definition ada :: actor_ref where
  "ada = \<lparr>ar_Kind = ActorHuman, ar_ID = ''ada'', ar_Key = '''', ar_Owner = ''''\<rparr>"

definition ctx_at :: "go_time \<Rightarrow> decide_context" where
  "ctx_at t = \<lparr>Now = t, Actor = ada, Autonomy = L0, Cap = MaxLevel, Policy = DefaultPolicy, Judges = [],
     ConstraintsHash = ''''\<rparr>"

lemma ctx_at_simps [simp]:
  "Now (ctx_at t) = t" "Actor (ctx_at t) = ada" "Autonomy (ctx_at t) = L0" "Cap (ctx_at t) = MaxLevel"
  "Policy (ctx_at t) = DefaultPolicy" "Judges (ctx_at t) = []" "ar_Kind ada = ActorHuman"
  by (simp_all add: ctx_at_def ada_def)

lemma history_single: "dec zero c ctx = Inr es \<Longrightarrow> history dec ap zero es"
  using history_step [OF history_start, of dec ap zero c ctx es] by simp

lemma zero_scope_key_valid: "ScopeKey_Validate zero_scope_key = None"
  by (simp add: ScopeKey_Validate_None axis_values_def zero_scope_key_def valid_axis_def)

text \<open>
  Inputs for the witnesses: a digest of one byte that tells apart what one sealed envelope
  hashes, a JSON text for its metadata, and an envelope to append.
\<close>

definition sample_digest :: digest where
  "sample_digest b = (if b = ''body'' then ''a'' else if b = ''meta'' then ''b'' else ''c'')"

definition sample_json :: meta_json where
  "sample_json m = (if Level_Valid (em_Autonomy (me_Meta m)) then Inr ''meta'' else Inl ''level: invalid'')"

definition sample_envelope :: envelope where
  "sample_envelope = \<lparr>e_Seq = 0, e_Stream = ''constraint/c'', e_Ver = 1, e_Kind = ''ConstraintRetired'', e_V = 1,
     e_TS = 5, e_Actor = ada, e_Meta = \<lparr>em_Refs = [], em_ConstraintsHash = '''', em_Autonomy = 0\<rparr>,
     e_Body = ''body'', e_MetaHash = [], e_BodyHash = [], e_PrevHash = [], e_Hash = [], e_Sig = [],
     e_Idem = ''key'', e_Origin = None\<rparr>"

definition sample_sealed :: envelope where
  "sample_sealed = sample_envelope\<lparr>e_Seq := 1, e_TS := 0, e_BodyHash := ''a'', e_MetaHash := ''b'', e_Hash := ''c''\<rparr>"

lemmas sample_defs = sample_digest_def sample_json_def ada_def sample_envelope_def sample_sealed_def

lemma sample_Seal: "Seal sample_digest sample_json [] (sample_envelope\<lparr>e_Seq := 1\<rparr>) = Inr sample_sealed"
  by (simp add: Seal_Inr sample_defs sealedMeta_def time_truncate_def)

text \<open>Commands issued one after the other; \<open>None\<close> when one is rejected.\<close>

fun run_commands :: "('s \<Rightarrow> 'c \<Rightarrow> decide_context \<Rightarrow> rejection + 'e list) \<Rightarrow> ('s \<Rightarrow> 'e \<Rightarrow> 's) \<Rightarrow> 's \<Rightarrow>
    ('c \<times> decide_context) list \<Rightarrow> 'e list option" where
  "run_commands dec ap s [] = Some []"
| "run_commands dec ap s ((c, ctx) # cs) =
     (case dec s c ctx of
        Inl _ \<Rightarrow> None
      | Inr es \<Rightarrow> map_option ((@) es) (run_commands dec ap (Replay ap s es) cs))"

lemma run_commands_history:
  assumes "run_commands dec ap zero cs = Some evs"
  shows "history dec ap zero evs"
proof -
  have "history dec ap zero pre \<Longrightarrow> run_commands dec ap (Replay ap zero pre) cs = Some post \<Longrightarrow>
      history dec ap zero (pre @ post)" for pre post
  proof (induction cs arbitrary: pre post)
    case (Cons x cs)
    obtain c ctx where x: "x = (c, ctx)"
      by (cases x)
    from Cons(3) obtain es more where es: "dec (Replay ap zero pre) c ctx = Inr es"
      and more: "run_commands dec ap (Replay ap zero (pre @ es)) cs = Some more" and post: "post = es @ more"
      by (auto simp: x split: sum.splits)
    have "history dec ap zero (pre @ es)"
      by (rule history_step) (rule Cons(2), rule es)
    from Cons(1) [OF this more] post show ?case
      by simp
  qed simp
  from this [OF history_start, of evs] assms show ?thesis
    by simp
qed

end
