(* ===== verification/Core_Properties.thy ===== *)
theory Core_Properties
  imports Anchor_Key Scope_Key Ledger Wire_Facts Sample_Inputs
begin

section \<open>Properties of the core value objects, the ledger and the codec\<close>

text \<open>
  What \<^verbatim>\<open>internal/core\<close> and the in-memory ledger promise on their own: canonical strings of
  anchors and scopes, resolution of scopes, sealing and chain verification, the four
  reads and the append of the ledger, and decoding of stored events.
\<close>

subsection \<open>Anchors\<close>

text \<open>
  The canonical string of an anchor is faithful: whatever text an anchor was parsed from,
  printing it and parsing the result gives the same anchor, and \<^verbatim>\<open>Equal\<close>, which compares
  canonical strings, holds of two parsed anchors exactly when they are the same.
\<close>

theorem ParseAnchor_roundtrip:
  assumes "ParseAnchor s = Inr a" and "ParseAnchor t = Inr b"
  shows "ParseAnchor (Anchor_String a) = Inr a \<and> (Anchor_Equal a b \<longleftrightarrow> a = b)"
  using assms by (metis Anchor_Equal_def ParseAnchor_wf sum.inject(2) wf_ParseAnchor)

lemma ParseAnchor_go_file:
  "ParseAnchor ''code://cmd/main.go'' = Inr \<lparr>an_Scheme = SchemeCode, an_Path = ''cmd/main.go'', an_Symbol = ''''\<rparr>"
  "ParseAnchor ''code://cmd/main.go#run'' = Inr \<lparr>an_Scheme = SchemeCode, an_Path = ''cmd/main.go'', an_Symbol = ''run''\<rparr>"
  by code_simp+

theorem ParseAnchor_roundtrip_witness:
  "\<not> Anchor_Equal \<lparr>an_Scheme = SchemeCode, an_Path = ''cmd/main.go'', an_Symbol = ''''\<rparr>
     \<lparr>an_Scheme = SchemeCode, an_Path = ''cmd/main.go'', an_Symbol = ''run''\<rparr>"
  using ParseAnchor_roundtrip [OF ParseAnchor_go_file] by simp

text \<open>
  An accepted code anchor never leaves the repository: its path is relative, and every
  segment is a name, neither empty nor \<^verbatim>\<open>.\<close> nor \<^verbatim>\<open>..\<close>; the only exception is the path \<^verbatim>\<open>.\<close>,
  the root of the repository itself. Its symbol holds no second \<^verbatim>\<open>#\<close> and no blank.
\<close>

theorem code_anchor_in_repo:
  assumes "ParseAnchor s = Inr a" and "an_Scheme a = SchemeCode"
  shows "\<not> HasPrefix (an_Path a) ''/'' \<and>
    (an_Path a = ''.'' \<or>
     (\<forall>seg \<in> set (Split (an_Path a) (CHR ''/'')). seg \<noteq> '''' \<and> seg \<noteq> ''.'' \<and> seg \<noteq> ''..'')) \<and>
    set (an_Symbol a) \<inter> {CHR ''#'', CHR '' ''} = {}"
proof -
  have ok: "validateRepoPath (an_Path a) = None" and symb: "\<not> ContainsAny (an_Symbol a) ''# ''"
    using ParseAnchor_wf [OF assms(1)] assms(2) by (simp_all add: anchor_wf_def Let_def)
  from ok have "\<not> HasPrefix (an_Path a) ''/''"
    by (auto simp: validateRepoPath_def split: if_splits)
  with ok symb show ?thesis
    unfolding validateRepoPath_None by (auto simp: plain_segment_def ContainsAny_iff)
qed

theorem code_anchor_in_repo_witness:
  "\<not> HasPrefix ''cmd/main.go'' ''/'' \<and> (\<exists>e. ParseAnchor ''code://cmd/../../etc'' = Inl e)"
proof
  show "\<not> HasPrefix ''cmd/main.go'' ''/''"
    using code_anchor_in_repo [OF ParseAnchor_go_file(1)] by simp
  show "\<exists>e. ParseAnchor ''code://cmd/../../etc'' = Inl e"
  proof (cases "ParseAnchor ''code://cmd/../../etc''")
    case (Inr a)
    moreover have "isl (ParseAnchor ''code://cmd/../../etc'')"
      by code_simp
    ultimately show ?thesis
      by simp
  qed simp
qed

subsection \<open>Scope keys\<close>

lemma parse_axes_parts:
  assumes "parse_axes i (zip axis_names [p1, p2, p3, p4, p5, p6]) zero_scope_key = Inr k"
  shows "[p1, p2, p3, p4, p5, p6] = [''org='' @ sk_Org k, ''product='' @ sk_Product k, ''team='' @ sk_Team k,
     ''repo='' @ sk_Repo k, ''path='' @ sk_PathGlob k, ''person='' @ sk_Person k]"
  using assms
  by (auto simp: axis_names_def set_axis_def zero_scope_key_def dest!: Cut_found split: prod.splits if_splits)

lemma ParseScopeKey_accepts:
  assumes "ParseScopeKey s = (k, None)"
  shows "ScopeKey_String k = s \<and> ScopeKey_Validate k = None"
proof -
  have "length (Split s (CHR ''|'')) = 6"
    using assms by (auto simp: ParseScopeKey_def Let_def split: if_splits)
  then obtain p1 p2 p3 p4 p5 p6 where parts: "Split s (CHR ''|'') = [p1, p2, p3, p4, p5, p6]"
    by (auto simp: length_Suc_conv numeral_eq_Suc)
  with assms have axes: "parse_axes 0 (zip axis_names [p1, p2, p3, p4, p5, p6]) zero_scope_key = Inr k"
    and ok: "ScopeKey_Validate k = None"
    by (auto simp: ParseScopeKey_def Let_def split: sum.splits)
  have "Join (Split s (CHR ''|'')) [CHR ''|''] = ScopeKey_String k"
    unfolding parts parse_axes_parts [OF axes] ScopeKey_String_Join ..
  with ok show ?thesis
    by (simp add: Join_Split)
qed

text \<open>
  C40. Valid scope keys and the strings \<^verbatim>\<open>ParseScopeKey\<close> accepts correspond one to one: a string
  is accepted with the key \<open>k\<close> exactly when \<open>k\<close> is valid and the string is the canonical
  string of \<open>k\<close>. So scope streams, which are named by the string, never collide.
\<close>

theorem ScopeKey_string_bijection:
  "ParseScopeKey s = (k, None) \<longleftrightarrow> ScopeKey_Validate k = None \<and> s = ScopeKey_String k"
  using ParseScopeKey_accepts [of s k] ParseScopeKey_String [OF ScopeKey_Validate_axes, of k] by auto

text \<open>
  A validated glob never fails to match for a syntax reason: \<^verbatim>\<open>Validate\<close> tries the pattern
  on the empty path only, yet after it \<^verbatim>\<open>path.Match\<close> returns no error on any path, so the
  error that \<^verbatim>\<open>globMatch\<close> drops is never there and a glob without the \<^verbatim>\<open>/**\<close> suffix
  matches exactly what \<^verbatim>\<open>path.Match\<close> says.
\<close>

theorem validated_glob_total:
  assumes "ScopeKey_Validate k = None" and "sk_PathGlob k \<noteq> ''''"
  shows "(\<exists>b. path_Match (TrimSuffix (sk_PathGlob k) ''/**'') p = Inr b) \<and>
    (\<not> HasSuffix (sk_PathGlob k) ''/**'' \<longrightarrow>
      (globMatch (sk_PathGlob k) p \<longleftrightarrow> sk_PathGlob k = ''**'' \<or> path_Match (sk_PathGlob k) p = Inr True))"
proof -
  let ?g = "TrimSuffix (sk_PathGlob k) ''/**''"
  have "isr (path_Match ?g '''')"
    using assms by (auto simp: ScopeKey_Validate_None)
  then have "isr (path_Match ?g p)"
    by (simp add: path_Match_error_iff)
  then obtain b where "path_Match ?g p = Inr b"
    by (cases "path_Match ?g p") auto
  then show ?thesis
    by (auto simp: globMatch_def CutSuffix_def split: sum.splits)
qed

lemmas path_Match_eval = path_Match.simps scanChunk_def matchChunk.simps checkRest.simps
  DecodeRuneInString_def decode_rune_bytes_def

theorem validated_glob_total_witness:
  "\<exists>b. path_Match ''cmd/*.go'' ''cmd/keelage/main.go'' = Inr b"
proof -
  let ?k = "zero_scope_key\<lparr>sk_Repo := ''keelage'', sk_PathGlob := ''cmd/*.go''\<rparr>"
  have "path_Match ''cmd/*.go'' '''' = Inr False"
    by (simp add: path_Match_eval)
  then have "ScopeKey_Validate ?k = None" and "TrimSuffix (sk_PathGlob ?k) ''/**'' = ''cmd/*.go''"
    by (simp_all add: ScopeKey_Validate_def axis_values_def zero_scope_key_def ContainsAny_def
        TrimSuffix_def CutSuffix_def HasSuffix_def)
  with validated_glob_total [of ?k "''cmd/keelage/main.go''"] show ?thesis
    by simp
qed

lemma Resolve_strict: "sorted_wrt (resolve_less kind) (Resolve keys target kind)"
proof -
  have "distinct (map (resolve_key kind) (Resolve keys target kind))"
    using distinct_Resolve [of keys target kind] resolve_key_inj [of kind keys target kind]
    by (simp add: distinct_map)
  then have "sorted_wrt (<) (map (resolve_key kind) (Resolve keys target kind))"
    using Resolve_sorted [of kind keys target] by (simp add: strict_sorted_iff)
  then show ?thesis
    unfolding resolve_less_key sorted_wrt_map .
qed

text \<open>
  Resolution over valid scopes: \<^verbatim>\<open>Resolve\<close> returns each scope that contains the target once
  and no other; constraints come wide before narrow and context narrow before wide, ties by
  canonical string; the result depends on the set of scopes only; and a scope that
  contains the target is at least as wide as the target.
\<close>

theorem Resolve_correct:
  assumes "\<forall>k \<in> set keys. ScopeKey_Validate k = None" and "set keys' = set keys"
  shows "set (Resolve keys target kind) = {k \<in> set keys. Contains k target} \<and>
    sorted_wrt (resolve_less kind) (Resolve keys target kind) \<and> distinct (Resolve keys target kind) \<and>
    Resolve keys' target kind = Resolve keys target kind \<and>
    (\<forall>k \<in> set (Resolve keys target kind). Width target \<le> Width k)"
proof (intro conjI)
  show sets: "set (Resolve keys target kind) = {k \<in> set keys. Contains k target}"
    by (rule set_Resolve_valid [OF assms(1)])
  show "sorted_wrt (resolve_less kind) (Resolve keys target kind)"
    by (rule Resolve_strict)
  show "distinct (Resolve keys target kind)"
    using distinct_Resolve [of keys target kind] by (simp add: distinct_map)
  show "Resolve keys' target kind = Resolve keys target kind"
    using Resolve_set_cong [OF assms(1)] assms(2) by metis
  show "\<forall>k \<in> set (Resolve keys target kind). Width target \<le> Width k"
    unfolding sets using Width_antimono by auto
qed

theorem Resolve_correct_witness:
  "let org = zero_scope_key\<lparr>sk_Org := ''acme''\<rparr>; repo = org\<lparr>sk_Repo := ''keelage''\<rparr> in
   set (Resolve [repo, org] repo KindConstraint) = {k \<in> set [repo, org]. Contains k repo} \<and>
   Resolve [repo, org] repo KindConstraint = [org, repo] \<and>
   Width repo \<le> Width org"
proof -
  let ?org = "zero_scope_key\<lparr>sk_Org := ''acme''\<rparr>"
  let ?repo = "?org\<lparr>sk_Repo := ''keelage''\<rparr>"
  have ok: "\<forall>k \<in> set [?repo, ?org]. ScopeKey_Validate k = None"
    by code_simp
  have eval: "Resolve [?repo, ?org] ?repo KindConstraint = [?org, ?repo]"
    by code_simp
  show ?thesis
    unfolding Let_def
    using Resolve_correct [OF ok refl, of ?repo KindConstraint] eval by (simp del: Width_def)
qed

subsection \<open>Sealing and the chain\<close>

lemma verify_from_last:
  assumes "verify_from H J before prev (evs @ [e]) = Inr h"
  shows "\<exists>p. verify_from H J before prev evs = Inr p \<and> Verify H J p e = None \<and> e_Hash e = h"
  using assms by (auto simp: verify_from_snoc)

lemma verify_from_prev_length:
  assumes "verify_from H J None [] evs = Inr h" "\<And>x. length (H x) = n"
  shows "h = [] \<or> length h = n"
  using verify_from_hash_length [OF assms] by auto

text \<open>
  C29. The chain is tamper-evident: two runs of envelopes that verify from genesis and end in the
  same hash are record for record the same in content (stream, version, kind, schema
  version, time, actor, metadata and body) and in hashes. SHA-256 is a digest of one
  positive length without collisions on the inputs the two verifications hash, and the JSON
  text of the metadata tells the records apart. Neither the sequence number nor the
  idempotency key nor the signature is sealed.
\<close>

theorem chain_tamper_evident:
  assumes "VerifyChain H J [] es = Inr h" and "VerifyChain H J [] es' = Inr h"
    and len: "\<And>x. length (H x) = n" and pos: "n > 0"
    and inj: "inj_on H (hash_inputs J es \<union> hash_inputs J es')"
    and jinj: "inj_on J (sealedMeta ` (set es \<union> set es'))"
  shows "map e_Body es = map e_Body es' \<and> map sealedMeta es = map sealedMeta es' \<and> map e_Hash es = map e_Hash es'"
  using assms(1,2) inj jinj unfolding VerifyChain_def
proof (induction es arbitrary: es' h rule: rev_induct)
  case Nil
  then show ?case
    using verify_from_hash_length [OF Nil(2) len] pos by (cases "es' = []") auto
next
  case (snoc e es)
  obtain p where p: "verify_from H J None [] es = Inr p" "Verify H J p e = None" "e_Hash e = h"
    using verify_from_last [OF snoc(2)] by blast
  have "length h = n"
    using p(3) Verify_hash_length [OF p(2) len] by simp
  then have "es' \<noteq> []"
    using snoc(3) pos by auto
  then obtain fs e' where es': "es' = fs @ [e']"
    by (metis rev_exhaust)
  obtain q where q: "verify_from H J None [] fs = Inr q" "Verify H J q e' = None" "e_Hash e' = h"
    using verify_from_last [of H J None "[]" fs e' h] snoc(3) unfolding es' by blast
  have sub: "inj_on H (hash_inputs J [e] \<union> hash_inputs J [e'])" "inj_on J {sealedMeta e, sealedMeta e'}"
    "inj_on H (hash_inputs J es \<union> hash_inputs J fs)" "inj_on J (sealedMeta ` (set es \<union> set fs))"
    by (rule inj_on_subset [OF snoc(4)] inj_on_subset [OF snoc(5)]; auto simp: es')+
  have eq: "p = q \<and> e_Body e = e_Body e' \<and> sealedMeta e = sealedMeta e'"
    using p(3) q(3)
    by (intro Verify_same_hash [OF p(2) q(2) _ len _ _ sub(1,2)]
        verify_from_prev_length [OF p(1) len] verify_from_prev_length [OF q(1) len]) simp
  then have "verify_from H J None [] fs = Inr p"
    using q(1) by simp
  from snoc(1) [OF p(1) this sub(3,4)] eq p(3) q(3) show ?case
    by (simp add: es')
qed

theorem chain_tamper_evident_witness:
  "map sealedMeta [sample_sealed] = map sealedMeta [sample_sealed\<lparr>e_Seq := 7, e_Idem := ''other''\<rparr>]"
proof -
  let ?e = "sample_sealed" and ?f = "sample_sealed\<lparr>e_Seq := 7, e_Idem := ''other''\<rparr>"
  have V: "Verify sample_digest sample_json [] ?e = None" "Verify sample_digest sample_json [] ?f = None"
    by (simp_all add: Verify_None sealedMeta_def sample_defs)
  have chains: "VerifyChain sample_digest sample_json [] [?e] = Inr ''c''"
    "VerifyChain sample_digest sample_json [] [?f] = Inr ''c''"
    using V by (simp_all add: VerifyChain_def sample_defs)
  have inj: "inj_on sample_digest (hash_inputs sample_json [?e] \<union> hash_inputs sample_json [?f])"
    by (simp add: hash_inputs_def sealedMeta_def sample_defs)
  have len: "length (sample_digest x) = 1" for x
    by (simp add: sample_digest_def)
  have "inj_on sample_json (sealedMeta ` (set [?e] \<union> set [?f]))"
    by (simp add: sealedMeta_def)
  from chain_tamper_evident [OF chains len zero_less_one inj this] show ?thesis
    by blast
qed

text \<open>
  A record keeps its identity when another ledger stores it: seal an envelope after
  \<open>prev\<close>, let an organisation's ledger renumber it, note the daemon's position and
  reseal it after its own head. The result verifies there, its metadata and body hashes are
  unchanged, and \<^verbatim>\<open>OriginHash\<close> gives back the hash of the daemon's own chain.
\<close>

theorem reseal_keeps_origin:
  assumes "Seal H J prev e = Inr sealed"
    and "moved = sealed\<lparr>e_Seq := n, e_Origin := Some \<lparr>og_DaemonID = d, og_LocalSeq = e_Seq sealed, og_PrevHash = prev\<rparr>\<rparr>"
  shows "\<exists>stored. Seal H J prev' moved = Inr stored \<and> Verify H J prev' stored = None \<and>
    e_MetaHash stored = e_MetaHash sealed \<and> e_BodyHash stored = e_BodyHash sealed \<and>
    OriginHash H stored = e_Hash sealed"
proof -
  have hash: "e_Hash sealed = H (prev @ e_MetaHash sealed @ e_BodyHash sealed)"
    using Seal_Verify [OF assms(1)] by (auto simp: Verify_None)
  have moved: "moved = sealed\<lparr>e_Seq := n, e_Idem := e_Idem sealed,
      e_Origin := Some \<lparr>og_DaemonID = d, og_LocalSeq = e_Seq sealed, og_PrevHash = prev\<rparr>, e_Sig := e_Sig sealed\<rparr>"
    using assms(2) by (cases sealed) simp
  show ?thesis
    using Seal_resealed [OF assms(1), where prev' = prev' and n = n and i = "e_Idem sealed" and sg = "e_Sig sealed" and
        og = "Some \<lparr>og_DaemonID = d, og_LocalSeq = e_Seq sealed, og_PrevHash = prev\<rparr>"]
      Seal_Verify [of H J prev' moved]
    unfolding moved [symmetric] by (auto simp: OriginHash_def hash_sum_def hash assms(2))
qed

theorem reseal_keeps_origin_witness:
  "\<exists>stored. Seal sample_digest sample_json ''c'' (sample_sealed\<lparr>e_Seq := 9,
      e_Origin := Some \<lparr>og_DaemonID = ''d1'', og_LocalSeq = e_Seq sample_sealed, og_PrevHash = []\<rparr>\<rparr>) = Inr stored \<and>
    OriginHash sample_digest stored = e_Hash sample_sealed"
  using reseal_keeps_origin [OF sample_Seal refl, where prev' = "''c''" and n = 9 and d = "''d1''"] by auto

subsection \<open>The in-memory ledger\<close>

lemma log_ok_new_versions:
  assumes "log_ok H J es" "stream_log es s = xs @ ys"
  shows "map e_Ver ys = [int (length xs) + 1..int (length xs) + int (length ys)]"
proof (rule nth_equalityI)
  fix i assume "i < length (map e_Ver ys)"
  then show "map e_Ver ys ! i = [int (length xs) + 1..int (length xs) + int (length ys)] ! i"
    using log_ok_ver_nth [OF assms(1), of "length xs + i" s] by (simp add: assms(2) nth_append nth_upto)
qed simp

lemma log_ok_new_seqs:
  assumes "log_ok H J es" "es = xs @ ys"
  shows "map e_Seq ys = [int (length xs) + 1..int (length xs + length ys)]"
proof (rule nth_equalityI)
  fix i assume "i < length (map e_Seq ys)"
  then show "map e_Seq ys ! i = [int (length xs) + 1..int (length xs + length ys)] ! i"
    using log_ok_seq [OF assms(1), of "length xs + i"] by (simp add: assms(2) nth_append nth_upto)
qed simp

text \<open>
  C30. Appending is all or nothing and extends the chain. A successful \<^verbatim>\<open>Append\<close> stores
  exactly the events handed in, in order and on the given stream, at consecutive sequence
  numbers and versions, which are the ones it reports; the version check holds; the other
  streams are as before; the whole chain still verifies from genesis; and the ledger
  stays well-formed. A failed \<^verbatim>\<open>Append\<close> leaves the ledger as it was.
\<close>

theorem mem_Append_correct:
  assumes inv: "ledger_inv H J l"
  shows "case mem_Append H J l s expected evs of
      (Inl err, l') \<Rightarrow> l' = l
    | (Inr r, l') \<Rightarrow> ledger_inv H J l' \<and> (expected = AnyVersion \<or> expected = int (length (stream_log (l_all l) s))) \<and>
        (\<exists>sealed. l_all l' = l_all l @ sealed \<and> sealed \<noteq> [] \<and> list_all2 (sealed_as s) evs sealed \<and>
          stream_log (l_all l') s = stream_log (l_all l) s @ sealed \<and>
          map e_Ver sealed = [rg_FromVer r..rg_ToVer r] \<and> map e_Seq sealed = [rg_FromSeq r..rg_ToSeq r]) \<and>
        (\<forall>t. t \<noteq> s \<longrightarrow> stream_log (l_all l') t = stream_log (l_all l) t) \<and>
        VerifyChain H J [] (l_all l') = Inr (log_head (l_all l'))"
proof (cases "mem_Append H J l s expected evs")
  case (Pair res l')
  show ?thesis
  proof (cases res)
    case (Inl err)
    then show ?thesis
      using Pair mem_Append_Inl by simp
  next
    case (Inr r)
    note ap = Pair [unfolded Inr]
    then have pap: "pl_Append (mem_port H J) l s expected evs = (Inr r, l')"
      by (simp add: mem_port_def)
    from mem_Append_Inr [OF inv ap] obtain sealed where all: "l_all l' = l_all l @ sealed"
      and l2: "list_all2 (sealed_as s) evs sealed" and inv': "ledger_inv H J l'" and ne: "evs \<noteq> []"
      and exp: "expected = AnyVersion \<or> expected = int (length (stream_log (l_all l) s))"
      and r: "r = \<lparr>rg_Stream = s, rg_FromVer = int (length (stream_log (l_all l) s)) + 1,
          rg_ToVer = int (length (stream_log (l_all l) s)) + int (length evs),
          rg_FromSeq = int (length (l_all l)) + 1, rg_ToSeq = int (length (l_all l) + length evs)\<rparr>"
      by blast
    from memory.append_stream [OF inv pap] all
    have st: "stream_log (l_all l') s = stream_log (l_all l) s @ sealed"
      by auto
    have lg: "log_ok H J (l_all l')"
      by (rule memory.log_wf [OF inv'])
    have len: "length sealed = length evs"
      using l2 by (simp add: list_all2_lengthD)
    have "map e_Ver sealed = [rg_FromVer r..rg_ToVer r] \<and> map e_Seq sealed = [rg_FromSeq r..rg_ToSeq r]"
      using log_ok_new_versions [OF lg st] log_ok_new_seqs [OF lg all] len by (simp add: r)
    then show ?thesis
      using Pair Inr inv' exp all l2 st ne len memory.append_other_streams [OF inv pap]
        memory.chain_verifies [OF inv'] by auto
  qed
qed

lemma filter_upt_between: "filter (\<lambda>i. a \<le> i \<and> i < b) [0..<n] = [a..<min b n]"
proof (induction n)
  case (Suc n)
  then show ?case
    by (cases "n < b"; cases "a \<le> n") (auto simp: min_def not_less le_Suc_eq)
qed simp

lemma take_upt_between: "a \<le> b \<Longrightarrow> take (b - a) [a..<n] = [a..<min b n]"
  by (cases "b \<le> n") (simp_all add: take_upt min_def)

lemma filter_window:
  assumes "\<And>i. i < length es \<Longrightarrow> P (es ! i) \<longleftrightarrow> a \<le> i \<and> i < b"
  shows "filter P es = take (b - a) (drop a es)"
proof -
  have "filter P es = map ((!) es) (filter (P \<circ> (!) es) [0..<length es])"
    by (metis filter_map map_nth)
  also have "filter (P \<circ> (!) es) [0..<length es] = filter (\<lambda>i. a \<le> i \<and> i < b) [0..<length es]"
    using assms by (intro filter_cong) auto
  also have "\<dots> = take (b - a) (drop a [0..<length es])"
    by (cases "a \<le> b") (simp_all add: filter_upt_between take_upt_between)
  finally show ?thesis
    by (simp only: take_map [symmetric] drop_map [symmetric] map_nth)
qed

lemma log_window:
  assumes "log_ok H J es"
  shows "filter (\<lambda>e. from \<le> e_Seq e \<and> (limit \<le> 0 \<or> e_Seq e < max from 1 + limit)) es =
    (let rest = drop (nat (from - 1)) es in if limit > 0 then take (nat limit) rest else rest)"
proof -
  let ?a = "nat (from - 1)" and ?b = "if limit > 0 then nat (from - 1) + nat limit else length es"
  have "filter (\<lambda>e. from \<le> e_Seq e \<and> (limit \<le> 0 \<or> e_Seq e < max from 1 + limit)) es = take (?b - ?a) (drop ?a es)"
    by (rule filter_window) (auto simp: log_ok_seq [OF assms])
  then show ?thesis
    by simp
qed

text \<open>The keys that a batch would claim on a stream.\<close>

definition batch_keys :: "string \<Rightarrow> envelope list \<Rightarrow> string list" where
  "batch_keys s evs = map (\<lambda>e. idemKey s (e_Idem e)) (filter (\<lambda>e. e_Idem e \<noteq> '''') evs)"

lemma idem_check_keys:
  "idem_check im s batch evs = None \<longleftrightarrow>
    distinct (batch_keys s evs) \<and> set (batch_keys s evs) \<inter> set batch = {} \<and>
    (\<forall>k \<in> set (batch_keys s evs). map_of im k = None)"
proof (induction evs arbitrary: batch)
  case (Cons e evs)
  show ?case
    unfolding idem_check_Cons Cons by (auto simp: batch_keys_def)
qed (simp add: batch_keys_def)

lemma sample_append:
  "mem_Append sample_digest sample_json (NewLedger None) ''constraint/c'' 0 [sample_envelope\<lparr>e_Stream := ''''\<rparr>] =
    (Inr \<lparr>rg_Stream = ''constraint/c'', rg_FromVer = 1, rg_ToVer = 1, rg_FromSeq = 1, rg_ToSeq = 1\<rparr>,
     \<lparr>l_all = [sample_sealed], l_streams = [(''constraint/c'', [0])],
      l_idem = [(idemKey ''constraint/c'' ''key'', 0)], l_origins = [], l_signer = None\<rparr>)"
  by (simp add: mem_Append_def NewLedger_def last_hash_def map_get_def commit_one_def sign_unsigned_def Let_def
      Seal_def metaHash_def hash_sum_def sealedMeta_def sample_defs time_truncate_def)

theorem mem_Append_correct_witness:
  "VerifyChain sample_digest sample_json [] [sample_sealed] = Inr (log_head [sample_sealed])"
  using mem_Append_correct [OF NewLedger_inv [of sample_digest sample_json None], where
      s = "''constraint/c''" and expected = 0 and evs = "[sample_envelope\<lparr>e_Stream := ''''\<rparr>]"]
  unfolding sample_append by simp

lemma sample_ledger_inv:
  "ledger_inv sample_digest sample_json \<lparr>l_all = [sample_sealed], l_streams = [(''constraint/c'', [0])],
      l_idem = [(idemKey ''constraint/c'' ''key'', 0)], l_origins = [], l_signer = None\<rparr>"
  using mem_Append_Inr [OF NewLedger_inv sample_append] by blast

text \<open>
  The reads are functions of the log alone. \<^verbatim>\<open>Read\<close> returns the records of one stream from
  a version on, in order; \<^verbatim>\<open>ReadAll\<close> a window of the log by sequence number; \<^verbatim>\<open>Head\<close> the length and
  the last hash; \<^verbatim>\<open>Lookup\<close> the one record of a stream that carries an idempotency key, and
  \<^verbatim>\<open>ErrNotFound\<close> exactly when there is none.
\<close>

theorem mem_reads_correct:
  assumes "ledger_inv H J l"
  shows "mem_Read l s from = Inr (filter (\<lambda>e. from \<le> e_Ver e) (stream_log (l_all l) s)) \<and>
    mem_ReadAll l from limit = Inr (filter (\<lambda>e. from \<le> e_Seq e \<and> (limit \<le> 0 \<or> e_Seq e < max from 1 + limit)) (l_all l)) \<and>
    mem_Head l = Inr \<lparr>hd_Seq = int (length (l_all l)), hd_Hash = log_head (l_all l)\<rparr> \<and>
    (\<forall>e. mem_Lookup l s idem = Inr e \<longleftrightarrow>
       e \<in> set (l_all l) \<and> e_Idem e \<noteq> '''' \<and> idemKey (e_Stream e) (e_Idem e) = idemKey s idem) \<and>
    (mem_Lookup l s idem = Inl ErrNotFound \<longleftrightarrow>
       (\<forall>e \<in> set (l_all l). e_Idem e \<noteq> '''' \<longrightarrow> idemKey (e_Stream e) (e_Idem e) \<noteq> idemKey s idem))"
proof (intro conjI)
  have lg: "log_ok H J (l_all l)"
    by (rule memory.log_wf [OF assms])
  show "mem_Read l s from = Inr (filter (\<lambda>e. from \<le> e_Ver e) (stream_log (l_all l) s))"
    using memory.read [OF assms, of s "from"] by (simp add: mem_port_def)
  have "mem_ReadAll l from limit =
      Inr (let rest = drop (nat (from - 1)) (l_all l) in if limit > 0 then take (nat limit) rest else rest)"
    using memory.read_all [OF assms, of "from" limit] by (simp add: mem_port_def)
  also have "\<dots> = Inr (filter (\<lambda>e. from \<le> e_Seq e \<and> (limit \<le> 0 \<or> e_Seq e < max from 1 + limit)) (l_all l))"
    by (simp add: log_window [OF lg])
  finally show "mem_ReadAll l from limit =
      Inr (filter (\<lambda>e. from \<le> e_Seq e \<and> (limit \<le> 0 \<or> e_Seq e < max from 1 + limit)) (l_all l))" .
  show "mem_Head l = Inr \<lparr>hd_Seq = int (length (l_all l)), hd_Hash = log_head (l_all l)\<rparr>"
    using memory.chain_head [OF assms] by (simp add: mem_port_def)
  note look = mem_Lookup_Inr [OF assms, of s idem, unfolded env_idem_key_def]
  show "\<forall>e. mem_Lookup l s idem = Inr e \<longleftrightarrow>
       e \<in> set (l_all l) \<and> e_Idem e \<noteq> '''' \<and> idemKey (e_Stream e) (e_Idem e) = idemKey s idem"
    using look by blast
  show "mem_Lookup l s idem = Inl ErrNotFound \<longleftrightarrow>
       (\<forall>e \<in> set (l_all l). e_Idem e \<noteq> '''' \<longrightarrow> idemKey (e_Stream e) (e_Idem e) \<noteq> idemKey s idem)"
  proof (cases "mem_Lookup l s idem")
    case (Inl err)
    then have "err = ErrNotFound"
      by (auto simp: mem_Lookup_def split: option.splits)
    then show ?thesis
      using look Inl by auto
  next
    case (Inr e)
    then have "mem_Lookup l s idem \<noteq> Inl ErrNotFound"
      by simp
    then show ?thesis
      using look [of e] Inr by blast
  qed
qed

theorem mem_reads_correct_witness:
  "mem_Lookup \<lparr>l_all = [sample_sealed], l_streams = [(''constraint/c'', [0])],
      l_idem = [(idemKey ''constraint/c'' ''key'', 0)], l_origins = [], l_signer = None\<rparr>
    ''constraint/c'' ''key'' = Inr sample_sealed"
  using mem_reads_correct [OF sample_ledger_inv, of "''constraint/c''" 1 0 "''key''"]
  by (simp add: sample_defs idemKey_def)

text \<open>
  A repeated idempotency key is reported as such whatever version the caller expects: if a
  non-empty batch carries a key that its stream already holds, or the same key twice, the
  answer is \<^verbatim>\<open>ErrDuplicateIdempotencyKey\<close>, before the version is compared; and only
  then. \<^verbatim>\<open>ErrVersionConflict\<close> is returned exactly when the keys and the origins of a
  non-empty batch are fresh and a version other than the stream's was expected.
\<close>

theorem mem_Append_errors:
  assumes "ledger_inv H J l" and "evs \<noteq> []" and "keys = batch_keys s evs"
  shows "(fst (mem_Append H J l s expected evs) = Inl ErrDuplicateIdempotencyKey \<longleftrightarrow>
      \<not> distinct keys \<or> (\<exists>p \<in> set (l_all l). e_Idem p \<noteq> '''' \<and> idemKey (e_Stream p) (e_Idem p) \<in> set keys)) \<and>
    (fst (mem_Append H J l s expected evs) = Inl ErrVersionConflict \<longleftrightarrow>
      distinct keys \<and> (\<forall>p \<in> set (l_all l). e_Idem p \<noteq> '''' \<longrightarrow> idemKey (e_Stream p) (e_Idem p) \<notin> set keys) \<and>
      origin_check (l_origins l) evs = None \<and>
      expected \<noteq> AnyVersion \<and> expected \<noteq> int (length (stream_log (l_all l) s)))"
proof -
  have ix: "index_ok l"
    using assms(1) by (simp add: ledger_inv_def)
  let ?dup = "idem_check (l_idem l) s [] evs"
  have used: "map_of (l_idem l) k \<noteq> None \<longleftrightarrow>
      (\<exists>p \<in> set (l_all l). e_Idem p \<noteq> '''' \<and> idemKey (e_Stream p) (e_Idem p) = k)" for k
    using ledger_idem_lookup [OF assms(1)] by (simp add: env_idem_key_def)
  have dup: "?dup = None \<longleftrightarrow> distinct keys \<and>
      (\<forall>p \<in> set (l_all l). e_Idem p \<noteq> '''' \<longrightarrow> idemKey (e_Stream p) (e_Idem p) \<notin> set keys)"
    unfolding idem_check_keys assms(3) [symmetric] using used by (auto simp del: not_None_eq) metis
  let ?sb = "\<lambda>cur. seal_batch H J (l_signer l) s cur (int (length (l_all l))) 0 (last_hash l) evs"
  have sb: "?sb cur \<noteq> Inl ErrVersionConflict" "?sb cur \<noteq> Inl ErrDuplicateIdempotencyKey" for cur
    using seal_batch_error by (metis ledger_error.distinct)+
  show ?thesis
  proof (cases ?dup)
    case None
    note fresh = dup [THEN iffD1, OF None]
    then have "fst (mem_Append H J l s expected evs) \<noteq> Inl ErrDuplicateIdempotencyKey"
      using None assms(2) sb origin_check_error [of "l_origins l" evs]
      by (auto simp: mem_Append_def Let_def split: option.split sum.split)
    moreover have "fst (mem_Append H J l s expected evs) = Inl ErrVersionConflict \<longleftrightarrow>
      origin_check (l_origins l) evs = None \<and> expected \<noteq> AnyVersion \<and> expected \<noteq> int (length (stream_log (l_all l) s))"
      using None assms(2) sb origin_check_error [of "l_origins l" evs]
      by (auto simp: mem_Append_def Let_def stream_length [OF ix] split: option.split sum.split)
    ultimately show ?thesis
      using fresh by blast
  next
    case (Some err)
    then have "fst (mem_Append H J l s expected evs) = Inl ErrDuplicateIdempotencyKey"
      using assms(2) idem_check_error [OF Some] by (simp add: mem_Append_def)
    then show ?thesis
      using dup Some by auto
  qed
qed

theorem mem_Append_errors_witness:
  "fst (mem_Append sample_digest sample_json
      \<lparr>l_all = [sample_sealed], l_streams = [(''constraint/c'', [0])],
       l_idem = [(idemKey ''constraint/c'' ''key'', 0)], l_origins = [], l_signer = None\<rparr>
      ''constraint/c'' 7 [sample_envelope]) = Inl ErrDuplicateIdempotencyKey"
  using mem_Append_errors [OF sample_ledger_inv _ refl, of "[sample_envelope]" "''constraint/c''" 7]
  by (simp add: sample_defs idemKey_def batch_keys_def)

subsection \<open>Stored events\<close>

lemma app_latest_ConstraintDrafted: "Codec_Latest app_codec ''ConstraintDrafted'' = 2"
  unfolding Codec_Latest_def app_codec_simps by (simp add: map_get_def)

lemma app_latest_ChangeOpened: "Codec_Latest app_codec ''ChangeOpened'' = 2"
  unfolding Codec_Latest_def app_codec_simps by (simp add: map_get_def)

lemma upcast_loop_ConstraintDrafted:
  "upcast_loop event_kv app_codec ''ConstraintDrafted'' (EvConstraint (ConstraintDraftedV1 v)) =
    Inr (EvConstraint (ConstraintDrafted (upcast_ConstraintDrafted v)))"
  by (simp add: upcast_loop.simps app_latest_ConstraintDrafted app_codec_simps(3))

lemma upcast_loop_ChangeOpened:
  "upcast_loop event_kv app_codec ''ChangeOpened'' (EvChange (ChangeOpenedV1 v)) =
    Inr (EvChange (ChangeOpened (upcast_ChangeOpened v)))"
  by (simp add: upcast_loop.simps app_latest_ChangeOpened app_codec_simps(3))

lemma upcast_loop_current:
  assumes "event_kv e \<notin> {(''ConstraintDrafted'', 1), (''ChangeOpened'', 1)}"
  shows "upcast_loop event_kv app_codec (fst (event_kv e)) e = Inr e"
proof -
  have "\<not> snd (event_kv e) < Codec_Latest app_codec (fst (event_kv e))"
    using app_codec_old event_kv_registered [of e] assms by blast
  then show ?thesis
    by (subst upcast_loop.simps) simp
qed

text \<open>
  C39. The application's codec is assembled without a panic, knows every event of every
  aggregate, and decodes whatever was stored to the newest shape of its kind: an event of
  the current version comes back as it was written, and the two kinds with an
  older version are upcast (a constraint without anchors, a change without sessions). The
  only way to fail is the JSON itself.
\<close>

theorem NewCodec_decodes:
  assumes "unmarshal (event_kv e) b = Inr e"
  shows "\<exists>c e'. NewCodec = Some c \<and>
    Codec_Decode event_kv unmarshal c (fst (event_kv e)) (snd (event_kv e)) b = Inr e' \<and>
    event_kv e' = (fst (event_kv e), Codec_Latest c (fst (event_kv e))) \<and>
    e' = (case e of
            EvConstraint (ConstraintDraftedV1 v) \<Rightarrow> EvConstraint (ConstraintDrafted (upcast_ConstraintDrafted v))
          | EvChange (ChangeOpenedV1 v) \<Rightarrow> EvChange (ChangeOpened (upcast_ChangeOpened v))
          | _ \<Rightarrow> e)"
proof -
  let ?k = "event_kv e"
  have dec: "Codec_Decode event_kv unmarshal app_codec (fst ?k) (snd ?k) b = upcast_loop event_kv app_codec (fst ?k) e"
    using assms event_kv_registered [of e] by (simp add: Codec_Decode_def)
  obtain e' where e': "upcast_loop event_kv app_codec (fst ?k) e = Inr e'"
    "event_kv e' = (fst ?k, Codec_Latest app_codec (fst ?k))"
    using app_events.upcast_total [OF event_kv_registered] by blast
  have "e' = (case e of
            EvConstraint (ConstraintDraftedV1 v) \<Rightarrow> EvConstraint (ConstraintDrafted (upcast_ConstraintDrafted v))
          | EvChange (ChangeOpenedV1 v) \<Rightarrow> EvChange (ChangeOpened (upcast_ChangeOpened v))
          | _ \<Rightarrow> e)"
  proof (cases "?k \<in> {(''ConstraintDrafted'', 1), (''ChangeOpened'', 1)}")
    case True
    then have "(\<exists>v. e = EvConstraint (ConstraintDraftedV1 v)) \<or> (\<exists>v. e = EvChange (ChangeOpenedV1 v))"
      using event_kv_ConstraintDrafted1 event_kv_ChangeOpened1 by blast
    then show ?thesis
      using e'(1) by (auto simp: upcast_loop_ConstraintDrafted upcast_loop_ChangeOpened)
  next
    case False
    then have "e' = e"
      using e'(1) upcast_loop_current by simp
    then show ?thesis
      using False by (auto split: event.splits constraint_event.splits change_event.splits)
  qed
  then show ?thesis
    using NewCodec_app_codec dec e' by auto
qed

theorem NewCodec_decodes_witness:
  "\<exists>c e'. NewCodec = Some c \<and>
    Codec_Decode event_kv (\<lambda>k b. Inr (EvConstraint (ConstraintRetired
      \<lparr>ct_ID = ''c'', ct_Reason = b, ct_By = ada, ct_At = 0\<rparr>))) c ''ConstraintRetired'' 1 ''body'' = Inr e'"
  using NewCodec_decodes [of "\<lambda>k b. Inr (EvConstraint (ConstraintRetired
      \<lparr>ct_ID = ''c'', ct_Reason = b, ct_By = ada, ct_At = 0\<rparr>))"
      "EvConstraint (ConstraintRetired \<lparr>ct_ID = ''c'', ct_Reason = ''body'', ct_By = ada, ct_At = 0\<rparr>)" "''body''"]
  by auto

end
