(* ===== verification/Projection.thy ===== *)
theory Projection
  imports Wire Envelope
begin

section \<open>Read models\<close>

text \<open>
  \<^verbatim>\<open>internal/app/projection.go\<close> and \<^verbatim>\<open>cursor.go\<close>: the scope, constraint and change indexes
  and the decision context built from them. A Go map is an association list; its
  order stands for one iteration order. The handlers never fail, so a handler is
  a function on the index.
\<close>

subsection \<open>ScopeIndex\<close>

record scope_entry =
  se_Key :: scope_key
  se_Level :: level
  se_Cap :: level

type_synonym scope_index = "(string \<times> scope_entry) list"

definition ScopeIndex_get :: "scope_index \<Rightarrow> scope_key \<Rightarrow> scope_entry" where
  "ScopeIndex_get s k =
     (case map_of s (ScopeKey_String k) of
        Some e \<Rightarrow> e
      | None \<Rightarrow> \<lparr>se_Key = k, se_Level = L0, se_Cap = MaxLevel\<rparr>)"

fun ScopeIndex_Handle :: "event \<Rightarrow> scope_index \<Rightarrow> scope_index" where
  "ScopeIndex_Handle (EvScope (AutonomyChanged v)) s =
     map_put (ScopeKey_String (ac_Key v)) ((ScopeIndex_get s (ac_Key v))\<lparr>se_Level := ac_To v\<rparr>) s"
| "ScopeIndex_Handle (EvScope (CapChanged v)) s =
     map_put (ScopeKey_String (cc_Key v)) ((ScopeIndex_get s (cc_Key v))\<lparr>se_Cap := cc_To v\<rparr>) s"
| "ScopeIndex_Handle _ s = s"

definition zero_scope_entry :: scope_entry where
  "zero_scope_entry = \<lparr>se_Key = zero_scope_key, se_Level = 0, se_Cap = 0\<rparr>"

fun effective_loop :: "scope_index \<Rightarrow> scope_key list \<Rightarrow> level \<Rightarrow> level \<Rightarrow> level \<times> level" where
  "effective_loop s [] level cap = (level, cap)"
| "effective_loop s (k # ks) level cap =
     (let e = map_get zero_scope_entry s (ScopeKey_String k) in
      effective_loop s ks (se_Level e) (if se_Cap e < cap then se_Cap e else cap))"

definition Effective :: "scope_index \<Rightarrow> scope_key \<Rightarrow> level \<times> level" where
  "Effective s target =
     (let keys = map (se_Key \<circ> snd) s;
          applicable = Resolve keys target KindConstraint
      in case effective_loop s applicable L0 MaxLevel of (level, cap) \<Rightarrow>
           (if level > cap then cap else level, cap))"

definition ScopeIndex_Entries :: "scope_index \<Rightarrow> scope_entry list" where
  "ScopeIndex_Entries s =
     go_sort (\<lambda>a b. ScopeKey_String (se_Key a) < ScopeKey_String (se_Key b)) (map snd s)"

subsection \<open>ConstraintIndex\<close>

record constraint_summary =
  cu_ID :: ID
  cu_Kind :: constraint_kind
  cu_Scope :: scope_key
  cu_State :: constraint_state
  cu_Level :: level
  cu_Body :: string
  cu_Explanation :: string
  cu_Checkable :: string
  cu_Anchors :: "string list"
  cu_Supersedes :: ID
  cu_SupersededBy :: ID

definition zero_constraint_summary :: constraint_summary where
  "zero_constraint_summary = \<lparr>cu_ID = '''', cu_Kind = ConstraintKindOther '''', cu_Scope = zero_scope_key,
     cu_State = CStateNone, cu_Level = 0, cu_Body = '''', cu_Explanation = '''', cu_Checkable = '''', cu_Anchors = [],
     cu_Supersedes = '''', cu_SupersededBy = ''''\<rparr>"

type_synonym constraint_index = "(ID \<times> constraint_summary) list"

abbreviation con_get :: "constraint_index \<Rightarrow> ID \<Rightarrow> constraint_summary" where
  "con_get \<equiv> map_get zero_constraint_summary"

fun ConstraintIndex_on :: "constraint_event \<Rightarrow> constraint_index \<Rightarrow> constraint_index" where
  "ConstraintIndex_on (ConstraintDrafted v) c =
     map_put (cd_ID v) (zero_constraint_summary\<lparr>cu_ID := cd_ID v, cu_Kind := cd_ConstraintKind v, cu_Scope := cd_Scope v,
       cu_State := CStateGenerated, cu_Level := cd_Level v, cu_Body := cd_Body v, cu_Explanation := cd_Explanation v,
       cu_Checkable := cd_Checkable v, cu_Anchors := cd_Anchors v, cu_Supersedes := cd_Supersedes v\<rparr>) c"
| "ConstraintIndex_on (ConstraintRebound v) c =
     map_put (cr_ID v) ((con_get c (cr_ID v))\<lparr>cu_Anchors := cr_Anchors v\<rparr>) c"
| "ConstraintIndex_on (ConstraintVerified v) c =
     map_put (cv_ID v) ((con_get c (cv_ID v))\<lparr>cu_State := CStateVerified\<rparr>) c"
| "ConstraintIndex_on (ConstraintPromoted v) c =
     map_put (cp_ID v) ((con_get c (cp_ID v))\<lparr>cu_Scope := cp_To v, cu_Explanation := cp_Explanation v\<rparr>) c"
| "ConstraintIndex_on (ConstraintDemoted v) c =
     map_put (ce_ID v) ((con_get c (ce_ID v))\<lparr>cu_Scope := ce_To v\<rparr>) c"
| "ConstraintIndex_on (ConstraintSuperseded v) c =
     map_put (cs_ID v) ((con_get c (cs_ID v))\<lparr>cu_State := CStateRetired, cu_SupersededBy := cs_By v\<rparr>) c"
| "ConstraintIndex_on (ConstraintRetired v) c =
     map_put (ct_ID v) ((con_get c (ct_ID v))\<lparr>cu_State := CStateRetired\<rparr>) c"
| "ConstraintIndex_on (ConstraintDraftedV1 v) c = c"

fun ConstraintIndex_Handle :: "event \<Rightarrow> constraint_index \<Rightarrow> constraint_index" where
  "ConstraintIndex_Handle (EvConstraint e) c = ConstraintIndex_on e c"
| "ConstraintIndex_Handle _ c = c"

definition ConstraintIndex_Get :: "constraint_index \<Rightarrow> ID \<Rightarrow> constraint_summary \<times> bool" where
  "ConstraintIndex_Get c i = (con_get c i, map_of c i \<noteq> None)"

definition in_force_less :: "constraint_summary \<Rightarrow> constraint_summary \<Rightarrow> bool" where
  "in_force_less a b =
     (if Width (cu_Scope a) \<noteq> Width (cu_Scope b) then Width (cu_Scope a) > Width (cu_Scope b) else cu_ID a < cu_ID b)"

definition InForce :: "constraint_index \<Rightarrow> scope_key \<Rightarrow> constraint_summary list" where
  "InForce c target =
     go_sort in_force_less
       (filter (\<lambda>e. (cu_State e = CStateVerified \<or> cu_State e = CStateReview) \<and> Contains (cu_Scope e) target) (map snd c))"

definition BoundTo :: "constraint_index \<Rightarrow> string \<Rightarrow> constraint_summary list" where
  "BoundTo c anchor =
     (let file = (case ParseAnchor anchor of
                    Inr a \<Rightarrow> if an_Scheme a = SchemeCode \<and> an_Symbol a \<noteq> ''''
                             then Anchor_String \<lparr>an_Scheme = SchemeCode, an_Path = an_Path a, an_Symbol = ''''\<rparr> else anchor
                  | Inl _ \<Rightarrow> anchor)
      in go_sort (\<lambda>a b. cu_ID a < cu_ID b)
           (filter (\<lambda>e. cu_State e \<noteq> CStateRetired \<and> list_ex (\<lambda>a. a = anchor \<or> a = file) (cu_Anchors e)) (map snd c)))"

definition ConstraintIndex_All :: "constraint_index \<Rightarrow> constraint_summary list" where
  "ConstraintIndex_All c = go_sort (\<lambda>a b. cu_ID a < cu_ID b) (map snd c)"

definition SnapshotHash :: "digest \<Rightarrow> constraint_index \<Rightarrow> scope_key \<Rightarrow> string" where
  "SnapshotHash H c target =
     (let inf = InForce c target in
      if length inf = 0 then ''''
      else hex_encode (H (concat (map (\<lambda>e. cu_ID e @ '':'' @ constraint_state_string (cu_State e) @ '':'' @
             ScopeKey_String (cu_Scope e) @ [CHR 0x0A]) inf))))"

subsection \<open>ChangeIndex\<close>

record change_summary =
  hs_ID :: ID
  hs_Kind :: change_kind
  hs_Mode :: change_mode
  hs_Scope :: scope_key
  hs_State :: change_state
  hs_AutonomyApplied :: level
  hs_Judgments :: int
  hs_Constraints :: "ID list"
  hs_Anchors :: "string list"
  hs_Refs :: "string list"
  hs_Sessions :: "string list"
  hs_OpenedAt :: go_time
  hs_UpdatedAt :: go_time

definition zero_change_summary :: change_summary where
  "zero_change_summary = \<lparr>hs_ID = '''', hs_Kind = ChangeKindOther '''', hs_Mode = ChangeModeOther '''',
     hs_Scope = zero_scope_key, hs_State = StateNone, hs_AutonomyApplied = 0, hs_Judgments = 0, hs_Constraints = [],
     hs_Anchors = [], hs_Refs = [], hs_Sessions = [], hs_OpenedAt = 0, hs_UpdatedAt = 0\<rparr>"

type_synonym change_index = "(ID \<times> change_summary) list"

abbreviation chg_get :: "change_index \<Rightarrow> ID \<Rightarrow> change_summary" where
  "chg_get \<equiv> map_get zero_change_summary"

fun ChangeIndex_on :: "change_event \<Rightarrow> change_index \<Rightarrow> change_index" where
  "ChangeIndex_on (ChangeOpened v) c =
     map_put (op_ID v) (zero_change_summary\<lparr>hs_ID := op_ID v, hs_Kind := op_ChangeKind v, hs_Mode := op_Mode v,
       hs_Scope := op_Scope v, hs_State := StateProposed, hs_AutonomyApplied := op_AutonomyApplied v,
       hs_Anchors := im_Anchors (op_Impact v), hs_Sessions := op_Sessions v, hs_OpenedAt := op_At v,
       hs_UpdatedAt := op_At v, hs_Constraints := map ir_Constraint (im_Constraints (op_Impact v)),
       hs_Refs := (case op_Proposal v of None \<Rightarrow> [] | Some p \<Rightarrow> [pr_Ref p])\<rparr>) c"
| "ChangeIndex_on (ProposalAdded v) c =
     (let e = chg_get c (pa_ID v) in
      map_put (pa_ID v) (e\<lparr>hs_Refs := hs_Refs e @ [pr_Ref (pa_Proposal v)], hs_UpdatedAt := pr_At (pa_Proposal v)\<rparr>) c)"
| "ChangeIndex_on (Judged v) c =
     (let e = chg_get c (jd_ID v) in
      map_put (jd_ID v) (e\<lparr>hs_State := StateJudged, hs_Judgments := hs_Judgments e + 1,
        hs_UpdatedAt := jg_At (jd_Judgment v)\<rparr>) c)"
| "ChangeIndex_on (Deployed v) c =
     map_put (dl_ID v) ((chg_get c (dl_ID v))\<lparr>hs_State := StateDeployed, hs_UpdatedAt := dp_At (dl_Deployment v)\<rparr>) c"
| "ChangeIndex_on (OutcomeRecorded v) c =
     map_put (or_ID v) ((chg_get c (or_ID v))\<lparr>hs_State := StateObserved, hs_UpdatedAt := oc_At (or_Outcome v)\<rparr>) c"
| "ChangeIndex_on (Settled v) c =
     map_put (se_ID v) ((chg_get c (se_ID v))\<lparr>hs_State := StateSettled, hs_UpdatedAt := se_At v\<rparr>) c"
| "ChangeIndex_on (ChangeOpenedV1 v) c = c"

fun ChangeIndex_Handle :: "event \<Rightarrow> change_index \<Rightarrow> change_index" where
  "ChangeIndex_Handle (EvChange e) c = ChangeIndex_on e c"
| "ChangeIndex_Handle _ c = c"

definition ChangeIndex_Get :: "change_index \<Rightarrow> ID \<Rightarrow> change_summary \<times> bool" where
  "ChangeIndex_Get c i = (chg_get c i, map_of c i \<noteq> None)"

text \<open>
  A loop over a Go map visits it in an order chosen anew for each loop. This loop ends at the first match, so the order in which it visits
  the index is an argument.
\<close>

type_synonym index_order = "change_index \<Rightarrow> change_index"

definition ChangeIndex_ByRef :: "index_order \<Rightarrow> change_index \<Rightarrow> string \<Rightarrow> change_summary \<times> bool" where
  "ChangeIndex_ByRef order c ref =
     (case List.find (\<lambda>e. list_ex (\<lambda>r. r = ref) (hs_Refs e)) (map snd (order c)) of
        Some e \<Rightarrow> (e, True)
      | None \<Rightarrow> (zero_change_summary, False))"

definition ChangeIndex_All :: "change_index \<Rightarrow> change_summary list" where
  "ChangeIndex_All c = go_sort (\<lambda>a b. hs_ID a < hs_ID b) (map snd c)"

definition ChangeIndex_Open :: "change_index \<Rightarrow> change_summary list" where
  "ChangeIndex_Open c = go_sort (\<lambda>a b. hs_ID a < hs_ID b) (filter (\<lambda>e. hs_State e \<noteq> StateSettled) (map snd c))"

subsection \<open>ProjectionContext\<close>

definition zero_actor :: actor_ref where
  "zero_actor = \<lparr>ar_Kind = ActorKindOther '''', ar_ID = '''', ar_Key = '''', ar_Owner = ''''\<rparr>"

definition ProjectionContext_Build :: "digest \<Rightarrow> scope_index \<Rightarrow> constraint_index \<Rightarrow> command \<Rightarrow> go_error + decide_context" where
  "ProjectionContext_Build H scopes constraints cmd =
     (let target = (case TargetScope cmd of Some k \<Rightarrow> k | None \<Rightarrow> zero_scope_key) in
      case Effective scopes target of (level, cap) \<Rightarrow>
        Inr \<lparr>Now = 0, Actor = zero_actor, Autonomy = level, Cap = cap, Policy = zero_policy, Judges = [],
             ConstraintsHash = SnapshotHash H constraints target\<rparr>)"

subsection \<open>Cursor\<close>

definition Cursor_Handle :: "envelope \<Rightarrow> int \<Rightarrow> int" where
  "Cursor_Handle e seq = (if e_Seq e > seq then e_Seq e else seq)"

end
