(* ===== verification/Projection_Facts.thy ===== *)
theory Projection_Facts
  imports Projection
begin

section \<open>What the read models promise\<close>

text \<open>
  The effective level and cap of a target, their independence of the map's iteration
  order, and the refinement of the aggregates by the indexes.
\<close>

subsection \<open>Effective level and cap\<close>

definition scope_index_ok :: "scope_index \<Rightarrow> bool" where
  "scope_index_ok s \<longleftrightarrow> distinct (map_keys s) \<and>
     (\<forall>(str, e) \<in> set s. str = ScopeKey_String (se_Key e) \<and> ScopeKey_Validate (se_Key e) = None \<and>
        Level_Valid (se_Level e) \<and> Level_Valid (se_Cap e))"

definition applying :: "scope_index \<Rightarrow> scope_key \<Rightarrow> scope_entry set" where
  "applying s target = {e \<in> snd ` set s. Contains (se_Key e) target}"

lemma scope_index_lookup:
  assumes "scope_index_ok s" "e \<in> snd ` set s"
  shows "map_get zero_scope_entry s (ScopeKey_String (se_Key e)) = e"
proof -
  from assms obtain str where "(str, e) \<in> set s" "str = ScopeKey_String (se_Key e)"
    by (auto simp: scope_index_ok_def)
  then show ?thesis
    using assms(1) by (simp add: map_get_def scope_index_ok_def)
qed

lemma effective_loop_eq:
  "effective_loop s ks level cap =
     (if ks = [] then level else se_Level (map_get zero_scope_entry s (ScopeKey_String (last ks))),
      Min (insert cap ((\<lambda>k. se_Cap (map_get zero_scope_entry s (ScopeKey_String k))) ` set ks)))"
  by (induction s ks level cap rule: effective_loop.induct) (auto simp: Let_def insert_commute min_def)

lemma Resolve_applying:
  assumes "scope_index_ok s"
  shows "set (Resolve (map (se_Key \<circ> snd) s) target kind) = se_Key ` applying s target"
proof -
  have "\<forall>k \<in> set (map (se_Key \<circ> snd) s). ScopeKey_Validate k = None"
    using assms by (auto simp: scope_index_ok_def)
  from set_Resolve_valid [OF this] show ?thesis
    by (auto simp: applying_def)
qed

lemma Effective_min:
  "Effective s target =
     (let r = effective_loop s (Resolve (map (se_Key \<circ> snd) s) target KindConstraint) L0 MaxLevel
      in (min (snd r) (fst r), snd r))"
  by (auto simp: Effective_def Let_def split: prod.split)

lemma Effective_cap:
  assumes "scope_index_ok s"
  shows "snd (Effective s target) = Min (insert MaxLevel (se_Cap ` applying s target))"
proof -
  have "(\<lambda>k. se_Cap (map_get zero_scope_entry s (ScopeKey_String k))) ` se_Key ` applying s target = se_Cap ` applying s target"
    unfolding image_image using scope_index_lookup [OF assms] by (intro image_cong) (auto simp: applying_def)
  then show ?thesis
    by (simp add: Effective_min effective_loop_eq Resolve_applying [OF assms] Let_def)
qed

lemma Effective_level_cap: "fst (Effective s target) \<le> snd (Effective s target)"
  by (simp add: Effective_min Let_def)

lemma Effective_undeclared:
  "scope_index_ok s \<Longrightarrow> applying s target = {} \<Longrightarrow> Effective s target = (L0, MaxLevel)"
  using Resolve_applying [of s target KindConstraint] by (simp add: Effective_def)

text \<open>The level is that of the narrowest applying scope, lowered to the cap.\<close>

lemma Effective_level:
  assumes ok: "scope_index_ok s" and e: "e \<in> applying s target"
    and narrow: "\<And>e'. e' \<in> applying s target \<Longrightarrow> e' \<noteq> e \<Longrightarrow> Width (se_Key e) < Width (se_Key e')"
  shows "fst (Effective s target) = min (snd (Effective s target)) (se_Level e)"
proof -
  let ?ks = "Resolve (map (se_Key \<circ> snd) s) target KindConstraint"
  have ks: "set ?ks = se_Key ` applying s target"
    by (rule Resolve_applying [OF ok])
  then have ne: "?ks \<noteq> []"
    using e by auto
  then obtain e' where e': "e' \<in> applying s target" "last ?ks = se_Key e'"
    using ks last_in_set [of ?ks] by auto
  have "resolve_key KindConstraint (se_Key e) \<le> resolve_key KindConstraint (last ?ks)"
  proof -
    have "map (resolve_key KindConstraint) ?ks \<noteq> []"
      using ne by simp
    then have "\<forall>x \<in> set (map (resolve_key KindConstraint) ?ks). x \<le> last (map (resolve_key KindConstraint) ?ks)"
      using Resolve_sorted [of KindConstraint "map (se_Key \<circ> snd) s" target]
      by (metis in_set_conv_nth last_conv_nth length_0_conv less_Suc_eq_le diff_Suc_1 sorted_iff_nth_mono
          Suc_pred diff_less length_greater_0_conv zero_less_one)
    then show ?thesis
      using ne e ks by (simp add: last_map)
  qed
  then have "Width (se_Key e') \<le> Width (se_Key e)"
    unfolding e'(2) by (auto simp: resolve_key_def less_eq_prod_def)
  then have "e' = e"
    using narrow e'(1) by fastforce
  then have "se_Level (map_get zero_scope_entry s (ScopeKey_String (last ?ks))) = se_Level e"
    using e' scope_index_lookup [OF ok] by (simp add: applying_def)
  then show ?thesis
    using ne by (simp add: Effective_min effective_loop_eq Let_def del: Min_insert)
qed

lemma effective_loop_cong:
  "map_of s = map_of s' \<Longrightarrow> effective_loop s ks level cap = effective_loop s' ks level cap"
  by (simp add: effective_loop_eq map_get_def)

lemma Effective_order:
  assumes "scope_index_ok s" "mset s = mset s'"
  shows "Effective s target = Effective s' target"
proof -
  have sets: "set s = set s'"
    using assms(2) by (rule mset_eq_setD)
  have dist: "distinct (map_keys s)"
    using assms(1) by (simp add: scope_index_ok_def)
  have "mset (map_keys s) = mset (map_keys s')"
    by (simp only: mset_map assms(2))
  from dist mset_eq_imp_distinct_iff [OF this] have "map_of s = map_of s'"
    using map_of_inject_set sets by blast
  moreover have "\<forall>k \<in> set (map (se_Key \<circ> snd) s). ScopeKey_Validate k = None"
    using assms(1) by (auto simp: scope_index_ok_def)
  from Resolve_set_cong [OF this] have
    "Resolve (map (se_Key \<circ> snd) s) target KindConstraint = Resolve (map (se_Key \<circ> snd) s') target KindConstraint"
    using sets by simp
  ultimately show ?thesis
    by (simp add: Effective_min effective_loop_cong [of s s'])
qed

text \<open>The handler keeps the index well-formed on events with valid keys and levels.\<close>

fun scope_event_ok :: "scope_event \<Rightarrow> bool" where
  "scope_event_ok (AutonomyChanged v) \<longleftrightarrow> ScopeKey_Validate (ac_Key v) = None \<and> Level_Valid (ac_To v)"
| "scope_event_ok (CapChanged v) \<longleftrightarrow> ScopeKey_Validate (cc_Key v) = None \<and> Level_Valid (cc_To v)"
| "scope_event_ok (ExceptionRaised v) \<longleftrightarrow> True"

lemma ScopeIndex_get_ok:
  assumes "scope_index_ok s" "ScopeKey_Validate k = None"
  shows "se_Key (ScopeIndex_get s k) = k" "Level_Valid (se_Level (ScopeIndex_get s k))"
    "Level_Valid (se_Cap (ScopeIndex_get s k))"
proof -
  have "se_Key (ScopeIndex_get s k) = k \<and> Level_Valid (se_Level (ScopeIndex_get s k)) \<and>
      Level_Valid (se_Cap (ScopeIndex_get s k))"
  proof (cases "map_of s (ScopeKey_String k)")
    case (Some e)
    then have "(ScopeKey_String k, e) \<in> set s"
      by (rule map_of_SomeD)
    then have "ScopeKey_String (se_Key e) = ScopeKey_String k" "ScopeKey_Validate (se_Key e) = None"
      "Level_Valid (se_Level e)" "Level_Valid (se_Cap e)"
      using assms(1) by (auto simp: scope_index_ok_def)
    then show ?thesis
      using Some ScopeKey_String_inject [OF ScopeKey_Validate_axes ScopeKey_Validate_axes, of "se_Key e" k] assms(2)
      by (simp add: ScopeIndex_get_def)
  qed (simp add: ScopeIndex_get_def)
  then show "se_Key (ScopeIndex_get s k) = k" "Level_Valid (se_Level (ScopeIndex_get s k))"
    "Level_Valid (se_Cap (ScopeIndex_get s k))"
    by simp_all
qed

lemma scope_index_put:
  assumes "scope_index_ok s" "str = ScopeKey_String (se_Key e)" "ScopeKey_Validate (se_Key e) = None"
    "Level_Valid (se_Level e)" "Level_Valid (se_Cap e)"
  shows "scope_index_ok (map_put str e s)"
proof -
  have "(x, y) \<in> set (map_put str e s) \<Longrightarrow> (x, y) = (str, e) \<or> (x, y) \<in> set s" for x y
    by (induction s) (auto split: if_splits)
  then show ?thesis
    using assms unfolding scope_index_ok_def by (fastforce simp del: AList.update.simps)
qed

lemma ScopeIndex_Handle_ok:
  assumes "scope_index_ok s" "\<And>e. ev = EvScope e \<Longrightarrow> scope_event_ok e"
  shows "scope_index_ok (ScopeIndex_Handle ev s)"
  using assms by (cases "(ev, s)" rule: ScopeIndex_Handle.cases) (auto intro!: scope_index_put simp: ScopeIndex_get_ok)

subsection \<open>The indexes refine the aggregates\<close>

text \<open>
  The contract of a projector for one aggregate: when the entry of an existing
  aggregate shows its state, it still does after the events of the next decision are
  projected; the entries of other aggregates are not touched.
\<close>

locale projection_of = aggregate dec ap zero inv
  for dec :: "'s \<Rightarrow> 'c \<Rightarrow> decide_context \<Rightarrow> rejection + 'e list"
    and ap :: "'s \<Rightarrow> 'e \<Rightarrow> 's" and zero :: 's and inv :: "'s \<Rightarrow> bool" +
  fixes on :: "'e \<Rightarrow> 'i \<Rightarrow> 'i"
    and view :: "'i \<Rightarrow> 'k \<Rightarrow> 'v"
    and ident :: "'s \<Rightarrow> 'k"
    and abs :: "'s \<Rightarrow> 'v"
    and alive :: "'s \<Rightarrow> bool"
  assumes zero_dead: "\<not> alive zero"
    and view_step: "inv s \<Longrightarrow> dec s c ctx = Inr es \<Longrightarrow> (alive s \<Longrightarrow> view idx (ident s) = abs s) \<Longrightarrow>
      alive (Replay ap s es) \<Longrightarrow> view (fold on es idx) (ident (Replay ap s es)) = abs (Replay ap s es)"
    and view_frame: "inv s \<Longrightarrow> dec s c ctx = Inr es \<Longrightarrow> k \<noteq> ident (Replay ap s es) \<Longrightarrow>
      view (fold on es idx) k = view idx k"
    and alive_step: "inv s \<Longrightarrow> dec s c ctx = Inr es \<Longrightarrow> alive s \<Longrightarrow>
      alive (Replay ap s es) \<and> ident (Replay ap s es) = ident s"
    and dead_step: "inv s \<Longrightarrow> dec s c ctx = Inr es \<Longrightarrow> \<not> alive (Replay ap s es) \<Longrightarrow> es = []"
begin

lemma history_view:
  assumes "history dec ap zero evs" "alive (Replay ap zero evs)"
  shows "view (fold on evs idx) (ident (Replay ap zero evs)) = abs (Replay ap zero evs)"
  using assms
proof (induction rule: history.induct)
  case history_start
  then show ?case
    using zero_dead by simp
next
  case (history_step evs c ctx es)
  let ?s = "Replay ap zero evs"
  have "inv ?s"
    using history_step(1) by (rule history_inv)
  from view_step [OF this history_step(2), of "fold on evs idx"] history_step(3,4) show ?case
    by simp
qed

text \<open>A history of an aggregate that does not exist is empty.\<close>

lemma history_dead: "history dec ap zero evs \<Longrightarrow> \<not> alive (Replay ap zero evs) \<Longrightarrow> evs = []"
proof (induction rule: history.induct)
  case (history_step evs c ctx es)
  have inv: "inv (Replay ap zero evs)"
    using history_step(1) by (rule history_inv)
  then show ?case
    using alive_step [OF inv history_step(2)] dead_step [OF inv history_step(2)] history_step(3,4) by auto
qed simp

lemma history_frame:
  assumes "history dec ap zero evs" "k \<noteq> ident (Replay ap zero evs)"
  shows "view (fold on evs idx) k = view idx k"
  using assms
proof (induction rule: history.induct)
  case (history_step evs c ctx es)
  let ?s = "Replay ap zero evs"
  have inv: "inv ?s"
    using history_step(1) by (rule history_inv)
  show ?case
  proof (cases "alive ?s \<or> evs = []")
    case True
    then have "k \<noteq> ident ?s \<or> evs = []"
      using alive_step [OF inv history_step(2)] history_step(4) by auto
    then show ?thesis
      using view_frame [OF inv history_step(2)] history_step(3,4) by auto
  next
    case False
    then show ?thesis
      using history_dead [OF history_step(1)] by blast
  qed
qed simp

end

text \<open>The constraint index.\<close>

definition constraint_abs :: "constraint \<Rightarrow> constraint_summary" where
  "constraint_abs c = \<lparr>cu_ID = co_ID c, cu_Kind = co_Kind c, cu_Scope = co_Scope c, cu_State = co_State c,
     cu_Level = co_Level c, cu_Body = co_Body c, cu_Explanation = co_Explanation c, cu_Checkable = co_Checkable c,
     cu_Anchors = co_Anchors c, cu_Supersedes = co_Supersedes c, cu_SupersededBy = co_SupersededBy c\<rparr>"

text \<open>A decision of a constraint is empty or one event with its id, which the index applies as the aggregate does.\<close>

definition constraint_event_sim :: "constraint \<Rightarrow> constraint_event \<Rightarrow> bool" where
  "constraint_event_sim c e \<longleftrightarrow>
     co_State (Constraint_Apply c e) \<noteq> CStateNone \<and>
     (co_State c \<noteq> CStateNone \<longrightarrow> co_ID (Constraint_Apply c e) = co_ID c) \<and>
     (\<forall>idx. (co_State c \<noteq> CStateNone \<longrightarrow> con_get idx (co_ID c) = constraint_abs c) \<longrightarrow>
        con_get (ConstraintIndex_on e idx) (co_ID (Constraint_Apply c e)) = constraint_abs (Constraint_Apply c e)) \<and>
     (\<forall>idx k. k \<noteq> co_ID (Constraint_Apply c e) \<longrightarrow> con_get (ConstraintIndex_on e idx) k = con_get idx k)"

lemma Constraint_decide_sim:
  assumes "Constraint_Decide c m ctx = Inr es"
  shows "\<exists>e. es = [e] \<and> constraint_event_sim c e"
proof (cases m)
  case (DraftConstraint x)
  then show ?thesis
    using assms
    by (auto simp: constraint_draft_def constraint_event_sim_def constraint_abs_def zero_constraint_def
        zero_constraint_summary_def split: option.splits if_splits)
next
  case (PromoteConstraint x)
  then show ?thesis
    using assms
    by (auto simp: constraint_promote_def constraint_event_sim_def constraint_abs_def Let_def split: option.splits if_splits)
qed (use assms in \<open>auto simp: decide_defs constraint_event_sim_def constraint_abs_def split: option.splits if_splits\<close>)

interpretation constraint_view: projection_of Constraint_Decide Constraint_Apply zero_constraint constraint_inv
  ConstraintIndex_on con_get co_ID constraint_abs "\<lambda>c. co_State c \<noteq> CStateNone"
proof
  fix s c ctx es and idx :: constraint_index and k
  assume dec: "Constraint_Decide s c ctx = Inr es"
  then obtain e where es: "es = [e]" and sim: "constraint_event_sim s e"
    using Constraint_decide_sim by blast
  show "con_get (fold ConstraintIndex_on es idx) (co_ID (Replay Constraint_Apply s es)) =
      constraint_abs (Replay Constraint_Apply s es)"
    if "co_State s \<noteq> CStateNone \<Longrightarrow> con_get idx (co_ID s) = constraint_abs s"
    using sim that by (simp add: es constraint_event_sim_def)
  show "con_get (fold ConstraintIndex_on es idx) k = con_get idx k" if "k \<noteq> co_ID (Replay Constraint_Apply s es)"
    using sim that by (simp add: es constraint_event_sim_def)
  show "co_State (Replay Constraint_Apply s es) \<noteq> CStateNone \<and> co_ID (Replay Constraint_Apply s es) = co_ID s"
    if "co_State s \<noteq> CStateNone"
    using sim that by (simp add: es constraint_event_sim_def)
  show "es = []" if "\<not> co_State (Replay Constraint_Apply s es) \<noteq> CStateNone"
    using sim that by (simp add: es constraint_event_sim_def)
qed (simp add: zero_constraint_def)

text \<open>
  The change index. It also keeps the scope of the change and the time of the
  last update, which the aggregate does not have.
\<close>

definition change_view :: "change_index \<Rightarrow> ID \<Rightarrow> change_summary" where
  "change_view idx i = (chg_get idx i)\<lparr>hs_Scope := zero_scope_key, hs_UpdatedAt := 0\<rparr>"

definition change_abs :: "change \<Rightarrow> change_summary" where
  "change_abs c = \<lparr>hs_ID = ch_ID c, hs_Kind = ch_Kind c, hs_Mode = ch_Mode c, hs_Scope = zero_scope_key,
     hs_State = ch_State c, hs_AutonomyApplied = ch_AutonomyApplied c, hs_Judgments = int (length (ch_Judgments c)),
     hs_Constraints = map ir_Constraint (im_Constraints (ch_Impact c)), hs_Anchors = im_Anchors (ch_Impact c),
     hs_Refs = map pr_Ref (ch_Proposals c), hs_Sessions = ch_Sessions c, hs_OpenedAt = ch_OpenedAt c,
     hs_UpdatedAt = 0\<rparr>"

definition change_event_sim :: "change \<Rightarrow> change_event \<Rightarrow> bool" where
  "change_event_sim c e \<longleftrightarrow>
     ch_State (Change_Apply c e) \<noteq> StateNone \<and>
     (ch_State c \<noteq> StateNone \<longrightarrow> ch_ID (Change_Apply c e) = ch_ID c) \<and>
     (\<forall>idx. (ch_State c \<noteq> StateNone \<longrightarrow> change_view idx (ch_ID c) = change_abs c) \<longrightarrow>
        change_view (ChangeIndex_on e idx) (ch_ID (Change_Apply c e)) = change_abs (Change_Apply c e)) \<and>
     (\<forall>idx k. k \<noteq> ch_ID (Change_Apply c e) \<longrightarrow> change_view (ChangeIndex_on e idx) k = change_view idx k)"

lemma change_view_abs:
  "change_view idx i = change_abs c \<longleftrightarrow>
     hs_ID (chg_get idx i) = ch_ID c \<and> hs_Kind (chg_get idx i) = ch_Kind c \<and> hs_Mode (chg_get idx i) = ch_Mode c \<and>
     hs_State (chg_get idx i) = ch_State c \<and> hs_AutonomyApplied (chg_get idx i) = ch_AutonomyApplied c \<and>
     hs_Judgments (chg_get idx i) = int (length (ch_Judgments c)) \<and>
     hs_Constraints (chg_get idx i) = map ir_Constraint (im_Constraints (ch_Impact c)) \<and>
     hs_Anchors (chg_get idx i) = im_Anchors (ch_Impact c) \<and> hs_Refs (chg_get idx i) = map pr_Ref (ch_Proposals c) \<and>
     hs_Sessions (chg_get idx i) = ch_Sessions c \<and> hs_OpenedAt (chg_get idx i) = ch_OpenedAt c"
  by (cases "chg_get idx i") (simp add: change_view_def change_abs_def)

lemma change_view_put_other [simp]: "k \<noteq> i \<Longrightarrow> change_view (map_put i v idx) k = change_view idx k"
  by (simp add: change_view_def)

lemma Change_open_sim:
  assumes "change_open c m ctx = Inr es"
  shows "\<exists>e. es = [e] \<and> change_event_sim c e"
  using assms
  by (auto simp: change_open_def change_event_sim_def change_view_abs zero_change_def zero_change_summary_def Let_def
      split: option.splits if_splits)

lemma Change_later_sim:
  assumes "ch_State c \<noteq> StateNone" "e \<in> {ProposalAdded \<lparr>pa_ID = ch_ID c, pa_Proposal = pr\<rparr>,
    Judged \<lparr>jd_ID = ch_ID c, jd_Judgment = j\<rparr>, Deployed \<lparr>dl_ID = ch_ID c, dl_Deployment = d\<rparr>,
    OutcomeRecorded \<lparr>or_ID = ch_ID c, or_Outcome = out\<rparr>, Settled \<lparr>se_ID = ch_ID c, se_Derived = ds, se_At = t\<rparr>}"
  shows "change_event_sim c e"
  using assms by (auto simp: change_event_sim_def change_view_abs Let_def)

lemma Change_decide_sim:
  assumes "Change_Decide c m ctx = Inr es"
  shows "\<exists>e. es = [e] \<and> change_event_sim c e"
proof (cases m)
  case (OpenChange x)
  then show ?thesis
    using assms Change_open_sim by simp
qed (use assms in \<open>auto simp: change_addProposal_Inr change_judge_Inr change_deploy_Inr change_recordOutcome_Inr
       change_settle_Inr intro!: Change_later_sim split: if_splits\<close>)

interpretation change_projection: projection_of Change_Decide Change_Apply zero_change change_inv
  ChangeIndex_on change_view ch_ID change_abs "\<lambda>c. ch_State c \<noteq> StateNone"
proof
  fix s c ctx es and idx :: change_index and k
  assume dec: "Change_Decide s c ctx = Inr es"
  then obtain e where es: "es = [e]" and sim: "change_event_sim s e"
    using Change_decide_sim by blast
  show "change_view (fold ChangeIndex_on es idx) (ch_ID (Replay Change_Apply s es)) =
      change_abs (Replay Change_Apply s es)"
    if "ch_State s \<noteq> StateNone \<Longrightarrow> change_view idx (ch_ID s) = change_abs s"
    using sim that by (simp add: es change_event_sim_def)
  show "change_view (fold ChangeIndex_on es idx) k = change_view idx k" if "k \<noteq> ch_ID (Replay Change_Apply s es)"
    using sim that by (simp add: es change_event_sim_def)
  show "ch_State (Replay Change_Apply s es) \<noteq> StateNone \<and> ch_ID (Replay Change_Apply s es) = ch_ID s"
    if "ch_State s \<noteq> StateNone"
    using sim that by (simp add: es change_event_sim_def)
  show "es = []" if "\<not> ch_State (Replay Change_Apply s es) \<noteq> StateNone"
    using sim that by (simp add: es change_event_sim_def)
qed (simp add: zero_change_def)

subsection \<open>Constraints in force\<close>

definition in_force_key :: "constraint_summary \<Rightarrow> int \<times> string" where
  "in_force_key e = (- int (Width (cu_Scope e)), cu_ID e)"

lemma in_force_less_key: "in_force_less = (\<lambda>a b. in_force_key a < in_force_key b)"
  by (intro ext) (auto simp: in_force_less_def in_force_key_def less_prod_def)

lemma InForce_sort_key:
  "InForce c target = sort_key in_force_key
     (filter (\<lambda>e. (cu_State e = CStateVerified \<or> cu_State e = CStateReview) \<and> Contains (cu_Scope e) target) (map snd c))"
  by (simp add: InForce_def in_force_less_key go_sort_sort_key)

text \<open>The index is keyed by the ids of its entries.\<close>

definition constraint_index_ok :: "constraint_index \<Rightarrow> bool" where
  "constraint_index_ok c \<longleftrightarrow> distinct (map_keys c) \<and> (\<forall>(i, e) \<in> set c. cu_ID e = i)"

lemma InForce_order:
  assumes "constraint_index_ok c" "mset c = mset c'"
  shows "InForce c target = InForce c' target"
proof -
  let ?p = "\<lambda>e. (cu_State e = CStateVerified \<or> cu_State e = CStateReview) \<and> Contains (cu_Scope e) target"
  have "inj_on cu_ID (set (map snd c))"
    using assms(1) unfolding constraint_index_ok_def inj_on_def
    by (auto simp: case_prod_beta) (metis eq_key_imp_eq_value fst_conv snd_conv)
  then have "inj_on in_force_key (set (filter ?p (map snd c)))"
    by (auto simp: inj_on_def in_force_key_def)
  moreover have "mset (filter ?p (map snd c)) = mset (filter ?p (map snd c'))"
    by (simp only: mset_filter mset_map assms(2))
  ultimately show ?thesis
    unfolding InForce_sort_key by (rule sort_key_permutation)
qed

end
