(* ===== verification/Harness_Properties.thy ===== *)
theory Harness_Properties
  imports Harness_Scope Harness_Constraint Harness_Decision Projection_Facts Sample_Inputs
begin

section \<open>Properties of the harness: scopes, constraints, decisions\<close>

text \<open>
  What \<^verbatim>\<open>internal/core/harness\<close> promises over whole histories: autonomy stays
  under the cap and rises on evidence only, constraints widen by human acts only,
  a verified text is a text that a human verified.
\<close>

subsection \<open>Scopes\<close>

text \<open>
  C34. Over every history of a scope, its autonomy level and its cap are levels L0 to L3 and the
  level never exceeds the cap: lowering the cap lowers the level in the same batch.
\<close>

theorem scope_level_within_cap:
  assumes "history Scope_Decide Scope_Apply (NewScope k) evs"
  shows "let s = Replay Scope_Apply (NewScope k) evs in
    L0 \<le> sc_Level s \<and> sc_Level s \<le> sc_Cap s \<and> sc_Cap s \<le> MaxLevel"
  using scope_agg.history_inv [OF assms] by (simp add: scope_inv_def Level_Valid_def Let_def)

theorem scope_level_within_cap_witness:
  "let evs = [CapChanged \<lparr>cc_Key = zero_scope_key, cc_From = L3, cc_To = L1, cc_ChangeRef = ''ch'', cc_By = ada, cc_At = 5\<rparr>];
       s = Replay Scope_Apply (NewScope zero_scope_key) evs in sc_Level s \<le> sc_Cap s \<and> sc_Cap s = L1"
proof -
  let ?m = "\<lparr>sp_Key = zero_scope_key, sp_Idem = '''', sp_Cap = L1, sp_ChangeRef = ''ch''\<rparr>"
  have "Scope_Decide (NewScope zero_scope_key) (SetCap ?m) (ctx_at 5) =
    Inr [CapChanged \<lparr>cc_Key = zero_scope_key, cc_From = L3, cc_To = L1, cc_ChangeRef = ''ch'', cc_By = ada, cc_At = 5\<rparr>]"
    by (simp add: setCap_def NewScope_def zero_scope_key_valid)
  from scope_level_within_cap [OF history_single [of Scope_Decide, OF this]] show ?thesis
    by (simp add: Let_def)
qed

text \<open>
  C35. Autonomy rises in one way only. Whenever a decision on a scope contains an event that
  raises the level, the command was \<^verbatim>\<open>SetAutonomy\<close> by a human with a reference to
  a change, the new level is the next one and within the cap, and its evidence
  starts no earlier than the last demotion, holds no regression and has at
  least the outcomes that the policy demands.
\<close>

theorem scope_raise_guarded:
  assumes "scope_inv s" and "Scope_Decide s c ctx = Inr es"
    and "AutonomyChanged v \<in> set es" and "ac_From v < ac_To v"
  shows "\<exists>m. c = SetAutonomy m \<and> es = [AutonomyChanged v] \<and> IsHuman (Actor ctx) \<and> sa_ChangeRef m \<noteq> '''' \<and>
    ac_From v = sc_Level s \<and> ac_To v = sc_Level s + 1 \<and> ac_To v \<le> sc_Cap s \<and>
    sc_LastDemotedAt s \<le> ev_Since (sa_Evidence m) \<and> ev_Regressions (sa_Evidence m) \<le> 0 \<and>
    PromotionMinOutcomes (Policy ctx) \<le> ev_Outcomes (sa_Evidence m)"
proof (cases c)
  case (SetAutonomy m)
  then show ?thesis
    using assms setAutonomy_cases [of s m ctx es]
    by (auto simp: scope_inv_def Transition_promote)
next
  case (SetCap m)
  then show ?thesis
    using assms by (auto simp: setCap_def Let_def split: option.splits if_splits)
next
  case (RecordRegression m)
  then show ?thesis
    using assms by (auto simp: regress_def Let_def scope_inv_def Transition_regress Level_Valid_def split: option.splits if_splits)
qed

theorem scope_raise_guarded_witness:
  "\<exists>m. SetAutonomy \<lparr>sa_Key = zero_scope_key, sa_Idem = '''', sa_Level = L1, sa_ChangeRef = ''ch'',
      sa_Evidence = \<lparr>ev_Since = 3, ev_Outcomes = 12, ev_Regressions = 0\<rparr>\<rparr> = SetAutonomy m \<and>
    PromotionMinOutcomes DefaultPolicy \<le> ev_Outcomes (sa_Evidence m)"
proof -
  let ?m = "\<lparr>sa_Key = zero_scope_key, sa_Idem = '''', sa_Level = L1, sa_ChangeRef = ''ch'',
      sa_Evidence = \<lparr>ev_Since = 3, ev_Outcomes = 12, ev_Regressions = 0\<rparr>\<rparr>"
  let ?v = "\<lparr>ac_Key = zero_scope_key, ac_From = L0, ac_To = L1, ac_Trigger = TriggerPromote, ac_ChangeRef = ''ch'',
      ac_By = ada, ac_At = 5\<rparr>"
  have "Scope_Decide (NewScope zero_scope_key) (SetAutonomy ?m) (ctx_at 5) = Inr [AutonomyChanged ?v]"
    by (simp add: setAutonomy_def NewScope_def zero_scope_key_valid Transition_promote DefaultPolicy_def)
  from scope_raise_guarded [OF scope_agg.inv_zero this, of ?v] show ?thesis
    by auto
qed

text \<open>
  A regression always lowers autonomy and resets the evidence: recording one on a valid
  scope succeeds whoever the actor is, the level drops one step (never below L0), and from
  then on a raise whose evidence starts before the regression is rejected.
\<close>

theorem regression_lowers:
  assumes "scope_inv s" and "ScopeKey_Validate (rr_Key m) = None"
  shows "\<exists>es. Scope_Decide s (RecordRegression m) ctx = Inr es \<and>
    (let s' = Replay Scope_Apply s es in
      sc_Level s' = max (sc_Level s - 1) L0 \<and> sc_Regressions s' = sc_Regressions s + 1 \<and>
      (\<forall>raise ctx'. sc_Level s' < sa_Level raise \<longrightarrow> ev_Since (sa_Evidence raise) < Now ctx \<longrightarrow>
        (\<exists>rej. Scope_Decide s' (SetAutonomy raise) ctx' = Inl rej)))"
proof -
  have lv: "Level_Valid (sc_Level s)"
    using assms(1) by (simp add: scope_inv_def)
  obtain es where es: "Scope_Decide s (RecordRegression m) ctx = Inr es"
    using assms(2) by (simp add: regress_def Let_def)
  let ?s = "Replay Scope_Apply s es"
  have eff: "sc_Level ?s = max (sc_Level s - 1) L0" "sc_Regressions ?s = sc_Regressions s + 1"
    "Now ctx \<le> sc_LastDemotedAt ?s"
    using es assms(2) lv by (auto simp: regress_def Let_def Transition_regress Level_Valid_def split: if_splits)
  have "\<exists>rej. Scope_Decide ?s (SetAutonomy raise) ctx' = Inl rej"
    if "sc_Level ?s < sa_Level raise" "ev_Since (sa_Evidence raise) < Now ctx" for raise ctx'
    using that eff(3) setAutonomy_cases [of ?s raise ctx']
    by (cases "Scope_Decide ?s (SetAutonomy raise) ctx'") auto
  then show ?thesis
    using es eff by (auto simp: Let_def)
qed

theorem regression_lowers_witness:
  "\<exists>es. Scope_Decide (NewScope zero_scope_key) (RecordRegression
      \<lparr>rr_Key = zero_scope_key, rr_Idem = '''', rr_ChangeRef = ''ch''\<rparr>) (ctx_at 9) = Inr es \<and>
    sc_Regressions (Replay Scope_Apply (NewScope zero_scope_key) es) = 1"
  using regression_lowers [OF scope_agg.inv_zero, of "\<lparr>rr_Key = zero_scope_key, rr_Idem = '''', rr_ChangeRef = ''ch''\<rparr>"
      zero_scope_key "ctx_at 9"]
  by (auto simp: zero_scope_key_valid Let_def NewScope_def)

subsection \<open>Constraints\<close>

lemma Constraint_verified_step:
  assumes "Constraint_Decide c m ctx = Inr es" "co_State (Replay Constraint_Apply c es) = CStateVerified"
  shows "co_State c = CStateVerified \<or> (\<exists>v. es = [ConstraintVerified v] \<and> IsHuman (cv_By v))"
  by (cases m) (use assms in \<open>auto simp: decide_defs zero_constraint_def Let_def split: option.splits if_splits\<close>)

lemma Constraint_verified_by_human:
  assumes "history Constraint_Decide Constraint_Apply zero_constraint evs"
    and "co_State (Replay Constraint_Apply zero_constraint evs) = CStateVerified"
  shows "\<exists>v. ConstraintVerified v \<in> set evs \<and> IsHuman (cv_By v)"
  using assms
proof (induction rule: history.induct)
  case (history_step evs c ctx es)
  then show ?case
    using Constraint_verified_step [OF history_step(2)] by auto
qed (simp add: zero_constraint_def)

text \<open>
  C36. Over every history of a constraint, once drafted it has an id, a known kind, a text, a valid
  scope, anchors that parse, a provenance (hand-written or with source judgments) and, if it
  is an autonomy constraint, a valid level; a successor is named only when it is retired
  and is never itself; and it is in force, verified, only if a human verified it.
\<close>

theorem constraint_history_sound:
  assumes "history Constraint_Decide Constraint_Apply zero_constraint evs"
    and "c = Replay Constraint_Apply zero_constraint evs" and "co_State c \<noteq> CStateNone"
  shows "co_ID c \<noteq> '''' \<and> constraint_kind_valid (co_Kind c) \<and> co_Body c \<noteq> '''' \<and>
    ScopeKey_Validate (co_Scope c) = None \<and> (\<forall>a \<in> set (co_Anchors c). \<exists>an. ParseAnchor a = Inr an) \<and>
    (co_Authored c \<or> co_Origin c \<noteq> []) \<and> (co_Kind c = KindAutonomy \<longrightarrow> Level_Valid (co_Level c)) \<and>
    (co_SupersededBy c \<noteq> '''' \<longrightarrow> co_State c = CStateRetired \<and> co_SupersededBy c \<noteq> co_ID c) \<and>
    (co_State c = CStateVerified \<longrightarrow> (\<exists>v. ConstraintVerified v \<in> set evs \<and> IsHuman (cv_By v)))"
  using constraint_agg.history_inv [OF assms(1)] Constraint_verified_by_human [OF assms(1)] assms(2,3)
  unfolding constraint_inv_def ParseAnchors_error_None by blast

definition sample_draft :: draft_constraint where
  "sample_draft = \<lparr>dc_ID = ''c1'', dc_Idem = '''', dc_ConstraintKind = KindAutonomy,
     dc_Scope = zero_scope_key\<lparr>sk_Org := ''acme'', sk_Team := ''core''\<rparr>,
     dc_Body = ''agents deploy'', dc_Checkable = '''', dc_Origin = [''j1''], dc_Authored = True,
     dc_Explanation = '''', dc_Level = L3, dc_Supersedes = '''', dc_Anchors = []\<rparr>"

definition sample_constraint :: constraint where
  "sample_constraint = zero_constraint\<lparr>co_ID := ''c1'', co_Kind := KindAutonomy,
     co_Scope := zero_scope_key\<lparr>sk_Org := ''acme'', sk_Team := ''core''\<rparr>, co_Body := ''agents deploy'',
     co_Origin := [''j1''], co_Authored := True, co_Level := L3, co_State := CStateVerified, co_UpdatedAt := 6\<rparr>"

lemma sample_scopes_valid:
  "ScopeKey_Validate (zero_scope_key\<lparr>sk_Org := ''acme''\<rparr>) = None"
  "ScopeKey_Validate (zero_scope_key\<lparr>sk_Org := ''acme'', sk_Team := ''core''\<rparr>) = None"
  by (simp_all add: ScopeKey_Validate_None axis_values_def zero_scope_key_def valid_axis_def)

lemma sample_constraint_history:
  "\<exists>evs. history Constraint_Decide Constraint_Apply zero_constraint evs \<and>
    sample_constraint = Replay Constraint_Apply zero_constraint evs"
proof -
  let ?d = "ConstraintDrafted \<lparr>cd_ID = ''c1'', cd_ConstraintKind = KindAutonomy,
     cd_Scope = zero_scope_key\<lparr>sk_Org := ''acme'', sk_Team := ''core''\<rparr>, cd_Body = ''agents deploy'',
     cd_Checkable = '''', cd_Origin = [''j1''], cd_Authored = True, cd_Explanation = '''', cd_Level = L3,
     cd_Supersedes = '''', cd_Anchors = [], cd_At = 5\<rparr>"
  let ?v = "ConstraintVerified \<lparr>cv_ID = ''c1'', cv_By = ada, cv_At = 6\<rparr>"
  have "Constraint_Decide zero_constraint (DraftConstraint sample_draft) (ctx_at 5) = Inr [?d]"
    by (simp add: constraint_draft_def sample_draft_def zero_constraint_def sample_scopes_valid ParseAnchors_error_def)
  from history_single [of Constraint_Decide, OF this]
  have d: "history Constraint_Decide Constraint_Apply zero_constraint [?d]" .
  have v: "Constraint_Decide (Replay Constraint_Apply zero_constraint [?d]) (VerifyConstraint \<lparr>cm_ID = ''c1'', cm_Idem = ''''\<rparr>) (ctx_at 6) = Inr [?v]"
    by (simp add: constraint_verify_def zero_constraint_def)
  have "history Constraint_Decide Constraint_Apply zero_constraint ([?d] @ [?v])"
    by (rule history_step) (rule d, rule v)
  then show ?thesis
    by (intro exI [of _ "[?d, ?v]"]) (simp add: sample_constraint_def zero_constraint_def)
qed

theorem constraint_history_sound_witness:
  "ScopeKey_Validate (co_Scope sample_constraint) = None"
proof -
  obtain evs where h: "history Constraint_Decide Constraint_Apply zero_constraint evs"
    "sample_constraint = Replay Constraint_Apply zero_constraint evs"
    using sample_constraint_history by blast
  have "co_State sample_constraint \<noteq> CStateNone"
    by (simp add: sample_constraint_def)
  from constraint_history_sound [OF h this] show ?thesis
    by blast
qed

text \<open>
  C37. The scope of a constraint moves in two ways only. A decision that changes it is a promotion of a
  verified constraint by a human, with an explanation and source judgments, to another scope
  that contains the old one and is at least as wide; or a demotion with a reason to
  another scope that the old one contains and that is at most as wide.
\<close>

theorem constraint_scope_moves:
  assumes "Constraint_Decide c m ctx = Inr es" and "co_State c \<noteq> CStateNone"
    and "c' = Replay Constraint_Apply c es" and "co_Scope c' \<noteq> co_Scope c"
  shows "(\<exists>p. m = PromoteConstraint p \<and> IsHuman (Actor ctx) \<and> co_State c = CStateVerified \<and>
      co_Scope c' = pc_ToScope p \<and> Contains (co_Scope c') (co_Scope c) \<and> Width (co_Scope c) \<le> Width (co_Scope c') \<and>
      co_Origin c' \<noteq> [] \<and> co_Explanation c' \<noteq> '''') \<or>
    (\<exists>d. m = DemoteConstraint d \<and> co_Scope c' = dm_ToScope d \<and> dm_Reason d \<noteq> '''' \<and>
      Contains (co_Scope c) (co_Scope c') \<and> Width (co_Scope c') \<le> Width (co_Scope c))"
proof (cases m)
  case (PromoteConstraint p)
  then have "Contains (pc_ToScope p) (co_Scope c)" "c' = c\<lparr>co_Scope := pc_ToScope p, co_Origin := co_Origin c @ pc_Origin p,
      co_Explanation := pc_Explanation p, co_UpdatedAt := Now ctx\<rparr>"
    "IsHuman (Actor ctx)" "co_State c = CStateVerified" "co_Origin c @ pc_Origin p \<noteq> []" "pc_Explanation p \<noteq> ''''"
    using assms by (auto simp: constraint_promote_def Let_def split: option.splits if_splits)
  then show ?thesis
    using PromoteConstraint Width_antimono [of "pc_ToScope p" "co_Scope c"] by auto
next
  case (DemoteConstraint d)
  then have "Contains (co_Scope c) (dm_ToScope d)" "c' = c\<lparr>co_Scope := dm_ToScope d, co_UpdatedAt := Now ctx\<rparr>" "dm_Reason d \<noteq> ''''"
    using assms by (auto simp: constraint_demote_def split: option.splits if_splits)
  then show ?thesis
    using DemoteConstraint Width_antimono by auto
qed (use assms in \<open>auto simp: decide_defs split: option.splits if_splits\<close>)

definition sample_promotion :: promote_constraint where
  "sample_promotion = \<lparr>pc_Cmd = \<lparr>cm_ID = ''c1'', cm_Idem = ''''\<rparr>, pc_ToScope = zero_scope_key\<lparr>sk_Org := ''acme''\<rparr>,
     pc_Origin = [], pc_Explanation = ''holds everywhere''\<rparr>"

lemma sample_promotion_decides:
  assumes "Cap ctx = L3" "IsHuman (Actor ctx)"
  shows "Constraint_Decide sample_constraint (PromoteConstraint sample_promotion) ctx =
    Inr [ConstraintPromoted \<lparr>cp_ID = ''c1'', cp_From = co_Scope sample_constraint, cp_To = zero_scope_key\<lparr>sk_Org := ''acme''\<rparr>,
      cp_Origin = [''j1''], cp_Explanation = ''holds everywhere'', cp_By = Actor ctx, cp_At = Now ctx\<rparr>]"
proof -
  have "Contains (zero_scope_key\<lparr>sk_Org := ''acme''\<rparr>) (zero_scope_key\<lparr>sk_Org := ''acme'', sk_Team := ''core''\<rparr>)"
    "zero_scope_key\<lparr>sk_Org := ''acme''\<rparr> \<noteq> zero_scope_key\<lparr>sk_Org := ''acme'', sk_Team := ''core''\<rparr>"
    by (simp_all add: Contains_def zero_scope_key_def)
  then show ?thesis
    using assms
    by (simp add: constraint_promote_def sample_constraint_def sample_promotion_def sample_scopes_valid)
qed

theorem constraint_scope_moves_witness:
  "Width (zero_scope_key\<lparr>sk_Org := ''acme'', sk_Team := ''core''\<rparr>) \<le> Width (zero_scope_key\<lparr>sk_Org := ''acme''\<rparr>)"
proof -
  have d: "Constraint_Decide sample_constraint (PromoteConstraint sample_promotion) (ctx_at 9) =
    Inr [ConstraintPromoted \<lparr>cp_ID = ''c1'', cp_From = co_Scope sample_constraint, cp_To = zero_scope_key\<lparr>sk_Org := ''acme''\<rparr>,
      cp_Origin = [''j1''], cp_Explanation = ''holds everywhere'', cp_By = ada, cp_At = 9\<rparr>]"
    using sample_promotion_decides [of "ctx_at 9"] by simp
  have "co_State sample_constraint \<noteq> CStateNone"
    by (simp add: sample_constraint_def)
  from constraint_scope_moves [OF d this refl]
  have "zero_scope_key\<lparr>sk_Org := ''acme''\<rparr> \<noteq> co_Scope sample_constraint \<longrightarrow>
      Width (co_Scope sample_constraint) \<le> Width (zero_scope_key\<lparr>sk_Org := ''acme''\<rparr>)"
    by auto
  then show ?thesis
    by (simp add: sample_constraint_def zero_scope_key_def)
qed

text \<open>
  Retirement is final: a retired constraint rejects every command, and so does a retired decision,
  whoever issues it and whatever the context is.
\<close>

theorem retired_is_final:
  "(co_State c = CStateRetired \<longrightarrow> (\<exists>rej. Constraint_Decide c m ctx = Inl rej)) \<and>
   (de_State d = DecisionStateRetired \<longrightarrow> (\<exists>rej. Decision_Decide d n ctx = Inl rej))"
proof (intro conjI impI)
  show "\<exists>rej. Constraint_Decide c m ctx = Inl rej" if "co_State c = CStateRetired"
    using that by (cases m) (simp_all add: decide_defs)
  show "\<exists>rej. Decision_Decide d n ctx = Inl rej" if "de_State d = DecisionStateRetired"
    using that by (cases n) simp_all
qed

theorem retired_is_final_witness:
  "\<exists>rej. Constraint_Decide (sample_constraint\<lparr>co_State := CStateRetired\<rparr>) (PromoteConstraint sample_promotion) (ctx_at 9) = Inl rej"
  using retired_is_final [of "sample_constraint\<lparr>co_State := CStateRetired\<rparr>" "PromoteConstraint sample_promotion" "ctx_at 9"]
  by simp

lemma applying_Nil: "applying [] target = {}"
  by (simp add: applying_def)

lemma applying_Cons:
  "applying ((str, e) # s) target = (if Contains (se_Key e) target then {e} else {}) \<union> applying s target"
  by (auto simp: applying_def)

text \<open>
  C38. The check of an autonomy constraint's level at promotion does not look at the promotion's target:
  the context built for \<^verbatim>\<open>PromoteConstraint\<close> is the same for all targets, the one of
  the scope without any axis. An L3 constraint is therefore promoted to a scope whose cap is L1,
  although the rejection it should meet is worded \<open>exceeds cap ... at the target scope\<close>.
\<close>

theorem promotion_ignores_target_cap:
  "ProjectionContext_Build H scopes cons (CmdConstraint (PromoteConstraint m)) =
     ProjectionContext_Build H scopes cons (CmdConstraint (PromoteConstraint m')) \<and>
   (\<exists>scopes ctx es. scope_index_ok scopes \<and> snd (Effective scopes (pc_ToScope sample_promotion)) = L1 \<and>
      ProjectionContext_Build H scopes [] (CmdConstraint (PromoteConstraint sample_promotion)) = Inr ctx \<and>
      co_Level sample_constraint = L3 \<and> co_Kind sample_constraint = KindAutonomy \<and>
      Constraint_Decide sample_constraint (PromoteConstraint sample_promotion) (ctx\<lparr>Actor := ada\<rparr>) = Inr es)"
proof
  let ?org = "zero_scope_key\<lparr>sk_Org := ''acme''\<rparr>"
  let ?scopes = "[(ScopeKey_String ?org, \<lparr>se_Key = ?org, se_Level = L0, se_Cap = L1\<rparr>)]"
  have to: "pc_ToScope sample_promotion = ?org"
    by (simp add: sample_promotion_def)
  have ok: "scope_index_ok ?scopes"
    by (simp add: scope_index_ok_def sample_scopes_valid)
  have "applying ?scopes ?org = {\<lparr>se_Key = ?org, se_Level = L0, se_Cap = L1\<rparr>}" "applying ?scopes zero_scope_key = {}"
    by (simp_all add: applying_Cons applying_Nil Contains_iff zero_scope_key_def)
  then have caps: "snd (Effective ?scopes ?org) = L1" "Effective ?scopes zero_scope_key = (L0, MaxLevel)"
    using Effective_cap [OF ok] Effective_undeclared [OF ok] by simp_all
  obtain ctx where ctx: "ProjectionContext_Build H ?scopes [] (CmdConstraint (PromoteConstraint sample_promotion)) = Inr ctx"
    "Cap ctx = L3"
    using caps(2) by (simp add: ProjectionContext_Build_def)
  have "co_Level sample_constraint = L3" "co_Kind sample_constraint = KindAutonomy"
    by (simp_all add: sample_constraint_def)
  moreover have "\<exists>es. Constraint_Decide sample_constraint (PromoteConstraint sample_promotion) (ctx\<lparr>Actor := ada\<rparr>) = Inr es"
    using sample_promotion_decides [of "ctx\<lparr>Actor := ada\<rparr>"] ctx(2) by simp
  ultimately show "\<exists>scopes ctx es. scope_index_ok scopes \<and> snd (Effective scopes (pc_ToScope sample_promotion)) = L1 \<and>
      ProjectionContext_Build H scopes [] (CmdConstraint (PromoteConstraint sample_promotion)) = Inr ctx \<and>
      co_Level sample_constraint = L3 \<and> co_Kind sample_constraint = KindAutonomy \<and>
      Constraint_Decide sample_constraint (PromoteConstraint sample_promotion) (ctx\<lparr>Actor := ada\<rparr>) = Inr es"
    using ok caps(1) ctx(1) unfolding to by blast
qed (simp add: ProjectionContext_Build_def)

subsection \<open>Decisions\<close>

lemma Decision_verified_step:
  assumes "Decision_Decide d m ctx = Inr es" "de_State (Replay Decision_Apply d es) = DecisionStateVerified"
  shows "es = [] \<and> de_State d = DecisionStateVerified \<or>
    (\<exists>v. es = [DecisionVerified v] \<and> IsHuman (dv_By v))"
  by (cases m) (use assms in \<open>auto simp: zero_decision_def split: option.splits if_splits\<close>)

text \<open>
  What a verified decision says is what a human verified: in every history that leaves a decision
  verified the last event is a human's verification, and the title and the body it found are the
  present ones; every change of the text drops the state back to generated.
\<close>

theorem verified_decision_text:
  assumes "history Decision_Decide Decision_Apply zero_decision evs"
    and "d = Replay Decision_Apply zero_decision evs" and "de_State d = DecisionStateVerified"
  shows "\<exists>pre v. evs = pre @ [DecisionVerified v] \<and> IsHuman (dv_By v) \<and>
    de_Title (Replay Decision_Apply zero_decision pre) = de_Title d \<and>
    de_Body (Replay Decision_Apply zero_decision pre) = de_Body d"
  using assms
proof (induction arbitrary: d rule: history.induct)
  case history_start
  then show ?case
    by (simp add: zero_decision_def)
next
  case (history_step evs c ctx es)
  from Decision_verified_step [OF history_step(2)] history_step(4,5) show ?case
    using history_step(3) [of "Replay Decision_Apply zero_decision evs"] history_step(4) by auto
qed

definition sample_decision_events :: "decision_event list" where
  "sample_decision_events =
     [DecisionDrafted \<lparr>d1_ID = ''d1'', d1_Title = ''Use events'', d1_Body = ''All state is replayed'', d1_Scope = zero_scope_key,
        d1_From = [], d1_Anchors = [], d1_Supersedes = '''', d1_By = ada, d1_At = 5\<rparr>,
      DecisionVerified \<lparr>dv_ID = ''d1'', dv_By = ada, dv_At = 6\<rparr>]"

lemma sample_decision_history: "history Decision_Decide Decision_Apply zero_decision sample_decision_events"
proof -
  let ?m = "\<lparr>dd_Cmd = \<lparr>dn_ID = ''d1'', dn_Idem = ''''\<rparr>, dd_Title = ''Use events'', dd_Body = ''All state is replayed'',
    dd_Scope = zero_scope_key, dd_From = [], dd_Anchors = [], dd_Supersedes = ''''\<rparr>"
  have d: "history Decision_Decide Decision_Apply zero_decision [hd sample_decision_events]"
    by (rule history_single [of Decision_Decide _ "DraftDecision ?m" "ctx_at 5"])
       (simp add: sample_decision_events_def zero_decision_def zero_scope_key_valid ParseAnchors_error_def)
  have v: "Decision_Decide (Replay Decision_Apply zero_decision [hd sample_decision_events])
      (VerifyDecision \<lparr>dn_ID = ''d1'', dn_Idem = ''''\<rparr>) (ctx_at 6) = Inr (tl sample_decision_events)"
    by (simp add: sample_decision_events_def zero_decision_def)
  have "history Decision_Decide Decision_Apply zero_decision ([hd sample_decision_events] @ tl sample_decision_events)"
    by (rule history_step) (rule d, rule v)
  then show ?thesis
    by (simp add: sample_decision_events_def)
qed

theorem verified_decision_text_witness:
  "\<exists>pre v. sample_decision_events = pre @ [DecisionVerified v] \<and> IsHuman (dv_By v)"
proof -
  have "de_State (Replay Decision_Apply zero_decision sample_decision_events) = DecisionStateVerified"
    by (simp add: sample_decision_events_def)
  from verified_decision_text [OF sample_decision_history refl this] show ?thesis
    by blast
qed

subsection \<open>The level in effect\<close>

text \<open>
  The level and the cap in effect at a target do not depend on the order in which the index is
  traversed. The cap is the least cap of all applying scopes (L3 when there is none); the
  level is that of the narrowest applying scope, where one is narrower than all
  others, lowered to the cap; with no applying scope it is L0.
\<close>

theorem Effective_correct:
  assumes "scope_index_ok s" and "mset s = mset s'"
    and "e \<in> applying s target" and "\<And>e'. e' \<in> applying s target \<Longrightarrow> e' \<noteq> e \<Longrightarrow> Width (se_Key e) < Width (se_Key e')"
  shows "Effective s' target = (let cap = Min (se_Cap ` applying s target) in (min cap (se_Level e), cap)) \<and>
    (\<forall>other. applying s other = {} \<longrightarrow> Effective s' other = (L0, MaxLevel))"
proof -
  have "finite (applying s target)"
    by (simp add: applying_def)
  moreover have "se_Cap e \<le> MaxLevel"
    using assms(1,3) by (auto simp: applying_def scope_index_ok_def Level_Valid_def)
  ultimately have "Min (se_Cap ` applying s target) \<le> MaxLevel"
    using assms(3) by (meson Min_le finite_imageI imageI order_trans)
  then have cap: "Min (insert MaxLevel (se_Cap ` applying s target)) = Min (se_Cap ` applying s target)"
    using assms(3) \<open>finite (applying s target)\<close> by (subst Min_insert) auto
  have "Effective s target = (let cap = Min (se_Cap ` applying s target) in (min cap (se_Level e), cap))"
    using Effective_level [OF assms(1,3,4)] Effective_cap [OF assms(1), of target] unfolding cap
    by (cases "Effective s target") (simp add: Let_def)
  then show ?thesis
    using Effective_order [OF assms(1,2)] Effective_undeclared [OF assms(1)] by simp
qed

theorem Effective_correct_witness:
  "let org = zero_scope_key\<lparr>sk_Org := ''acme''\<rparr>; team = zero_scope_key\<lparr>sk_Org := ''acme'', sk_Team := ''core''\<rparr>;
       wide = \<lparr>se_Key = org, se_Level = L0, se_Cap = L1\<rparr>; narrow = \<lparr>se_Key = team, se_Level = L2, se_Cap = L3\<rparr> in
   Effective [(ScopeKey_String team, narrow), (ScopeKey_String org, wide)] team = (L1, L1)"
proof -
  let ?org = "zero_scope_key\<lparr>sk_Org := ''acme''\<rparr>" and ?team = "zero_scope_key\<lparr>sk_Org := ''acme'', sk_Team := ''core''\<rparr>"
  let ?o = "\<lparr>se_Key = ?org, se_Level = L0, se_Cap = L1\<rparr>" and ?t = "\<lparr>se_Key = ?team, se_Level = L2, se_Cap = L3\<rparr>"
  let ?s = "[(ScopeKey_String ?team, ?t), (ScopeKey_String ?org, ?o)]"
  have "?team \<noteq> ?org"
    by (simp add: zero_scope_key_def)
  then have "ScopeKey_String ?team \<noteq> ScopeKey_String ?org"
    using ScopeKey_String_inject [OF ScopeKey_Validate_axes [OF sample_scopes_valid(2)]
      ScopeKey_Validate_axes [OF sample_scopes_valid(1)]] by blast
  then have ok: "scope_index_ok ?s"
    by (simp add: scope_index_ok_def sample_scopes_valid)
  have ap: "applying ?s ?team = {?t, ?o}"
    by (simp add: applying_Cons applying_Nil Contains_iff zero_scope_key_def insert_commute)
  have "Effective ?s ?team = (let cap = Min (se_Cap ` {?t, ?o}) in (min cap (se_Level ?t), cap))"
  proof (rule Effective_correct [OF ok refl, of ?t ?team, THEN conjunct1, unfolded ap])
    have "Width ?team < Width ?org"
      by (simp add: Width_sum zero_scope_key_def)
    then show "Width (se_Key ?t) < Width (se_Key e')" if "e' \<in> {?t, ?o}" "e' \<noteq> ?t" for e'
      using that by auto
  qed simp
  then show ?thesis
    by (simp add: Let_def)
qed

subsection \<open>Constraints in force\<close>

text \<open>
  The constraints in force at a target are exactly the verified and the reviewed ones whose scope contains it,
  each once, the widest scope first and by identifier within a width. The list does not depend on the order in which the index
  is traversed, so the snapshot hash of a decision context identifies the set.
\<close>

theorem InForce_correct:
  assumes "constraint_index_ok c" and "mset c = mset c'"
  shows "set (InForce c target) =
      {e. (\<exists>i. (i, e) \<in> set c) \<and> cu_State e \<in> {CStateVerified, CStateReview} \<and> Contains (cu_Scope e) target} \<and>
    distinct (InForce c target) \<and>
    sorted_wrt (\<lambda>a b. Width (cu_Scope b) < Width (cu_Scope a) \<or> Width (cu_Scope a) = Width (cu_Scope b) \<and> cu_ID a < cu_ID b)
      (InForce c target) \<and>
    InForce c' target = InForce c target \<and> SnapshotHash H c' target = SnapshotHash H c target"
proof -
  let ?p = "\<lambda>e. (cu_State e = CStateVerified \<or> cu_State e = CStateReview) \<and> Contains (cu_Scope e) target"
  have order: "InForce c' target = InForce c target"
    using InForce_order [OF assms] by simp
  have ids: "map cu_ID (map snd c) = map_keys c"
    using assms(1) by (auto simp: constraint_index_ok_def)
  then have "distinct (map cu_ID (map snd c))"
    using assms(1) by (simp add: constraint_index_ok_def del: map_map)
  then have "distinct (map cu_ID (filter ?p (map snd c)))"
    by (rule distinct_map_filter)
  moreover have "mset (map cu_ID (InForce c target)) = mset (map cu_ID (filter ?p (map snd c)))"
    unfolding InForce_sort_key by (simp del: map_map filter_map)
  ultimately have did: "distinct (map cu_ID (InForce c target))"
    using mset_eq_imp_distinct_iff by blast
  have "sorted (map in_force_key (InForce c target))"
    by (simp add: InForce_sort_key)
  moreover have "distinct (map in_force_key (InForce c target))"
    using did by (auto simp: distinct_map inj_on_def in_force_key_def)
  ultimately have "sorted_wrt (\<lambda>a b. in_force_key a < in_force_key b) (InForce c target)"
    by (metis sorted_wrt_map strict_sorted_iff)
  then have "sorted_wrt (\<lambda>a b. Width (cu_Scope b) < Width (cu_Scope a) \<or> Width (cu_Scope a) = Width (cu_Scope b) \<and> cu_ID a < cu_ID b)
      (InForce c target)"
    by (rule sorted_wrt_mono_rel [rotated]) (auto simp: in_force_key_def less_prod_def)
  moreover have "set (InForce c target) =
      {e. (\<exists>i. (i, e) \<in> set c) \<and> cu_State e \<in> {CStateVerified, CStateReview} \<and> Contains (cu_Scope e) target}"
    unfolding InForce_sort_key set_sort set_filter set_map by force
  ultimately show ?thesis
    using order did by (simp add: SnapshotHash_def distinct_map)
qed

definition sample_summary :: "ID \<Rightarrow> constraint_state \<Rightarrow> ID \<times> constraint_summary" where
  "sample_summary i st = (i, zero_constraint_summary\<lparr>cu_ID := i, cu_State := st\<rparr>)"

lemma sample_summary_simps [simp]:
  "fst (sample_summary i st) = i" "cu_ID (snd (sample_summary i st)) = i" "cu_State (snd (sample_summary i st)) = st"
  "cu_Scope (snd (sample_summary i st)) = zero_scope_key"
  by (simp_all add: sample_summary_def zero_constraint_summary_def)

theorem InForce_correct_witness:
  "map cu_ID (InForce [sample_summary ''b'' CStateVerified, sample_summary ''a'' CStateReview, sample_summary ''c'' CStateRetired]
     zero_scope_key) = [''a'', ''b'']"
proof -
  let ?c = "[sample_summary ''b'' CStateVerified, sample_summary ''a'' CStateReview, sample_summary ''c'' CStateRetired]"
  have ok: "constraint_index_ok ?c"
    by (simp add: constraint_index_ok_def case_prod_beta)
  note c = InForce_correct [OF ok refl, of zero_scope_key undefined]
  have top: "Contains zero_scope_key zero_scope_key"
    by (simp add: Contains_iff zero_scope_key_def)
  have mem: "(\<exists>i. (i, e) \<in> X) \<longleftrightarrow> e \<in> snd ` X" for e and X :: "(ID \<times> constraint_summary) set"
    by force
  have st: "set (InForce ?c zero_scope_key) = {snd (sample_summary ''b'' CStateVerified), snd (sample_summary ''a'' CStateReview)}"
    unfolding conjunct1 [OF c] mem using top by auto
  have "sorted_wrt (\<lambda>a b. cu_ID a < cu_ID b) (InForce ?c zero_scope_key)"
  proof (rule sorted_wrt_mono_rel)
    show "sorted_wrt (\<lambda>a b. Width (cu_Scope b) < Width (cu_Scope a) \<or> Width (cu_Scope a) = Width (cu_Scope b) \<and> cu_ID a < cu_ID b)
      (InForce ?c zero_scope_key)"
      using c by blast
  qed (auto simp: st)
  then have "sorted_wrt (<) (map cu_ID (InForce ?c zero_scope_key))"
    by (simp add: sorted_wrt_map)
  moreover have "set (map cu_ID (InForce ?c zero_scope_key)) = set [''a'', ''b'']"
    unfolding set_map st by (simp add: insert_commute)
  moreover have "sorted_wrt (<) [''a'', ''b'']"
    by simp
  ultimately show ?thesis
    using strict_sorted_equal by blast
qed

end
