(* ===== verification/Accountability_Properties.thy ===== *)
theory Accountability_Properties
  imports Change Gate Session Realization_Anchor Sample_Inputs
begin

section \<open>Properties of changes, gates, sessions and anchors\<close>

text \<open>
  What \<^verbatim>\<open>internal/core/accountability\<close> and \<^verbatim>\<open>internal/core/realization\<close> promise: no change with
  impact is released unapproved, a gate opens by policy or by a human, a session's
  summary data follows from its turns, and an anchor goes stale when its declaration changed.
\<close>

subsection \<open>Changes\<close>

text \<open>
  C31. A change that touches constraints or decisions is never released without approval. In every
  history that leaves such a change deployed, observed or settled, it was deployed, its latest
  judgment is not a rejection, and where a human must confirm (harness changes, and every
  change opened at L0 or L1) some human accepted or modified it.
\<close>

theorem released_change_approved:
  assumes "history Change_Decide Change_Apply zero_change evs" and "c = Replay Change_Apply zero_change evs"
    and "ch_State c \<in> {StateDeployed, StateObserved, StateSettled}" and "\<not> Impact_Empty (ch_Impact c)"
  shows "ch_Deployment c \<noteq> None \<and> ch_Judgments c \<noteq> [] \<and> jg_Decision (last (ch_Judgments c)) \<noteq> DecisionReject \<and>
    (ch_Kind c = KindHarness \<or> ch_AutonomyApplied c \<le> L1 \<longrightarrow>
      (\<exists>j \<in> set (ch_Judgments c). jg_Decision j \<noteq> DecisionReject \<and> IsHuman (jg_By j)))"
proof -
  have "change_state_ok c"
    using change_agg.history_inv [OF assms(1)] assms(2,3) by (auto simp: change_inv_def)
  then have "ch_Deployment c \<noteq> None" "approved c"
    using assms(3,4) by (auto simp: change_state_ok_def)
  then show ?thesis
    by (auto simp: approved_def accepting_def)
qed

text \<open>The commands of a change that touches a constraint, from opening to settlement.\<close>

definition sample_judgment :: judgment_rec where
  "sample_judgment = \<lparr>jg_ID = ''j1'', jg_Decision = DecisionAccept, jg_Reason = ''safe'', jg_By = ada, jg_At = 6,
     jg_Source = SourceReview, jg_Sig = ''''\<rparr>"

definition sample_change_commands :: "(change_command \<times> decide_context) list" where
  "sample_change_commands =
     (let m = \<lparr>hc_ID = ''ch1'', hc_Idem = ''''\<rparr> in
      [(OpenChange \<lparr>oh_Cmd = m, oh_ChangeKind = KindHarness, oh_Mode = ModeManual, oh_Scope = zero_scope_key,
          oh_IntentRef = '''', oh_NoIntent = True,
          oh_Impact = \<lparr>im_Constraints = [\<lparr>ir_Constraint = ''c1'', ir_Relation = RelReferences\<rparr>], im_Decisions = [], im_Anchors = []\<rparr>,
          oh_Proposal = None, oh_Sessions = []\<rparr>, ctx_at 5),
       (Judge \<lparr>ju_Cmd = m, ju_Judgment = sample_judgment\<rparr>, ctx_at 6),
       (Deploy \<lparr>dy_Cmd = m, dy_Ref = ''main''\<rparr>, ctx_at 7)])"

definition sample_change :: change where
  "sample_change = zero_change\<lparr>ch_ID := ''ch1'', ch_Kind := KindHarness, ch_Mode := ModeManual, ch_NoIntent := True,
     ch_Impact := \<lparr>im_Constraints = [\<lparr>ir_Constraint = ''c1'', ir_Relation = RelReferences\<rparr>], im_Decisions = [], im_Anchors = []\<rparr>,
     ch_Judgments := [sample_judgment], ch_Deployment := Some \<lparr>dp_Ref = ''main'', dp_At = 7\<rparr>,
     ch_State := StateDeployed, ch_OpenedAt := 5\<rparr>"

lemma Actor_Validate_ada: "Actor_Validate ada = None"
  by (simp add: Actor_Validate_None) (simp add: ada_def)

lemma sample_change_history:
  "\<exists>evs. history Change_Decide Change_Apply zero_change evs \<and> sample_change = Replay Change_Apply zero_change evs"
proof -
  obtain evs where run: "run_commands Change_Decide Change_Apply zero_change sample_change_commands = Some evs"
    and "sample_change = Replay Change_Apply zero_change evs"
    by (simp add: sample_change_commands_def decide_defs zero_change_def zero_scope_key_valid change_mode_known_def
        ParseAnchors_error_def sample_judgment_def judgment_decision_known_def Actor_Validate_ada Impact_Empty_def
        judgmentsAllow_def sample_change_def Let_def)
  then show ?thesis
    using run_commands_history [OF run] by blast
qed

lemma sample_change_facts:
  "ch_State sample_change = StateDeployed" "\<not> Impact_Empty (ch_Impact sample_change)" "ch_Kind sample_change = KindHarness"
  "ch_Judgments sample_change = [sample_judgment]"
  by (simp_all add: sample_change_def Impact_Empty_def)

theorem released_change_approved_witness:
  "\<exists>j \<in> set (ch_Judgments sample_change). jg_Decision j \<noteq> DecisionReject \<and> IsHuman (jg_By j)"
proof -
  obtain evs where "history Change_Decide Change_Apply zero_change evs" "sample_change = Replay Change_Apply zero_change evs"
    using sample_change_history by blast
  from released_change_approved [OF this] show ?thesis
    by (simp add: sample_change_facts)
qed

text \<open>
  The rule on judgments, read declaratively: \<^verbatim>\<open>judgmentsAllow\<close> lets a change proceed exactly when there is
  a judgment, the latest one is not a rejection, a human is among those who did not reject
  wherever the change is a harness change or was opened at L0 or L1, and every owner named by the
  context is among those who did not reject.
\<close>

theorem judgmentsAllow_rule:
  "judgmentsAllow c ctx = None \<longleftrightarrow>
    (let ok = {j \<in> set (ch_Judgments c). jg_Decision j \<noteq> DecisionReject} in
     ch_Judgments c \<noteq> [] \<and> last (ch_Judgments c) \<in> ok \<and>
     (ch_Kind c = KindHarness \<or> ch_AutonomyApplied c \<le> L1 \<longrightarrow> (\<exists>j \<in> ok. IsHuman (jg_By j))) \<and>
     set (Judges ctx) \<subseteq> (ar_ID \<circ> jg_By) ` ok)"
proof -
  have "set (accepting c) = {j \<in> set (ch_Judgments c). jg_Decision j \<noteq> DecisionReject}"
    by (auto simp: accepting_def)
  then show ?thesis
    unfolding judgmentsAllow_iff approved_def Let_def by (auto simp: image_iff subset_iff)
qed

theorem judgmentsAllow_rule_witness: "judgmentsAllow sample_change (ctx_at 7) = None"
  using judgmentsAllow_rule [of sample_change "ctx_at 7"] by (simp add: sample_change_facts Let_def sample_judgment_def)

text \<open>
  Every recorded judgment is accountable. Over every history of a change its judgments have distinct
  ids, a known decision and a valid author, and a reason where the change has impact; an agent
  judges realization changes opened at L1 or above only; a harness change is
  opened at L0 and an autonomous one is a realization change opened at L2 or above.
\<close>

theorem judgments_accountable:
  assumes "history Change_Decide Change_Apply zero_change evs" and "c = Replay Change_Apply zero_change evs"
    and "ch_State c \<noteq> StateNone"
  shows "distinct (map jg_ID (ch_Judgments c)) \<and>
    (\<forall>j \<in> set (ch_Judgments c). jg_Decision j \<in> {DecisionAccept, DecisionModify, DecisionReject} \<and>
      Actor_Validate (jg_By j) = None \<and> (\<not> Impact_Empty (ch_Impact c) \<longrightarrow> jg_Reason j \<noteq> '''') \<and>
      (IsAgent (jg_By j) \<longrightarrow> ch_Kind c = KindRealization \<and> L1 \<le> ch_AutonomyApplied c)) \<and>
    (ch_Kind c = KindHarness \<longrightarrow> ch_AutonomyApplied c = L0) \<and>
    (ch_Mode c = ModeAutonomous \<longrightarrow> ch_Kind c = KindRealization \<and> L2 \<le> ch_AutonomyApplied c)"
  using change_agg.history_inv [OF assms(1)] assms(2,3)
  by (auto simp: change_inv_def change_opened_ok_def judgment_ok_def judgment_decision_known_def list_all_iff)

theorem judgments_accountable_witness: "distinct (map jg_ID (ch_Judgments sample_change))"
proof -
  obtain evs where "history Change_Decide Change_Apply zero_change evs" "sample_change = Replay Change_Apply zero_change evs"
    using sample_change_history by blast
  from judgments_accountable [OF this] show ?thesis
    by (simp add: sample_change_facts)
qed

fun lifecycle :: "change_state \<Rightarrow> nat" where
  "lifecycle StateNone = 0"
| "lifecycle StateProposed = 1"
| "lifecycle StateJudged = 2"
| "lifecycle StateDeployed = 3"
| "lifecycle StateObserved = 4"
| "lifecycle StateSettled = 5"

text \<open>
  A change moves through its lifecycle in order and settles once. Whatever command is accepted, the state does
  not go back in the order proposed, judged, deployed, observed, settled; a settled change
  rejects every command; and a change with impact settles only after an outcome was recorded or
  the observation window since its deployment has passed.
\<close>

theorem change_lifecycle:
  assumes "Change_Decide c cmd ctx = Inr es" and "c' = Replay Change_Apply c es"
  shows "ch_State c \<noteq> StateSettled \<and> lifecycle (ch_State c) \<le> lifecycle (ch_State c') \<and>
    (ch_State c' = StateSettled \<longrightarrow> Impact_Empty (ch_Impact c) \<or> ch_State c = StateObserved \<or>
      (\<exists>d. ch_Deployment c = Some d \<and> dp_At d + OutcomeWindow (Policy ctx) \<le> Now ctx))"
proof (cases cmd)
  case (OpenChange m)
  then show ?thesis
    using assms by (auto simp: change_open_def zero_change_def Let_def split: option.splits if_splits)
next
  case (Settle m)
  then show ?thesis
    using assms by (cases "ch_State c") (auto simp: change_settle_Inr split: if_splits)
qed (use assms in \<open>auto simp: change_addProposal_Inr change_judge_Inr change_deploy_Inr change_recordOutcome_Inr\<close>)

theorem change_lifecycle_witness:
  "let c = sample_change; ctx = ctx_at (7 + OutcomeWindow DefaultPolicy) in
   \<exists>es. Change_Decide c (Settle \<lparr>st_Cmd = \<lparr>hc_ID = ''ch1'', hc_Idem = ''''\<rparr>, st_Derived = [''c2'']\<rparr>) ctx = Inr es \<and>
     lifecycle (ch_State c) \<le> lifecycle (ch_State (Replay Change_Apply c es))"
proof -
  let ?m = "Settle \<lparr>st_Cmd = \<lparr>hc_ID = ''ch1'', hc_Idem = ''''\<rparr>, st_Derived = [''c2'']\<rparr>"
  let ?ctx = "ctx_at (7 + OutcomeWindow DefaultPolicy)"
  have "Change_Decide sample_change ?m ?ctx = Inr [Settled \<lparr>se_ID = ''ch1'', se_Derived = [''c2''], se_At = 7 + OutcomeWindow DefaultPolicy\<rparr>]"
    by (simp add: change_settle_Inr judgmentsAllow_iff approved_def accepting_def sample_change_def sample_judgment_def Impact_Empty_def)
  from change_lifecycle [OF this refl] this show ?thesis
    by (auto simp: Let_def)
qed

subsection \<open>Gates\<close>

text \<open>
  C32. The gate policy. A well-formed request of an agent on a fresh gate is denied exactly when it asks for more than the
  cap, allowed at once exactly when it asks for no more than the level in effect and the cap and no
  other owner must judge, and otherwise opens a question for a human that expires after the
  policy's time to live. Asking again on the same gate changes nothing.
\<close>

theorem gate_request_outcome:
  assumes "gate_request_ok m" and "ga_State g = GateStateNone" and "Gate_Decide g (RequestGate m) ctx = Inr es"
  shows "let g' = Replay Gate_Apply g es; level = rg_RequestedLevel m in
    (Cap ctx < level \<longleftrightarrow> ga_State g' = GateStateDecided \<and> ga_Decision g' = GateDeny) \<and>
    (level \<le> Cap ctx \<and> level \<le> Autonomy ctx \<and> Judges ctx = [] \<longleftrightarrow> ga_State g' = GateStateDecided \<and> ga_Decision g' = GateAllow) \<and>
    (ga_State g' \<noteq> GateStateDecided \<longrightarrow>
      ga_State g' = GateStateOpen \<and> ga_Decision g' = GateAsk \<and> ga_ExpiresAt g' = Now ctx + GateTTL (Policy ctx)) \<and>
    (\<forall>again ctx'. Gate_Decide g' (RequestGate again) ctx' = Inr [])"
proof -
  obtain d ref where pol: "gate_policy ctx (rg_RequestedLevel m) = (d, ref)"
    by fastforce
  then have "d = (if rg_RequestedLevel m > Cap ctx then GateDeny
      else if Judges ctx = [] \<and> rg_RequestedLevel m \<le> Autonomy ctx then GateAllow else GateAsk)"
    using gate_policy_spec [of ctx "rg_RequestedLevel m"] by simp
  note dec = this
  have "gate_request g m ctx = Inr es"
    using assms(3) by simp
  then have es: "es = (if d = GateAsk
              then [GateOpened \<lparr>go_ID = gc_ID (rg_Cmd m), go_Actor = rg_Actor m, go_Scope = rg_Scope m,
                     go_Anchors = rg_Anchors m, go_Action = rg_Action m, go_ProposalRef = rg_ProposalRef m,
                     go_RequestedLevel = rg_RequestedLevel m, go_PolicyRef = ref, go_At = Now ctx,
                     go_ExpiresAt = Now ctx + GateTTL (Policy ctx)\<rparr>]
              else [GateDecided \<lparr>gd_ID = gc_ID (rg_Cmd m), gd_Actor = rg_Actor m, gd_Scope = rg_Scope m,
                     gd_Anchors = rg_Anchors m, gd_Action = rg_Action m, gd_ProposalRef = rg_ProposalRef m,
                     gd_RequestedLevel = rg_RequestedLevel m, gd_Decision = d, gd_PolicyRef = ref, gd_At = Now ctx\<rparr>])"
    unfolding gate_request_Inr using assms(2) pol by simp
  show ?thesis
    unfolding Let_def es using dec by (auto simp: gate_request_def zero_gate_def)
qed

definition sample_request :: request_gate where
  "sample_request = \<lparr>rg_Cmd = \<lparr>gc_ID = ''g1'', gc_Idem = ''''\<rparr>,
     rg_Actor = \<lparr>ar_Kind = ActorAgent, ar_ID = ''bot'', ar_Key = '''', ar_Owner = ''ada''\<rparr>, rg_Scope = zero_scope_key,
     rg_Anchors = [], rg_Action = ''deploy'', rg_ProposalRef = ''pr/7'', rg_RequestedLevel = L2\<rparr>"

lemma sample_request_ok: "gate_request_ok sample_request"
  by (simp add: gate_request_ok_def sample_request_def Actor_Validate_None zero_scope_key_valid ParseAnchors_error_def)

definition sample_gate :: gate where
  "sample_gate = zero_gate\<lparr>ga_ID := ''g1'', ga_Actor := \<lparr>ar_Kind = ActorAgent, ar_ID = ''bot'', ar_Key = '''', ar_Owner = ''ada''\<rparr>,
     ga_Scope := zero_scope_key, ga_Action := ''deploy'', ga_ProposalRef := ''pr/7'', ga_RequestedLevel := L2,
     ga_Decision := GateAsk, ga_PolicyRef := ''autonomy:L0<requested:L2'', ga_State := GateStateOpen, ga_OpenedAt := 5,
     ga_ExpiresAt := 5 + GateTTL DefaultPolicy\<rparr>"

lemma sample_gate_opens:
  "\<exists>es. Gate_Decide zero_gate (RequestGate sample_request) (ctx_at 5) = Inr es \<and> sample_gate = Replay Gate_Apply zero_gate es"
proof -
  have "gate_policy (ctx_at 5) L2 = (GateAsk, ''autonomy:L0<requested:L2'')"
    unfolding gate_policy_def ctx_at_simps by code_simp
  then show ?thesis
    using sample_request_ok
    by (simp add: gate_request_Inr sample_gate_def) (simp add: sample_request_def zero_gate_def)
qed

theorem gate_request_outcome_witness: "ga_ExpiresAt sample_gate = 5 + GateTTL DefaultPolicy"
proof -
  obtain es where es: "Gate_Decide zero_gate (RequestGate sample_request) (ctx_at 5) = Inr es"
    "sample_gate = Replay Gate_Apply zero_gate es"
    using sample_gate_opens by blast
  have "ga_State sample_gate \<noteq> GateStateDecided"
    by (simp add: sample_gate_def)
  then show ?thesis
    using gate_request_outcome [OF sample_request_ok _ es(1)] es(2) by (simp add: zero_gate_def Let_def)
qed

text \<open>
  C33. Who may let an agent pass. In every history, a gate that reads allow was either allowed by the policy when
  it was requested, or resolved by a human who gave a reason; and a gate that is no longer open
  never changes again: every command on it is rejected or adds no event.
\<close>

theorem gate_allow_accountable:
  assumes "history Gate_Decide Gate_Apply zero_gate evs" and "g = Replay Gate_Apply zero_gate evs"
  shows "(ga_Decision g = GateAllow \<longrightarrow> ga_State g = GateStateDecided \<or>
      (\<exists>r. ga_State g = GateStateResolved \<and> ga_Resolution g = Some r \<and> rs_Decision r = GateAllow \<and>
        IsHuman (rs_By r) \<and> rs_Reason r \<noteq> '''')) \<and>
    (ga_State g \<notin> {GateStateNone, GateStateOpen} \<longrightarrow> Gate_Decide g cmd ctx = Inr es \<longrightarrow> es = [])"
proof -
  have inv: "gate_inv g"
    using gate_agg.history_inv [OF assms(1)] assms(2) by simp
  have "ga_Decision zero_gate \<noteq> GateAllow"
    by (simp add: zero_gate_def)
  then have "ga_Decision g = GateAllow \<Longrightarrow> gate_state_ok g \<and> ga_State g \<noteq> GateStateNone"
    using inv by (auto simp: gate_inv_def)
  moreover have "es = []" if "ga_State g \<notin> {GateStateNone, GateStateOpen}" "Gate_Decide g cmd ctx = Inr es"
    using that by (cases cmd) (auto simp: gate_ops_Inr)
  ultimately show ?thesis
    by (auto simp: gate_state_ok_def split: gate_state.splits)
qed

text \<open>
  An open gate is resolved or expires, never both: at any time at most one of the two commands produces an
  event. It is resolved strictly before its expiry, by a human, and by one of the judges where the
  context names judges; it expires at its expiry or later, and from then on it can always be expired.
\<close>

theorem gate_resolve_or_expire:
  assumes "ga_State g = GateStateOpen"
  shows "(Gate_Decide g (ResolveGate m) ctx = Inr es \<longrightarrow>
      Now ctx < ga_ExpiresAt g \<and> IsHuman (rs_By (rv_Resolution m)) \<and>
      (Judges ctx \<noteq> [] \<longrightarrow> ar_ID (rs_By (rv_Resolution m)) \<in> set (Judges ctx)) \<and>
      (\<exists>rej. Gate_Decide g (ExpireGate x) ctx = Inl rej) \<and> ga_State (Replay Gate_Apply g es) = GateStateResolved) \<and>
    (ga_ExpiresAt g \<le> Now ctx \<longrightarrow>
      Gate_Decide g (ExpireGate x) ctx = Inr [GateExpired \<lparr>ge_ID = ga_ID g, ge_At = Now ctx\<rparr>] \<and>
      (\<exists>rej. Gate_Decide g (ResolveGate m) ctx = Inl rej))"
proof (intro conjI impI)
  assume res: "Gate_Decide g (ResolveGate m) ctx = Inr es"
  then have ok: "gate_resolve g m ctx = Inr es"
    by simp
  then show "Now ctx < ga_ExpiresAt g" "IsHuman (rs_By (rv_Resolution m))"
    "Judges ctx \<noteq> [] \<Longrightarrow> ar_ID (rs_By (rv_Resolution m)) \<in> set (Judges ctx)"
    "ga_State (Replay Gate_Apply g es) = GateStateResolved"
    by (auto simp: gate_resolve_Inr)
  then show "\<exists>rej. Gate_Decide g (ExpireGate x) ctx = Inl rej"
    using assms by (simp add: gate_expire_def)
next
  assume late: "ga_ExpiresAt g \<le> Now ctx"
  then show "Gate_Decide g (ExpireGate x) ctx = Inr [GateExpired \<lparr>ge_ID = ga_ID g, ge_At = Now ctx\<rparr>]"
    using assms by (simp add: gate_expire_def)
  show "\<exists>rej. Gate_Decide g (ResolveGate m) ctx = Inl rej"
    using late gate_resolve_Inr [of g m ctx] by (cases "gate_resolve g m ctx") auto
qed

theorem gate_resolve_or_expire_witness:
  "let ctx = ctx_at (5 + GateTTL DefaultPolicy) in
   Gate_Decide sample_gate (ExpireGate \<lparr>gc_ID = ''g1'', gc_Idem = ''''\<rparr>) ctx =
     Inr [GateExpired \<lparr>ge_ID = ''g1'', ge_At = 5 + GateTTL DefaultPolicy\<rparr>]"
proof -
  have "ga_State sample_gate = GateStateOpen" and "ga_ID sample_gate = ''g1''"
    and "ga_ExpiresAt sample_gate = 5 + GateTTL DefaultPolicy"
    by (simp_all add: sample_gate_def)
  then show ?thesis
    using gate_resolve_or_expire [of sample_gate _ "ctx_at (5 + GateTTL DefaultPolicy)" _ "\<lparr>gc_ID = ''g1'', gc_Idem = ''''\<rparr>"]
    by (simp add: Let_def)
qed

theorem gate_allow_accountable_witness:
  "\<exists>evs. history Gate_Decide Gate_Apply zero_gate evs \<and>
    (let g = Replay Gate_Apply zero_gate evs in
      ga_Decision g = GateAllow \<and> (\<exists>r. ga_Resolution g = Some r \<and> IsHuman (rs_By r)))"
proof -
  let ?r = "\<lparr>rs_Decision = GateAllow, rs_Reason = ''reviewed'', rs_By = ada, rs_At = 6, rs_Sig = ''''\<rparr>"
  let ?m = "ResolveGate \<lparr>rv_Cmd = \<lparr>gc_ID = ''g1'', gc_Idem = ''''\<rparr>, rv_Resolution = ?r\<rparr>"
  obtain es where es: "Gate_Decide zero_gate (RequestGate sample_request) (ctx_at 5) = Inr es"
    "sample_gate = Replay Gate_Apply zero_gate es"
    using sample_gate_opens by blast
  have "Gate_Decide sample_gate ?m (ctx_at 6) = Inr [GateResolved \<lparr>gr_ID = ''g1'', gr_Resolution = ?r\<rparr>]"
    by (simp add: gate_resolve_Inr Actor_Validate_ada sample_gate_def DefaultPolicy_def)
  then have run: "run_commands Gate_Decide Gate_Apply zero_gate [(RequestGate sample_request, ctx_at 5), (?m, ctx_at 6)] =
      Some (es @ [GateResolved \<lparr>gr_ID = ''g1'', gr_Resolution = ?r\<rparr>])"
    using es by simp
  note h = run_commands_history [OF run]
  have allow: "ga_Decision (Replay Gate_Apply zero_gate (es @ [GateResolved \<lparr>gr_ID = ''g1'', gr_Resolution = ?r\<rparr>])) = GateAllow"
    "ga_State (Replay Gate_Apply zero_gate (es @ [GateResolved \<lparr>gr_ID = ''g1'', gr_Resolution = ?r\<rparr>])) \<noteq> GateStateDecided"
    by simp_all
  from gate_allow_accountable [OF h refl] allow h show ?thesis
    by (intro exI [of _ "es @ [GateResolved \<lparr>gr_ID = ''g1'', gr_Resolution = ?r\<rparr>]"]) (simp add: Let_def)
qed

subsection \<open>Sessions\<close>

text \<open>
  What a session remembers follows from its turns. Over every history the turns are numbered 1, 2, and so
  on; the touched files are the files of all turns, each once; the judgment candidates are exactly the
  redirect and revert turns, in order; an ended session has a summary; and only an ended session
  that a human shared exposes anything, and then only its summary or its judgments.
\<close>

theorem session_follows_turns:
  assumes "history Session_Decide Session_Apply zero_session evs" and "s = Replay Session_Apply zero_session evs"
    and "ss_State s \<noteq> SessionStateNone"
  shows "map tn_Seq (ss_Turns s) = [1..int (length (ss_Turns s))] \<and>
    set (ss_Touched s) = (\<Union>t \<in> set (ss_Turns s). set (tn_Files t)) \<and> distinct (ss_Touched s) \<and>
    map sj_Turn (ss_Judgments s) = map tn_Seq (filter (\<lambda>t. tn_Class t \<in> {TurnRedirect, TurnRevert}) (ss_Turns s)) \<and>
    (ss_State s \<noteq> SessionStateOpen \<longrightarrow> ss_Summary s \<noteq> '''') \<and>
    (ss_Shared s \<noteq> [] \<longleftrightarrow> ss_State s = SessionStateShared) \<and> set (ss_Shared s) \<subseteq> {''summary'', ''judgments''}"
proof -
  have inv: "session_inv s"
    using session_agg.history_inv [OF assms(1)] assms(2) by simp
  then have d: "session_derived s"
    using assms(3) by (simp add: session_inv_def)
  have "map tn_Seq (ss_Turns s) = map (\<lambda>i. int i + 1) [0..<length (ss_Turns s)]"
    using d by (simp add: session_derived_def)
  also have "\<dots> = [1..int (length (ss_Turns s))]"
    by (rule nth_equalityI) (auto simp: nth_upto)
  finally have seqs: "map tn_Seq (ss_Turns s) = [1..int (length (ss_Turns s))]" .
  have "filter (\<lambda>t. tn_Class t \<noteq> TurnAccept) (ss_Turns s) = filter (\<lambda>t. tn_Class t \<in> {TurnRedirect, TurnRevert}) (ss_Turns s)"
    using d by (intro filter_cong) (auto simp: session_derived_def turn_class_known_def list_all_iff)
  then have "map sj_Turn (ss_Judgments s) = map tn_Seq (filter (\<lambda>t. tn_Class t \<in> {TurnRedirect, TurnRevert}) (ss_Turns s))"
    using d by (simp add: session_derived_def session_judgment_of_def)
  moreover have "set (ss_Touched s) = (\<Union>t \<in> set (ss_Turns s). set (tn_Files t))" "distinct (ss_Touched s)"
    using d by (simp_all add: session_derived_def distinct_touch)
  moreover have "ss_State s \<noteq> SessionStateOpen \<longrightarrow> ss_Summary s \<noteq> ''''"
    using inv assms(3) by (cases "ss_State s") (simp_all add: session_inv_def)
  moreover have "(ss_Shared s \<noteq> [] \<longleftrightarrow> ss_State s = SessionStateShared) \<and> set (ss_Shared s) \<subseteq> {''summary'', ''judgments''}"
    using inv assms(3) unfolding session_inv_def by blast
  ultimately show ?thesis
    using seqs by blast
qed

theorem session_follows_turns_witness:
  "\<exists>evs. let s = Replay Session_Apply zero_session evs in
    length (ss_Turns s) = 2 \<and> map tn_Seq (ss_Turns s) = [1, 2] \<and> map sj_Turn (ss_Judgments s) = [2]"
proof -
  let ?c = "\<lparr>sm_Tool = ''claude-code'', sm_ID = ''s1'', sm_Idem = ''''\<rparr>"
  let ?start = "StartSession \<lparr>sn_Cmd = ?c, sn_Repo = ''keelage'',
    sn_Agent = \<lparr>ar_Kind = ActorAgent, ar_ID = ''bot'', ar_Key = '''', ar_Owner = ''ada''\<rparr>\<rparr>"
  let ?turn = "\<lambda>cl. RecordTurn \<lparr>rn_Cmd = ?c, rn_Class = cl, rn_Files = [''a.go''], rn_Signal = ''''\<rparr>"
  let ?cs = "[(?start, ctx_at 1), (?turn TurnAccept, ctx_at 2), (?turn TurnRevert, ctx_at 3)]"
  obtain evs where run: "run_commands Session_Decide Session_Apply zero_session ?cs = Some evs"
    and n: "length (ss_Turns (Replay Session_Apply zero_session evs)) = 2"
    and st: "ss_State (Replay Session_Apply zero_session evs) \<noteq> SessionStateNone"
    and cl: "map tn_Class (ss_Turns (Replay Session_Apply zero_session evs)) = [TurnAccept, TurnRevert]"
    by (simp add: zero_session_def Actor_Validate_def turn_class_known_def Let_def)
  let ?s = "Replay Session_Apply zero_session evs"
  note f = session_follows_turns [OF run_commands_history [OF run] refl st]
  have "[1..int 2] = [1, 2]"
    by (simp add: upto.simps)
  then have seqs: "map tn_Seq (ss_Turns ?s) = [1, 2]"
    using f n by simp
  obtain t1 t2 where t: "ss_Turns ?s = [t1, t2]"
    using n by (metis (no_types) One_nat_def Suc_1 length_0_conv length_Suc_conv)
  show ?thesis
    using f seqs n cl unfolding t by (intro exI [of _ evs]) (simp add: t Let_def)
qed

subsection \<open>Anchors\<close>

lemma anchor_history_baseline:
  assumes "history Anchor_Decide Anchor_Apply a evs" "\<forall>e \<in> set evs. \<not> is_recording e"
  shows "baseline (Replay Anchor_Apply a evs) = baseline a"
  using assms
proof (induction rule: history.induct)
  case (history_step evs c ctx es)
  then show ?case
    using Anchor_decide_baseline [OF history_step(2)] by (simp add: list_ex_iff)
qed simp

text \<open>
  An anchor's staleness is always measured against what was last recorded. After any sequence of
  commands without a new recording, verifying the anchor succeeds and yields: unrealized if it is
  gone; stale if its signature differs from the recorded one; for a body that differs, review, or
  still stale if it was stale; otherwise verified, whatever happened to the rest of the
  file. So drift cannot be accepted step by step through verifications.
\<close>

theorem anchor_staleness:
  assumes "history Anchor_Decide Anchor_Apply a evs" and "\<forall>e \<in> set evs. \<not> is_recording e"
    and "b = Replay Anchor_Apply a evs" and "aa_State b \<noteq> AStateNone"
  shows "\<exists>es. Anchor_Decide b (VerifyAnchor m) ctx = Inr es \<and>
    aa_State (Replay Anchor_Apply b es) =
      (if \<not> va_Exists m then AStateUnrealized
       else if h3_Signature (va_Current m) \<noteq> h3_Signature (aa_Hash a) then AStateStale
       else if h3_Body (va_Current m) \<noteq> h3_Body (aa_Hash a)
         then (if aa_State b = AStateStale then AStateStale else AStateReview)
       else AStateVerified)"
proof -
  have "baseline b = baseline a"
    using anchor_history_baseline [OF assms(1,2)] assms(3) by simp
  then have hash: "h3_Signature (aa_Hash b) = h3_Signature (aa_Hash a)" "h3_Body (aa_Hash b) = h3_Body (aa_Hash a)"
    by (simp_all add: baseline_def)
  show ?thesis
    using assms(4) by (auto simp: anchor_verify_def Hash3_Cmp_def hash Let_def)
qed

theorem anchor_staleness_witness:
  "let a = zero_anchor_agg\<lparr>aa_Key := ''code://a.go#F'', aa_Hash := \<lparr>h3_Signature = ''s'', h3_Body = ''b'', h3_File = ''f''\<rparr>,
        aa_State := AStateVerified\<rparr>;
      m = \<lparr>va_Cmd = \<lparr>at_Key = ''code://a.go#F'', at_Idem = ''''\<rparr>,
        va_Current = \<lparr>h3_Signature = ''s'', h3_Body = ''B'', h3_File = ''F''\<rparr>, va_Exists = True, va_Ref = ''HEAD''\<rparr> in
   \<exists>es. Anchor_Decide a (VerifyAnchor m) (ctx_at 3) = Inr es \<and> aa_State (Replay Anchor_Apply a es) = AStateReview"
proof -
  let ?a = "zero_anchor_agg\<lparr>aa_Key := ''code://a.go#F'', aa_Hash := \<lparr>h3_Signature = ''s'', h3_Body = ''b'', h3_File = ''f''\<rparr>,
        aa_State := AStateVerified\<rparr>"
  let ?m = "\<lparr>va_Cmd = \<lparr>at_Key = ''code://a.go#F'', at_Idem = ''''\<rparr>,
        va_Current = \<lparr>h3_Signature = ''s'', h3_Body = ''B'', h3_File = ''F''\<rparr>, va_Exists = True, va_Ref = ''HEAD''\<rparr>"
  have st: "aa_State ?a \<noteq> AStateNone"
    by simp
  have "\<forall>e \<in> set []. \<not> is_recording e" and "?a = Replay Anchor_Apply ?a []"
    by simp_all
  from anchor_staleness [OF history_start this st, of ?m "ctx_at 3"] show ?thesis
    by (simp add: Let_def)
qed

end
