(* ===== verification/Pipeline.thy ===== *)
theory Pipeline
  imports Wire_Facts Ledger
begin

section \<open>The command pipeline\<close>

text \<open>
  \<^verbatim>\<open>internal/app/pipeline.go\<close> and \<^verbatim>\<open>internal/app/rejected.go\<close>: authorize, replay a retried
  command, load, build the context, decide, append, publish. The state is a pair
  of the ledger's state \<open>'l\<close> and the read models \<open>'p\<close>; the projectors and the context
  source are functions on the read models. \<^verbatim>\<open>Clock.Now\<close> is the argument \<open>now\<close>.
  \<open>o_Marshal\<close> and \<open>o_Unmarshal\<close> are \<^verbatim>\<open>encoding/json\<close>.
\<close>

type_synonym 'p projector = "string \<times> (envelope \<Rightarrow> event \<Rightarrow> 'p \<Rightarrow> go_error option \<times> 'p)"

record ('l, 'p) options =
  o_Ledger :: "'l port_ledger"
  o_Codec :: "event codec"
  o_Marshal :: "event \<Rightarrow> go_error + bytes"
  o_Unmarshal :: "codec_key \<Rightarrow> bytes \<Rightarrow> go_error + event"
  o_Context :: "'p \<Rightarrow> command \<Rightarrow> go_error + decide_context"
  o_Policy :: policy
  o_Projectors :: "'p projector list"

record pipeline_result =
  re_Stream :: string
  re_Version :: int
  re_Range :: "append_range option"
  re_Events :: "event list"
  re_Replayed :: bool

definition zero_result :: pipeline_result where
  "zero_result = \<lparr>re_Stream = '''', re_Version = 0, re_Range = None, re_Events = [], re_Replayed = False\<rparr>"

text \<open>
  The errors a caller can tell apart: an unknown command, a rejection (joined with the
  error of recording it, if any), a projection that failed after the append, and
  every other wrapped error.
\<close>

datatype app_error = ErrUnknownCommand string | ErrRejected rejection "go_error option"
  | ErrProjection string | AppError go_error

fun ledger_error_string :: "ledger_error \<Rightarrow> go_error" where
  "ledger_error_string ErrVersionConflict = ''ledger: version conflict''"
| "ledger_error_string ErrDuplicateIdempotencyKey = ''ledger: duplicate idempotency key''"
| "ledger_error_string ErrEmptyAppend = ''ledger: nothing to append''"
| "ledger_error_string ErrNotFound = ''ledger: not found''"
| "ledger_error_string ErrDuplicateOrigin = ''ledger: duplicate origin''"
| "ledger_error_string (LedgerError e) = e"

definition new_options :: "('l, 'p) options \<Rightarrow> ('l, 'p) options" where
  "new_options opt = (if o_Policy opt = zero_policy then opt\<lparr>o_Policy := DefaultPolicy\<rparr> else opt)"

subsection \<open>rejected.go\<close>

fun notify :: "'p projector list \<Rightarrow> envelope \<Rightarrow> event \<Rightarrow> 'p \<Rightarrow> 'p" where
  "notify [] e ev p = p"
| "notify ((name, h) # prs) e ev p = notify prs e ev (snd (h e ev p))"

definition blank_envelope :: "envelope" where
  "blank_envelope = \<lparr>e_Seq = 0, e_Stream = '''', e_Ver = 0, e_Kind = '''', e_V = 0, e_TS = 0,
     e_Actor = \<lparr>ar_Kind = ActorKindOther '''', ar_ID = '''', ar_Key = '''', ar_Owner = ''''\<rparr>,
     e_Meta = \<lparr>em_Refs = [], em_ConstraintsHash = '''', em_Autonomy = 0\<rparr>, e_Body = [], e_MetaHash = [],
     e_BodyHash = [], e_PrevHash = [], e_Hash = [], e_Sig = [], e_Idem = '''', e_Origin = None\<rparr>"

definition encode :: "('l, 'p) options \<Rightarrow> event \<Rightarrow> go_error + bytes" where
  "encode opt ev = Codec_Encode event_kv (o_Marshal opt) (o_Codec opt) ev"

definition decode :: "('l, 'p) options \<Rightarrow> envelope \<Rightarrow> go_error + event" where
  "decode opt e = Codec_Decode event_kv (o_Unmarshal opt) (o_Codec opt) (e_Kind e) (nat (e_V e)) (e_Body e)"

definition appendRejected :: "('l, 'p) options \<Rightarrow> go_time \<Rightarrow> rejected \<Rightarrow> 'l \<times> 'p \<Rightarrow> go_error option \<times> ('l \<times> 'p)" where
  "appendRejected opt now ev st =
     (case encode opt (EvRejected ev) of
        Inl err \<Rightarrow> (Some err, st)
      | Inr body \<Rightarrow>
        let e = blank_envelope\<lparr>e_Kind := ''Rejected'', e_V := 1, e_TS := now, e_Actor := rj_Actor ev,
                  e_Meta := \<lparr>em_Refs = [rj_Target ev], em_ConstraintsHash = '''', em_Autonomy = 0\<rparr>, e_Body := body\<rparr> in
        (case pl_Append (o_Ledger opt) (fst st) RejectedStream AnyVersion [e] of
           (Inl err, l) \<Rightarrow> (Some (''app: record rejection: '' @ ledger_error_string err), (l, snd st))
         | (Inr rng, l) \<Rightarrow>
             (case pl_Read (o_Ledger opt) l RejectedStream (rg_FromVer rng) of
                Inr (w # ws) \<Rightarrow> (None, (l, notify (o_Projectors opt) w (EvRejected ev) (snd st)))
              | _ \<Rightarrow> (None, (l, snd st)))))"

subsection \<open>pipeline.go\<close>

definition recordRejection :: "('l, 'p) options \<Rightarrow> string \<Rightarrow> actor_ref \<Rightarrow> command \<Rightarrow> go_time \<Rightarrow> rejection \<Rightarrow> 'l \<times> 'p \<Rightarrow>
    app_error \<times> ('l \<times> 'p)" where
  "recordRejection opt target actor cmd now rej st =
     (let ev = \<lparr>rj_Command = cmd_Kind cmd, rj_Target = target, rj_Code = Code rej, rj_Reason = Reason rej,
                rj_Actor = actor\<rparr>
      in case appendRejected opt now ev st of (err, st') \<Rightarrow> (ErrRejected rej err, st'))"

text \<open>Running the projectors on one record; the errors are collected.\<close>

fun publish_one :: "'p projector list \<Rightarrow> envelope \<Rightarrow> event \<Rightarrow> 'p \<Rightarrow> go_error list \<times> 'p" where
  "publish_one [] e ev p = ([], p)"
| "publish_one ((name, h) # prs) e ev p =
     (case h e ev p of (err, p') \<Rightarrow>
      case publish_one prs e ev p' of (errs, p'') \<Rightarrow>
        (case err of None \<Rightarrow> (errs, p'') | Some m \<Rightarrow> ((name @ '': '' @ m) # errs, p'')))"

fun publish_all :: "'p projector list \<Rightarrow> envelope list \<Rightarrow> event list \<Rightarrow> 'p \<Rightarrow> go_error list \<times> 'p" where
  "publish_all prs (e # envs) (ev # evs) p =
     (case publish_one prs e ev p of (errs, p') \<Rightarrow>
      case publish_all prs envs evs p' of (errs', p'') \<Rightarrow> (errs @ errs', p''))"
| "publish_all prs _ _ p = ([], p)"

definition publish :: "'p projector list \<Rightarrow> envelope list \<Rightarrow> event list \<Rightarrow> 'p \<Rightarrow> app_error option \<times> 'p" where
  "publish prs envs evs p =
     (case publish_all prs envs evs p of (errs, p') \<Rightarrow>
        (if length errs > 0 then Some (ErrProjection (Join errs [CHR 0x0A])) else None, p'))"

text \<open>The load loop: replay the decoded records onto the zero aggregate; the version is the last record's.\<close>

fun load_loop :: "('l, 'p) options \<Rightarrow> string \<Rightarrow> aggregate_root \<Rightarrow> int \<Rightarrow> envelope list \<Rightarrow>
    app_error + (aggregate_root \<times> int)" where
  "load_loop opt stream agg version [] = Inr (agg, version)"
| "load_loop opt stream agg version (e # envs) =
     (case decode opt e of
        Inl err \<Rightarrow> Inl (AppError (Sprintf ''app: replay %s seq %d: %w'' [stream, Itoa (e_Seq e), err]))
      | Inr ev \<Rightarrow> load_loop opt stream (Root_Apply agg ev) (e_Ver e) envs)"

text \<open>The batch: one envelope per event; the first carries the idempotency key.\<close>

fun build_batch :: "('l, 'p) options \<Rightarrow> go_time \<Rightarrow> actor_ref \<Rightarrow> event_meta \<Rightarrow> string \<Rightarrow> event list \<Rightarrow>
    app_error + envelope list" where
  "build_batch opt now actor meta idem [] = Inr []"
| "build_batch opt now actor meta idem (ev # evs) =
     (case encode opt ev of
        Inl err \<Rightarrow> Inl (AppError (Sprintf ''app: encode %s: %w'' [fst (event_kv ev), err]))
      | Inr body \<Rightarrow>
        (case build_batch opt now actor meta '''' evs of
           Inl err \<Rightarrow> Inl err
         | Inr batch \<Rightarrow>
             Inr (blank_envelope\<lparr>e_Kind := fst (event_kv ev), e_V := int (snd (event_kv ev)), e_TS := now,
                    e_Actor := actor, e_Meta := meta, e_Body := body, e_Idem := idem\<rparr> # batch)))"

definition context_for :: "('l, 'p) options \<Rightarrow> go_time \<Rightarrow> actor_ref \<Rightarrow> command \<Rightarrow> 'p \<Rightarrow> app_error + decide_context" where
  "context_for opt now actor cmd p =
     (case o_Context opt p cmd of
        Inl err \<Rightarrow> Inl (AppError (Sprintf ''app: context for %s: %w'' [cmd_Kind cmd, err]))
      | Inr dctx \<Rightarrow>
          Inr (dctx\<lparr>Now := now, Actor := actor,
                    Policy := (if Policy dctx = zero_policy then o_Policy opt else Policy dctx)\<rparr>))"

text \<open>Steps 5 to 7: append the decided events and publish what was written.\<close>

definition append_events :: "('l, 'p) options \<Rightarrow> go_time \<Rightarrow> actor_ref \<Rightarrow> command \<Rightarrow> decide_context \<Rightarrow> int \<Rightarrow> event list \<Rightarrow>
    'l \<times> 'p \<Rightarrow> (pipeline_result \<times> app_error option) \<times> ('l \<times> 'p)" where
  "append_events opt now actor cmd dctx version events st =
     (let stream = cmd_Stream cmd;
          refs = [stream] @ (case TouchedAnchors cmd of None \<Rightarrow> [] | Some as \<Rightarrow> as);
          meta = \<lparr>em_Refs = refs, em_ConstraintsHash = ConstraintsHash dctx, em_Autonomy = Autonomy dctx\<rparr> in
      case build_batch opt now actor meta (cmd_Idem cmd) events of
        Inl err \<Rightarrow> ((zero_result, Some err), st)
      | Inr batch \<Rightarrow>
        (case pl_Append (o_Ledger opt) (fst st) stream version batch of
           (Inl err, l) \<Rightarrow>
             (if err = ErrDuplicateIdempotencyKey
              then (case pl_Lookup (o_Ledger opt) l stream (cmd_Idem cmd) of
                      Inl lerr \<Rightarrow> ((zero_result, Some (AppError (''app: idempotent replay lookup: '' @ ledger_error_string lerr))),
                                  (l, snd st))
                    | Inr prev \<Rightarrow> ((zero_result\<lparr>re_Stream := stream, re_Version := e_Ver prev, re_Replayed := True\<rparr>, None),
                                  (l, snd st)))
              else ((zero_result, Some (AppError (Sprintf ''app: append %s: %w'' [stream, ledger_error_string err]))),
                    (l, snd st)))
         | (Inr rng, l) \<Rightarrow>
             let res = \<lparr>re_Stream = stream, re_Version = rg_ToVer rng, re_Range = Some rng, re_Events = events,
                        re_Replayed = False\<rparr> in
             (case pl_Read (o_Ledger opt) l stream (rg_FromVer rng) of
                Inl err \<Rightarrow> ((res, Some (ErrProjection (''reread: '' @ ledger_error_string err))), (l, snd st))
              | Inr written \<Rightarrow>
                  (case publish (o_Projectors opt) written events (snd st) of (perr, p) \<Rightarrow> ((res, perr), (l, p))))))"

definition decide_step :: "('l, 'p) options \<Rightarrow> (string \<Rightarrow> aggregate_root) \<Rightarrow> go_time \<Rightarrow> actor_ref \<Rightarrow> command \<Rightarrow>
    'l \<times> 'p \<Rightarrow> (pipeline_result \<times> app_error option) \<times> ('l \<times> 'p)" where
  "decide_step opt zero now actor cmd st =
     (let stream = cmd_Stream cmd in
      case pl_Read (o_Ledger opt) (fst st) stream 0 of
        Inl err \<Rightarrow> ((zero_result, Some (AppError (Sprintf ''app: load %s: %w'' [stream, ledger_error_string err]))), st)
      | Inr envs \<Rightarrow>
        (case load_loop opt stream (zero stream) 0 envs of
           Inl err \<Rightarrow> ((zero_result, Some err), st)
         | Inr (agg, version) \<Rightarrow>
           (case context_for opt now actor cmd (snd st) of
              Inl err \<Rightarrow> ((zero_result, Some err), st)
            | Inr dctx \<Rightarrow>
              (case Root_Decide agg cmd dctx of
                 Inl rej \<Rightarrow>
                   (case recordRejection opt stream actor cmd now rej st of (err, st') \<Rightarrow>
                      ((zero_result\<lparr>re_Stream := stream, re_Version := version\<rparr>, Some err), st'))
               | Inr events \<Rightarrow>
                   if length events = 0
                   then ((zero_result\<lparr>re_Stream := stream, re_Version := version\<rparr>, None), st)
                   else append_events opt now actor cmd dctx version events st))))"

definition handle :: "('l, 'p) options \<Rightarrow> (string \<Rightarrow> aggregate_root) \<Rightarrow> go_time \<Rightarrow> actor_ref \<Rightarrow> command \<Rightarrow>
    'l \<times> 'p \<Rightarrow> (pipeline_result \<times> app_error option) \<times> ('l \<times> 'p)" where
  "handle opt zero now actor cmd st =
     (let stream = cmd_Stream cmd in
      case Actor_Validate actor of
        Some err \<Rightarrow>
          (case recordRejection opt stream actor cmd now (Reject ''unauthenticated'' ''%v'' [err]) st of (e, st') \<Rightarrow>
             ((zero_result\<lparr>re_Stream := stream\<rparr>, Some e), st'))
      | None \<Rightarrow>
        if cmd_Idem cmd \<noteq> ''''
        then (case pl_Lookup (o_Ledger opt) (fst st) stream (cmd_Idem cmd) of
                Inr prev \<Rightarrow> ((zero_result\<lparr>re_Stream := stream, re_Version := e_Ver prev, re_Replayed := True\<rparr>, None), st)
              | Inl err \<Rightarrow>
                  if err = ErrNotFound then decide_step opt zero now actor cmd st
                  else ((zero_result, Some (AppError (''app: idempotency lookup: '' @ ledger_error_string err))), st))
        else decide_step opt zero now actor cmd st)"

definition Pipeline_Handle :: "('l, 'p) options \<Rightarrow> (string \<times> (string \<Rightarrow> aggregate_root)) list \<Rightarrow> go_time \<Rightarrow> actor_ref \<Rightarrow>
    command \<Rightarrow> 'l \<times> 'p \<Rightarrow> (pipeline_result \<times> app_error option) \<times> ('l \<times> 'p)" where
  "Pipeline_Handle opt handlers now actor cmd st =
     (case map_of handlers (cmd_Kind cmd) of
        None \<Rightarrow> ((zero_result, Some (ErrUnknownCommand (cmd_Kind cmd))), st)
      | Some zero \<Rightarrow> handle opt zero now actor cmd st)"

end
