(* ===== verification/Pipeline_Facts.thy ===== *)
theory Pipeline_Facts
  imports Pipeline
begin

section \<open>What the pipeline guarantees\<close>

text \<open>
  Proved once over the contract of the ledger port. \<open>json_faithful\<close> is what the
  pipeline relies on in \<^verbatim>\<open>encoding/json\<close>: an event that was encoded decodes to itself.
\<close>

definition json_faithful :: "('l, 'p) options \<Rightarrow> bool" where
  "json_faithful opt \<longleftrightarrow> (\<forall>e b. o_Marshal opt e = Inr b \<longrightarrow> o_Unmarshal opt (event_kv e) b = Inr e)"

definition decodes :: "('l, 'p) options \<Rightarrow> envelope \<Rightarrow> event \<Rightarrow> bool" where
  "decodes opt e ev \<longleftrightarrow> decode opt e = Inr ev"

definition current :: "event \<Rightarrow> bool" where
  "current e \<longleftrightarrow> snd (event_kv e) = Codec_Latest app_codec (fst (event_kv e))"

subsection \<open>Decisions produce events of the current version\<close>

lemma current_unless_v1:
  assumes "\<And>v. e \<noteq> EvConstraint (ConstraintDraftedV1 v)" "\<And>v. e \<noteq> EvChange (ChangeOpenedV1 v)"
  shows "current e"
proof -
  have "\<not> snd (event_kv e) < Codec_Latest app_codec (fst (event_kv e))"
  proof
    assume "snd (event_kv e) < Codec_Latest app_codec (fst (event_kv e))"
    then have "event_kv e = (''ConstraintDrafted'', 1) \<or> event_kv e = (''ChangeOpened'', 1)"
      using app_codec_old event_kv_registered [of e] by blast
    then show False
      using assms event_kv_ConstraintDrafted1 event_kv_ChangeOpened1 by blast
  qed
  then show ?thesis
    using app_codec_latest_max event_kv_registered [of e] by (simp add: current_def order.antisym)
qed

lemma Constraint_Decide_no_v1: "Constraint_Decide c m ctx = Inr es \<Longrightarrow> ConstraintDraftedV1 v \<notin> set es"
  by (cases m) (auto simp: decide_defs Let_def split: if_splits option.splits)

lemma Change_Decide_no_v1: "Change_Decide c m ctx = Inr es \<Longrightarrow> ChangeOpenedV1 v \<notin> set es"
  by (cases m)
     (auto simp: change_open_def change_addProposal_Inr change_judge_Inr change_deploy_Inr change_recordOutcome_Inr
        change_settle_Inr Let_def split: if_splits option.splits)

lemma Root_Decide_current: "Root_Decide a c ctx = Inr es \<Longrightarrow> e \<in> set es \<Longrightarrow> current e"
  by (rule current_unless_v1; cases a; cases c)
     (auto simp: lift_events_Inr dest: Constraint_Decide_no_v1 Change_Decide_no_v1)

lemma rejected_current: "current (EvRejected r)"
  by (rule current_unless_v1) simp_all

subsection \<open>Encoding and decoding\<close>

lemma encode_decode:
  assumes "json_faithful opt" "o_Codec opt = app_codec" "encode opt ev = Inr b" "current ev"
    and "e_Kind e = fst (event_kv ev)" "e_V e = int (snd (event_kv ev))" "e_Body e = b"
  shows "decodes opt e ev"
proof -
  obtain kind v where kv: "event_kv ev = (kind, v)"
    by fastforce
  have "o_Unmarshal opt (kind, v) b = Inr ev"
    using assms(1-3) kv unfolding json_faithful_def encode_def Codec_Encode_def by (metis sum.distinct(1))
  then show ?thesis
    using app_events.decode_current [of kind v "o_Unmarshal opt" b ev] assms(2,4-7) kv event_kv_registered [of ev]
    by (simp add: decodes_def decode_def current_def)
qed

lemma load_loop_decodes:
  assumes "list_all2 (decodes opt) envs evs"
  shows "load_loop opt s agg v envs =
    Inr (Replay Root_Apply agg evs, if envs = [] then v else e_Ver (last envs))"
  using assms by (induction arbitrary: agg v rule: list_all2_induct) (simp_all add: decodes_def)

definition batch_of :: "('l, 'p) options \<Rightarrow> event \<Rightarrow> envelope \<Rightarrow> bool" where
  "batch_of opt ev e \<longleftrightarrow> e_Kind e = fst (event_kv ev) \<and> e_V e = int (snd (event_kv ev)) \<and>
     encode opt ev = Inr (e_Body e)"

lemma build_batch_Inr:
  assumes "build_batch opt now actor meta idem evs = Inr batch"
  shows "list_all2 (batch_of opt) evs batch \<and> (batch \<noteq> [] \<longrightarrow> e_Idem (hd batch) = idem)"
  using assms
  by (induction evs arbitrary: idem batch) (auto simp: batch_of_def split: sum.splits)

lemma sealed_decodes:
  assumes "json_faithful opt" "o_Codec opt = app_codec" "list_all2 (batch_of opt) evs batch"
    and "list_all2 (sealed_as s) batch sealed" "\<And>ev. ev \<in> set evs \<Longrightarrow> current ev"
  shows "list_all2 (decodes opt) sealed evs"
proof -
  have "length sealed = length evs"
    using assms(3,4) by (simp add: list_all2_lengthD)
  moreover have "decodes opt (sealed ! i) (evs ! i)" if "i < length evs" for i
  proof -
    have "batch_of opt (evs ! i) (batch ! i)" "sealed_as s (batch ! i) (sealed ! i)"
      using assms(3,4) that list_all2_nthD list_all2_nthD2 list_all2_lengthD by metis+
    then show ?thesis
      using encode_decode [OF assms(1,2), of "evs ! i" "e_Body (batch ! i)" "sealed ! i"] assms(5) that
      by (simp add: batch_of_def sealed_as_def)
  qed
  ultimately show ?thesis
    by (simp add: list_all2_conv_all_nth)
qed

subsection \<open>Every stream is a history of its aggregate\<close>

definition stream_history :: "('l, 'p) options \<Rightarrow> envelope list \<Rightarrow> string \<Rightarrow> event list \<Rightarrow> bool" where
  "stream_history opt es s evs \<longleftrightarrow>
     list_all2 (decodes opt) (stream_log es s) evs \<and> history Root_Decide Root_Apply (stream_zero s) evs"

definition streams_ok :: "('l, 'p) options \<Rightarrow> envelope list \<Rightarrow> bool" where
  "streams_ok opt es \<longleftrightarrow> (\<forall>s. s \<noteq> RejectedStream \<longrightarrow> (\<exists>evs. stream_history opt es s evs))"

lemma stream_version:
  assumes "log_ok H J es"
  shows "(if stream_log es s = [] then 0 else e_Ver (last (stream_log es s))) = int (length (stream_log es s))"
  using log_ok_ver_nth [OF assms, of "length (stream_log es s) - 1" s] by (simp add: last_conv_nth)

context ledger_port
begin

lemma rejection_state:
  assumes "o_Ledger opt = P" "inv l" "recordRejection opt s actor cmd now rej (l, p) = (err, (l', p'))"
  shows "inv l' \<and> (\<forall>t. t \<noteq> RejectedStream \<longrightarrow> stream_log (log l') t = stream_log (log l) t) \<and>
    (\<exists>e. err = ErrRejected rej e)"
proof -
  obtain e where ar: "appendRejected opt now \<lparr>rj_Command = cmd_Kind cmd, rj_Target = s, rj_Code = Code rej,
      rj_Reason = Reason rej, rj_Actor = actor\<rparr> (l, p) = (e, (l', p'))" and err: "err = ErrRejected rej e"
    using assms(3) by (auto simp: recordRejection_def split: prod.splits)
  have "l' = l \<or> (\<exists>ap r. pl_Append P l RejectedStream AnyVersion ap = (r, l'))"
    using ar assms(1)
    by (auto simp: appendRejected_def Let_def split: sum.splits prod.splits list.splits)
  then show ?thesis
  proof (elim disjE exE)
    fix ap r
    assume app: "pl_Append P l RejectedStream AnyVersion ap = (r, l')"
    show ?thesis
    proof (cases r)
      case (Inl x)
      then have "l' = l"
        using append_atomic [OF assms(2)] app by blast
      then show ?thesis
        using assms(2) err by simp
    next
      case (Inr rng)
      then show ?thesis
        using app append_ok [OF assms(2)] append_other_streams [OF assms(2)] err by metis
    qed
  qed (use assms(2) err in simp)
qed

end

text \<open>
  Appending decided events: either nothing is written, or the stream grows by
  exactly these events, the first carrying the command's key.
\<close>

definition written :: "('l, 'p) options \<Rightarrow> command \<Rightarrow> event list \<Rightarrow> envelope list \<Rightarrow> envelope list \<Rightarrow> bool" where
  "written opt cmd events es es' \<longleftrightarrow>
     (\<exists>sealed. es' = es @ sealed \<and> stream_log es' (cmd_Stream cmd) = stream_log es (cmd_Stream cmd) @ sealed \<and>
        (\<forall>t. t \<noteq> cmd_Stream cmd \<longrightarrow> stream_log es' t = stream_log es t) \<and>
        list_all2 (decodes opt) sealed events \<and> sealed \<noteq> [] \<and> e_Idem (hd sealed) = cmd_Idem cmd)"

context ledger_port
begin

lemma append_events_state:
  assumes opt: "o_Ledger opt = P" "o_Codec opt = app_codec" "json_faithful opt" and inv: "inv l"
    and cur: "\<And>ev. ev \<in> set events \<Longrightarrow> current ev"
    and ap: "append_events opt now actor cmd dctx version events (l, p) = ((res, err), (l', p'))"
  shows "inv l' \<and> (l' = l \<and> p' = p \<and> re_Events res = [] \<or>
    written opt cmd events (log l) (log l') \<and> re_Events res = events \<and> \<not> re_Replayed res \<and>
    re_Version res = int (length (stream_log (log l) (cmd_Stream cmd))) + int (length events) \<and>
    (err = None \<or> (\<exists>m. err = Some (ErrProjection m))))"
proof -
  let ?s = "cmd_Stream cmd"
  define meta where "meta = \<lparr>em_Refs = [?s] @ (case TouchedAnchors cmd of None \<Rightarrow> [] | Some as \<Rightarrow> as),
    em_ConstraintsHash = ConstraintsHash dctx, em_Autonomy = Autonomy dctx\<rparr>"
  note ap' = ap [unfolded append_events_def Let_def, folded meta_def]
  show ?thesis
  proof (cases "build_batch opt now actor meta (cmd_Idem cmd) events")
    case (Inl e)
    then show ?thesis
      using ap' inv by (auto simp: zero_result_def)
  next
    case (Inr batch)
    note batch = build_batch_Inr [OF Inr]
    obtain r l1 where app: "pl_Append P l ?s version batch = (r, l1)"
      by fastforce
    show ?thesis
    proof (cases r)
      case (Inl e)
      then have "l1 = l"
        using append_atomic [OF inv] app by blast
      then show ?thesis
        using ap' Inl Inr app opt(1) inv by (auto simp: zero_result_def split: if_splits sum.splits)
    next
      case rng: (Inr rng)
      note ok = append_ok [OF inv app [unfolded rng]]
      obtain sealed where sealed: "log l1 = log l @ sealed" "stream_log (log l1) ?s = stream_log (log l) ?s @ sealed"
        "list_all2 (sealed_as ?s) batch sealed"
        using append_stream [OF inv app [unfolded rng]] by blast
      have dec: "list_all2 (decodes opt) sealed events"
        using sealed_decodes [OF opt(3,2) _ sealed(3) cur] batch by blast
      have ne: "batch \<noteq> []" "length batch = length events"
        using ok batch list_all2_lengthD by fastforce+
      then obtain b bs x xs where bx: "batch = b # bs" "sealed = x # xs" "sealed_as ?s b x"
        using sealed(3) by (cases batch; cases sealed) auto
      have w: "written opt cmd events (log l) (log l1)"
        unfolding written_def using sealed dec bx batch append_other_streams [OF inv app [unfolded rng]]
        by (auto simp: sealed_as_def)
      obtain perr p1 where pub: "publish (o_Projectors opt) (filter (\<lambda>e. rg_FromVer rng \<le> e_Ver e) (stream_log (log l1) ?s)) events p = (perr, p1)"
        by fastforce
      have "l' = l1" "p' = p1" "err = perr"
        "res = \<lparr>re_Stream = ?s, re_Version = rg_ToVer rng, re_Range = Some rng, re_Events = events, re_Replayed = False\<rparr>"
        using ap' Inr app rng opt(1) ok pub read [of l1 ?s "rg_FromVer rng"] by auto
      moreover have "err = None \<or> (\<exists>m. err = Some (ErrProjection m))"
        using pub calculation(3) by (auto simp: publish_def split: prod.splits if_splits)
      ultimately show ?thesis
        using w ok ne(2) by simp
    qed
  qed
qed

lemma stream_load:
  assumes "inv l" "o_Ledger opt = P" "stream_history opt (log l) s evs"
  shows "pl_Read (o_Ledger opt) l s 0 = Inr (stream_log (log l) s)"
    and "load_loop opt s (stream_zero s) 0 (stream_log (log l) s) =
      Inr (Replay Root_Apply (stream_zero s) evs, int (length (stream_log (log l) s)))"
  using read_all_stream [OF assms(1), of 0 s] assms(2,3) load_loop_decodes [of opt "stream_log (log l) s" evs s]
    stream_version [OF log_wf [OF assms(1)], of s]
  by (simp_all add: stream_history_def)

text \<open>
  The decision step on a stream that holds the history \<open>evs\<close>: the decision is that of
  the aggregate replayed from \<open>evs\<close>. A rejection goes to the rejected stream only; an empty
  decision changes nothing; otherwise the events are written or nothing is.
\<close>

lemma decide_step_state:
  assumes opt: "o_Ledger opt = P" "o_Codec opt = app_codec" "json_faithful opt" and inv: "inv l"
    and zero: "zero (cmd_Stream cmd) = stream_zero (cmd_Stream cmd)"
    and hist: "stream_history opt (log l) (cmd_Stream cmd) evs"
    and st: "decide_step opt zero now actor cmd (l, p) = ((res, err), (l', p'))"
  shows "(\<exists>e. context_for opt now actor cmd p = Inl e \<and> err = Some e \<and> l' = l \<and> p' = p \<and> re_Events res = []) \<or>
    (\<exists>dctx. context_for opt now actor cmd p = Inr dctx \<and>
      (case Root_Decide (Replay Root_Apply (stream_zero (cmd_Stream cmd)) evs) cmd dctx of
         Inl rej \<Rightarrow> inv l' \<and> re_Events res = [] \<and> (\<exists>e. err = Some (ErrRejected rej e)) \<and>
           (\<forall>t. t \<noteq> RejectedStream \<longrightarrow> stream_log (log l') t = stream_log (log l) t)
       | Inr events \<Rightarrow>
           if events = [] then l' = l \<and> p' = p \<and> err = None \<and> re_Events res = []
           else inv l' \<and> (l' = l \<and> p' = p \<and> re_Events res = [] \<or>
             written opt cmd events (log l) (log l') \<and> re_Events res = events \<and> \<not> re_Replayed res \<and>
             re_Version res = int (length (stream_log (log l) (cmd_Stream cmd))) + int (length events) \<and>
             (err = None \<or> (\<exists>m. err = Some (ErrProjection m))))))"
proof -
  let ?s = "cmd_Stream cmd"
  let ?agg = "Replay Root_Apply (stream_zero ?s) evs"
  note ld = stream_load [OF inv opt(1) hist]
  note st' = st [unfolded decide_step_def Let_def zero]
  show ?thesis
  proof (cases "context_for opt now actor cmd p")
    case (Inl e)
    then show ?thesis
      using st' ld by (auto simp: zero_result_def)
  next
    case ctx: (Inr dctx)
    show ?thesis
    proof (cases "Root_Decide ?agg cmd dctx")
      case (Inl rej)
      then show ?thesis
        using st' ld ctx rejection_state [OF opt(1) inv] by (auto simp: zero_result_def split: prod.splits)
    next
      case (Inr events)
      show ?thesis
      proof (cases "events = []")
        case True
        then show ?thesis
          using st' ld ctx Inr by (auto simp: zero_result_def)
      next
        case False
        then have "append_events opt now actor cmd dctx (int (length (stream_log (log l) ?s))) events (l, p) =
            ((res, err), (l', p'))"
          using st' ld ctx Inr by simp
        from append_events_state [OF opt inv Root_Decide_current [OF Inr] this] False show ?thesis
          using ctx Inr by simp
      qed
    qed
  qed
qed

lemma written_history:
  assumes "written opt cmd events es es'" "streams_ok opt es" "stream_history opt es (cmd_Stream cmd) evs"
    and "Root_Decide (Replay Root_Apply (stream_zero (cmd_Stream cmd)) evs) cmd dctx = Inr events"
  shows "streams_ok opt es'"
  unfolding streams_ok_def
proof (intro allI impI)
  fix t assume t: "t \<noteq> RejectedStream"
  show "\<exists>evs. stream_history opt es' t evs"
  proof (cases "t = cmd_Stream cmd")
    case True
    obtain sealed where "stream_log es' t = stream_log es t @ sealed" "list_all2 (decodes opt) sealed events"
      using assms(1) True by (auto simp: written_def)
    moreover have "history Root_Decide Root_Apply (stream_zero t) (evs @ events)"
      using assms(3,4) True by (auto simp: stream_history_def intro: history_step)
    ultimately have "stream_history opt es' t (evs @ events)"
      using assms(3) True by (simp add: stream_history_def list_all2_appendI)
    then show ?thesis ..
  next
    case False
    then have "stream_log es' t = stream_log es t"
      using assms(1) by (auto simp: written_def)
    then show ?thesis
      using assms(2) t by (simp add: streams_ok_def stream_history_def)
  qed
qed

lemma handle_keeps:
  assumes opt: "o_Ledger opt = P" "o_Codec opt = app_codec" "json_faithful opt" and inv: "inv l"
    and ok: "streams_ok opt (log l)"
    and st: "Pipeline_Handle opt app_handlers now actor cmd (l, p) = ((res, err), (l', p'))"
  shows "inv l' \<and> streams_ok opt (log l')"
proof -
  obtain zero where zero: "map_of app_handlers (cmd_Kind cmd) = Some zero"
    "zero (cmd_Stream cmd) = stream_zero (cmd_Stream cmd)"
    using handler_of_command [of cmd] cmd_zero_stream [of cmd] by auto
  obtain evs where hist: "stream_history opt (log l) (cmd_Stream cmd) evs"
    using ok cmd_Stream_not_rejected by (auto simp: streams_ok_def)
  have h: "handle opt zero now actor cmd (l, p) = ((res, err), (l', p'))"
    using st zero(1) by (simp add: Pipeline_Handle_def)
  have frame: "streams_ok opt (log l')" if "\<forall>t. t \<noteq> RejectedStream \<longrightarrow> stream_log (log l') t = stream_log (log l) t"
    using ok that by (simp add: streams_ok_def stream_history_def)
  consider (rejected) rej e where "recordRejection opt (cmd_Stream cmd) actor cmd now rej (l, p) = (e, (l', p'))"
    | (same) "l' = l" | (decide) "decide_step opt zero now actor cmd (l, p) = ((res, err), (l', p'))"
    using h by (auto simp: handle_def Let_def split: option.splits prod.splits if_splits sum.splits)
  then show ?thesis
  proof cases
    case rejected
    then show ?thesis
      using rejection_state [OF opt(1) inv rejected] frame by blast
  next
    case same
    then show ?thesis
      using inv ok by simp
  next
    case decide
    from decide_step_state [OF opt inv zero(2) hist decide] show ?thesis
    proof (elim disjE exE conjE)
      fix dctx
      assume d: "case Root_Decide (Replay Root_Apply (stream_zero (cmd_Stream cmd)) evs) cmd dctx of
         Inl rej \<Rightarrow> inv l' \<and> re_Events res = [] \<and> (\<exists>e. err = Some (ErrRejected rej e)) \<and>
           (\<forall>t. t \<noteq> RejectedStream \<longrightarrow> stream_log (log l') t = stream_log (log l) t)
       | Inr events \<Rightarrow>
           if events = [] then l' = l \<and> p' = p \<and> err = None \<and> re_Events res = []
           else inv l' \<and> (l' = l \<and> p' = p \<and> re_Events res = [] \<or>
             written opt cmd events (log l) (log l') \<and> re_Events res = events \<and> \<not> re_Replayed res \<and>
             re_Version res = int (length (stream_log (log l) (cmd_Stream cmd))) + int (length events) \<and>
             (err = None \<or> (\<exists>m. err = Some (ErrProjection m))))"
      show ?thesis
        using d inv ok frame written_history [OF _ ok hist] by (auto split: sum.splits if_splits)
    qed (use inv ok in simp)
  qed
qed

end

end
