(* ===== verification/Rebuild.thy ===== *)
theory Rebuild
  imports Pipeline_Facts Projection_Facts
begin

section \<open>Rebuilding the read models\<close>

text \<open>
  \<^verbatim>\<open>internal/app/rebuild.go\<close>: \<^verbatim>\<open>Replay\<close> pages through the ledger, 500 records at a time, and
  projects every record after \<open>seq\<close>; \<^verbatim>\<open>Rebuild\<close> starts at 0. The paging loop has no
  bound of its own: not returning is \<open>None\<close>.
\<close>

abbreviation page :: int where "page \<equiv> 500"

text \<open>The projectors on one record; the first error ends the loop.\<close>

fun project_one :: "'p projector list \<Rightarrow> envelope \<Rightarrow> event \<Rightarrow> 'p \<Rightarrow> go_error option \<times> 'p" where
  "project_one [] e ev p = (None, p)"
| "project_one ((name, h) # prs) e ev p =
     (case h e ev p of
        (Some err, p') \<Rightarrow> (Some (Sprintf ''rebuild: %s at seq %d: %w'' [name, Itoa (e_Seq e), err]), p')
      | (None, p') \<Rightarrow> project_one prs e ev p')"

fun replay_batch :: "('l, 'p) options \<Rightarrow> int \<Rightarrow> envelope list \<Rightarrow> 'p \<Rightarrow> int \<times> go_error option \<times> 'p" where
  "replay_batch opt seq [] p = (seq, None, p)"
| "replay_batch opt seq (e # batch) p =
     (case decode opt e of
        Inl err \<Rightarrow> (seq, Some (Sprintf ''rebuild: seq %d: %w'' [Itoa (e_Seq e), err]), p)
      | Inr ev \<Rightarrow>
        (case project_one (o_Projectors opt) e ev p of
           (Some err, p') \<Rightarrow> (seq, Some err, p')
         | (None, p') \<Rightarrow> replay_batch opt (e_Seq e) batch p'))"

partial_function (option) Replay_ledger :: "('l, 'p) options \<Rightarrow> 'l \<Rightarrow> int \<Rightarrow> 'p \<Rightarrow> (int \<times> go_error option \<times> 'p) option" where
  "Replay_ledger opt l seq p =
     (case pl_ReadAll (o_Ledger opt) l (seq + 1) page of
        Inl err \<Rightarrow> Some (seq, Some (Sprintf ''rebuild: read from %d: %w'' [Itoa (seq + 1), ledger_error_string err]), p)
      | Inr batch \<Rightarrow>
          if length batch = 0 then Some (seq, None, p)
          else case replay_batch opt seq batch p of (seq', err, p') \<Rightarrow>
            (if err \<noteq> None then Some (seq', err, p')
             else if int (length batch) < page then Some (seq', None, p')
             else Replay_ledger opt l seq' p'))"

definition Rebuild :: "('l, 'p) options \<Rightarrow> 'l \<Rightarrow> 'p \<Rightarrow> (int \<times> go_error option \<times> 'p) option" where
  "Rebuild opt l p = Replay_ledger opt l 0 p"

subsection \<open>Projecting a log\<close>

text \<open>The effect on the read models of projecting decoded records, when no projector fails.\<close>

definition total_projectors :: "'p projector list \<Rightarrow> bool" where
  "total_projectors prs \<longleftrightarrow> (\<forall>(name, h) \<in> set prs. \<forall>e ev p. fst (h e ev p) = None)"

fun project_log :: "'p projector list \<Rightarrow> envelope list \<Rightarrow> event list \<Rightarrow> 'p \<Rightarrow> 'p" where
  "project_log prs (e # es) (ev # evs) p = project_log prs es evs (notify prs e ev p)"
| "project_log prs _ _ p = p"

lemma project_one_total: "total_projectors prs \<Longrightarrow> project_one prs e ev p = (None, notify prs e ev p)"
proof (induction prs arbitrary: p)
  case (Cons pr prs)
  obtain name h where pr: "pr = (name, h)"
    by (cases pr)
  then have "fst (h e ev p) = None" "total_projectors prs"
    using Cons(2) by (auto simp: total_projectors_def)
  then show ?case
    using Cons(1) [of "snd (h e ev p)"] by (cases "h e ev p") (simp add: pr)
qed simp

lemma publish_one_total: "total_projectors prs \<Longrightarrow> publish_one prs e ev p = ([], notify prs e ev p)"
proof (induction prs arbitrary: p)
  case (Cons pr prs)
  obtain name h where pr: "pr = (name, h)"
    by (cases pr)
  then have "fst (h e ev p) = None" "total_projectors prs"
    using Cons(2) by (auto simp: total_projectors_def)
  then show ?case
    using Cons(1) [of "snd (h e ev p)"] by (cases "h e ev p") (simp add: pr)
qed simp

lemma publish_all_total: "total_projectors prs \<Longrightarrow> publish_all prs es evs p = ([], project_log prs es evs p)"
  by (induction prs es evs p rule: publish_all.induct) (simp_all add: publish_one_total)

lemma publish_total: "total_projectors prs \<Longrightarrow> publish prs es evs p = (None, project_log prs es evs p)"
  by (simp add: publish_def publish_all_total)

lemma replay_batch_total:
  assumes "list_all2 (decodes opt) es evs" "total_projectors (o_Projectors opt)"
  shows "replay_batch opt seq es p =
    (if es = [] then seq else e_Seq (last es), None, project_log (o_Projectors opt) es evs p)"
  using assms
  by (induction arbitrary: seq p rule: list_all2_induct) (simp_all add: decodes_def project_one_total)

lemma project_log_append:
  "length xs = length us \<Longrightarrow> project_log prs (xs @ ys) (us @ vs) p = project_log prs ys vs (project_log prs xs us p)"
  by (induction xs us arbitrary: p rule: list_induct2) simp_all

context ledger_port
begin

text \<open>Replay returns, and it has projected exactly the records after \<open>seq\<close>.\<close>

lemma replay_returns:
  assumes opt: "o_Ledger opt = P" "total_projectors (o_Projectors opt)" and inv: "inv l"
    and dec: "list_all2 (decodes opt) (drop n (log l)) evs" and n: "n \<le> length (log l)"
  shows "Replay_ledger opt l (int n) p =
    Some (int (length (log l)), None, project_log (o_Projectors opt) (drop n (log l)) evs p)"
  using dec n
proof (induction "length (log l) - n" arbitrary: n evs p rule: less_induct)
  case less
  let ?rest = "drop n (log l)"
  let ?batch = "take 500 ?rest"
  have rd: "pl_ReadAll (o_Ledger opt) l (int n + 1) page = Inr ?batch"
    using read_all [OF inv, of "int n + 1" page] by (simp add: opt(1))
  show ?case
  proof (cases "?rest = []")
    case True
    then show ?thesis
      using less(2,3) rd by (subst Replay_ledger.simps) simp
  next
    case False
    have db: "list_all2 (decodes opt) ?batch (take 500 evs)" "list_all2 (decodes opt) (drop 500 ?rest) (drop 500 evs)"
      using less(2) by (rule list_all2_takeI, rule list_all2_dropI)
    have len: "length ?rest = length evs"
      using less(2) by (rule list_all2_lengthD)
    then have ne: "evs \<noteq> []"
      using False by auto
    let ?m = "n + length ?batch"
    have m: "n < ?m" "?m \<le> length (log l)"
      using False by auto
    have "last ?batch = log l ! (?m - 1)"
      using False by (simp add: last_conv_nth min_def) (auto simp: add.commute)
    then have seq: "e_Seq (last ?batch) = int ?m"
      using log_ok_seq [OF log_wf [OF inv], of "?m - 1"] m by simp
    have rb: "replay_batch opt (int n) ?batch p = (int ?m, None, project_log (o_Projectors opt) ?batch (take 500 evs) p)"
      using replay_batch_total [OF db(1) opt(2), of "int n" p] False seq by simp
    have split: "project_log (o_Projectors opt) (drop 500 ?rest) (drop 500 evs)
        (project_log (o_Projectors opt) ?batch (take 500 evs) p) = project_log (o_Projectors opt) ?rest evs p"
      using project_log_append [of ?batch "take 500 evs" "o_Projectors opt" "drop 500 ?rest" "drop 500 evs" p] len
      by (simp only: append_take_drop_id length_take)
    show ?thesis
    proof (cases "length ?rest < 500")
      case True
      then show ?thesis
        using rd rb ne len less(3) by (subst Replay_ledger.simps) simp
    next
      case full: False
      then have m500: "?m = n + 500"
        by simp
      have "Replay_ledger opt l (int ?m) (project_log (o_Projectors opt) ?batch (take 500 evs) p) =
          Some (int (length (log l)), None, project_log (o_Projectors opt) (drop ?m (log l)) (drop 500 evs)
            (project_log (o_Projectors opt) ?batch (take 500 evs) p))"
        using less(1) [of ?m "drop 500 evs"] m db(2) m500 by (auto simp: add.commute)
      then show ?thesis
        using rd rb False full m500 split by (subst Replay_ledger.simps) (simp add: add.commute)
    qed
  qed
qed

text \<open>Reading a stream from the first version that an append wrote returns what it wrote.\<close>

lemma reread:
  assumes "inv l" "pl_Append P l s expected evs = (Inr r, l')"
  shows "\<exists>sealed. log l' = log l @ sealed \<and> list_all2 (sealed_as s) evs sealed \<and>
    pl_Read P l' s (rg_FromVer r) = Inr sealed"
proof -
  note ok = append_ok [OF assms]
  obtain sealed where sealed: "log l' = log l @ sealed" "stream_log (log l') s = stream_log (log l) s @ sealed"
    "list_all2 (sealed_as s) evs sealed"
    using append_stream [OF assms] by blast
  let ?old = "stream_log (log l) s"
  have inv': "inv l'" and fv: "rg_FromVer r = int (length ?old) + 1"
    using ok by simp_all
  have ver: "e_Ver ((?old @ sealed) ! k) = int k + 1" if "k < length (?old @ sealed)" for k
    using log_ok_ver_nth [OF log_wf [OF inv'], of k s] that sealed(2) by simp
  have "e_Ver e \<le> int (length ?old)" if e: "e \<in> set ?old" for e
  proof -
    obtain i where "i < length ?old" "e = ?old ! i"
      using e by (auto simp: in_set_conv_nth)
    then show ?thesis
      using ver [of i] by (simp add: nth_append)
  qed
  moreover have "e_Ver e > int (length ?old)" if e: "e \<in> set sealed" for e
  proof -
    obtain i where "i < length sealed" "e = sealed ! i"
      using e by (auto simp: in_set_conv_nth)
    then show ?thesis
      using ver [of "length ?old + i"] by simp
  qed
  ultimately have "filter (\<lambda>e. rg_FromVer r \<le> e_Ver e) (?old @ sealed) = sealed"
    unfolding filter_append fv by (subst filter_False, force, subst filter_True, force) simp
  then show ?thesis
    using sealed read [OF inv', of s "rg_FromVer r"] by auto
qed

end

subsection \<open>The pipeline keeps the read models equal to a rebuild\<close>

definition models_ok :: "('l, 'p) options \<Rightarrow> 'p \<Rightarrow> envelope list \<Rightarrow> 'p \<Rightarrow> bool" where
  "models_ok opt p0 es p \<longleftrightarrow>
     (\<exists>evs. list_all2 (decodes opt) es evs \<and> p = project_log (o_Projectors opt) es evs p0)"

lemma models_ok_extend:
  assumes "models_ok opt p0 es p" "list_all2 (decodes opt) sealed evs"
    and "p' = project_log (o_Projectors opt) sealed evs p"
  shows "models_ok opt p0 (es @ sealed) p'"
proof -
  obtain us where "list_all2 (decodes opt) es us" "p = project_log (o_Projectors opt) es us p0"
    using assms(1) by (auto simp: models_ok_def)
  then show ?thesis
    using assms(2,3) unfolding models_ok_def
    by (intro exI [of _ "us @ evs"]) (simp add: list_all2_appendI project_log_append list_all2_lengthD)
qed

context ledger_port
begin

lemma rejection_models:
  assumes opt: "o_Ledger opt = P" "o_Codec opt = app_codec" "json_faithful opt" "total_projectors (o_Projectors opt)"
    and inv: "inv l" and m: "models_ok opt p0 (log l) p"
    and ar: "appendRejected opt now ev (l, p) = (err, (l', p'))"
  shows "models_ok opt p0 (log l') p'"
proof (cases "encode opt (EvRejected ev)")
  case (Inl e)
  then show ?thesis
    using ar m by (simp add: appendRejected_def)
next
  case enc: (Inr body)
  define e where "e = blank_envelope\<lparr>e_Kind := ''Rejected'', e_V := 1, e_TS := now, e_Actor := rj_Actor ev,
    e_Meta := \<lparr>em_Refs = [rj_Target ev], em_ConstraintsHash = '''', em_Autonomy = 0\<rparr>, e_Body := body\<rparr>"
  note ar' = ar [unfolded appendRejected_def Let_def enc sum.case, folded e_def]
  obtain r l1 where app: "pl_Append P l RejectedStream AnyVersion [e] = (r, l1)"
    by fastforce
  show ?thesis
  proof (cases r)
    case (Inl x)
    then have "l1 = l"
      using app append_atomic [OF inv] by blast
    then show ?thesis
      using ar' app opt(1) Inl m by simp
  next
    case (Inr rng)
    obtain w where w: "log l1 = log l @ [w]" "sealed_as RejectedStream e w" "pl_Read P l1 RejectedStream (rg_FromVer rng) = Inr [w]"
      using reread [OF inv app [unfolded Inr]] by (auto simp: list_all2_Cons1)
    then have "l' = l1" "p' = notify (o_Projectors opt) w (EvRejected ev) p"
      using ar' app opt(1) Inr by auto
    moreover have "decodes opt w (EvRejected ev)"
      using encode_decode [OF opt(3,2) enc rejected_current, of w] w(2)
      by (simp add: sealed_as_def e_def blank_envelope_def)
    ultimately show ?thesis
      using models_ok_extend [OF m, of "[w]" "[EvRejected ev]"] w(1) by simp
  qed
qed

lemma append_events_models:
  assumes opt: "o_Ledger opt = P" "o_Codec opt = app_codec" "json_faithful opt" "total_projectors (o_Projectors opt)"
    and inv: "inv l" and m: "models_ok opt p0 (log l) p" and cur: "\<And>ev. ev \<in> set events \<Longrightarrow> current ev"
    and ap: "append_events opt now actor cmd dctx version events (l, p) = ((res, err), (l', p'))"
  shows "models_ok opt p0 (log l') p'"
proof -
  define meta where "meta = \<lparr>em_Refs = [cmd_Stream cmd] @ (case TouchedAnchors cmd of None \<Rightarrow> [] | Some as \<Rightarrow> as),
    em_ConstraintsHash = ConstraintsHash dctx, em_Autonomy = Autonomy dctx\<rparr>"
  note ap' = ap [unfolded append_events_def Let_def, folded meta_def]
  show ?thesis
  proof (cases "build_batch opt now actor meta (cmd_Idem cmd) events")
    case (Inl e)
    then show ?thesis
      using ap' m by auto
  next
    case bt: (Inr batch)
    obtain r l1 where app: "pl_Append P l (cmd_Stream cmd) version batch = (r, l1)"
      by fastforce
    show ?thesis
    proof (cases r)
      case (Inl x)
      then have "l1 = l"
        using app append_atomic [OF inv] by blast
      then show ?thesis
        using ap' bt app opt(1) Inl m by (auto split: if_splits sum.splits)
    next
      case (Inr rng)
      obtain sealed where s: "log l1 = log l @ sealed" "list_all2 (sealed_as (cmd_Stream cmd)) batch sealed"
        "pl_Read P l1 (cmd_Stream cmd) (rg_FromVer rng) = Inr sealed"
        using reread [OF inv app [unfolded Inr]] by blast
      then have "l' = l1" "p' = project_log (o_Projectors opt) sealed events p"
        using ap' bt app opt(1) Inr by (auto simp: publish_total [OF opt(4)])
      moreover have "list_all2 (decodes opt) sealed events"
        using sealed_decodes [OF opt(3,2) _ s(2) cur] build_batch_Inr [OF bt] by blast
      ultimately show ?thesis
        using models_ok_extend [OF m] s(1) by simp
    qed
  qed
qed

lemma recordRejection_models:
  assumes "o_Ledger opt = P" "o_Codec opt = app_codec" "json_faithful opt" "total_projectors (o_Projectors opt)"
    and "inv l" "models_ok opt p0 (log l) p" "recordRejection opt s actor cmd now rej (l, p) = (e, (l', p'))"
  shows "models_ok opt p0 (log l') p'"
  using rejection_models [OF assms(1-6)] assms(7) by (auto simp: recordRejection_def split: prod.splits)

lemma handle_models:
  assumes opt: "o_Ledger opt = P" "o_Codec opt = app_codec" "json_faithful opt" "total_projectors (o_Projectors opt)"
    and inv: "inv l" and m: "models_ok opt p0 (log l) p"
    and st: "Pipeline_Handle opt handlers now actor cmd (l, p) = ((res, err), (l', p'))"
  shows "models_ok opt p0 (log l') p'"
proof -
  consider (rejected) s rej e where "recordRejection opt s actor cmd now rej (l, p) = (e, (l', p'))"
    | (same) "l' = l" "p' = p"
    | (append) agg dctx version events where "Root_Decide agg cmd dctx = Inr events"
        "append_events opt now actor cmd dctx version events (l, p) = ((res, err), (l', p'))"
    using st
    by (auto simp: Pipeline_Handle_def handle_def decide_step_def Let_def
        split: option.splits prod.splits if_splits sum.splits)
  then show ?thesis
  proof cases
    case rejected
    then show ?thesis
      using recordRejection_models [OF opt inv m] by blast
  next
    case same
    then show ?thesis
      using m by simp
  next
    case append
    show ?thesis
      by (rule append_events_models [OF opt inv m Root_Decide_current [OF append(1)] append(2)])
  qed
qed

end

end
