(* ===== verification/Indexes.thy ===== *)
theory Indexes
  imports Projection_Facts
begin

section \<open>The decision, session and anchor indexes\<close>

text \<open>
  \<^verbatim>\<open>internal/app/decisions.go\<close>, \<^verbatim>\<open>sessions.go\<close> and the index part of \<^verbatim>\<open>anchors.go\<close>.
\<close>

subsection \<open>DecisionIndex\<close>

record decision_summary =
  du_ID :: ID
  du_Title :: string
  du_State :: decision_state
  du_Scope :: scope_key
  du_Anchors :: "string list"
  du_Supersedes :: ID
  du_SupersededBy :: ID

definition zero_decision_summary :: decision_summary where
  "zero_decision_summary = \<lparr>du_ID = '''', du_Title = '''', du_State = DecisionStateNone, du_Scope = zero_scope_key,
     du_Anchors = [], du_Supersedes = '''', du_SupersededBy = ''''\<rparr>"

type_synonym decision_index = "(ID \<times> decision_summary) list"

abbreviation dec_get :: "decision_index \<Rightarrow> ID \<Rightarrow> decision_summary" where
  "dec_get \<equiv> map_get zero_decision_summary"

fun DecisionIndex_on :: "decision_event \<Rightarrow> decision_index \<Rightarrow> decision_index" where
  "DecisionIndex_on (DecisionDrafted v) d =
     map_put (d1_ID v) (zero_decision_summary\<lparr>du_ID := d1_ID v, du_Title := d1_Title v, du_State := DecisionStateGenerated,
       du_Scope := d1_Scope v, du_Anchors := d1_Anchors v, du_Supersedes := d1_Supersedes v\<rparr>) d"
| "DecisionIndex_on (DecisionVerified v) d =
     map_put (dv_ID v) ((dec_get d (dv_ID v))\<lparr>du_State := DecisionStateVerified\<rparr>) d"
| "DecisionIndex_on (DecisionRevised v) d =
     map_put (dr_ID v) ((dec_get d (dr_ID v))\<lparr>du_Title := dr_Title v, du_State := DecisionStateGenerated\<rparr>) d"
| "DecisionIndex_on (DecisionSuperseded v) d =
     map_put (ds_ID v) ((dec_get d (ds_ID v))\<lparr>du_State := DecisionStateRetired, du_SupersededBy := ds_By v\<rparr>) d"
| "DecisionIndex_on (DecisionRetired v) d =
     map_put (dt_ID v) ((dec_get d (dt_ID v))\<lparr>du_State := DecisionStateRetired\<rparr>) d"

fun DecisionIndex_Handle :: "event \<Rightarrow> decision_index \<Rightarrow> decision_index" where
  "DecisionIndex_Handle (EvDecision e) d = DecisionIndex_on e d"
| "DecisionIndex_Handle _ d = d"

definition DecisionIndex_Get :: "decision_index \<Rightarrow> ID \<Rightarrow> decision_summary \<times> bool" where
  "DecisionIndex_Get d i = (dec_get d i, map_of d i \<noteq> None)"

definition DecisionIndex_All :: "decision_index \<Rightarrow> decision_summary list" where
  "DecisionIndex_All d = go_sort (\<lambda>a b. du_ID a < du_ID b) (map snd d)"

subsection \<open>SessionIndex\<close>

record session_summary =
  su_ID :: string
  su_Tool :: string
  su_Repo :: string
  su_Owner :: ID
  su_State :: session_state
  su_StartedAt :: go_time
  su_EndedAt :: go_time
  su_Turns :: int
  su_Touched :: "string list"
  su_Judgments :: "session_judgment list"
  su_Summary :: string
  su_Shared :: "string list"

definition zero_session_summary :: session_summary where
  "zero_session_summary = \<lparr>su_ID = '''', su_Tool = '''', su_Repo = '''', su_Owner = '''', su_State = SessionStateNone,
     su_StartedAt = 0, su_EndedAt = 0, su_Turns = 0, su_Touched = [], su_Judgments = [], su_Summary = '''',
     su_Shared = []\<rparr>"

definition SessionSummary_Stream :: "session_summary \<Rightarrow> string" where
  "SessionSummary_Stream s = SessionStream (su_Tool s) (su_ID s)"

type_synonym session_index = "(string \<times> session_summary) list"

abbreviation ses_get :: "session_index \<Rightarrow> string \<Rightarrow> session_summary" where
  "ses_get \<equiv> map_get zero_session_summary"

fun SessionIndex_on :: "string \<Rightarrow> session_event \<Rightarrow> session_index \<Rightarrow> session_index" where
  "SessionIndex_on stream (SessionStarted v) s =
     map_put stream (zero_session_summary\<lparr>su_ID := s1_ID v, su_Tool := s1_Tool v, su_Repo := s1_Repo v,
       su_Owner := ar_Owner (s1_Agent v), su_State := SessionStateOpen, su_StartedAt := s1_At v\<rparr>) s"
| "SessionIndex_on stream (TurnRecorded v) s =
     (let e = ses_get s stream;
          e1 = e\<lparr>su_Turns := su_Turns e + 1, su_Touched := touch (su_Touched e) (tn_Files (tr_Turn v))\<rparr>;
          e2 = (if tn_Class (tr_Turn v) \<noteq> TurnAccept
                then e1\<lparr>su_Judgments := su_Judgments e1 @ [session_judgment_of (tr_Turn v)]\<rparr> else e1)
      in map_put stream e2 s)"
| "SessionIndex_on stream (SessionEnded v) s =
     map_put stream ((ses_get s stream)\<lparr>su_State := SessionStateEnded, su_EndedAt := s2_At v, su_Summary := s2_Summary v\<rparr>) s"
| "SessionIndex_on stream (SessionShared v) s =
     map_put stream ((ses_get s stream)\<lparr>su_State := SessionStateShared, su_Shared := s3_Parts v\<rparr>) s"

fun SessionIndex_Handle :: "envelope \<Rightarrow> event \<Rightarrow> session_index \<Rightarrow> session_index" where
  "SessionIndex_Handle env (EvSession e) s = SessionIndex_on (e_Stream env) e s"
| "SessionIndex_Handle env _ s = s"

definition SessionIndex_All :: "session_index \<Rightarrow> session_summary list" where
  "SessionIndex_All s = go_sort (\<lambda>a b. su_StartedAt a > su_StartedAt b) (map snd s)"

definition SessionIndex_Get :: "session_index \<Rightarrow> string \<Rightarrow> session_summary \<times> bool" where
  "SessionIndex_Get s stream = (ses_get s stream, map_of s stream \<noteq> None)"

definition SessionIndex_Touching :: "session_index \<Rightarrow> string \<Rightarrow> string list \<Rightarrow> go_time \<Rightarrow> string list" where
  "SessionIndex_Touching s repo files since =
     go_sort (\<lambda>a b. a < b)
       (map SessionSummary_Stream
         (filter (\<lambda>e. \<not> (su_Repo e \<noteq> repo \<or> su_StartedAt e < since \<and> (su_EndedAt e = 0 \<or> su_EndedAt e < since)) \<and>
                      list_ex (\<lambda>f. f \<in> set files) (su_Touched e))
           (SessionIndex_All s)))"

subsection \<open>AnchorIndex\<close>

record anchor_summary =
  au_Key :: string
  au_Anchor :: anchor
  au_Hash :: hash3
  au_State :: anchor_state
  au_Ref :: string
  au_MovedTo :: string
  au_UpdatedAt :: go_time

definition zero_anchor_summary :: anchor_summary where
  "zero_anchor_summary = \<lparr>au_Key = '''', au_Anchor = zero_anchor, au_Hash = zero_hash3, au_State = AStateNone,
     au_Ref = '''', au_MovedTo = '''', au_UpdatedAt = 0\<rparr>"

type_synonym anchor_index = "(string \<times> anchor_summary) list"

abbreviation anc_get :: "anchor_index \<Rightarrow> string \<Rightarrow> anchor_summary" where
  "anc_get \<equiv> map_get zero_anchor_summary"

fun AnchorIndex_on :: "anchor_event \<Rightarrow> anchor_index \<Rightarrow> anchor_index" where
  "AnchorIndex_on (AnchorRecorded v) a =
     map_put (a1_Key v) (zero_anchor_summary\<lparr>au_Key := a1_Key v,
       au_Anchor := (case ParseAnchor (a1_Key v) of Inr an \<Rightarrow> an | Inl _ \<Rightarrow> zero_anchor),
       au_Hash := a1_Hash v, au_State := AStateRecorded, au_Ref := a1_Ref v, au_UpdatedAt := a1_At v\<rparr>) a"
| "AnchorIndex_on (AnchorVerified v) a =
     map_put (a2_Key v) ((anc_get a (a2_Key v))\<lparr>au_Hash := a2_Hash v, au_State := AStateVerified, au_Ref := a2_Ref v,
       au_UpdatedAt := a2_At v\<rparr>) a"
| "AnchorIndex_on (AnchorStaled v) a =
     map_put (a3_Key v) ((anc_get a (a3_Key v))\<lparr>au_State := a3_State v, au_UpdatedAt := a3_At v\<rparr>) a"
| "AnchorIndex_on (AnchorMoved v) a =
     map_put (a4_Key v) ((anc_get a (a4_Key v))\<lparr>au_MovedTo := a4_To v, au_UpdatedAt := a4_At v\<rparr>) a"

fun AnchorIndex_Handle :: "event \<Rightarrow> anchor_index \<Rightarrow> anchor_index" where
  "AnchorIndex_Handle (EvAnchor e) a = AnchorIndex_on e a"
| "AnchorIndex_Handle _ a = a"

definition AnchorIndex_Get :: "anchor_index \<Rightarrow> string \<Rightarrow> anchor_summary \<times> bool" where
  "AnchorIndex_Get a key = (anc_get a key, map_of a key \<noteq> None)"

definition AnchorIndex_All :: "anchor_index \<Rightarrow> anchor_summary list" where
  "AnchorIndex_All a = go_sort (\<lambda>x y. au_Key x < au_Key y) (map snd a)"

subsection \<open>Refinement\<close>

definition decision_abs :: "decision \<Rightarrow> decision_summary" where
  "decision_abs d = \<lparr>du_ID = de_ID d, du_Title = de_Title d, du_State = de_State d, du_Scope = de_Scope d,
     du_Anchors = de_Anchors d, du_Supersedes = de_Supersedes d, du_SupersededBy = de_SupersededBy d\<rparr>"

definition decision_event_sim :: "decision \<Rightarrow> decision_event \<Rightarrow> bool" where
  "decision_event_sim d e \<longleftrightarrow>
     de_State (Decision_Apply d e) \<noteq> DecisionStateNone \<and>
     (de_State d \<noteq> DecisionStateNone \<longrightarrow> de_ID (Decision_Apply d e) = de_ID d) \<and>
     (\<forall>idx. (de_State d \<noteq> DecisionStateNone \<longrightarrow> dec_get idx (de_ID d) = decision_abs d) \<longrightarrow>
        dec_get (DecisionIndex_on e idx) (de_ID (Decision_Apply d e)) = decision_abs (Decision_Apply d e)) \<and>
     (\<forall>idx k. k \<noteq> de_ID (Decision_Apply d e) \<longrightarrow> dec_get (DecisionIndex_on e idx) k = dec_get idx k)"

lemma Decision_decide_sim:
  assumes "Decision_Decide d m ctx = Inr es"
  shows "es = [] \<and> de_State d \<noteq> DecisionStateNone \<or> (\<exists>e. es = [e] \<and> decision_event_sim d e)"
  using assms
  by (cases m)
     (auto simp: decision_event_sim_def decision_abs_def zero_decision_def zero_decision_summary_def
       split: option.splits if_splits)

interpretation decision_view: projection_of Decision_Decide Decision_Apply zero_decision decision_inv
  DecisionIndex_on dec_get de_ID decision_abs "\<lambda>d. de_State d \<noteq> DecisionStateNone"
proof
  fix s c ctx es and idx :: decision_index and k
  assume dec: "Decision_Decide s c ctx = Inr es"
  note sim = Decision_decide_sim [OF dec]
  show "dec_get (fold DecisionIndex_on es idx) (de_ID (Replay Decision_Apply s es)) = decision_abs (Replay Decision_Apply s es)"
    if "de_State s \<noteq> DecisionStateNone \<Longrightarrow> dec_get idx (de_ID s) = decision_abs s"
    using sim that by (auto simp: decision_event_sim_def)
  show "dec_get (fold DecisionIndex_on es idx) k = dec_get idx k" if "k \<noteq> de_ID (Replay Decision_Apply s es)"
    using sim that by (auto simp: decision_event_sim_def)
  show "de_State (Replay Decision_Apply s es) \<noteq> DecisionStateNone \<and> de_ID (Replay Decision_Apply s es) = de_ID s"
    if "de_State s \<noteq> DecisionStateNone"
    using sim that by (auto simp: decision_event_sim_def)
  show "es = []" if "\<not> de_State (Replay Decision_Apply s es) \<noteq> DecisionStateNone"
    using sim that by (auto simp: decision_event_sim_def)
qed (simp add: zero_decision_def)

definition session_abs :: "session \<Rightarrow> session_summary" where
  "session_abs s = \<lparr>su_ID = ss_ID s, su_Tool = ss_Tool s, su_Repo = ss_Repo s, su_Owner = ss_Owner s, su_State = ss_State s,
     su_StartedAt = ss_StartedAt s, su_EndedAt = ss_EndedAt s, su_Turns = int (length (ss_Turns s)),
     su_Touched = ss_Touched s, su_Judgments = ss_Judgments s, su_Summary = ss_Summary s, su_Shared = ss_Shared s\<rparr>"

definition session_event_sim :: "session \<Rightarrow> session_event \<Rightarrow> bool" where
  "session_event_sim s e \<longleftrightarrow>
     ss_State (Session_Apply s e) \<noteq> SessionStateNone \<and>
     (\<forall>idx stream. (ss_State s \<noteq> SessionStateNone \<longrightarrow> ses_get idx stream = session_abs s) \<longrightarrow>
        ses_get (SessionIndex_on stream e idx) stream = session_abs (Session_Apply s e)) \<and>
     (\<forall>idx stream k. k \<noteq> stream \<longrightarrow> ses_get (SessionIndex_on stream e idx) k = ses_get idx k)"

text \<open>
  The aggregate takes redirect and revert turns as judgment candidates, the index all
  turns that are not accepted: the same, since only known classes are recorded.
\<close>

lemma Session_turn_sim:
  assumes "ss_State s = SessionStateOpen" "turn_class_known (tn_Class t)"
  shows "session_event_sim s (TurnRecorded \<lparr>tr_ID = i, tr_Turn = t\<rparr>)"
  using assms by (auto simp: session_event_sim_def session_abs_def turn_class_known_def Let_def)

lemma Session_decide_sim:
  assumes "Session_Decide s m ctx = Inr es"
  shows "es = [] \<and> ss_State s \<noteq> SessionStateNone \<or> (\<exists>e. es = [e] \<and> session_event_sim s e)"
proof (cases m)
  case (RecordTurn x)
  then show ?thesis
    using assms by (auto intro!: Session_turn_sim split: if_splits)
next
  case (ShareSession x)
  then show ?thesis
    using assms unfolding ShareSession Session_share_Inr
    by (auto simp: session_event_sim_def session_abs_def)
qed (use assms in \<open>auto simp: session_event_sim_def session_abs_def zero_session_def zero_session_summary_def
       split: if_splits\<close>)

interpretation session_view: projection_of Session_Decide Session_Apply zero_session session_inv
  "SessionIndex_on stream" ses_get "\<lambda>_. stream" session_abs "\<lambda>s. ss_State s \<noteq> SessionStateNone" for stream
proof
  fix s c ctx es and idx :: session_index and k
  assume dec: "Session_Decide s c ctx = Inr es"
  note sim = Session_decide_sim [OF dec]
  show "ses_get (fold (SessionIndex_on stream) es idx) stream = session_abs (Replay Session_Apply s es)"
    if "ss_State s \<noteq> SessionStateNone \<Longrightarrow> ses_get idx stream = session_abs s"
    using sim that by (auto simp: session_event_sim_def)
  show "ses_get (fold (SessionIndex_on stream) es idx) k = ses_get idx k" if "k \<noteq> stream"
    using sim that by (auto simp: session_event_sim_def)
  show "ss_State (Replay Session_Apply s es) \<noteq> SessionStateNone \<and> stream = stream"
    if "ss_State s \<noteq> SessionStateNone"
    using sim that by (auto simp: session_event_sim_def)
  show "es = []" if "\<not> ss_State (Replay Session_Apply s es) \<noteq> SessionStateNone"
    using sim that by (auto simp: session_event_sim_def)
qed (simp add: zero_session_def)

end
