(* ===== verification/Runtime.thy ===== *)
theory Runtime
  imports Rebuild Indexes
begin

section \<open>The daemon's assembly and its runs\<close>

text \<open>
  \<^verbatim>\<open>openCore\<close> of \<^verbatim>\<open>cmd/keelage/runtime.go\<close>: the indexes, the projectors in their order, the
  context built from the scope and constraint indexes, and the pipeline with the
  default policy. The ledger is the in-memory one. A run is a sequence of
  commands, each handled to its end (\<^verbatim>\<open>Pipeline.Handle\<close> is synchronous).
\<close>

record read_models =
  rm_scopes :: scope_index
  rm_constraints :: constraint_index
  rm_changes :: change_index
  rm_anchors :: anchor_index
  rm_sessions :: session_index
  rm_decisions :: decision_index
  rm_cursor :: int

definition empty_models :: read_models where
  "empty_models = \<lparr>rm_scopes = [], rm_constraints = [], rm_changes = [], rm_anchors = [], rm_sessions = [],
     rm_decisions = [], rm_cursor = 0\<rparr>"

definition daemon_projectors :: "read_models projector list" where
  "daemon_projectors =
     [(''scope_index'', \<lambda>e ev p. (None, p\<lparr>rm_scopes := ScopeIndex_Handle ev (rm_scopes p)\<rparr>)),
      (''constraint_current'', \<lambda>e ev p. (None, p\<lparr>rm_constraints := ConstraintIndex_Handle ev (rm_constraints p)\<rparr>)),
      (''change_current'', \<lambda>e ev p. (None, p\<lparr>rm_changes := ChangeIndex_Handle ev (rm_changes p)\<rparr>)),
      (''anchor_current'', \<lambda>e ev p. (None, p\<lparr>rm_anchors := AnchorIndex_Handle ev (rm_anchors p)\<rparr>)),
      (''session_current'', \<lambda>e ev p. (None, p\<lparr>rm_sessions := SessionIndex_Handle e ev (rm_sessions p)\<rparr>)),
      (''decision_current'', \<lambda>e ev p. (None, p\<lparr>rm_decisions := DecisionIndex_Handle ev (rm_decisions p)\<rparr>)),
      (''cursor'', \<lambda>e ev p. (None, p\<lparr>rm_cursor := Cursor_Handle e (rm_cursor p)\<rparr>))]"

definition daemon_options :: "digest \<Rightarrow> meta_json \<Rightarrow> (event \<Rightarrow> go_error + bytes) \<Rightarrow> (codec_key \<Rightarrow> bytes \<Rightarrow> go_error + event) \<Rightarrow>
    (mem_ledger, read_models) options" where
  "daemon_options H J marshal unmarshal = new_options
     \<lparr>o_Ledger = mem_port H J, o_Codec = app_codec, o_Marshal = marshal, o_Unmarshal = unmarshal,
      o_Context = (\<lambda>p cmd. ProjectionContext_Build H (rm_scopes p) (rm_constraints p) cmd),
      o_Policy = zero_policy, o_Projectors = daemon_projectors\<rparr>"

lemma daemon_options_simps [simp]:
  "o_Ledger (daemon_options H J mar un) = mem_port H J" "o_Codec (daemon_options H J mar un) = app_codec"
  "o_Marshal (daemon_options H J mar un) = mar" "o_Unmarshal (daemon_options H J mar un) = un"
  "o_Context (daemon_options H J mar un) = (\<lambda>p cmd. ProjectionContext_Build H (rm_scopes p) (rm_constraints p) cmd)"
  "o_Policy (daemon_options H J mar un) = DefaultPolicy" "o_Projectors (daemon_options H J mar un) = daemon_projectors"
  by (simp_all add: daemon_options_def new_options_def)

lemma daemon_projectors_total: "total_projectors daemon_projectors"
  by (simp add: total_projectors_def daemon_projectors_def)

subsection \<open>Runs\<close>

inductive reachable :: "('l, 'p) options \<Rightarrow> 'l \<times> 'p \<Rightarrow> 'l \<times> 'p \<Rightarrow> bool" for opt start where
  reach_start: "reachable opt start start"
| reach_step: "reachable opt start st \<Longrightarrow> Pipeline_Handle opt app_handlers now actor cmd st = (out, st') \<Longrightarrow>
    reachable opt start st'"

context ledger_port
begin

lemma reachable_ok:
  assumes "reachable opt start st" "o_Ledger opt = P" "o_Codec opt = app_codec" "json_faithful opt"
    and "inv (fst start)" "streams_ok opt (log (fst start))"
  shows "inv (fst st) \<and> streams_ok opt (log (fst st))"
  using assms(1)
proof (induction rule: reachable.induct)
  case reach_start
  then show ?case
    using assms(5,6) by simp
next
  case (reach_step st now actor cmd out st')
  obtain l p res err l' p' where st: "st = (l, p)" "out = (res, err)" "st' = (l', p')"
    by (cases st; cases out; cases st')
  show ?case
    using handle_keeps [OF assms(2-4), of l now actor cmd p res err l' p'] reach_step(2,3) st by simp
qed

lemma reachable_models:
  assumes "reachable opt start st" "o_Ledger opt = P" "o_Codec opt = app_codec" "json_faithful opt"
    and "total_projectors (o_Projectors opt)" "inv (fst start)" "streams_ok opt (log (fst start))"
    and "models_ok opt p0 (log (fst start)) (snd start)"
  shows "models_ok opt p0 (log (fst st)) (snd st)"
  using assms(1)
proof (induction rule: reachable.induct)
  case reach_start
  then show ?case
    using assms(8) .
next
  case (reach_step st now actor cmd out st')
  obtain l p res err l' p' where st: "st = (l, p)" "out = (res, err)" "st' = (l', p')"
    by (cases st; cases out; cases st')
  have "inv l"
    using reachable_ok [OF reach_step(1) assms(2-4,6,7)] st by simp
  then show ?case
    using handle_models [OF assms(2-5), of l p0 p app_handlers now actor cmd res err l' p'] reach_step(2,3) st by simp
qed

text \<open>The log only grows.\<close>

lemma handle_log_prefix:
  assumes opt: "o_Ledger opt = P" and inv: "inv l"
    and st: "Pipeline_Handle opt handlers now actor cmd (l, p) = (out, (l', p'))"
  shows "\<exists>ext. log l' = log l @ ext"
proof -
  have app: "\<exists>ext. log l'' = log l @ ext" if "pl_Append P l s ver evs = (r, l'')" for s ver evs r l''
    using that append_atomic [OF inv] append_ok [OF inv] by (cases r) blast+
  have "l' = l \<or> (\<exists>s ver evs r. pl_Append P l s ver evs = (r, l'))"
    using st opt
    by (auto simp: Pipeline_Handle_def handle_def decide_step_def append_events_def recordRejection_def
        appendRejected_def Let_def split: option.splits prod.splits if_splits sum.splits list.splits)
  then show ?thesis
    using app by auto
qed

lemma reachable_log_prefix:
  assumes "reachable opt start st" "o_Ledger opt = P" "o_Codec opt = app_codec" "json_faithful opt"
    and "inv (fst start)" "streams_ok opt (log (fst start))"
  shows "\<exists>ext. log (fst st) = log (fst start) @ ext"
  using assms(1)
proof (induction rule: reachable.induct)
  case (reach_step st now actor cmd out st')
  obtain l p l' p' where st: "st = (l, p)" "st' = (l', p')"
    by (cases st; cases st')
  have "inv l"
    using reachable_ok [OF reach_step(1) assms(2-6)] st by simp
  then show ?case
    using handle_log_prefix [OF assms(2), of l app_handlers now actor cmd p out l' p'] reach_step(2,3) st by auto
qed simp

end

lemma streams_ok_empty: "streams_ok opt []"
  by (auto simp: streams_ok_def stream_history_def intro!: exI [of _ "[]"] history_start)

lemma models_ok_empty: "models_ok opt p0 [] p0"
  by (auto simp: models_ok_def)

lemma json_faithful_daemon:
  "json_faithful (daemon_options H J mar un) \<longleftrightarrow> (\<forall>e b. mar e = Inr b \<longrightarrow> un (event_kv e) b = Inr e)"
  by (simp add: json_faithful_def)

lemma daemon_run_ok:
  assumes "reachable (daemon_options H J mar un) (NewLedger sg, empty_models) (l, p)"
    and "\<And>e b. mar e = Inr b \<Longrightarrow> un (event_kv e) b = Inr e"
  shows "ledger_inv H J l" "streams_ok (daemon_options H J mar un) (l_all l)"
    "models_ok (daemon_options H J mar un) empty_models (l_all l) p"
proof -
  have j: "json_faithful (daemon_options H J mar un)"
    using assms(2) by (simp add: json_faithful_daemon)
  have start: "ledger_inv H J (fst (NewLedger sg, empty_models))"
    "streams_ok (daemon_options H J mar un) (l_all (fst (NewLedger sg, empty_models)))"
    "models_ok (daemon_options H J mar un) empty_models (l_all (fst (NewLedger sg, empty_models))) (snd (NewLedger sg, empty_models))"
    using streams_ok_empty models_ok_empty NewLedger_inv by (simp_all, simp_all add: NewLedger_def)
  show "ledger_inv H J l" "streams_ok (daemon_options H J mar un) (l_all l)"
    using memory.reachable_ok [OF assms(1) _ _ j start(1,2)] by simp_all
  show "models_ok (daemon_options H J mar un) empty_models (l_all l) p"
    using memory.reachable_models [OF assms(1) _ _ j _ start] by (simp add: daemon_projectors_total)
qed

end
