(* ===== verification/Runtime_Facts.thy ===== *)
theory Runtime_Facts
  imports Runtime
begin

section \<open>What holds of the states of a run\<close>

text \<open>
  The hypothesis on the JSON package, the states that commands lead to from an empty
  ledger, the three ways a command can leave the state, and the facts from which an accepted
  command is known to be written: the batch encodes, seals and appends.
\<close>

subsection \<open>Runs\<close>

text \<open>What the code relies on in \<^verbatim>\<open>encoding/json\<close>: an event that it encoded decodes to itself.\<close>

definition json_roundtrip :: "(event \<Rightarrow> go_error + bytes) \<Rightarrow> (codec_key \<Rightarrow> bytes \<Rightarrow> go_error + event) \<Rightarrow> bool" where
  "json_roundtrip mar un \<longleftrightarrow> (\<forall>e b. mar e = Inr b \<longrightarrow> un (event_kv e) b = Inr e)"

text \<open>The states of the daemon that commands lead to from an empty ledger.\<close>

abbreviation daemon_reaches :: "digest \<Rightarrow> meta_json \<Rightarrow> (event \<Rightarrow> go_error + bytes) \<Rightarrow>
    (codec_key \<Rightarrow> bytes \<Rightarrow> go_error + event) \<Rightarrow> signer option \<Rightarrow> mem_ledger \<Rightarrow> read_models \<Rightarrow> bool" where
  "daemon_reaches H J mar un sg l p \<equiv> reachable (daemon_options H J mar un) (NewLedger sg, empty_models) (l, p)"

lemma daemon_ok:
  assumes "json_roundtrip mar un" "daemon_reaches H J mar un sg l p"
  shows "ledger_inv H J l" "streams_ok (daemon_options H J mar un) (l_all l)"
    "models_ok (daemon_options H J mar un) empty_models (l_all l) p" "json_faithful (daemon_options H J mar un)"
  using daemon_run_ok [OF assms(2)] assms(1) by (simp_all add: json_roundtrip_def json_faithful_daemon)

subsection \<open>Accepted commands are written\<close>

lemma seal_batch_succeeds:
  assumes "\<And>e. e \<in> set evs \<Longrightarrow> e_Kind e \<noteq> '''' \<and> Level_Valid (em_Autonomy (e_Meta e))" "s \<noteq> ''''" "0 \<le> cur" "0 \<le> i"
    and J: "\<And>m. Level_Valid (em_Autonomy (me_Meta m)) \<Longrightarrow> \<exists>b. J m = Inr b"
    and sg: "\<And>sign h. sg = Some sign \<Longrightarrow> \<exists>sig. sign h = Inr sig"
  shows "\<exists>sealed. seal_batch H J sg s cur n i prev evs = Inr sealed"
  using assms(1,4)
proof (induction evs arbitrary: i prev)
  case (Cons e evs)
  let ?e = "e\<lparr>e_Stream := s, e_Ver := cur + i + 1, e_Seq := n + i + 1\<rparr>"
  have "Level_Valid (em_Autonomy (e_Meta e))" "e_Kind e \<noteq> ''''"
    using Cons(2) [of e] by simp_all
  then have "\<exists>e1. Seal H J prev ?e = Inr e1"
    using J assms(2,3) Cons(3) by (fastforce simp: Seal_Inr sealedMeta_def)
  then obtain e1 where e1: "Seal H J prev ?e = Inr e1"
    by blast
  have "\<exists>e2. sign_unsigned sg e1 = Inr e2"
  proof (cases sg)
    case (Some sign)
    then show ?thesis
      using sg [OF Some, of "e_Hash e1"] by (auto simp: sign_unsigned_def)
  qed (simp add: sign_unsigned_def)
  then obtain e2 where e2: "sign_unsigned sg e1 = Inr e2"
    by blast
  obtain sealed where "seal_batch H J sg s cur n (i + 1) (e_Hash e2) evs = Inr sealed"
    using Cons(1) [of "i + 1" "e_Hash e2"] Cons(2,3) by auto
  then show ?case
    using e1 e2 by simp
qed simp

lemma origin_check_None: "\<forall>e \<in> set evs. e_Origin e = None \<Longrightarrow> origin_check om evs = None"
  by (induction evs) auto

lemma idem_check_blank: "\<forall>e \<in> set evs. e_Idem e = '''' \<Longrightarrow> idem_check im s batch evs = None"
  by (induction evs) auto

lemma build_batch_succeeds:
  assumes "\<forall>ev \<in> set events. \<exists>b. encode opt ev = Inr b" and "\<forall>ev \<in> set events. fst (event_kv ev) \<noteq> ''''"
  shows "\<exists>batch. build_batch opt now actor meta idem events = Inr batch \<and>
    (\<forall>e \<in> set batch. e_Kind e \<noteq> '''' \<and> e_Meta e = meta \<and> e_Origin e = None) \<and>
    (\<forall>e \<in> set (tl batch). e_Idem e = '''') \<and> (\<forall>e \<in> set batch. e_Idem e = '''' \<or> e_Idem e = idem) \<and> length batch = length events"
  using assms
proof (induction events arbitrary: idem)
  case (Cons ev events)
  obtain body where "encode opt ev = Inr body"
    using Cons(2) by auto
  moreover obtain batch where "build_batch opt now actor meta '''' events = Inr batch"
    "\<forall>e \<in> set batch. e_Kind e \<noteq> '''' \<and> e_Meta e = meta \<and> e_Origin e = None" "\<forall>e \<in> set batch. e_Idem e = ''''"
    "length batch = length events"
    using Cons(1) [of "''''"] Cons(2,3) by auto
  ultimately show ?case
    using Cons(3) by (simp add: blank_envelope_def)
qed simp

lemma event_kind_nonempty: "fst (event_kv e) \<noteq> ''''"
  using event_kv_registered [of e] unfolding app_codec_simps by auto

lemma mem_Append_succeeds:
  assumes inv: "ledger_inv H J l" and "batch \<noteq> []" "s \<noteq> ''''" "expected = AnyVersion \<or> expected = int (length (stream_log (l_all l) s))"
    and b: "\<forall>e \<in> set batch. e_Kind e \<noteq> '''' \<and> Level_Valid (em_Autonomy (e_Meta e)) \<and> e_Origin e = None"
    and "\<forall>e \<in> set (tl batch). e_Idem e = ''''"
    and fresh: "e_Idem (hd batch) = '''' \<or> mem_Lookup l s (e_Idem (hd batch)) = Inl ErrNotFound"
    and J: "\<And>m. Level_Valid (em_Autonomy (me_Meta m)) \<Longrightarrow> \<exists>b. J m = Inr b"
    and sg: "\<And>sign h. l_signer l = Some sign \<Longrightarrow> \<exists>sig. sign h = Inr sig"
  shows "\<exists>r l'. mem_Append H J l s expected batch = (Inr r, l')"
proof -
  obtain x xs where x: "batch = x # xs"
    using assms(2) by (cases batch) auto
  have "e_Idem x = '''' \<or> map_of (l_idem l) (idemKey s (e_Idem x)) = None"
    using fresh x by (auto simp: mem_Lookup_def split: option.splits)
  then have idem: "idem_check (l_idem l) s [] batch = None"
    using assms(6) x by (auto simp: Let_def idem_check_blank)
  have origin: "origin_check (l_origins l) batch = None"
    using b by (simp add: origin_check_None)
  obtain sealed where
    "seal_batch H J (l_signer l) s (int (length (stream_log (l_all l) s))) (int (length (l_all l))) 0 (last_hash l) batch = Inr sealed"
    using seal_batch_succeeds [of batch s "int (length (stream_log (l_all l) s))" 0 J "l_signer l" H "int (length (l_all l))" "last_hash l"]
      b assms(3) J sg by auto
  then show ?thesis
    using idem origin assms(2,4) inv by (auto simp: mem_Append_def Let_def stream_length ledger_inv_def)
qed

text \<open>The levels of the scope index, and so those of every decision context, are valid in every run.\<close>

lemma Scope_Decide_events_ok:
  assumes "Scope_Decide s c ctx = Inr es" "e \<in> set es"
  shows "scope_event_ok e"
proof (cases c)
  case (RecordRegression m)
  have "Transition (sc_Level s) TriggerRegress = (sc_Level s, False) \<or> Level_Valid (fst (Transition (sc_Level s) TriggerRegress))"
    by (auto simp: Transition_def Transitions_def Level_Valid_def)
  then show ?thesis
    using assms RecordRegression by (auto simp: regress_def Let_def split: option.splits if_splits)
qed (use assms in \<open>auto simp: setAutonomy_def setCap_def Let_def split: option.splits if_splits\<close>)

lemma Root_Decide_scope_ok: "Root_Decide a c ctx = Inr es \<Longrightarrow> EvScope e \<in> set es \<Longrightarrow> scope_event_ok e"
  by (cases a; cases c) (auto simp: lift_events_Inr dest: Scope_Decide_events_ok)

lemma notify_scopes: "rm_scopes (notify daemon_projectors e ev p) = ScopeIndex_Handle ev (rm_scopes p)"
  by (simp add: daemon_projectors_def)

lemma project_log_scopes:
  assumes "scope_index_ok (rm_scopes p)" "\<And>e. EvScope e \<in> set evs \<Longrightarrow> scope_event_ok e"
  shows "scope_index_ok (rm_scopes (project_log daemon_projectors es evs p))"
  using assms
proof (induction daemon_projectors es evs p rule: project_log.induct)
  case (1 e es ev evs p)
  have "scope_index_ok (rm_scopes (notify daemon_projectors e ev p))"
    unfolding notify_scopes using 1(2) by (rule ScopeIndex_Handle_ok) (use 1(3) in simp)
  then show ?case
    using 1(1) 1(3) by simp
qed simp_all

lemma handle_steps:
  assumes "Pipeline_Handle opt handlers now actor cmd (l, p) = ((res, err), (l', p'))"
  shows "(l' = l \<and> p' = p) \<or>
    (\<exists>ev now'. \<exists>e. appendRejected opt now' ev (l, p) = (e, (l', p'))) \<or>
    (\<exists>agg dctx version events. Root_Decide agg cmd dctx = Inr events \<and>
      append_events opt now actor cmd dctx version events (l, p) = ((res, err), (l', p')))"
  using assms
  by (auto simp: Pipeline_Handle_def handle_def decide_step_def recordRejection_def Let_def
      split: option.splits prod.splits if_splits sum.splits)

lemma append_events_step:
  assumes "append_events opt now actor cmd dctx version events (l, p) = ((res, err), (l', p'))"
    and "o_Projectors opt = daemon_projectors"
  shows "(p' = p \<or> (\<exists>w. p' = project_log daemon_projectors w events p)) \<and>
    (l' = l \<or> (\<exists>s ver evs r. pl_Append (o_Ledger opt) l s ver evs = (r, l')))"
  using assms publish_total [OF daemon_projectors_total]
  by (auto simp: append_events_def Let_def split: sum.splits prod.splits if_splits)

lemma appendRejected_step:
  assumes "appendRejected opt now ev (l, p) = (e, (l', p'))" "o_Projectors opt = daemon_projectors"
  shows "(p' = p \<or> (\<exists>w. p' = project_log daemon_projectors [w] [EvRejected ev] p)) \<and>
    (l' = l \<or> (\<exists>s ver evs r. pl_Append (o_Ledger opt) l s ver evs = (r, l')))"
  using assms by (auto simp: appendRejected_def Let_def split: sum.splits prod.splits list.splits)

lemma mem_Append_signer: "mem_Append H J l s ver evs = (r, l') \<Longrightarrow> l_signer l' = l_signer l"
proof -
  have "l_signer (foldl (commit_one s) l sealed) = l_signer l" for sealed
    by (induction sealed arbitrary: l) simp_all
  then show "mem_Append H J l s ver evs = (r, l') \<Longrightarrow> l_signer l' = l_signer l"
    by (auto simp: mem_Append_def Let_def split: option.splits if_splits sum.splits)
qed

lemma handle_models_signer:
  assumes st: "Pipeline_Handle (daemon_options H J mar un) handlers now actor cmd (l, p) = ((res, err), (l', p'))"
    and ok: "scope_index_ok (rm_scopes p)"
  shows "scope_index_ok (rm_scopes p') \<and> l_signer l' = l_signer l"
proof -
  let ?opt = "daemon_options H J mar un"
  have signer: "l_signer l' = l_signer l" if "l' = l \<or> (\<exists>s ver evs r. pl_Append (o_Ledger ?opt) l s ver evs = (r, l'))"
    using that mem_Append_signer by (auto simp: mem_port_def)
  from handle_steps [OF st] show ?thesis
  proof (elim disjE exE conjE)
    fix ev now' e
    assume "appendRejected ?opt now' ev (l, p) = (e, (l', p'))"
    from appendRejected_step [OF this] show ?thesis
      using ok signer by (auto simp: notify_scopes)
  next
    fix agg dctx version events
    assume d: "Root_Decide agg cmd dctx = Inr events"
      and "append_events ?opt now actor cmd dctx version events (l, p) = ((res, err), (l', p'))"
    from append_events_step [OF this(2)] show ?thesis
      using ok project_log_scopes [OF ok Root_Decide_scope_ok [OF d]] signer by auto
  qed (use ok in simp)
qed

lemma daemon_scopes_signer:
  assumes "daemon_reaches H J mar un sg l p"
  shows "scope_index_ok (rm_scopes p) \<and> l_signer l = sg"
proof -
  have "scope_index_ok (rm_scopes (snd st)) \<and> l_signer (fst st) = sg"
    if "reachable (daemon_options H J mar un) (NewLedger sg, empty_models) st" for st
    using that
  proof (induction rule: reachable.induct)
    case reach_start
    then show ?case
      by (simp add: NewLedger_def empty_models_def scope_index_ok_def)
  next
    case (reach_step st now actor cmd out st')
    then show ?case
      using handle_models_signer [of H J mar un app_handlers now actor cmd "fst st" "snd st" "fst out" "snd out" "fst st'" "snd st'"]
      by simp
  qed
  from this [OF assms] show ?thesis
    by simp
qed

lemma Effective_valid:
  assumes "scope_index_ok s"
  shows "Level_Valid (fst (Effective s target)) \<and> Level_Valid (snd (Effective s target))"
proof -
  let ?cap = "Min (insert MaxLevel (se_Cap ` applying s target))"
  have lv: "Level_Valid x" if "x \<in> insert MaxLevel (se_Cap ` applying s target)" for x
    using that assms by (auto simp: applying_def scope_index_ok_def Level_Valid_def)
  have "finite (insert MaxLevel (se_Cap ` applying s target))"
    by (simp add: applying_def)
  then have "?cap \<in> insert MaxLevel (se_Cap ` applying s target)"
    by (rule Min_in) simp
  then have cap: "Level_Valid (snd (Effective s target))"
    using lv Effective_cap [OF assms] by simp
  let ?ks = "Resolve (map (se_Key \<circ> snd) s) target KindConstraint"
  have "Level_Valid (fst (effective_loop s ?ks L0 MaxLevel))"
  proof (cases "?ks = []")
    case False
    then have "last ?ks \<in> se_Key ` applying s target"
      using Resolve_applying [OF assms, of target KindConstraint] last_in_set by blast
    then obtain e where "e \<in> snd ` set s" "last ?ks = se_Key e"
      by (auto simp: applying_def)
    moreover from this(1) have "Level_Valid (se_Level e)"
      using assms by (auto simp: scope_index_ok_def)
    ultimately show ?thesis
      using False scope_index_lookup [OF assms] by (simp add: effective_loop_eq)
  qed simp
  then show ?thesis
    using cap by (auto simp: Effective_min Let_def min_def)
qed

subsection \<open>The steps of a run\<close>

text \<open>
  What a command can do to the state: nothing; a record in the rejected stream, which the
  projectors see as a rejection; or the events that the replayed aggregate decided, written to its
  stream and projected.
\<close>

definition no_step :: "mem_ledger \<times> read_models \<Rightarrow> mem_ledger \<times> read_models \<Rightarrow> bool" where
  "no_step st st' \<longleftrightarrow> st' = st"

definition rejected_step :: "mem_ledger \<times> read_models \<Rightarrow> mem_ledger \<times> read_models \<Rightarrow> bool" where
  "rejected_step st st' \<longleftrightarrow>
     (\<forall>t. t \<noteq> RejectedStream \<longrightarrow> stream_log (l_all (fst st')) t = stream_log (l_all (fst st)) t) \<and>
     (snd st' = snd st \<or> (\<exists>w ev. snd st' = notify daemon_projectors w (EvRejected ev) (snd st)))"

definition written_step :: "(mem_ledger, read_models) options \<Rightarrow> go_time \<Rightarrow> actor_ref \<Rightarrow> command \<Rightarrow>
    mem_ledger \<times> read_models \<Rightarrow> mem_ledger \<times> read_models \<Rightarrow> bool" where
  "written_step opt now actor cmd st st' \<longleftrightarrow>
     (\<exists>evs dctx events sealed. stream_history opt (l_all (fst st)) (cmd_Stream cmd) evs \<and>
        context_for opt now actor cmd (snd st) = Inr dctx \<and>
        Root_Decide (Replay Root_Apply (stream_zero (cmd_Stream cmd)) evs) cmd dctx = Inr events \<and>
        written opt cmd events (l_all (fst st)) (l_all (fst st')) \<and>
        l_all (fst st') = l_all (fst st) @ sealed \<and> list_all2 (decodes opt) sealed events \<and>
        (\<forall>e \<in> set sealed. e_Stream e = cmd_Stream cmd) \<and>
        snd st' = project_log daemon_projectors sealed events (snd st))"

lemma decodes_fun: "list_all2 (decodes opt) es evs \<Longrightarrow> list_all2 (decodes opt) es evs' \<Longrightarrow> evs = evs'"
  by (induction es evs arbitrary: evs' rule: list_all2_induct) (auto simp: list_all2_Cons1 decodes_def)

lemma models_ok_append:
  assumes "models_ok opt p0 es p" "models_ok opt p0 (es @ sealed) p'" "list_all2 (decodes opt) sealed events"
  shows "p' = project_log (o_Projectors opt) sealed events p"
proof -
  obtain evs evs' where evs: "list_all2 (decodes opt) es evs" "p = project_log (o_Projectors opt) es evs p0"
    and evs': "list_all2 (decodes opt) (es @ sealed) evs'" "p' = project_log (o_Projectors opt) (es @ sealed) evs' p0"
    using assms(1,2) by (auto simp: models_ok_def)
  have "evs' = evs @ events"
    using decodes_fun [OF evs'(1)] evs(1) assms(3) by (simp add: list_all2_appendI)
  then show ?thesis
    using evs evs' project_log_append list_all2_lengthD by metis
qed

lemma rejection_step:
  assumes "ledger_inv H J l" "recordRejection (daemon_options H J mar un) s actor cmd now rej (l, p) = (err, (l', p'))"
  shows "rejected_step (l, p) (l', p')"
proof -
  let ?opt = "daemon_options H J mar un"
  let ?rj = "\<lparr>rj_Command = cmd_Kind cmd, rj_Target = s, rj_Code = Code rej, rj_Reason = Reason rej, rj_Actor = actor\<rparr>"
  obtain e where "appendRejected ?opt now ?rj (l, p) = (e, (l', p'))"
    using assms(2) by (auto simp: recordRejection_def split: prod.splits)
  from appendRejected_step [OF this]
  have "p' = p \<or> (\<exists>w. p' = notify daemon_projectors w (EvRejected ?rj) p)"
    by simp
  then show ?thesis
    using memory.rejection_state [of ?opt H J l s actor cmd now rej p err l' p'] assms by (auto simp: rejected_step_def)
qed

lemma decide_written_step:
  assumes json: "json_roundtrip mar un" and reach: "daemon_reaches H J mar un sg l p" "daemon_reaches H J mar un sg l' p'"
    and hist: "stream_history (daemon_options H J mar un) (l_all l) (cmd_Stream cmd) evs"
    and ctx: "context_for (daemon_options H J mar un) now actor cmd p = Inr dctx"
    and dec: "Root_Decide (Replay Root_Apply (stream_zero (cmd_Stream cmd)) evs) cmd dctx = Inr events"
    and w: "written (daemon_options H J mar un) cmd events (l_all l) (l_all l')"
  shows "written_step (daemon_options H J mar un) now actor cmd (l, p) (l', p')"
proof -
  let ?opt = "daemon_options H J mar un"
  obtain sealed where sealed: "l_all l' = l_all l @ sealed" "list_all2 (decodes ?opt) sealed events"
    "stream_log (l_all l') (cmd_Stream cmd) = stream_log (l_all l) (cmd_Stream cmd) @ sealed"
    using w by (auto simp: written_def)
  have "p' = project_log daemon_projectors sealed events p"
    using models_ok_append [OF daemon_ok(3) [OF json reach(1)] _ sealed(2)] daemon_ok(3) [OF json reach(2)] sealed(1) by simp
  moreover have "stream_log sealed (cmd_Stream cmd) = sealed"
    using sealed(1,3) by simp
  then have "\<forall>e \<in> set sealed. e_Stream e = cmd_Stream cmd"
    by (metis (mono_tags) filter_id_conv stream_log_def)
  ultimately show ?thesis
    unfolding written_step_def using hist ctx dec w sealed(1,2) by fastforce
qed

lemma daemon_step_cases:
  assumes json: "json_roundtrip mar un" and reach: "daemon_reaches H J mar un sg l p"
    and st: "Pipeline_Handle (daemon_options H J mar un) app_handlers now actor cmd (l, p) = (out, (l', p'))"
  shows "no_step (l, p) (l', p') \<or> rejected_step (l, p) (l', p') \<or>
    written_step (daemon_options H J mar un) now actor cmd (l, p) (l', p')"
proof -
  let ?opt = "daemon_options H J mar un"
  let ?s = "cmd_Stream cmd"
  note ok = daemon_ok [OF json reach]
  have reach': "daemon_reaches H J mar un sg l' p'"
    using reach st by (rule reach_step)
  obtain zero where zero: "map_of app_handlers (cmd_Kind cmd) = Some zero" "zero ?s = stream_zero ?s"
    using handler_of_command cmd_zero_stream by metis
  obtain evs where hist: "stream_history ?opt (l_all l) ?s evs"
    using ok(2) cmd_Stream_not_rejected [of cmd] by (auto simp: streams_ok_def)
  have st': "handle ?opt zero now actor cmd (l, p) = (out, (l', p'))"
    using st zero(1) by (simp add: Pipeline_Handle_def)
  then consider "l' = l \<and> p' = p"
    | rej err where "recordRejection ?opt ?s actor cmd now rej (l, p) = (err, (l', p'))"
    | "decide_step ?opt zero now actor cmd (l, p) = (out, (l', p'))"
    by (auto simp: handle_def Let_def split: option.splits prod.splits if_splits sum.splits)
  then show ?thesis
  proof cases
    case 1
    then show ?thesis
      by (simp add: no_step_def)
  next
    case 2
    then show ?thesis
      using rejection_step [OF ok(1)] by blast
  next
    case 3
    obtain res err where out: "out = (res, err)"
      by fastforce
    note ld = memory.stream_load [OF ok(1), of ?opt ?s evs]
    show ?thesis
    proof (cases "context_for ?opt now actor cmd p")
      case (Inl e)
      then show ?thesis
        using 3 ld hist zero(2) by (auto simp: decide_step_def Let_def no_step_def)
    next
      case ctx: (Inr dctx)
      show ?thesis
      proof (cases "Root_Decide (Replay Root_Apply (stream_zero ?s) evs) cmd dctx")
        case (Inl rej)
        then show ?thesis
          using 3 ld hist zero(2) ctx rejection_step [OF ok(1)]
          by (auto simp: decide_step_def Let_def split: prod.splits)
      next
        case (Inr events)
        then have "l' = l \<and> p' = p \<or> written ?opt cmd events (l_all l) (l_all l')"
          using memory.decide_step_state [of ?opt H J l zero cmd evs now actor p res err l' p'] 3 out ok(1,4) hist zero(2) ctx
          by (auto split: if_splits)
        then show ?thesis
          using decide_written_step [OF json reach reach' hist ctx Inr] by (auto simp: no_step_def)
      qed
    qed
  qed
qed

subsection \<open>The outcome of a command\<close>

text \<open>The key of a command is new to its stream, or there is none.\<close>

definition fresh_key :: "mem_ledger \<Rightarrow> command \<Rightarrow> bool" where
  "fresh_key l cmd \<longleftrightarrow> cmd_Idem cmd = '''' \<or> mem_Lookup l (cmd_Stream cmd) (cmd_Idem cmd) = Inl ErrNotFound"

lemma daemon_context:
  "\<exists>dctx. context_for (daemon_options H J mar un) now actor cmd p = Inr dctx \<and> Now dctx = now \<and> Actor dctx = actor \<and>
    (Autonomy dctx, Cap dctx) = Effective (rm_scopes p) (case TargetScope cmd of Some k \<Rightarrow> k | None \<Rightarrow> zero_scope_key) \<and>
    Policy dctx = DefaultPolicy"
  by (auto simp: context_for_def ProjectionContext_Build_def Let_def split: prod.splits)

lemma daemon_handle_fresh:
  assumes "Actor_Validate actor = None" "fresh_key l cmd"
  obtains zero where "zero (cmd_Stream cmd) = stream_zero (cmd_Stream cmd)"
    "Pipeline_Handle (daemon_options H J mar un) app_handlers now actor cmd (l, p) =
       decide_step (daemon_options H J mar un) zero now actor cmd (l, p)"
proof -
  obtain zero where "map_of app_handlers (cmd_Kind cmd) = Some zero" "zero (cmd_Stream cmd) = stream_zero (cmd_Stream cmd)"
    using handler_of_command cmd_zero_stream by metis
  then show thesis
    using assms by (intro that [of zero]) (auto simp: Pipeline_Handle_def handle_def Let_def mem_port_def fresh_key_def)
qed

lemma build_batch_keys:
  "build_batch opt now actor meta idem events = Inr batch \<Longrightarrow> (\<forall>e \<in> set (tl batch). e_Idem e = '''') \<and>
    (batch \<noteq> [] \<longrightarrow> e_Idem (hd batch) = idem) \<and> (idem = '''' \<longrightarrow> (\<forall>e \<in> set batch. e_Idem e = ''''))"
  by (induction events arbitrary: idem batch) (fastforce split: sum.splits)+

lemma fresh_idem_check:
  assumes "fresh_key l cmd" "build_batch opt now actor meta (cmd_Idem cmd) events = Inr batch"
  shows "idem_check (l_idem l) (cmd_Stream cmd) [] batch = None"
proof (cases batch)
  case (Cons e es)
  then show ?thesis
    using build_batch_keys [OF assms(2)] assms(1)
    by (auto simp: fresh_key_def mem_Lookup_def Let_def idem_check_blank split: option.splits)
qed simp

lemma build_batch_error: "build_batch opt now actor meta idem events = Inl e \<Longrightarrow> \<exists>m. e = AppError m"
  by (induction events arbitrary: idem e) (auto split: sum.splits)

lemma fresh_append_error:
  assumes "fresh_key l cmd" "append_events (daemon_options H J mar un) now actor cmd dctx version events (l, p) = ((res, err), (l', p'))"
    and "re_Events res = []" "events \<noteq> []"
  shows "\<exists>m. err = Some (AppError m)"
proof -
  define meta where "meta = \<lparr>em_Refs = [cmd_Stream cmd] @ (case TouchedAnchors cmd of None \<Rightarrow> [] | Some as \<Rightarrow> as),
    em_ConstraintsHash = ConstraintsHash dctx, em_Autonomy = Autonomy dctx\<rparr>"
  note ap = assms(2) [unfolded append_events_def Let_def, folded meta_def]
  show ?thesis
  proof (cases "build_batch (daemon_options H J mar un) now actor meta (cmd_Idem cmd) events")
    case (Inl e)
    then show ?thesis
      using ap build_batch_error [OF Inl] by auto
  next
    case (Inr batch)
    have "idem_check (l_idem l) (cmd_Stream cmd) [] batch = None"
      by (rule fresh_idem_check [OF assms(1) Inr])
    then have "fst (mem_Append H J l (cmd_Stream cmd) version batch) \<noteq> Inl ErrDuplicateIdempotencyKey"
      by (auto simp: mem_Append_def Let_def split: option.splits sum.splits if_splits
          dest!: seal_batch_error origin_check_error)
    then show ?thesis
      using ap Inr assms(3,4) by (auto simp: mem_port_def split: sum.splits prod.splits if_splits)
  qed
qed

text \<open>
  The outcome of a command with a new key: that of the aggregate replayed from its stream, in
  the context of the read models.
\<close>

definition decision_outcome :: "(mem_ledger, read_models) options \<Rightarrow> command \<Rightarrow> rejection + event list \<Rightarrow>
    mem_ledger \<times> read_models \<Rightarrow> pipeline_result \<times> app_error option \<Rightarrow> mem_ledger \<times> read_models \<Rightarrow> bool" where
  "decision_outcome opt cmd d st out st' \<longleftrightarrow>
     (case d of
        Inl rej \<Rightarrow> (\<exists>e. snd out = Some (ErrRejected rej e)) \<and> re_Events (fst out) = [] \<and> rejected_step st st'
      | Inr events \<Rightarrow>
          if events = [] then out = (zero_result\<lparr>re_Stream := cmd_Stream cmd,
              re_Version := int (length (stream_log (l_all (fst st)) (cmd_Stream cmd)))\<rparr>, None) \<and> st' = st
          else if snd out = None
            then written opt cmd events (l_all (fst st)) (l_all (fst st')) \<and> re_Events (fst out) = events \<and>
              re_Version (fst out) = int (length (stream_log (l_all (fst st)) (cmd_Stream cmd)) + length events)
          else (\<exists>m. snd out = Some (AppError m)) \<and> re_Events (fst out) = [] \<and> st' = st)"

lemma append_events_outcome:
  assumes json: "json_faithful (daemon_options H J mar un)" and inv: "ledger_inv H J l" and fresh: "fresh_key l cmd"
    and dec: "Root_Decide agg cmd dctx = Inr events" "events \<noteq> []"
    and ap: "append_events (daemon_options H J mar un) now actor cmd dctx (int (length (stream_log (l_all l) (cmd_Stream cmd)))) events
      (l, p) = (out, st')"
  shows "decision_outcome (daemon_options H J mar un) cmd (Inr events) (l, p) out st'"
proof -
  let ?opt = "daemon_options H J mar un"
  obtain res err l' p' where out: "out = (res, err)" "st' = (l', p')"
    by (cases out; cases st')
  have no_projection: "err \<noteq> Some (ErrProjection m)" if "re_Events res = events" for m
    using ap dec(2) that publish_total [OF daemon_projectors_total] memory.read [of H J]
      memory.append_ok [OF inv, unfolded mem_port_def, simplified]
    unfolding out append_events_def Let_def
    by (fastforce simp: mem_port_def zero_result_def mem_Read_def split: sum.splits prod.splits if_splits)
  note state = memory.append_events_state [OF _ _ json inv Root_Decide_current [OF dec(1)] ap [unfolded out]]
  show ?thesis
  proof (cases "re_Events res = []")
    case True
    then show ?thesis
      using state fresh_append_error [OF fresh ap [unfolded out] True dec(2)] dec(2) out by (auto simp: decision_outcome_def)
  next
    case False
    then show ?thesis
      using state no_projection dec(2) out by (auto simp: decision_outcome_def)
  qed
qed

lemma decide_step_outcome:
  assumes json: "json_faithful (daemon_options H J mar un)" and inv: "ledger_inv H J l" and fresh: "fresh_key l cmd"
    and hist: "stream_history (daemon_options H J mar un) (l_all l) (cmd_Stream cmd) evs"
    and ctx: "context_for (daemon_options H J mar un) now actor cmd p = Inr dctx"
    and zero: "zero (cmd_Stream cmd) = stream_zero (cmd_Stream cmd)"
    and st: "decide_step (daemon_options H J mar un) zero now actor cmd (l, p) = (out, st')"
  shows "decision_outcome (daemon_options H J mar un) cmd
    (Root_Decide (Replay Root_Apply (stream_zero (cmd_Stream cmd)) evs) cmd dctx) (l, p) out st'"
proof -
  let ?opt = "daemon_options H J mar un"
  let ?d = "Root_Decide (Replay Root_Apply (stream_zero (cmd_Stream cmd)) evs) cmd dctx"
  note ld = memory.stream_load [OF inv _ hist]
  note st' = st [unfolded decide_step_def Let_def zero, simplified ctx ld [simplified]]
  show ?thesis
  proof (cases ?d)
    case (Inl rej)
    obtain err l' p' where rr: "recordRejection ?opt (cmd_Stream cmd) actor cmd now rej (l, p) = (err, (l', p'))"
      by (metis surj_pair)
    then show ?thesis
      using Inl st' ld ctx rejection_step [OF inv rr] memory.rejection_state [OF _ inv rr]
      by (auto simp: decision_outcome_def zero_result_def)
  next
    case (Inr events)
    then show ?thesis
      using st' ld ctx append_events_outcome [OF json inv fresh Inr, of now actor p out st']
      by (cases "events = []") (auto simp: decision_outcome_def)
  qed
qed

lemma fresh_outcome:
  assumes "json_roundtrip mar un" and "daemon_reaches H J mar un sg l p"
    and "Actor_Validate actor = None" and "fresh_key l cmd"
    and "Pipeline_Handle (daemon_options H J mar un) app_handlers now actor cmd (l, p) = (out, st')"
  shows "\<exists>evs dctx. stream_history (daemon_options H J mar un) (l_all l) (cmd_Stream cmd) evs \<and>
    context_for (daemon_options H J mar un) now actor cmd p = Inr dctx \<and> Now dctx = now \<and> Actor dctx = actor \<and> Policy dctx = DefaultPolicy \<and>
    (Autonomy dctx, Cap dctx) = Effective (rm_scopes p) (case TargetScope cmd of Some k \<Rightarrow> k | None \<Rightarrow> zero_scope_key) \<and>
    decision_outcome (daemon_options H J mar un) cmd
      (Root_Decide (Replay Root_Apply (stream_zero (cmd_Stream cmd)) evs) cmd dctx) (l, p) out st'"
proof -
  note ok = daemon_ok [OF assms(1,2)]
  obtain zero where zero: "zero (cmd_Stream cmd) = stream_zero (cmd_Stream cmd)"
    and st: "decide_step (daemon_options H J mar un) zero now actor cmd (l, p) = (out, st')"
    using daemon_handle_fresh [OF assms(3,4)] assms(5) by metis
  obtain evs where hist: "stream_history (daemon_options H J mar un) (l_all l) (cmd_Stream cmd) evs"
    using ok(2) cmd_Stream_not_rejected by (auto simp: streams_ok_def)
  obtain dctx where ctx: "context_for (daemon_options H J mar un) now actor cmd p = Inr dctx" and
    "Now dctx = now" "Actor dctx = actor" "Policy dctx = DefaultPolicy"
    "(Autonomy dctx, Cap dctx) = Effective (rm_scopes p) (case TargetScope cmd of Some k \<Rightarrow> k | None \<Rightarrow> zero_scope_key)"
    using daemon_context by metis
  then show ?thesis
    using decide_step_outcome [OF ok(4,1) assms(4) hist ctx zero st] hist by auto
qed

text \<open>
  What sealing relies on: the metadata of an envelope with a valid level is encoded, and
  the signer, when there is one, signs.
\<close>

definition sealing_works :: "meta_json \<Rightarrow> signer option \<Rightarrow> bool" where
  "sealing_works J sg \<longleftrightarrow> (\<forall>m. Level_Valid (em_Autonomy (me_Meta m)) \<longrightarrow> (\<exists>b. J m = Inr b)) \<and>
     (\<forall>sign. sg = Some sign \<longrightarrow> (\<forall>h. \<exists>sig. sign h = Inr sig))"

lemma cmd_Stream_nonempty: "cmd_Stream c \<noteq> ''''"
  by (cases c) (simp_all add: ConstraintStream_def ScopeStream_def DecisionStream_def ChangeStream_def
      GateStream_def SessionStream_def AnchorStream_def)

lemma append_events_succeeds:
  assumes inv: "ledger_inv H J l" and works: "sealing_works J (l_signer l)" and fresh: "fresh_key l cmd"
    and level: "Level_Valid (Autonomy dctx)" and events: "events \<noteq> []" "\<forall>ev \<in> set events. \<exists>b. mar ev = Inr b"
  shows "\<exists>res st'. append_events (daemon_options H J mar un) now actor cmd dctx
    (int (length (stream_log (l_all l) (cmd_Stream cmd)))) events (l, p) = ((res, None), st')"
proof -
  let ?opt = "daemon_options H J mar un"
  let ?s = "cmd_Stream cmd"
  define meta where "meta = \<lparr>em_Refs = [?s] @ (case TouchedAnchors cmd of None \<Rightarrow> [] | Some as \<Rightarrow> as),
    em_ConstraintsHash = ConstraintsHash dctx, em_Autonomy = Autonomy dctx\<rparr>"
  have enc: "\<forall>ev \<in> set events. \<exists>b. encode ?opt ev = Inr b"
    using events(2) event_kv_registered by (auto simp: encode_def Codec_Encode_def)
  obtain batch where batch: "build_batch ?opt now actor meta (cmd_Idem cmd) events = Inr batch"
    "\<forall>e \<in> set batch. e_Kind e \<noteq> '''' \<and> e_Meta e = meta \<and> e_Origin e = None" "\<forall>e \<in> set (tl batch). e_Idem e = ''''"
    "length batch = length events"
    using build_batch_succeeds [OF enc, of now actor meta "cmd_Idem cmd"] event_kind_nonempty by auto
  have "batch \<noteq> []"
    using batch(4) events(1) by auto
  moreover have "e_Idem (hd batch) = cmd_Idem cmd"
    using build_batch_keys [OF batch(1)] \<open>batch \<noteq> []\<close> by simp
  ultimately obtain r l' where "mem_Append H J l ?s (int (length (stream_log (l_all l) ?s))) batch = (Inr r, l')"
    using mem_Append_succeeds [OF inv, of batch ?s "int (length (stream_log (l_all l) ?s))"] batch works level fresh cmd_Stream_nonempty
    by (auto simp: sealing_works_def meta_def fresh_key_def)
  then show ?thesis
    unfolding append_events_def Let_def meta_def [symmetric] using batch(1) publish_total [OF daemon_projectors_total]
    by (simp add: mem_port_def mem_Read_def)
qed

text \<open>A rejection reaches the record, in the rejected stream.\<close>

definition rejection_recorded :: "(mem_ledger, read_models) options \<Rightarrow> rejected \<Rightarrow> mem_ledger \<Rightarrow> mem_ledger \<Rightarrow> bool" where
  "rejection_recorded opt rj l l' \<longleftrightarrow>
     (\<exists>w. l_all l' = l_all l @ [w] \<and> e_Stream w = RejectedStream \<and> decodes opt w (EvRejected rj) \<and> e_Actor w = rj_Actor rj)"

lemma recordRejection_succeeds:
  assumes json: "json_faithful (daemon_options H J mar un)" and inv: "ledger_inv H J l"
    and works: "sealing_works J (l_signer l)"
    and rj: "rj = \<lparr>rj_Command = cmd_Kind cmd, rj_Target = s, rj_Code = Code rej, rj_Reason = Reason rej, rj_Actor = actor\<rparr>"
    and mar: "mar (EvRejected rj) = Inr body"
    and rr: "recordRejection (daemon_options H J mar un) s actor cmd now rej (l, p) = (err, (l', p'))"
  shows "err = ErrRejected rej None \<and> rejection_recorded (daemon_options H J mar un) rj l l'"
proof -
  let ?opt = "daemon_options H J mar un"
  have enc: "encode ?opt (EvRejected rj) = Inr body"
    using mar event_kv_registered [of "EvRejected rj"] by (simp add: encode_def Codec_Encode_def)
  define e where "e = blank_envelope\<lparr>e_Kind := ''Rejected'', e_V := 1, e_TS := now, e_Actor := rj_Actor rj,
    e_Meta := \<lparr>em_Refs = [rj_Target rj], em_ConstraintsHash = '''', em_Autonomy = 0\<rparr>, e_Body := body\<rparr>"
  have blank: "e_Kind e = ''Rejected''" "e_Idem e = ''''" "e_Origin e = None" "em_Autonomy (e_Meta e) = 0" "e_Body e = body"
    "e_V e = 1" "e_Actor e = actor"
    by (simp_all add: e_def blank_envelope_def rj)
  have "Level_Valid 0"
    by (simp add: Level_Valid_def)
  then obtain r l1 where app: "mem_Append H J l RejectedStream AnyVersion [e] = (Inr r, l1)"
    using mem_Append_succeeds [OF inv, of "[e]" RejectedStream AnyVersion] works blank by (auto simp: sealing_works_def)
  then have papp: "pl_Append (mem_port H J) l RejectedStream AnyVersion [e] = (Inr r, l1)"
    by (simp add: mem_port_def)
  obtain w where w: "l_all l1 = l_all l @ [w]" "sealed_as RejectedStream e w"
    using memory.append_ok [OF inv papp] by (auto simp: list_all2_Cons1)
  have "decodes ?opt w (EvRejected rj)"
    using sealed_decodes [OF json, of "[EvRejected rj]" "[e]" RejectedStream "[w]"] w(2) rejected_current blank enc
    by (auto simp: batch_of_def)
  moreover have "l' = l1" "err = ErrRejected rej None"
    using rr enc papp
    by (auto simp: recordRejection_def appendRejected_def rj [symmetric] e_def [symmetric] Let_def
        split: prod.splits sum.splits list.splits)
  ultimately show ?thesis
    using w blank rj by (auto simp: rejection_recorded_def sealed_as_def)
qed

text \<open>A written key is found in every later state.\<close>

lemma written_key_found:
  assumes inv: "ledger_inv H J l'" and log: "l_all l' = l_all l @ x # xs @ ext" and x: "e_Stream x = s" "e_Idem x = k" "k \<noteq> ''''"
  shows "mem_Lookup l' s k = Inr x"
  using mem_Lookup_Inr [OF inv, of s k x] log x by (simp add: env_idem_key_def)

lemma rejected_only_by_recordRejection:
  assumes "Pipeline_Handle (daemon_options H J mar un) handlers now actor cmd (l, p) = ((res, Some (ErrRejected rej e)), st')"
  shows "recordRejection (daemon_options H J mar un) (cmd_Stream cmd) actor cmd now rej (l, p) = (ErrRejected rej e, st')"
proof -
  let ?opt = "daemon_options H J mar un"
  have "snd (fst (append_events ?opt now actor cmd dctx version events (l, p))) \<noteq> Some (ErrRejected rej e)" for dctx version events
    using publish_total [OF daemon_projectors_total]
    by (auto simp: append_events_def Let_def dest!: build_batch_error split: sum.split prod.split)
  moreover have "load_loop ?opt s agg v envs \<noteq> Inl (ErrRejected rej e)" for s agg v envs
    by (induction envs arbitrary: agg v) (auto split: sum.splits)
  moreover have "context_for ?opt now actor cmd p \<noteq> Inl x" for x
    using daemon_context [of H J mar un now actor cmd p] by auto
  ultimately have "\<exists>r. recordRejection ?opt (cmd_Stream cmd) actor cmd now r (l, p) = (ErrRejected rej e, st')"
    using assms unfolding Pipeline_Handle_def handle_def decide_step_def Let_def
    by (auto split: option.split_asm prod.split_asm if_split_asm sum.split_asm) (metis fst_conv snd_conv)+
  moreover have "r = rej" if "recordRejection ?opt s actor cmd now r st = (ErrRejected rej e, y)" for s r st y
    using that by (auto simp: recordRejection_def split: prod.split_asm)
  ultimately show ?thesis
    by blast
qed

lemma written_first:
  assumes "json_roundtrip mar un" "daemon_reaches H J mar un sg l p"
    and "Pipeline_Handle (daemon_options H J mar un) app_handlers now actor cmd (l, p) = ((res, err), st1)"
    and "re_Events res \<noteq> []"
  shows "\<exists>x xs. l_all (fst st1) = l_all l @ x # xs \<and> e_Stream x = cmd_Stream cmd \<and> e_Idem x = cmd_Idem cmd \<and>
    e_Ver x = re_Version res - int (length (re_Events res)) + 1 \<and> ledger_inv H J (fst st1)"
proof -
  let ?opt = "daemon_options H J mar un"
  let ?s = "cmd_Stream cmd"
  note ok = daemon_ok [OF assms(1,2)]
  obtain zero where zero: "map_of app_handlers (cmd_Kind cmd) = Some zero" "zero ?s = stream_zero ?s"
    using handler_of_command cmd_zero_stream by metis
  obtain evs where hist: "stream_history ?opt (l_all l) ?s evs"
    using ok(2) cmd_Stream_not_rejected [of cmd] by (auto simp: streams_ok_def)
  have "decide_step ?opt zero now actor cmd (l, p) = ((res, err), (fst st1, snd st1))"
    using assms(3,4) zero(1)
    by (auto simp: Pipeline_Handle_def handle_def Let_def zero_result_def split: option.splits prod.splits if_splits sum.splits)
  note state = memory.decide_step_state [OF _ _ ok(4,1) zero(2) hist this]
  obtain dctx where "context_for ?opt now actor cmd p = Inr dctx"
    using daemon_context by metis
  then obtain events where w: "written ?opt cmd events (l_all l) (l_all (fst st1))" "re_Events res = events" "ledger_inv H J (fst st1)"
    "re_Version res = int (length (stream_log (l_all l) ?s)) + int (length events)"
    using state assms(4)
    by (cases "Root_Decide (Replay Root_Apply (stream_zero ?s) evs) cmd dctx") (auto split: if_split_asm)
  then obtain x xs where x: "l_all (fst st1) = l_all l @ x # xs" "e_Idem x = cmd_Idem cmd"
    "stream_log (l_all (fst st1)) ?s = stream_log (l_all l) ?s @ x # xs"
    by (auto simp: written_def neq_Nil_conv)
  have "log_ok H J (l_all (fst st1))"
    using w(3) by (simp add: ledger_inv_def)
  from log_ok_ver_nth [OF this, of "length (stream_log (l_all l) ?s)" ?s] x(3)
  have "e_Ver x = int (length (stream_log (l_all l) ?s)) + 1"
    by simp
  moreover have "x \<in> set (stream_log (l_all (fst st1)) ?s)"
    using x(3) by simp
  then have "e_Stream x = ?s"
    by (simp add: stream_log_def)
  ultimately show ?thesis
    using x w by auto
qed

lemma accepted_written:
  assumes "json_roundtrip mar un" and "daemon_reaches H J mar un sg l p" and "sealing_works J sg"
    and "Actor_Validate actor = None" and "fresh_key l cmd"
    and "stream_history (daemon_options H J mar un) (l_all l) (cmd_Stream cmd) evs"
    and "context_for (daemon_options H J mar un) now actor cmd p = Inr dctx"
    and "Root_Decide (Replay Root_Apply (stream_zero (cmd_Stream cmd)) evs) cmd dctx = Inr events" and "events \<noteq> []"
    and "\<forall>ev \<in> set events. \<exists>b. mar ev = Inr b"
  shows "\<exists>res l' p'. Pipeline_Handle (daemon_options H J mar un) app_handlers now actor cmd (l, p) = ((res, None), (l', p')) \<and>
    re_Events res = events \<and> re_Version res = int (length evs + length events) \<and>
    written (daemon_options H J mar un) cmd events (l_all l) (l_all l')"
proof -
  let ?opt = "daemon_options H J mar un"
  note ok = daemon_ok [OF assms(1,2)]
  obtain zero where zero: "zero (cmd_Stream cmd) = stream_zero (cmd_Stream cmd)"
    and st: "Pipeline_Handle ?opt app_handlers now actor cmd (l, p) = decide_step ?opt zero now actor cmd (l, p)"
    using daemon_handle_fresh [OF assms(4,5)] by metis
  have "Level_Valid (Autonomy dctx)"
    using daemon_context [of H J mar un now actor cmd p] assms(7) Effective_valid daemon_scopes_signer [OF assms(2)]
    by (metis Inr_inject fst_conv)
  then obtain res st' where ap: "append_events ?opt now actor cmd dctx (int (length (stream_log (l_all l) (cmd_Stream cmd)))) events (l, p) =
      ((res, None), st')"
    using append_events_succeeds [OF ok(1) _ assms(5)] assms(3,9,10) daemon_scopes_signer [OF assms(2)] by metis
  then have "decide_step ?opt zero now actor cmd (l, p) = ((res, None), st')"
    using memory.stream_load [OF ok(1) _ assms(6)] zero assms(7-9) by (simp add: decide_step_def Let_def)
  then show ?thesis
    using append_events_outcome [OF ok(4,1) assms(5,8,9) ap] st assms(6,9) list_all2_lengthD
    by (cases st') (auto simp: decision_outcome_def stream_history_def)
qed

end
