(* ===== verification/Views.thy ===== *)
theory Views
  imports Runtime_Facts
begin

section \<open>The read models show the aggregates\<close>

text \<open>
  In every state of a run the entry of each index for an aggregate is the view of the
  aggregate replayed from its stream, however the commands on different streams
  interleave. The contract of an index over the streams is a locale; the six indexes
  of \<^verbatim>\<open>internal/app\<close> interpret it.
\<close>

subsection \<open>The contract of an index\<close>

locale stream_view =
  fixes shown :: "'i \<Rightarrow> string \<Rightarrow> aggregate_root \<Rightarrow> bool"
    and project :: "string \<Rightarrow> event \<Rightarrow> 'i \<Rightarrow> 'i"
    and index :: "read_models \<Rightarrow> 'i"
  assumes shown_start: "shown (index empty_models) s (stream_zero s)"
    and project_rejected: "project s (EvRejected r) idx = idx"
    and index_notify: "index (notify daemon_projectors w ev p) = project (e_Stream w) ev (index p)"
    and shown_own: "root_inv a \<Longrightarrow> Root_Decide a c ctx = Inr es \<Longrightarrow> shown idx (cmd_Stream c) a \<Longrightarrow>
      shown (fold (project (cmd_Stream c)) es idx) (cmd_Stream c) (Replay Root_Apply a es)"
    and shown_frame: "root_inv a \<Longrightarrow> Root_Decide a c ctx = Inr es \<Longrightarrow> shown idx (cmd_Stream c) a \<Longrightarrow>
      t \<noteq> cmd_Stream c \<Longrightarrow> shown idx t b \<Longrightarrow> shown (fold (project (cmd_Stream c)) es idx) t b"
begin

lemma index_project_log:
  assumes "length es = length evs" "\<forall>e \<in> set es. e_Stream e = s"
  shows "index (project_log daemon_projectors es evs p) = fold (project s) evs (index p)"
  using assms by (induction es evs arbitrary: p rule: list_induct2) (simp_all add: index_notify)

lemma written_shown:
  assumes step: "written_step opt now actor cmd st st'"
    and ok: "\<And>s evs. s \<noteq> RejectedStream \<Longrightarrow> stream_history opt (l_all (fst st)) s evs \<Longrightarrow>
      shown (index (snd st)) s (Replay Root_Apply (stream_zero s) evs)"
    and t: "t \<noteq> RejectedStream" "stream_history opt (l_all (fst st')) t evs'"
  shows "shown (index (snd st')) t (Replay Root_Apply (stream_zero t) evs')"
proof -
  let ?s = "cmd_Stream cmd"
  obtain evs dctx events sealed where
    hist: "stream_history opt (l_all (fst st)) ?s evs"
    and dec: "Root_Decide (Replay Root_Apply (stream_zero ?s) evs) cmd dctx = Inr events"
    and w: "written opt cmd events (l_all (fst st)) (l_all (fst st'))"
    and sealed: "l_all (fst st') = l_all (fst st) @ sealed" "list_all2 (decodes opt) sealed events"
      "\<forall>e \<in> set sealed. e_Stream e = ?s"
    and models: "snd st' = project_log daemon_projectors sealed events (snd st)"
    using step by (auto simp: written_step_def)
  have idx: "index (snd st') = fold (project ?s) events (index (snd st))"
    using index_project_log [OF list_all2_lengthD [OF sealed(2)] sealed(3)] models by simp
  have inv: "root_inv (Replay Root_Apply (stream_zero ?s) evs)"
    using hist root_agg.history_inv by (simp add: stream_history_def)
  note own = ok [OF cmd_Stream_not_rejected hist]
  show ?thesis
  proof (cases "t = ?s")
    case True
    have "stream_log sealed ?s = sealed"
      using sealed(3) by (simp add: stream_log_def)
    then have "list_all2 (decodes opt) (stream_log (l_all (fst st')) t) (evs @ events)"
      using hist sealed True by (simp add: stream_history_def list_all2_appendI)
    then have "evs' = evs @ events"
      using t(2) decodes_fun by (auto simp: stream_history_def)
    then show ?thesis
      using shown_own [OF inv dec own] True idx by simp
  next
    case False
    then have "stream_history opt (l_all (fst st)) t evs'"
      using t(2) w by (auto simp: stream_history_def written_def)
    from ok [OF t(1) this] show ?thesis
      using shown_frame [OF inv dec own False] idx by simp
  qed
qed

lemma rejected_shown:
  assumes "rejected_step st st'" "t \<noteq> RejectedStream" "stream_history opt (l_all (fst st')) t evs"
  shows "stream_history opt (l_all (fst st)) t evs \<and> index (snd st') = index (snd st)"
  using assms by (auto simp: rejected_step_def stream_history_def index_notify project_rejected)

lemma run_shown:
  assumes json: "json_roundtrip mar un" and reach: "reachable (daemon_options H J mar un) (NewLedger sg, empty_models) st"
    and t: "t \<noteq> RejectedStream" "stream_history (daemon_options H J mar un) (l_all (fst st)) t evs"
  shows "shown (index (snd st)) t (Replay Root_Apply (stream_zero t) evs)"
  using reach t
proof (induction arbitrary: t evs rule: reachable.induct)
  case reach_start
  then show ?case
    using shown_start by (simp add: NewLedger_def stream_history_def)
next
  case (reach_step st now actor cmd out st')
  let ?opt = "daemon_options H J mar un"
  have "no_step st st' \<or> rejected_step st st' \<or> written_step ?opt now actor cmd st st'"
    using daemon_step_cases [OF json, of H J sg "fst st" "snd st" now actor cmd out "fst st'" "snd st'"] reach_step(1,2) by simp
  then show ?case
  proof (elim disjE)
    assume "no_step st st'"
    then show ?thesis
      using reach_step(3) [OF reach_step(4)] reach_step(5) by (simp add: no_step_def)
  next
    assume "rejected_step st st'"
    from rejected_shown [OF this reach_step(4,5)] show ?thesis
      using reach_step(3) [OF reach_step(4)] by simp
  next
    assume "written_step ?opt now actor cmd st st'"
    from written_shown [OF this reach_step(3) reach_step(4,5)] show ?thesis .
  qed
qed

end

subsection \<open>Indexes keyed by an identifier\<close>

text \<open>A projection whose keys name the streams: a command that creates an aggregate names it.\<close>

locale stream_projection = projection_of dec ap zero inv on view ident abs alive
  for dec :: "'s \<Rightarrow> 'c \<Rightarrow> decide_context \<Rightarrow> rejection + 'e list"
    and ap :: "'s \<Rightarrow> 'e \<Rightarrow> 's" and zero :: 's and inv :: "'s \<Rightarrow> bool"
    and on :: "'e \<Rightarrow> 'i \<Rightarrow> 'i" and view :: "'i \<Rightarrow> 'k \<Rightarrow> 'v" and ident :: "'s \<Rightarrow> 'k" and abs :: "'s \<Rightarrow> 'v"
    and alive :: "'s \<Rightarrow> bool" +
  fixes stream :: "'k \<Rightarrow> string"
    and target :: "'c \<Rightarrow> string"
  assumes born: "inv s \<Longrightarrow> dec s c ctx = Inr es \<Longrightarrow> \<not> alive s \<Longrightarrow> es \<noteq> [] \<Longrightarrow> stream (ident (Replay ap s es)) = target c"
begin

lemma own:
  assumes "inv s" "dec s c ctx = Inr es" "alive s \<Longrightarrow> target c = stream (ident s) \<and> view idx (ident s) = abs s"
    and "alive (Replay ap s es)"
  shows "target c = stream (ident (Replay ap s es)) \<and>
    view (fold on es idx) (ident (Replay ap s es)) = abs (Replay ap s es)"
proof (cases "alive s")
  case True
  then show ?thesis
    using alive_step [OF assms(1,2)] view_step [OF assms(1,2), of idx] assms(3,4) by auto
next
  case False
  then have "es \<noteq> []"
    using assms(4) by auto
  then show ?thesis
    using born [OF assms(1,2) False] view_step [OF assms(1,2), of idx] False assms(4) by auto
qed

lemma frame:
  assumes "inv s" "dec s c ctx = Inr es" "alive s \<Longrightarrow> target c = stream (ident s)" "stream k \<noteq> target c"
  shows "view (fold on es idx) k = view idx k"
proof (cases "es = []")
  case False
  then have "stream (ident (Replay ap s es)) = target c"
    using born [OF assms(1,2)] alive_step [OF assms(1,2)] assms(3) by (cases "alive s") auto
  then show ?thesis
    using view_frame [OF assms(1,2)] assms(4) by metis
qed simp

end

interpretation constraint_streams: stream_projection Constraint_Decide Constraint_Apply zero_constraint constraint_inv
  ConstraintIndex_on con_get co_ID constraint_abs "\<lambda>c. co_State c \<noteq> CStateNone"
  ConstraintStream "\<lambda>c. ConstraintStream (cm_ID (Constraint_cmd_part c))"
proof
  fix s c ctx es
  show "ConstraintStream (co_ID (Replay Constraint_Apply s es)) = ConstraintStream (cm_ID (Constraint_cmd_part c))"
    if "Constraint_Decide s c ctx = Inr es" "\<not> co_State s \<noteq> CStateNone"
    using that by (cases c) (auto simp: decide_defs Let_def split: if_splits option.splits)
qed

interpretation decision_streams: stream_projection Decision_Decide Decision_Apply zero_decision decision_inv
  DecisionIndex_on dec_get de_ID decision_abs "\<lambda>d. de_State d \<noteq> DecisionStateNone"
  DecisionStream "\<lambda>c. DecisionStream (dn_ID (Decision_cmd_part c))"
proof
  fix s c ctx es
  show "DecisionStream (de_ID (Replay Decision_Apply s es)) = DecisionStream (dn_ID (Decision_cmd_part c))"
    if "Decision_Decide s c ctx = Inr es" "\<not> de_State s \<noteq> DecisionStateNone" "es \<noteq> []"
    using that by (cases c) (auto simp: decide_defs Let_def split: if_splits option.splits)
qed

interpretation change_streams: stream_projection Change_Decide Change_Apply zero_change change_inv
  ChangeIndex_on change_view ch_ID change_abs "\<lambda>c. ch_State c \<noteq> StateNone"
  ChangeStream "\<lambda>c. ChangeStream (hc_ID (Change_cmd_part c))"
proof
  fix s c ctx es
  show "ChangeStream (ch_ID (Replay Change_Apply s es)) = ChangeStream (hc_ID (Change_cmd_part c))"
    if "Change_Decide s c ctx = Inr es" "\<not> ch_State s \<noteq> StateNone"
    using that
    by (cases c) (auto simp: change_open_def change_addProposal_Inr change_judge_Inr change_deploy_Inr
        change_recordOutcome_Inr change_settle_Inr Let_def split: if_splits option.splits)
qed

subsection \<open>The six indexes\<close>

fun constraint_shown :: "constraint_index \<Rightarrow> string \<Rightarrow> aggregate_root \<Rightarrow> bool" where
  "constraint_shown idx s (AggConstraint c) \<longleftrightarrow>
     (co_State c \<noteq> CStateNone \<longrightarrow> s = ConstraintStream (co_ID c) \<and> con_get idx (co_ID c) = constraint_abs c)"
| "constraint_shown idx s _ \<longleftrightarrow> True"

fun decision_shown :: "decision_index \<Rightarrow> string \<Rightarrow> aggregate_root \<Rightarrow> bool" where
  "decision_shown idx s (AggDecision d) \<longleftrightarrow>
     (de_State d \<noteq> DecisionStateNone \<longrightarrow> s = DecisionStream (de_ID d) \<and> dec_get idx (de_ID d) = decision_abs d)"
| "decision_shown idx s _ \<longleftrightarrow> True"

fun change_shown :: "change_index \<Rightarrow> string \<Rightarrow> aggregate_root \<Rightarrow> bool" where
  "change_shown idx s (AggChange c) \<longleftrightarrow>
     (ch_State c \<noteq> StateNone \<longrightarrow> s = ChangeStream (ch_ID c) \<and> change_view idx (ch_ID c) = change_abs c)"
| "change_shown idx s _ \<longleftrightarrow> True"

fun session_shown :: "session_index \<Rightarrow> string \<Rightarrow> aggregate_root \<Rightarrow> bool" where
  "session_shown idx s (AggSession n) \<longleftrightarrow> (ss_State n \<noteq> SessionStateNone \<longrightarrow> ses_get idx s = session_abs n)"
| "session_shown idx s _ \<longleftrightarrow> True"

lemma stream_zero_cases:
  "stream_zero s \<in> {AggConstraint zero_constraint, AggDecision zero_decision, AggChange zero_change, AggGate zero_gate,
     AggSession zero_session, AggAnchor zero_anchor_agg} \<union> range (AggScope \<circ> NewScope)"
  by (auto simp: stream_zero_def zero_scope_of_def)

lemma fold_own:
  "fold ConstraintIndex_Handle (map EvConstraint cs) ci = fold ConstraintIndex_on cs ci"
  "fold DecisionIndex_Handle (map EvDecision ds) di = fold DecisionIndex_on ds di"
  "fold ChangeIndex_Handle (map EvChange hs) hi = fold ChangeIndex_on hs hi"
  by (induction cs arbitrary: ci, simp_all) (induction ds arbitrary: di, simp_all, induction hs arbitrary: hi, simp_all)

lemma fold_map_id: "(\<And>x i. f (g x) i = i) \<Longrightarrow> fold f (map g xs) i = i"
  by (induction xs) simp_all

lemma Root_Decide_cases:
  assumes "Root_Decide a c ctx = Inr es"
  obtains (constraint) x m xs where "a = AggConstraint x" "c = CmdConstraint m" "es = map EvConstraint xs" "Constraint_Decide x m ctx = Inr xs"
  | (scope) x m xs where "a = AggScope x" "c = CmdScope m" "es = map EvScope xs" "Scope_Decide x m ctx = Inr xs"
  | (decision) x m xs where "a = AggDecision x" "c = CmdDecision m" "es = map EvDecision xs" "Decision_Decide x m ctx = Inr xs"
  | (change) x m xs where "a = AggChange x" "c = CmdChange m" "es = map EvChange xs" "Change_Decide x m ctx = Inr xs"
  | (gate) x m xs where "a = AggGate x" "c = CmdGate m" "es = map EvGate xs" "Gate_Decide x m ctx = Inr xs"
  | (session) x m xs where "a = AggSession x" "c = CmdSession m" "es = map EvSession xs" "Session_Decide x m ctx = Inr xs"
  | (anchor) x m xs where "a = AggAnchor x" "c = CmdAnchor m" "es = map EvAnchor xs" "Anchor_Decide x m ctx = Inr xs"
  using assms by (cases a; cases c) (simp_all add: lift_events_Inr, blast+)

interpretation constraints_view: stream_view constraint_shown "\<lambda>_. ConstraintIndex_Handle" rm_constraints
proof
  fix s show "constraint_shown (rm_constraints empty_models) s (stream_zero s)"
    using stream_zero_cases [of s] by (auto simp: zero_constraint_def)
next
  fix a c ctx es idx
  assume dec: "Root_Decide a c ctx = Inr es" and inv: "root_inv a" and own: "constraint_shown idx (cmd_Stream c) a"
  from dec show "constraint_shown (fold ConstraintIndex_Handle es idx) (cmd_Stream c) (Replay Root_Apply a es)"
  proof (cases rule: Root_Decide_cases)
    case (constraint x m xs)
    then show ?thesis
      using constraint_streams.own [of x m ctx xs idx] inv own by (auto simp: Replay_lift fold_own)
  qed (simp_all add: Replay_lift)
  show "constraint_shown (fold ConstraintIndex_Handle es idx) t b"
    if "t \<noteq> cmd_Stream c" "constraint_shown idx t b" for t b
    using dec
  proof (cases rule: Root_Decide_cases)
    case (constraint x m xs)
    then show ?thesis
      using constraint_streams.frame [of x m ctx xs] inv own that by (cases b) (auto simp: fold_own)
  qed (use that in \<open>simp_all add: fold_map_id\<close>)
qed (simp_all add: daemon_projectors_def)

interpretation decisions_view: stream_view decision_shown "\<lambda>_. DecisionIndex_Handle" rm_decisions
proof
  fix s show "decision_shown (rm_decisions empty_models) s (stream_zero s)"
    using stream_zero_cases [of s] by (auto simp: zero_decision_def)
next
  fix a c ctx es idx
  assume dec: "Root_Decide a c ctx = Inr es" and inv: "root_inv a" and own: "decision_shown idx (cmd_Stream c) a"
  from dec show "decision_shown (fold DecisionIndex_Handle es idx) (cmd_Stream c) (Replay Root_Apply a es)"
  proof (cases rule: Root_Decide_cases)
    case (decision x m xs)
    then show ?thesis
      using decision_streams.own [of x m ctx xs idx] inv own by (auto simp: Replay_lift fold_own)
  qed (simp_all add: Replay_lift)
  show "decision_shown (fold DecisionIndex_Handle es idx) t b"
    if "t \<noteq> cmd_Stream c" "decision_shown idx t b" for t b
    using dec
  proof (cases rule: Root_Decide_cases)
    case (decision x m xs)
    then show ?thesis
      using decision_streams.frame [of x m ctx xs] inv own that by (cases b) (auto simp: fold_own)
  qed (use that in \<open>simp_all add: fold_map_id\<close>)
qed (simp_all add: daemon_projectors_def)

interpretation changes_view: stream_view change_shown "\<lambda>_. ChangeIndex_Handle" rm_changes
proof
  fix s show "change_shown (rm_changes empty_models) s (stream_zero s)"
    using stream_zero_cases [of s] by (auto simp: zero_change_def)
next
  fix a c ctx es idx
  assume dec: "Root_Decide a c ctx = Inr es" and inv: "root_inv a" and own: "change_shown idx (cmd_Stream c) a"
  from dec show "change_shown (fold ChangeIndex_Handle es idx) (cmd_Stream c) (Replay Root_Apply a es)"
  proof (cases rule: Root_Decide_cases)
    case (change x m xs)
    then show ?thesis
      using change_streams.own [of x m ctx xs idx] inv own by (auto simp: Replay_lift fold_own)
  qed (simp_all add: Replay_lift)
  show "change_shown (fold ChangeIndex_Handle es idx) t b"
    if "t \<noteq> cmd_Stream c" "change_shown idx t b" for t b
    using dec
  proof (cases rule: Root_Decide_cases)
    case (change x m xs)
    then show ?thesis
      using change_streams.frame [of x m ctx xs] inv own that by (cases b) (auto simp: fold_own)
  qed (use that in \<open>simp_all add: fold_map_id\<close>)
qed (simp_all add: daemon_projectors_def)

text \<open>The session index is keyed by the stream of the record.\<close>

definition SessionIndex_project :: "string \<Rightarrow> event \<Rightarrow> session_index \<Rightarrow> session_index" where
  "SessionIndex_project s ev idx = (case ev of EvSession e \<Rightarrow> SessionIndex_on s e idx | _ \<Rightarrow> idx)"

lemma SessionIndex_project_simps [simp]:
  "SessionIndex_project s (EvSession e) idx = SessionIndex_on s e idx"
  "(\<And>e. ev \<noteq> EvSession e) \<Longrightarrow> SessionIndex_project s ev idx = idx"
  by (auto simp: SessionIndex_project_def split: event.splits)

lemma SessionIndex_Handle_project: "SessionIndex_Handle w ev idx = SessionIndex_project (e_Stream w) ev idx"
  by (cases ev) simp_all

lemma fold_session: "fold (SessionIndex_project s) (map EvSession es) idx = fold (SessionIndex_on s) es idx"
  by (induction es arbitrary: idx) simp_all

interpretation sessions_view: stream_view session_shown SessionIndex_project rm_sessions
proof
  fix s show "session_shown (rm_sessions empty_models) s (stream_zero s)"
    using stream_zero_cases [of s] by (auto simp: zero_session_def)
next
  fix a c ctx es idx
  assume dec: "Root_Decide a c ctx = Inr es" and inv: "root_inv a" and own: "session_shown idx (cmd_Stream c) a"
  let ?s = "cmd_Stream c"
  from dec show "session_shown (fold (SessionIndex_project ?s) es idx) ?s (Replay Root_Apply a es)"
  proof (cases rule: Root_Decide_cases)
    case (session x m xs)
    then show ?thesis
      using session_view.view_step [of x m ctx xs idx ?s] inv own by (auto simp: Replay_lift fold_session)
  qed (simp_all add: Replay_lift)
  show "session_shown (fold (SessionIndex_project ?s) es idx) t b"
    if "t \<noteq> ?s" "session_shown idx t b" for t b
    using dec
  proof (cases rule: Root_Decide_cases)
    case (session x m xs)
    then show ?thesis
      using session_view.view_frame [of x m ctx xs t ?s] inv own that by (cases b) (auto simp: fold_session)
  qed (use that in \<open>simp_all add: fold_map_id\<close>)
qed (simp_all add: daemon_projectors_def SessionIndex_Handle_project)

text \<open>
  The anchor index. It keeps the parsed anchor beside the key and does not keep the
  counters of the aggregate.
\<close>

definition anchor_abs :: "anchor_agg \<Rightarrow> anchor_summary" where
  "anchor_abs a = \<lparr>au_Key = aa_Key a, au_Anchor = (case ParseAnchor (aa_Key a) of Inr an \<Rightarrow> an | Inl _ \<Rightarrow> zero_anchor),
     au_Hash = aa_Hash a, au_State = aa_State a, au_Ref = aa_Ref a, au_MovedTo = aa_MovedTo a, au_UpdatedAt = aa_UpdatedAt a\<rparr>"

fun anchor_shown :: "anchor_index \<Rightarrow> string \<Rightarrow> aggregate_root \<Rightarrow> bool" where
  "anchor_shown idx s (AggAnchor a) \<longleftrightarrow>
     (aa_State a \<noteq> AStateNone \<longrightarrow> s = AnchorStream (aa_Key a) \<and> anc_get idx (aa_Key a) = anchor_abs a)"
| "anchor_shown idx s _ \<longleftrightarrow> True"

lemma Anchor_decide_sim:
  assumes "Anchor_Decide a m ctx = Inr es" "anchor_shown idx (AnchorStream (at_Key (Anchor_cmd_part m))) (AggAnchor a)"
  shows "anchor_shown (fold AnchorIndex_on es idx) (AnchorStream (at_Key (Anchor_cmd_part m))) (AggAnchor (Replay Anchor_Apply a es))"
    and "k \<noteq> at_Key (Anchor_cmd_part m) \<Longrightarrow> anc_get (fold AnchorIndex_on es idx) k = anc_get idx k"
  using assms
  by (cases m; auto simp: decide_defs anchor_abs_def zero_anchor_agg_def zero_anchor_summary_def AnchorStream_def Let_def
      split: if_splits sum.splits)+

lemma fold_anchor: "fold AnchorIndex_Handle (map EvAnchor es) idx = fold AnchorIndex_on es idx"
  by (induction es arbitrary: idx) simp_all

interpretation anchors_view: stream_view anchor_shown "\<lambda>_. AnchorIndex_Handle" rm_anchors
proof
  fix s show "anchor_shown (rm_anchors empty_models) s (stream_zero s)"
    using stream_zero_cases [of s] by (auto simp: zero_anchor_agg_def)
next
  fix a c ctx es idx
  assume dec: "Root_Decide a c ctx = Inr es" and own: "anchor_shown idx (cmd_Stream c) a"
  from dec show "anchor_shown (fold AnchorIndex_Handle es idx) (cmd_Stream c) (Replay Root_Apply a es)"
  proof (cases rule: Root_Decide_cases)
    case (anchor x m xs)
    then show ?thesis
      using Anchor_decide_sim(1) [of x m ctx xs idx] own unfolding anchor by (simp add: Replay_lift fold_anchor)
  qed (simp_all add: Replay_lift)
  show "anchor_shown (fold AnchorIndex_Handle es idx) t b"
    if "t \<noteq> cmd_Stream c" "anchor_shown idx t b" for t b
    using dec
  proof (cases rule: Root_Decide_cases)
    case (anchor x m xs)
    then have "anc_get (fold AnchorIndex_on xs idx) k = anc_get idx k" if "AnchorStream k \<noteq> cmd_Stream c" for k
      using Anchor_decide_sim(2) [of x m ctx xs idx k] own that by auto
    then show ?thesis
      using that anchor by (cases b) (auto simp: fold_anchor)
  qed (use that in \<open>simp_all add: fold_map_id\<close>)
qed (simp_all add: daemon_projectors_def)

text \<open>The scope index: levels and caps of the scopes with a valid key.\<close>

definition scope_entry_of :: "scope_index \<Rightarrow> scope_key \<Rightarrow> scope \<Rightarrow> bool" where
  "scope_entry_of idx k a \<longleftrightarrow>
     sc_Key a = k \<and> se_Level (ScopeIndex_get idx k) = sc_Level a \<and> se_Cap (ScopeIndex_get idx k) = sc_Cap a"

fun scope_shown :: "scope_index \<Rightarrow> string \<Rightarrow> aggregate_root \<Rightarrow> bool" where
  "scope_shown idx s (AggScope a) \<longleftrightarrow>
     (\<forall>k. ScopeKey_Validate k = None \<longrightarrow> s = ScopeStream k \<longrightarrow> scope_entry_of idx k a)"
| "scope_shown idx s _ \<longleftrightarrow> True"

lemma ScopeIndex_get_put:
  "ScopeIndex_get (map_put (ScopeKey_String k) e idx) k' =
     (if ScopeKey_String k' = ScopeKey_String k then e else ScopeIndex_get idx k')"
  by (simp add: ScopeIndex_get_def update_conv)

lemma Scope_Decide_key: "Scope_Decide s m ctx = Inr es \<Longrightarrow> ScopeKey_Validate (Scope_cmd_Key m) = None"
  by (cases m) (auto simp: decide_defs split: option.splits)

lemma Scope_decide_sim:
  assumes "Scope_Decide s m ctx = Inr es" "scope_entry_of idx (Scope_cmd_Key m) s"
  shows "scope_entry_of (fold (ScopeIndex_Handle \<circ> EvScope) es idx) (Scope_cmd_Key m) (Replay Scope_Apply s es)"
    and "ScopeKey_String k \<noteq> ScopeKey_String (Scope_cmd_Key m) \<Longrightarrow>
      ScopeIndex_get (fold (ScopeIndex_Handle \<circ> EvScope) es idx) k = ScopeIndex_get idx k"
  using assms
  by (cases m; auto simp: decide_defs scope_entry_of_def ScopeIndex_get_put Let_def split: option.splits if_splits)+

lemma ScopeStream_inject:
  assumes "ScopeStream k = ScopeStream k'" "ScopeKey_Validate k = None" "ScopeKey_Validate k' = None"
  shows "k = k'"
  using assms ScopeKey_String_inject [OF ScopeKey_Validate_axes ScopeKey_Validate_axes] by (simp add: ScopeStream_def)

interpretation scopes_view: stream_view scope_shown "\<lambda>_. ScopeIndex_Handle" rm_scopes
proof
  fix s show "scope_shown (rm_scopes empty_models) s (stream_zero s)"
  proof (cases "\<exists>k. ScopeKey_Validate k = None \<and> s = ScopeStream k")
    case True
    then obtain k where k: "ScopeKey_Validate k = None" "s = ScopeStream k"
      by blast
    then have "stream_zero s = AggScope (NewScope k)"
      using zero_scope_of_valid by (simp add: stream_zero_def ScopeStream_def)
    then show ?thesis
      using k ScopeStream_inject
      by (auto simp: scope_entry_of_def empty_models_def ScopeIndex_get_def NewScope_def)
  next
    case False
    then show ?thesis
      by (cases "stream_zero s") (simp_all del: not_None_eq)
  qed
next
  fix a c ctx es idx
  assume dec: "Root_Decide a c ctx = Inr es" and own: "scope_shown idx (cmd_Stream c) a"
  from dec show "scope_shown (fold ScopeIndex_Handle es idx) (cmd_Stream c) (Replay Root_Apply a es)"
  proof (cases rule: Root_Decide_cases)
    case (scope x m xs)
    note key = Scope_Decide_key [OF scope(4)]
    have "scope_entry_of idx (Scope_cmd_Key m) x"
      using own scope key by simp
    then show ?thesis
      using Scope_decide_sim(1) [OF scope(4)] ScopeStream_inject [OF _ key] scope(1-3) by (auto simp: Replay_lift fold_map)
  qed (simp_all add: Replay_lift)
  show "scope_shown (fold ScopeIndex_Handle es idx) t b"
    if "t \<noteq> cmd_Stream c" "scope_shown idx t b" for t b
    using dec
  proof (cases rule: Root_Decide_cases)
    case (scope x m xs)
    note key = Scope_Decide_key [OF scope(4)]
    have "scope_entry_of idx (Scope_cmd_Key m) x"
      using own scope key by simp
    then have "ScopeIndex_get (fold (ScopeIndex_Handle \<circ> EvScope) xs idx) k = ScopeIndex_get idx k" if "ScopeStream k \<noteq> cmd_Stream c" for k
      using Scope_decide_sim(2) [OF scope(4), of idx k] that scope(2) by (auto simp: ScopeStream_def)
    then show ?thesis
      using that scope(3) by (cases b) (auto simp: fold_map scope_entry_of_def)
  qed (use that in \<open>simp_all add: fold_map_id\<close>)
qed (simp_all add: daemon_projectors_def)

end
