(* ===== verification/System_Properties.thy ===== *)
theory System_Properties
  imports Views Sample_Inputs
begin

section \<open>Properties of the running system\<close>

text \<open>
  What holds of every run of the daemon's pipeline over its ledger: the record verifies,
  every stream is a history of its aggregate, the read models are those of a rebuild,
  accepted commands are written, retries are recognised.
\<close>

subsection \<open>A sample run\<close>

definition sample_start :: command where
  "sample_start = CmdSession (StartSession \<lparr>sn_Cmd = \<lparr>sm_Tool = ''claude-code'', sm_ID = ''s1'', sm_Idem = ''k1''\<rparr>,
     sn_Repo = ''keelage'', sn_Agent = \<lparr>ar_Kind = ActorAgent, ar_ID = ''bot'', ar_Key = '''', ar_Owner = ''ada''\<rparr>\<rparr>)"

definition sample_started :: event where
  "sample_started = EvSession (SessionStarted \<lparr>s1_ID = ''s1'', s1_Tool = ''claude-code'', s1_Repo = ''keelage'',
     s1_Agent = \<lparr>ar_Kind = ActorAgent, ar_ID = ''bot'', ar_Key = '''', ar_Owner = ''ada''\<rparr>, s1_At = 5\<rparr>)"

definition sample_refusal :: rejection where
  "sample_refusal = Reject ''unauthenticated'' ''%v'' [the (Actor_Validate zero_actor)]"

definition sample_rejected :: event where
  "sample_rejected = EvRejected \<lparr>rj_Command = ''StartSession'', rj_Target = ''session/claude-code/s1'',
     rj_Code = Code sample_refusal, rj_Reason = Reason sample_refusal, rj_Actor = zero_actor\<rparr>"

definition sample_marshal :: "event \<Rightarrow> go_error + bytes" where
  "sample_marshal e = (if e = sample_started then Inr ''body'' else if e = sample_rejected then Inr ''refused''
     else Inl ''unsupported value'')"

definition sample_unmarshal :: "codec_key \<Rightarrow> bytes \<Rightarrow> go_error + event" where
  "sample_unmarshal k b =
     (if k = event_kv sample_started \<and> b = ''body'' then Inr sample_started
      else if k = event_kv sample_rejected \<and> b = ''refused'' then Inr sample_rejected
      else Inl ''unexpected end of JSON input'')"

abbreviation sample_options :: "(mem_ledger, read_models) options" where
  "sample_options \<equiv> daemon_options sample_digest sample_json sample_marshal sample_unmarshal"

lemma sample_json_roundtrip: "json_roundtrip sample_marshal sample_unmarshal"
  by (auto simp: json_roundtrip_def sample_marshal_def sample_unmarshal_def split: if_splits)

text \<open>The state after the sample command, from an empty ledger.\<close>

definition sample_ledger :: mem_ledger where
  "sample_ledger = fst (snd (Pipeline_Handle sample_options app_handlers 5 ada sample_start (NewLedger None, empty_models)))"

definition sample_models :: read_models where
  "sample_models = snd (snd (Pipeline_Handle sample_options app_handlers 5 ada sample_start (NewLedger None, empty_models)))"

lemma sample_handle:
  "\<exists>res l p. Pipeline_Handle sample_options app_handlers 5 ada sample_start (NewLedger None, empty_models) = ((res, None), (l, p)) \<and>
    re_Events res = [sample_started] \<and> re_Version res = 1 \<and> length (l_all l) = 1"
proof -
  obtain zero where zero: "map_of app_handlers (cmd_Kind sample_start) = Some zero"
    "zero (cmd_Stream sample_start) = AggSession zero_session"
    using handler_of_command [of sample_start] by (auto simp: sample_start_def)
  have enc: "encode sample_options sample_started = Inr ''body''"
    using event_kv_registered [of sample_started] by (simp add: encode_def Codec_Encode_def sample_marshal_def)
  have kv: "event_kv sample_started = (''SessionStarted'', 1)"
    by (simp add: sample_started_def)
  have stream: "cmd_Stream sample_start = ''session/claude-code/s1''" "cmd_Idem sample_start = ''k1''"
    by (simp_all add: sample_start_def SessionStream_def)
  have valid: "Actor_Validate ada = None"
    by (simp add: Actor_Validate_def ada_def)
  have ctx: "ProjectionContext_Build sample_digest [] [] sample_start = Inr \<lparr>Now = 0, Actor = zero_actor, Autonomy = L0,
      Cap = MaxLevel, Policy = zero_policy, Judges = [], ConstraintsHash = ''''\<rparr>"
    by (simp add: ProjectionContext_Build_def sample_start_def Effective_def Resolve_def go_sort_def SnapshotHash_def InForce_def)
  have dec: "Root_Decide (AggSession zero_session) sample_start dctx = Inr [sample_started]" if "Now dctx = 5" for dctx
    using that by (simp add: sample_start_def sample_started_def zero_session_def lift_events_def Actor_Validate_def)
  show ?thesis
    unfolding Pipeline_Handle_def zero(1) option.case handle_def valid stream Let_def
    by (simp add: mem_port_def mem_Lookup_def NewLedger_def decide_step_def stream mem_Read_def map_get_def zero [unfolded stream]
        context_for_def ctx empty_models_def dec append_events_def enc kv Let_def mem_Append_def seal_batch.simps
        Seal_def metaHash_def hash_sum_def sealedMeta_def sample_json_def sample_digest_def sign_unsigned_def
        commit_one_def blank_envelope_def publish_total [OF daemon_projectors_total])
qed

lemma sample_step:
  "\<exists>res. Pipeline_Handle sample_options app_handlers 5 ada sample_start (NewLedger None, empty_models) =
    ((res, None), (sample_ledger, sample_models)) \<and> re_Events res = [sample_started] \<and> re_Version res = 1"
  "length (l_all sample_ledger) = 1"
  using sample_handle by (auto simp: sample_ledger_def sample_models_def)

lemma sample_reached:
  "daemon_reaches sample_digest sample_json sample_marshal sample_unmarshal None sample_ledger sample_models"
  using sample_step(1) reach_step [OF reach_start] by blast

lemma sample_streams: "cmd_Stream sample_start = ''session/claude-code/s1''" "cmd_Idem sample_start = ''k1''"
  "cmd_Kind sample_start = ''StartSession''"
  by (simp_all add: sample_start_def SessionStream_def)

lemma sample_sealing: "sealing_works sample_json None"
  by (simp add: sealing_works_def sample_json_def)

lemma ada_valid: "Actor_Validate ada = None"
  by (simp add: Actor_Validate_def ada_def)

lemma sample_fresh: "fresh_key (NewLedger None) sample_start"
  by (simp add: fresh_key_def mem_Lookup_def NewLedger_def)

subsection \<open>The record\<close>

text \<open>
  C1. Every run of the daemon, from an empty ledger through any sequence of commands of any actors, keeps
  the record sound: the hash chain verifies from genesis, every stream but the one of rejections
  decodes to a history of decisions of its own aggregate, and the aggregate replayed from it
  satisfies its invariant. The JSON package decodes what it encoded.
\<close>

theorem daemon_runs_sound:
  assumes "json_roundtrip mar un" and "daemon_reaches H J mar un sg l p"
  shows "VerifyChain H J [] (l_all l) = Inr (log_head (l_all l)) \<and>
    (\<forall>s. s \<noteq> RejectedStream \<longrightarrow>
      (\<exists>evs. list_all2 (decodes (daemon_options H J mar un)) (stream_log (l_all l) s) evs \<and>
        history Root_Decide Root_Apply (stream_zero s) evs \<and> root_inv (Replay Root_Apply (stream_zero s) evs)))"
proof -
  note ok = daemon_ok [OF assms]
  have "VerifyChain H J [] (l_all l) = Inr (log_head (l_all l))"
    by (rule memory.chain_verifies [OF ok(1)])
  moreover have "\<exists>evs. list_all2 (decodes (daemon_options H J mar un)) (stream_log (l_all l) s) evs \<and>
        history Root_Decide Root_Apply (stream_zero s) evs \<and> root_inv (Replay Root_Apply (stream_zero s) evs)"
    if ns: "s \<noteq> RejectedStream" for s
  proof -
    obtain evs where "stream_history (daemon_options H J mar un) (l_all l) s evs"
      using ok(2) [unfolded streams_ok_def, rule_format, OF ns] ..
    then show ?thesis
      using root_agg.history_inv by (auto simp: stream_history_def)
  qed
  ultimately show ?thesis
    by blast
qed

theorem daemon_runs_sound_witness:
  "VerifyChain sample_digest sample_json [] (l_all sample_ledger) = Inr (log_head (l_all sample_ledger)) \<and>
    (\<exists>evs. list_all2 (decodes sample_options) (stream_log (l_all sample_ledger) ''session/claude-code/s1'') evs \<and>
      root_inv (Replay Root_Apply (AggSession zero_session) evs))"
proof -
  have "stream_zero ''session/claude-code/s1'' = AggSession zero_session"
    by (simp add: stream_zero_def)
  then show ?thesis
    using daemon_runs_sound [OF sample_json_roundtrip sample_reached]
    by (metis (no_types, lifting) sample_streams(1) cmd_Stream_not_rejected)
qed

text \<open>
  C3. The read models never drift from the record: in every state that a run reaches, rebuilding them from
  the ledger returns (the paging loop ends), reports no error and the number of the last record, and
  gives exactly the models that the pipeline maintained command by command.
\<close>

theorem daemon_rebuild:
  assumes "json_roundtrip mar un" and "daemon_reaches H J mar un sg l p"
  shows "Rebuild (daemon_options H J mar un) l empty_models = Some (int (length (l_all l)), None, p)"
proof -
  note ok = daemon_ok [OF assms]
  obtain evs where evs: "list_all2 (decodes (daemon_options H J mar un)) (l_all l) evs"
    "p = project_log daemon_projectors (l_all l) evs empty_models"
    using ok(3) by (auto simp: models_ok_def)
  show ?thesis
    using memory.replay_returns [of "daemon_options H J mar un" H J l 0 evs empty_models] evs daemon_projectors_total ok(1)
    by (simp add: Rebuild_def)
qed

theorem daemon_rebuild_witness: "Rebuild sample_options sample_ledger empty_models = Some (1, None, sample_models)"
  using daemon_rebuild [OF sample_json_roundtrip sample_reached] sample_step(2) by simp

subsection \<open>The read models\<close>

definition models_show :: "read_models \<Rightarrow> string \<Rightarrow> aggregate_root \<Rightarrow> bool" where
  "models_show p s a \<longleftrightarrow>
     constraint_shown (rm_constraints p) s a \<and> decision_shown (rm_decisions p) s a \<and> change_shown (rm_changes p) s a \<and>
     session_shown (rm_sessions p) s a \<and> anchor_shown (rm_anchors p) s a \<and> scope_shown (rm_scopes p) s a"

lemma history_shown:
  assumes "json_roundtrip mar un" and "daemon_reaches H J mar un sg l p" and "s \<noteq> RejectedStream"
    and "stream_history (daemon_options H J mar un) (l_all l) s evs"
  shows "models_show p s (Replay Root_Apply (stream_zero s) evs)"
proof -
  have "stream_history (daemon_options H J mar un) (l_all (fst (l, p))) s evs"
    using assms(4) by simp
  note shown = assms(1-3) this
  show ?thesis
    unfolding models_show_def
    using constraints_view.run_shown [OF shown] decisions_view.run_shown [OF shown] changes_view.run_shown [OF shown]
      sessions_view.run_shown [OF shown] anchors_view.run_shown [OF shown] scopes_view.run_shown [OF shown]
    by simp
qed

text \<open>
  C2. The read models refine the record: in every state of a run, and for every stream, the entry of the
  index of its kind (constraints, decisions, changes, sessions, anchors, scopes) is the summary of
  the aggregate that replaying the stream gives, however the commands on different streams interleaved.
\<close>

theorem daemon_models_show:
  assumes "json_roundtrip mar un" and "daemon_reaches H J mar un sg l p" and "s \<noteq> RejectedStream"
  shows "\<exists>evs. list_all2 (decodes (daemon_options H J mar un)) (stream_log (l_all l) s) evs \<and>
    models_show p s (Replay Root_Apply (stream_zero s) evs)"
proof -
  obtain evs where "stream_history (daemon_options H J mar un) (l_all l) s evs"
    using daemon_ok(2) [OF assms(1,2)] assms(3) by (auto simp: streams_ok_def)
  then show ?thesis
    using history_shown [OF assms] by (auto simp: stream_history_def)
qed

theorem daemon_models_show_witness:
  "\<exists>evs. list_all2 (decodes sample_options) (stream_log (l_all sample_ledger) (cmd_Stream sample_start)) evs \<and>
    models_show sample_models (cmd_Stream sample_start) (Replay Root_Apply (stream_zero (cmd_Stream sample_start)) evs)"
  by (rule daemon_models_show [OF sample_json_roundtrip sample_reached cmd_Stream_not_rejected])

subsection \<open>Commands\<close>

text \<open>
  C4. What a command does: for a valid actor and a new idempotency key, the outcome is that of the
  aggregate replayed from the command's stream, deciding with the current time, the actor, the
  effective autonomy and cap of the command's scope and the default policy. A rejection is
  returned and leaves every stream but that of rejections as it was; an empty decision changes nothing; decided
  events are written to the stream, all of them, when no error is returned, and none of them when one is.
\<close>

theorem command_outcome:
  assumes "json_roundtrip mar un" and "daemon_reaches H J mar un sg l p"
    and "Actor_Validate actor = None" and "fresh_key l cmd"
    and "Pipeline_Handle (daemon_options H J mar un) app_handlers now actor cmd (l, p) = (out, st')"
  shows "\<exists>evs dctx. list_all2 (decodes (daemon_options H J mar un)) (stream_log (l_all l) (cmd_Stream cmd)) evs \<and>
    Now dctx = now \<and> Actor dctx = actor \<and> Policy dctx = DefaultPolicy \<and>
    (Autonomy dctx, Cap dctx) = Effective (rm_scopes p) (case TargetScope cmd of Some k \<Rightarrow> k | None \<Rightarrow> zero_scope_key) \<and>
    decision_outcome (daemon_options H J mar un) cmd
      (Root_Decide (Replay Root_Apply (stream_zero (cmd_Stream cmd)) evs) cmd dctx) (l, p) out st'"
  using fresh_outcome [OF assms] unfolding stream_history_def by blast

theorem command_outcome_witness:
  "\<exists>res evs dctx. Now dctx = 5 \<and> Actor dctx = ada \<and>
    decision_outcome sample_options sample_start
      (Root_Decide (Replay Root_Apply (stream_zero (cmd_Stream sample_start)) evs) sample_start dctx)
      (NewLedger None, empty_models) (res, None) (sample_ledger, sample_models)"
  using sample_step(1) command_outcome [OF sample_json_roundtrip reach_start ada_valid sample_fresh] by blast

text \<open>
  C5. Accepted commands are written: when the aggregate decides events and these encode, the actor is valid,
  the key is new, metadata with valid levels encodes and the signer signs, then the pipeline returns the events
  without an error and they are in the ledger.
\<close>

theorem accepted_command_written:
  assumes "json_roundtrip mar un" and "daemon_reaches H J mar un sg l p" and "sealing_works J sg"
    and "Actor_Validate actor = None" and "fresh_key l cmd"
    and "stream_history (daemon_options H J mar un) (l_all l) (cmd_Stream cmd) evs"
    and "context_for (daemon_options H J mar un) now actor cmd p = Inr dctx"
    and "Root_Decide (Replay Root_Apply (stream_zero (cmd_Stream cmd)) evs) cmd dctx = Inr events" and "events \<noteq> []"
    and "\<forall>ev \<in> set events. \<exists>b. mar ev = Inr b"
  shows "\<exists>res l' p'. Pipeline_Handle (daemon_options H J mar un) app_handlers now actor cmd (l, p) = ((res, None), (l', p')) \<and>
    re_Events res = events \<and> re_Version res = int (length evs + length events) \<and>
    written (daemon_options H J mar un) cmd events (l_all l) (l_all l')"
  using accepted_written [OF assms] .

theorem accepted_command_written_witness:
  "\<exists>res l' p'. Pipeline_Handle sample_options app_handlers 5 ada sample_start (NewLedger None, empty_models) = ((res, None), (l', p')) \<and>
    re_Events res = [sample_started] \<and> re_Version res = 1 \<and> written sample_options sample_start [sample_started] [] (l_all l')"
proof -
  have hist: "stream_history sample_options (l_all (NewLedger None)) (cmd_Stream sample_start) []"
    by (simp add: stream_history_def NewLedger_def history_start)
  obtain dctx where ctx: "context_for sample_options 5 ada sample_start empty_models = Inr dctx" "Now dctx = 5"
    using daemon_context by metis
  have dec: "Root_Decide (Replay Root_Apply (stream_zero (cmd_Stream sample_start)) []) sample_start dctx = Inr [sample_started]"
    using ctx(2) by (simp add: sample_streams stream_zero_def, simp add: sample_start_def sample_started_def zero_session_def
        lift_events_def Actor_Validate_def)
  show ?thesis
    using accepted_command_written [OF sample_json_roundtrip reach_start sample_sealing ada_valid sample_fresh hist ctx(1) dec]
    by (simp add: sample_marshal_def NewLedger_def)
qed

text \<open>
  C7. Rejections are on the record: when a command is refused, by the check of its actor or by its aggregate, and
  the rejection encodes and seals, exactly one record is appended, in the rejected stream; it carries the kind and the stream of the
  command, the code, the reason and the actor. No error hides behind the rejection and no read model but the cursor changes.
\<close>

theorem rejection_on_record:
  assumes "json_roundtrip mar un" and "daemon_reaches H J mar un sg l p" and "sealing_works J sg"
    and "Pipeline_Handle (daemon_options H J mar un) app_handlers now actor cmd (l, p) = ((res, Some (ErrRejected rej e)), (l', p'))"
    and "mar (EvRejected \<lparr>rj_Command = cmd_Kind cmd, rj_Target = cmd_Stream cmd, rj_Code = Code rej, rj_Reason = Reason rej,
      rj_Actor = actor\<rparr>) = Inr body"
  shows "e = None \<and> p' = p\<lparr>rm_cursor := rm_cursor p'\<rparr> \<and>
    rejection_recorded (daemon_options H J mar un) \<lparr>rj_Command = cmd_Kind cmd, rj_Target = cmd_Stream cmd, rj_Code = Code rej,
      rj_Reason = Reason rej, rj_Actor = actor\<rparr> l l'"
proof -
  note ok = daemon_ok [OF assms(1,2)]
  have works: "sealing_works J (l_signer l)"
    using assms(3) daemon_scopes_signer [OF assms(2)] by simp
  note rr = rejected_only_by_recordRejection [OF assms(4)]
  have "p' = p\<lparr>rm_cursor := rm_cursor p'\<rparr>"
    using rejection_step [OF ok(1) rr] by (auto simp: rejected_step_def daemon_projectors_def)
  then show ?thesis
    using recordRejection_succeeds [OF ok(4,1) works refl assms(5) rr] by simp
qed

theorem rejection_on_record_witness:
  "\<exists>res l' p'. Pipeline_Handle sample_options app_handlers 5 zero_actor sample_start (NewLedger None, empty_models) =
      ((res, Some (ErrRejected sample_refusal None)), (l', p')) \<and> length (l_all l') = 1"
proof -
  obtain res e l' p' where h: "Pipeline_Handle sample_options app_handlers 5 zero_actor sample_start (NewLedger None, empty_models) =
      ((res, Some (ErrRejected sample_refusal e)), (l', p'))"
  proof -
    obtain zero where "map_of app_handlers (cmd_Kind sample_start) = Some zero"
      using handler_of_command by blast
    moreover obtain err where err: "Actor_Validate zero_actor = Some err"
      by (simp add: Actor_Validate_def zero_actor_def)
    moreover obtain e l' p' where "recordRejection sample_options (cmd_Stream sample_start) zero_actor sample_start 5 sample_refusal
        (NewLedger None, empty_models) = (ErrRejected sample_refusal e, (l', p'))"
      unfolding recordRejection_def Let_def by (metis (no_types, lifting) case_prod_conv surj_pair)
    ultimately show thesis
      using that by (simp add: Pipeline_Handle_def handle_def Let_def sample_refusal_def)
  qed
  have "sample_marshal (EvRejected \<lparr>rj_Command = cmd_Kind sample_start, rj_Target = cmd_Stream sample_start,
      rj_Code = Code sample_refusal, rj_Reason = Reason sample_refusal, rj_Actor = zero_actor\<rparr>) = Inr ''refused''"
    by (simp add: sample_marshal_def sample_streams sample_rejected_def sample_started_def)
  from rejection_on_record [OF sample_json_roundtrip reach_start sample_sealing h this] h show ?thesis
    by (auto simp: rejection_recorded_def NewLedger_def)
qed

text \<open>
  C6. Retries are safe: once a command with an idempotency key has been written, every later command of a valid
  actor on the same stream with the same key, after any other commands and whatever its content, changes nothing and
  is answered as a replay at the version of the first event that was written.
\<close>

theorem retry_replayed:
  assumes "json_roundtrip mar un" and "daemon_reaches H J mar un sg l p"
    and "Pipeline_Handle (daemon_options H J mar un) app_handlers now actor cmd (l, p) = ((res, err), st1)"
    and "re_Events res \<noteq> []" and "cmd_Idem cmd \<noteq> ''''"
    and "reachable (daemon_options H J mar un) st1 (l2, p2)"
    and "Actor_Validate actor' = None" and "cmd_Stream cmd' = cmd_Stream cmd" and "cmd_Idem cmd' = cmd_Idem cmd"
  shows "Pipeline_Handle (daemon_options H J mar un) app_handlers now' actor' cmd' (l2, p2) =
    ((\<lparr>re_Stream = cmd_Stream cmd, re_Version = re_Version res - int (length (re_Events res)) + 1, re_Range = None,
       re_Events = [], re_Replayed = True\<rparr>, None), (l2, p2))"
proof -
  let ?opt = "daemon_options H J mar un"
  note ok = daemon_ok [OF assms(1,2)]
  obtain x xs where x: "l_all (fst st1) = l_all l @ x # xs" "e_Stream x = cmd_Stream cmd" "e_Idem x = cmd_Idem cmd"
    "e_Ver x = re_Version res - int (length (re_Events res)) + 1" "ledger_inv H J (fst st1)"
    using written_first [OF assms(1-4)] by blast
  have reach1: "daemon_reaches H J mar un sg (fst st1) (snd st1)"
    using reach_step [OF assms(2,3)] by simp
  note ok1 = daemon_ok [OF assms(1) reach1]
  have "\<exists>ext. l_all (fst (l2, p2)) = l_all (fst st1) @ ext" and inv2: "ledger_inv H J (fst (l2, p2))"
    using memory.reachable_log_prefix [OF assms(6) _ _ ok(4) ok1(1,2)] memory.reachable_ok [OF assms(6) _ _ ok(4) ok1(1,2)]
    by simp_all
  then obtain ext where "l_all l2 = l_all l @ x # xs @ ext"
    using x(1) by auto
  from written_key_found [OF _ this x(2,3) assms(5)] have "mem_Lookup l2 (cmd_Stream cmd) (cmd_Idem cmd) = Inr x"
    using inv2 by simp
  then show ?thesis
    using assms(5,7-9) handler_of_command [of cmd'] x(4)
    by (auto simp: Pipeline_Handle_def handle_def mem_port_def zero_result_def)
qed

theorem retry_replayed_witness:
  "Pipeline_Handle sample_options app_handlers 9 ada sample_start (sample_ledger, sample_models) =
    ((\<lparr>re_Stream = ''session/claude-code/s1'', re_Version = 1, re_Range = None, re_Events = [], re_Replayed = True\<rparr>, None),
     (sample_ledger, sample_models))"
proof -
  obtain res where r: "Pipeline_Handle sample_options app_handlers 5 ada sample_start (NewLedger None, empty_models) =
    ((res, None), (sample_ledger, sample_models))" "re_Events res = [sample_started]" "re_Version res = 1"
    using sample_step(1) by blast
  show ?thesis
    using retry_replayed [OF sample_json_roundtrip reach_start r(1) _ _ reach_start ada_valid refl refl, of 9] r(2,3)
    by (simp add: sample_streams)
qed

end
