(* ===== verification/Team.thy ===== *)
theory Team
  imports Rebuild Indexes Runtime
begin

section \<open>The team server\<close>

text \<open>
  \<^verbatim>\<open>internal/app/team.go\<close> with the objects of \<^verbatim>\<open>internal/port/sync.go\<close> and \<^verbatim>\<open>internal/port/ports.go\<close>: one
  tenant's ledger, read models and pipeline, the receiver of pushed records, the pages of
  the team layer and the gate broker. A tenant's state is the pair of its ledger and its
  read models, as \<^verbatim>\<open>Orgs.Get\<close> built or found it; its mutex makes each operation a step. Signatures and the registry of
  daemons are arguments. An operation that replays the ledger may not return: \<open>None\<close>.
\<close>

subsection \<open>What is shared\<close>

definition Shareable :: "string \<Rightarrow> bool" where
  "Shareable stream = list_ex (HasPrefix stream)
     [''constraint/'', ''decision/'', ''scope/'', ''anchor/'', ''change/'', ''gate/'', ''session/'']"

definition TeamLayer :: "string \<Rightarrow> bool" where
  "TeamLayer stream = list_ex (HasPrefix stream) [''constraint/'', ''decision/'', ''scope/'', ''anchor/'']"

subsection \<open>GateIndex\<close>

type_synonym gate_index = "(ID \<times> gate) list"

definition GateIndex_Handle :: "envelope \<Rightarrow> event \<Rightarrow> gate_index \<Rightarrow> gate_index" where
  "GateIndex_Handle e ev g =
     (if \<not> HasPrefix (e_Stream e) ''gate/'' then g
      else let i = TrimPrefix (e_Stream e) ''gate/''; old = map_get zero_gate g i in
        map_put i (case ev of EvGate v \<Rightarrow> Gate_Apply old v | _ \<Rightarrow> old) g)"

definition GateIndex_Get :: "gate_index \<Rightarrow> ID \<Rightarrow> gate \<times> bool" where
  "GateIndex_Get g i = (map_get zero_gate g i, map_of g i \<noteq> None)"

definition GateIndex_List :: "gate_index \<Rightarrow> gate_state \<Rightarrow> gate list" where
  "GateIndex_List g state =
     go_sort (\<lambda>a b. ga_OpenedAt a > ga_OpenedAt b)
       (filter (\<lambda>v. state = GateStateNone \<or> ga_State v = state) (map snd g))"

subsection \<open>Org\<close>

record server_models =
  sv_scopes :: scope_index
  sv_constraints :: constraint_index
  sv_changes :: change_index
  sv_anchors :: anchor_index
  sv_decisions :: decision_index
  sv_gates :: gate_index
  sv_cursor :: int

definition empty_server :: server_models where
  "empty_server = \<lparr>sv_scopes = [], sv_constraints = [], sv_changes = [], sv_anchors = [], sv_decisions = [],
     sv_gates = [], sv_cursor = 0\<rparr>"

definition server_projectors :: "server_models projector list" where
  "server_projectors =
     [(''scope_index'', \<lambda>e ev p. (None, p\<lparr>sv_scopes := ScopeIndex_Handle ev (sv_scopes p)\<rparr>)),
      (''constraint_current'', \<lambda>e ev p. (None, p\<lparr>sv_constraints := ConstraintIndex_Handle ev (sv_constraints p)\<rparr>)),
      (''change_current'', \<lambda>e ev p. (None, p\<lparr>sv_changes := ChangeIndex_Handle ev (sv_changes p)\<rparr>)),
      (''anchor_current'', \<lambda>e ev p. (None, p\<lparr>sv_anchors := AnchorIndex_Handle ev (sv_anchors p)\<rparr>)),
      (''decision_current'', \<lambda>e ev p. (None, p\<lparr>sv_decisions := DecisionIndex_Handle ev (sv_decisions p)\<rparr>)),
      (''gate_current'', \<lambda>e ev p. (None, p\<lparr>sv_gates := GateIndex_Handle e ev (sv_gates p)\<rparr>)),
      (''cursor'', \<lambda>e ev p. (None, p\<lparr>sv_cursor := Cursor_Handle e (sv_cursor p)\<rparr>))]"

text \<open>What a tenant's runtime holds: the pipeline's options, origin lookup, verification of signatures and the registry of daemons.\<close>

record 'l org_config =
  oc_Options :: "('l, server_models) options"
  oc_H :: digest
  oc_J :: meta_json
  oc_FindOrigin :: "'l \<Rightarrow> string \<Rightarrow> int \<Rightarrow> ledger_error + int"
  oc_KeysVerify :: "string \<Rightarrow> hash \<Rightarrow> bytes \<Rightarrow> bool"
  oc_DaemonKey :: "string \<Rightarrow> string \<Rightarrow> ledger_error + (string \<times> string)"

definition org_options :: "digest \<Rightarrow> 'l port_ledger \<Rightarrow> (event \<Rightarrow> go_error + bytes) \<Rightarrow> (codec_key \<Rightarrow> bytes \<Rightarrow> go_error + event) \<Rightarrow>
    policy \<Rightarrow> ('l, server_models) options" where
  "org_options H P marshal unmarshal policy = new_options
     \<lparr>o_Ledger = P, o_Codec = app_codec, o_Marshal = marshal, o_Unmarshal = unmarshal,
      o_Context = (\<lambda>p cmd. ProjectionContext_Build H (sv_scopes p) (sv_constraints p) cmd),
      o_Policy = policy, o_Projectors = server_projectors\<rparr>"

definition catchUp :: "('l, server_models) options \<Rightarrow> 'l \<times> server_models \<Rightarrow> (go_error option \<times> ('l \<times> server_models)) option" where
  "catchUp opt st =
     (case pl_Head (o_Ledger opt) (fst st) of
        Inl err \<Rightarrow> Some (Some (ledger_error_string err), st)
      | Inr head \<Rightarrow>
          if hd_Seq head \<le> sv_cursor (snd st) then Some (None, st)
          else (case Replay_ledger opt (fst st) (sv_cursor (snd st)) (snd st) of
                  None \<Rightarrow> None
                | Some (_, err, p) \<Rightarrow> Some (err, (fst st, p))))"

datatype team_error = TeamNotFound string | TeamForbidden string | TeamError go_error | TeamApp app_error

text \<open>\<^verbatim>\<open>Orgs.Get\<close>: tenants are opened on first use; \<open>Open\<close> gives the ledger of a tenant.\<close>

definition Orgs_Get :: "('l, server_models) options \<Rightarrow> (string \<Rightarrow> go_error + 'l) \<Rightarrow> string \<Rightarrow> (string \<times> ('l \<times> server_models)) list \<Rightarrow>
    ((team_error + ('l \<times> server_models)) \<times> (string \<times> ('l \<times> server_models)) list) option" where
  "Orgs_Get opt Open i orgs =
     (if i = '''' then Some (Inl (TeamError ''app: org required''), orgs)
      else case map_of orgs i of
        Some o' \<Rightarrow> Some (Inr o', orgs)
      | None \<Rightarrow>
        (case Open i of
           Inl err \<Rightarrow> Some (Inl (TeamError err), orgs)
         | Inr ledger \<Rightarrow>
           (case Rebuild opt ledger empty_server of
              None \<Rightarrow> None
            | Some (_, Some err, _) \<Rightarrow> Some (Inl (TeamError err), orgs)
            | Some (_, None, p) \<Rightarrow> Some (Inr (ledger, p), map_put i (ledger, p) orgs))))"

subsection \<open>TeamServer\<close>

record principal =
  pc_Org :: string
  pc_User :: string
  pc_Kind :: string
  pc_Owner :: string

definition Principal_Actor :: "principal \<Rightarrow> actor_ref" where
  "Principal_Actor p =
     (if pc_Kind p = ''human'' then \<lparr>ar_Kind = ActorHuman, ar_ID = pc_User p, ar_Key = '''', ar_Owner = ''''\<rparr>
      else \<lparr>ar_Kind = ActorAgent, ar_ID = pc_Kind p @ '':'' @ pc_User p, ar_Key = '''', ar_Owner = pc_Owner p\<rparr>)"

record push_request =
  pq_DaemonID :: string
  pq_Events :: "envelope list"

record push_accepted =
  pa_LocalSeq :: int
  pa_Seq :: int
  pa_Duplicate :: bool

record push_rejected =
  pj_LocalSeq :: int
  pj_Code :: string
  pj_Reason :: string

record push_response =
  pp_Accepted :: "push_accepted list"
  pp_Rejected :: "push_rejected list"
  pp_Head :: int

type_synonym 'l push_result = "(team_error option \<times> push_response \<times> ('l \<times> server_models)) option"

text \<open>The registry itself is outside; \<^verbatim>\<open>RegisterDaemon\<close> checks the key and passes the registration on.\<close>

definition TeamServer_RegisterDaemon :: "(string \<Rightarrow> bool) \<Rightarrow> (string \<Rightarrow> string \<Rightarrow> string \<Rightarrow> string \<Rightarrow> 'r \<Rightarrow> go_error option \<times> 'r) \<Rightarrow>
    principal \<Rightarrow> string \<Rightarrow> string \<Rightarrow> 'r \<Rightarrow> go_error option \<times> 'r" where
  "TeamServer_RegisterDaemon ValidKey register p i publicKey r =
     (if i = '''' \<or> publicKey = '''' then (Some ''app: daemon id and public key required'', r)
      else if \<not> ValidKey publicKey then (Some ''app: public key does not parse'', r)
      else register (pc_Org p) i publicKey (pc_User p) r)"

text \<open>The closure \<^verbatim>\<open>reject\<close> of \<^verbatim>\<open>Push\<close>.\<close>

definition push_reject :: "('l, server_models) options \<Rightarrow> go_time \<Rightarrow> envelope \<Rightarrow> string \<Rightarrow> string \<Rightarrow> bool \<Rightarrow>
    push_response \<Rightarrow> 'l \<times> server_models \<Rightarrow> 'l push_result" where
  "push_reject opt now e code reason record res st =
     (let res' = res\<lparr>pp_Rejected := pp_Rejected res @ [\<lparr>pj_LocalSeq = e_Seq e, pj_Code = code, pj_Reason = reason\<rparr>]\<rparr> in
      if \<not> record then Some (None, res', st)
      else case catchUp opt st of
        None \<Rightarrow> None
      | Some (Some err, st') \<Rightarrow> Some (Some (TeamError err), res', st')
      | Some (None, st') \<Rightarrow>
          (case appendRejected opt now \<lparr>rj_Command = ''sync:'' @ e_Kind e, rj_Target = e_Stream e, rj_Code = code,
                  rj_Reason = reason, rj_Actor = e_Actor e\<rparr> st' of
             (err, st'') \<Rightarrow> Some (map_option TeamError err, res', st'')))"

text \<open>The \<^verbatim>\<open>switch\<close> that authorises a record.\<close>

definition push_refusal :: "('l, server_models) options \<Rightarrow> string \<Rightarrow> envelope \<Rightarrow> (string \<times> string) option" where
  "push_refusal opt user e =
     (if \<not> Shareable (e_Stream e) then Some (''not-shareable'', ''stream '' @ e_Stream e @ '' is not shared'')
      else case Actor_Validate (e_Actor e) of
        Some err \<Rightarrow> Some (''unauthorized'', ''record actor is malformed: '' @ err)
      | None \<Rightarrow>
        if IsHuman (e_Actor e) \<and> ar_ID (e_Actor e) \<noteq> user \<or> IsAgent (e_Actor e) \<and> ar_Owner (e_Actor e) \<noteq> user
          then Some (''unauthorized'', ''record actor is not the pushing user or an agent they own'')
        else (case decode opt e of
            Inl err \<Rightarrow> Some (''unknown-event'', err)
          | Inr _ \<Rightarrow> None))"

definition accept :: "push_response \<Rightarrow> int \<Rightarrow> int \<Rightarrow> bool \<Rightarrow> push_response" where
  "accept res local seq dup =
     res\<lparr>pp_Accepted := pp_Accepted res @ [\<lparr>pa_LocalSeq = local, pa_Seq = seq, pa_Duplicate = dup\<rparr>]\<rparr>"

text \<open>One record of the loop.\<close>

definition push_one :: "'l org_config \<Rightarrow> string \<Rightarrow> string \<Rightarrow> string \<Rightarrow> go_time \<Rightarrow> envelope \<Rightarrow> push_response \<Rightarrow> 'l \<times> server_models \<Rightarrow>
    'l push_result" where
  "push_one cfg daemon pub user now e res st =
     (let opt = oc_Options cfg in
      case oc_FindOrigin cfg (fst st) daemon (e_Seq e) of
        Inr seq \<Rightarrow> Some (None, accept res (e_Seq e) seq True, st)
      | Inl err \<Rightarrow>
        if err \<noteq> ErrNotFound then Some (Some (TeamError (ledger_error_string err)), res, st)
        else if e_Ver e < 1 \<or> e_Seq e < 1
          then push_reject opt now e ''bad-hash'' ''record needs a positive ver and seq'' False res st
        else (case Verify (oc_H cfg) (oc_J cfg) (e_PrevHash e) e of
          Some verr \<Rightarrow> push_reject opt now e ''bad-hash'' verr False res st
        | None \<Rightarrow>
          if \<not> oc_KeysVerify cfg pub (e_Hash e) (e_Sig e)
            then push_reject opt now e ''bad-signature'' ''signature does not verify with the daemon key'' False res st
          else (case push_refusal opt user e of
            Some (code, reason) \<Rightarrow> push_reject opt now e code reason True res st
          | None \<Rightarrow>
            let copyE = e\<lparr>e_Seq := 0, e_Origin := Some \<lparr>og_DaemonID = daemon, og_LocalSeq = e_Seq e, og_PrevHash = e_PrevHash e\<rparr>\<rparr> in
            (case pl_Append (o_Ledger opt) (fst st) (e_Stream e) (e_Ver e - 1) [copyE] of
               (Inr rng, l) \<Rightarrow> Some (None, accept res (e_Seq e) (rg_FromSeq rng) False, (l, snd st))
             | (Inl aerr, l) \<Rightarrow>
                 if aerr = ErrDuplicateOrigin
                   then Some (None, accept res (e_Seq e)
                          (case oc_FindOrigin cfg l daemon (e_Seq e) of Inr seq \<Rightarrow> seq | Inl _ \<Rightarrow> 0) True, (l, snd st))
                 else if aerr = ErrVersionConflict
                   then push_reject opt now e ''version-conflict''
                          (Sprintf ''stream %s is not at version %d on the server'' [e_Stream e, Itoa (e_Ver e - 1)]) True res (l, snd st)
                 else if aerr = ErrDuplicateIdempotencyKey
                   then push_reject opt now e ''duplicate-idem'' ''idempotency key already used on this stream'' True res (l, snd st)
                 else Some (Some (TeamError (ledger_error_string aerr)), res, (l, snd st))))))"

fun push_loop :: "'l org_config \<Rightarrow> string \<Rightarrow> string \<Rightarrow> string \<Rightarrow> go_time \<Rightarrow> envelope list \<Rightarrow> push_response \<Rightarrow> 'l \<times> server_models \<Rightarrow>
    'l push_result" where
  "push_loop cfg daemon pub user now [] res st = Some (None, res, st)"
| "push_loop cfg daemon pub user now (e # evs) res st =
     (case push_one cfg daemon pub user now e res st of
        None \<Rightarrow> None
      | Some (Some err, res', st') \<Rightarrow> Some (Some err, res', st')
      | Some (None, res', st') \<Rightarrow> push_loop cfg daemon pub user now evs res' st')"

definition empty_response :: push_response where
  "empty_response = \<lparr>pp_Accepted = [], pp_Rejected = [], pp_Head = 0\<rparr>"

definition TeamServer_Push :: "'l org_config \<Rightarrow> principal \<Rightarrow> push_request \<Rightarrow> go_time \<Rightarrow> 'l \<times> server_models \<Rightarrow> 'l push_result" where
  "TeamServer_Push cfg p req now st =
     (case oc_DaemonKey cfg (pc_Org p) (pq_DaemonID req) of
        Inl err \<Rightarrow>
          Some (Some (if err = ErrNotFound
                      then TeamNotFound (Sprintf ''ledger: not found: daemon %q is not registered'' [pq_DaemonID req])
                      else TeamError (ledger_error_string err)), empty_response, st)
      | Inr (pub, user) \<Rightarrow>
        if user \<noteq> pc_User p
          then Some (Some (TeamForbidden (Sprintf ''forbidden: daemon %q belongs to another user'' [pq_DaemonID req])),
                     empty_response, st)
        else (case push_loop cfg (pq_DaemonID req) pub user now (go_sort (\<lambda>a b. e_Seq a < e_Seq b) (pq_Events req))
                    empty_response st of
          None \<Rightarrow> None
        | Some (Some err, res, st') \<Rightarrow> Some (Some err, res, st')
        | Some (None, res, st') \<Rightarrow>
          (case catchUp (oc_Options cfg) st' of
             None \<Rightarrow> None
           | Some (Some err, st'') \<Rightarrow> Some (Some (TeamError err), res, st'')
           | Some (None, st'') \<Rightarrow>
             (case pl_Head (o_Ledger (oc_Options cfg)) (fst st'') of
                Inl err \<Rightarrow> Some (Some (TeamError (ledger_error_string err)), res, st'')
              | Inr head \<Rightarrow> Some (None, res\<lparr>pp_Head := hd_Seq head\<rparr>, st'')))))"

record pull_response =
  pu_Cursor :: int
  pu_Events :: "envelope list"
  pu_More :: bool

definition TeamServer_Pull :: "('l, server_models) options \<Rightarrow> int \<Rightarrow> int \<Rightarrow> int \<Rightarrow> 'l \<Rightarrow> team_error + pull_response" where
  "TeamServer_Pull opt PullLimit since limit l =
     (let max = (if PullLimit \<le> 0 then 500 else PullLimit);
          limit' = (if limit \<le> 0 \<or> limit > max then max else limit) in
      case pl_ReadAll (o_Ledger opt) l (since + 1) limit' of
        Inl err \<Rightarrow> Inl (TeamError (ledger_error_string err))
      | Inr batch \<Rightarrow>
          Inr \<lparr>pu_Cursor = (if batch = [] then since else e_Seq (last batch)),
               pu_Events = filter (\<lambda>e. TeamLayer (e_Stream e)) batch,
               pu_More = (int (length batch) = limit')\<rparr>)"

subsection \<open>The gate broker\<close>

text \<open>\<open>now\<close> is the clock that the pipeline reads, \<open>at\<close> the one that \<^verbatim>\<open>ResolveGate\<close> read before.\<close>

record gate_request_body =
  gq_Scope :: scope_key
  gq_Anchors :: "string list"
  gq_Action :: string
  gq_ProposalRef :: string
  gq_RequestedLevel :: level

type_synonym 'l gate_result = "((team_error + gate) \<times> ('l \<times> server_models)) option"

definition TeamServer_RequestGate :: "(bytes \<Rightarrow> bytes) \<Rightarrow> ('l, server_models) options \<Rightarrow> principal \<Rightarrow> gate_request_body \<Rightarrow> go_time \<Rightarrow>
    'l \<times> server_models \<Rightarrow> 'l gate_result" where
  "TeamServer_RequestGate H opt p req now st =
     (let actor = Principal_Actor p;
          i = GateIDFor H actor (gq_ProposalRef req);
          cmd = CmdGate (RequestGate \<lparr>rg_Cmd = NewGateCmd i (''gate:'' @ i), rg_Actor = actor, rg_Scope = gq_Scope req,
                  rg_Anchors = gq_Anchors req, rg_Action = gq_Action req, rg_ProposalRef = gq_ProposalRef req,
                  rg_RequestedLevel = gq_RequestedLevel req\<rparr>) in
      case catchUp opt st of
        None \<Rightarrow> None
      | Some (Some err, st') \<Rightarrow> Some (Inl (TeamError err), st')
      | Some (None, st') \<Rightarrow>
        (case Pipeline_Handle opt app_handlers now actor cmd st' of
           ((_, Some err), st'') \<Rightarrow> Some (Inl (TeamApp err), st'')
         | ((_, None), st'') \<Rightarrow>
             (case GateIndex_Get (sv_gates (snd st'')) i of
                (g, True) \<Rightarrow> Some (Inr g, st'')
              | (_, False) \<Rightarrow> Some (Inl (TeamNotFound ''ledger: not found''), st''))))"

definition TeamServer_ResolveGate :: "('l, server_models) options \<Rightarrow> principal \<Rightarrow> ID \<Rightarrow> gate_decision \<Rightarrow> string \<Rightarrow> go_time \<Rightarrow> go_time \<Rightarrow>
    'l \<times> server_models \<Rightarrow> 'l gate_result" where
  "TeamServer_ResolveGate opt p i dec reason at now st =
     (case catchUp opt st of
        None \<Rightarrow> None
      | Some (Some err, st') \<Rightarrow> Some (Inl (TeamError err), st')
      | Some (None, st') \<Rightarrow>
        if \<not> snd (GateIndex_Get (sv_gates (snd st')) i) then Some (Inl (TeamNotFound ''ledger: not found''), st')
        else let actor = Principal_Actor p;
                 cmd = CmdGate (ResolveGate \<lparr>rv_Cmd = NewGateCmd i '''',
                   rv_Resolution = \<lparr>rs_Decision = dec, rs_Reason = reason, rs_By = actor, rs_At = at, rs_Sig = ''''\<rparr>\<rparr>) in
          (case Pipeline_Handle opt app_handlers now actor cmd st' of
             ((_, Some err), st'') \<Rightarrow> Some (Inl (TeamApp err), st'')
           | ((_, None), st'') \<Rightarrow> Some (Inr (fst (GateIndex_Get (sv_gates (snd st'')) i)), st'')))"

definition TeamServer_ListGates :: "('l, server_models) options \<Rightarrow> gate_state \<Rightarrow> 'l \<times> server_models \<Rightarrow>
    ((team_error + gate list) \<times> ('l \<times> server_models)) option" where
  "TeamServer_ListGates opt state st =
     (case catchUp opt st of
        None \<Rightarrow> None
      | Some (Some err, st') \<Rightarrow> Some (Inl (TeamError err), st')
      | Some (None, st') \<Rightarrow> Some (Inr (GateIndex_List (sv_gates (snd st')) state), st'))"

end
