(* ===== verification/Team_Facts.thy ===== *)
theory Team_Facts
  imports Team
begin

section \<open>What the team server guarantees\<close>

text \<open>
  The contract of a ledger that finds origins, which the in-memory ledger has; catching
  up; and what a push leaves in the ledger and in the read models.
\<close>

subsection \<open>Origins\<close>

locale origin_port = ledger_port H J P log inv
  for H :: digest and J :: meta_json and P :: "'l port_ledger" and log :: "'l \<Rightarrow> envelope list" and inv :: "'l \<Rightarrow> bool" +
  fixes fo :: "'l \<Rightarrow> string \<Rightarrow> int \<Rightarrow> ledger_error + int"
  assumes find_hit: "inv l \<Longrightarrow> fo l d n = Inr q \<Longrightarrow> \<exists>e \<in> set (log l). env_origin_key e = Some (originKey d n) \<and> e_Seq e = q"
    and find_miss: "inv l \<Longrightarrow> fo l d n = Inl err \<Longrightarrow>
      err = ErrNotFound \<and> (\<forall>e \<in> set (log l). env_origin_key e \<noteq> Some (originKey d n))"
    and find_stable: "inv l \<Longrightarrow> pl_Append P l s expected evs = (Inr r, l') \<Longrightarrow> fo l d n = Inr q \<Longrightarrow> fo l' d n = Inr q"
    and append_seq: "inv l \<Longrightarrow> pl_Append P l s expected evs = (Inr r, l') \<Longrightarrow> rg_FromSeq r = int (length (log l)) + 1"
    and append_new_origin: "inv l \<Longrightarrow> (\<And>e k x. e \<in> set evs \<Longrightarrow> env_origin_key e = Some k \<Longrightarrow> x \<in> set (log l) \<Longrightarrow>
      env_origin_key x \<noteq> Some k) \<Longrightarrow> fst (pl_Append P l s expected evs) \<noteq> Inl ErrDuplicateOrigin"
    and append_taken: "inv l \<Longrightarrow> pl_Append P l s expected [e] = (Inl ErrDuplicateIdempotencyKey, l') \<Longrightarrow>
      e_Idem e \<noteq> '''' \<and> (\<exists>x \<in> set (log l). e_Idem x \<noteq> '''' \<and> env_idem_key x = idemKey s (e_Idem e))"
begin

text \<open>An appended record of a new origin is found at its place.\<close>

lemma find_appended:
  assumes "inv l" "fo l d n = Inl ErrNotFound" "pl_Append P l s expected [e] = (Inr r, l')"
    and "env_origin_key e = Some (originKey d n)"
  shows "fo l' d n = Inr (rg_FromSeq r)"
proof -
  obtain w where w: "log l' = log l @ [w]" "sealed_as s e w" "inv l'"
    using append_ok [OF assms(1,3)] by (auto simp: list_all2_Cons1)
  have key: "env_origin_key w = Some (originKey d n)"
    using w(2) assms(4) by (simp add: sealed_as_def env_origin_key_def)
  obtain q where q: "fo l' d n = Inr q"
    using find_miss [OF w(3), of d n] key w(1) by (cases "fo l' d n") auto
  obtain x where x: "x \<in> set (log l')" "env_origin_key x = Some (originKey d n)" "e_Seq x = q"
    using find_hit [OF w(3) q] by blast
  have "x = w"
    using x(1,2) find_miss [OF assms(1,2)] w(1) by auto
  moreover have "e_Seq w = int (length (log l)) + 1"
    using log_ok_seq [OF log_wf [OF w(3)], of "length (log l)"] w(1) by simp
  ultimately show ?thesis
    using q x(3) append_seq [OF assms(1,3)] by simp
qed

end

lemma commit_log: "l_all (foldl (commit_one s) l sealed) = l_all l @ sealed"
  by (induction sealed arbitrary: l) simp_all

lemma commit_origins_other:
  "\<forall>e \<in> set sealed. env_origin_key e \<noteq> Some k \<Longrightarrow>
    map_of (l_origins (foldl (commit_one s) l sealed)) k = map_of (l_origins l) k"
proof (induction sealed arbitrary: l)
  case (Cons e sealed)
  have "map_of (l_origins (commit_one s l e)) k = map_of (l_origins l) k"
    using Cons(2) by (auto simp: commit_one_def env_origin_key_def Let_def update_conv split: option.splits)
  then show ?case
    using Cons by simp
qed simp

lemma origin_check_fresh:
  "origin_check om evs = None \<Longrightarrow> e \<in> set evs \<Longrightarrow> env_origin_key e = Some k \<Longrightarrow> map_of om k = None"
  by (induction evs) (auto simp: env_origin_key_def split: option.splits if_splits)

lemma mem_find_hit:
  assumes "ledger_inv H J l" "FindOrigin l d n = Inr s"
  shows "\<exists>i < length (l_all l). map_of (l_origins l) (originKey d n) = Some i \<and>
    env_origin_key (l_all l ! i) = Some (originKey d n) \<and> e_Seq (l_all l ! i) = s"
  using assms by (auto simp: FindOrigin_def ledger_inv_def index_ok_def split: option.splits)

lemma mem_find_stable:
  assumes inv: "ledger_inv H J l" and app: "mem_Append H J l s expected evs = (Inr r, l')" and hit: "FindOrigin l d n = Inr q"
  shows "FindOrigin l' d n = Inr q"
proof -
  obtain i where i: "i < length (l_all l)" "map_of (l_origins l) (originKey d n) = Some i" "e_Seq (l_all l ! i) = q"
    using mem_find_hit [OF inv hit] by blast
  obtain sealed where fold: "l' = foldl (commit_one s) l sealed" and chk: "origin_check (l_origins l) evs = None"
    using app by (auto simp: mem_Append_def Let_def split: option.splits if_splits sum.splits)
  then have sealed: "l_all l' = l_all l @ sealed" "list_all2 (sealed_as s) evs sealed"
    using mem_Append_Inr [OF inv app] by (auto simp: commit_log)
  have "env_origin_key e \<noteq> Some (originKey d n)" if e: "e \<in> set sealed" for e
  proof -
    obtain e' where "e' \<in> set evs" "sealed_as s e' e"
      using e sealed(2) by (metis in_set_conv_nth list_all2_conv_all_nth)
    then show ?thesis
      using origin_check_fresh [OF chk, of e' "originKey d n"] i(2) by (auto simp: sealed_as_def env_origin_key_def)
  qed
  then have "map_of (l_origins l') (originKey d n) = Some i"
    using commit_origins_other [of sealed "originKey d n" s l] i(2) fold by auto
  then show ?thesis
    using i sealed(1) by (simp add: FindOrigin_def nth_append)
qed

lemma origin_check_new:
  assumes "\<And>e k. e \<in> set evs \<Longrightarrow> env_origin_key e = Some k \<Longrightarrow> map_of om k = None"
  shows "origin_check om evs = None"
  using assms
proof (induction evs)
  case (Cons e evs)
  have "origin_check om evs = None"
    by (rule Cons(1)) (use Cons(2) in auto)
  then show ?case
    using Cons(2) [of e] by (cases "e_Origin e") (auto simp: env_origin_key_def)
qed simp

lemma mem_Append_new_origin:
  assumes inv: "ledger_inv H J l"
    and new: "\<And>e k x. e \<in> set evs \<Longrightarrow> env_origin_key e = Some k \<Longrightarrow> x \<in> set (l_all l) \<Longrightarrow> env_origin_key x \<noteq> Some k"
  shows "fst (mem_Append H J l s expected evs) \<noteq> Inl ErrDuplicateOrigin"
proof -
  have "map_of (l_origins l) k = None" if "e \<in> set evs" "env_origin_key e = Some k" for e k
    using inv new [OF that] unfolding ledger_inv_def index_ok_def by (metis nth_mem option.exhaust)
  then have "origin_check (l_origins l) evs = None"
    by (rule origin_check_new)
  then show ?thesis
    by (auto simp: mem_Append_def Let_def split: option.splits sum.splits if_splits dest!: seal_batch_error idem_check_error)
qed

interpretation team: origin_port H J "mem_port H J" l_all "ledger_inv H J" FindOrigin for H J
proof
  fix l l' :: mem_ledger and d n q err s expected evs r e
  assume inv: "ledger_inv H J l"
  show "\<exists>e \<in> set (l_all l). env_origin_key e = Some (originKey d n) \<and> e_Seq e = q" if "FindOrigin l d n = Inr q"
    using mem_find_hit [OF inv that] nth_mem by blast
  show "err = ErrNotFound \<and> (\<forall>e \<in> set (l_all l). env_origin_key e \<noteq> Some (originKey d n))" if "FindOrigin l d n = Inl err"
  proof -
    have none: "map_of (l_origins l) (originKey d n) = None" "err = ErrNotFound"
      using that by (auto simp: FindOrigin_def split: option.splits)
    have "env_origin_key (l_all l ! i) \<noteq> Some (originKey d n)" if "i < length (l_all l)" for i
      using inv that none(1) unfolding ledger_inv_def index_ok_def by metis
    then show ?thesis
      using none(2) by (auto simp: in_set_conv_nth)
  qed
  show "FindOrigin l' d n = Inr q" if "pl_Append (mem_port H J) l s expected evs = (Inr r, l')" "FindOrigin l d n = Inr q"
    using mem_find_stable [OF inv _ that(2)] that(1) by (simp add: mem_port_def)
  show "rg_FromSeq r = int (length (l_all l)) + 1" if "pl_Append (mem_port H J) l s expected evs = (Inr r, l')"
  proof -
    have "mem_Append H J l s expected evs = (Inr r, l')"
      using that by (simp add: mem_port_def)
    then show ?thesis
      using mem_Append_Inr [OF inv] by (metis append_range.select_convs(4))
  qed
  show "fst (pl_Append (mem_port H J) l s expected evs) \<noteq> Inl ErrDuplicateOrigin"
    if "\<And>e k x. e \<in> set evs \<Longrightarrow> env_origin_key e = Some k \<Longrightarrow> x \<in> set (l_all l) \<Longrightarrow> env_origin_key x \<noteq> Some k"
    using mem_Append_new_origin [OF inv that] by (simp add: mem_port_def)
  show "e_Idem e \<noteq> '''' \<and> (\<exists>x \<in> set (l_all l). e_Idem x \<noteq> '''' \<and> env_idem_key x = idemKey s (e_Idem e))"
    if "pl_Append (mem_port H J) l s expected [e] = (Inl ErrDuplicateIdempotencyKey, l')"
    using that ledger_idem_lookup [OF inv, of "idemKey s (e_Idem e)"]
    by (auto simp: mem_port_def mem_Append_def Let_def split: option.splits sum.splits if_splits
        dest: seal_batch_error origin_check_error)
qed

subsection \<open>Catching up\<close>

text \<open>
  The read models of a tenant show a prefix of its log, which ends at the cursor: records that
  a push appended are not projected before the next catch-up.
\<close>

definition shows_prefix :: "('l, server_models) options \<Rightarrow> envelope list \<Rightarrow> server_models \<Rightarrow> bool" where
  "shows_prefix opt es p \<longleftrightarrow>
     (\<exists>evs n. list_all2 (decodes opt) es evs \<and> n \<le> length es \<and>
        p = project_log server_projectors (take n es) (take n evs) empty_server \<and> sv_cursor p = int n)"

definition org_opt :: "'l port_ledger \<Rightarrow> ('l, server_models) options \<Rightarrow> bool" where
  "org_opt P opt \<longleftrightarrow> o_Ledger opt = P \<and> o_Codec opt = app_codec \<and> o_Projectors opt = server_projectors \<and> json_faithful opt"

lemma org_optD:
  assumes "org_opt P opt"
  shows "o_Ledger opt = P" "o_Codec opt = app_codec" "o_Projectors opt = server_projectors" "json_faithful opt"
  using assms by (simp_all add: org_opt_def)

lemma server_projectors_total: "total_projectors server_projectors"
  by (simp add: total_projectors_def server_projectors_def)

lemma server_cursor: "sv_cursor (notify server_projectors e ev p) = Cursor_Handle e (sv_cursor p)"
  by (simp add: server_projectors_def)

lemma cursor_at_end:
  assumes "\<And>i. i < length es \<Longrightarrow> e_Seq (es ! i) = int i + 1" "length evs = length es"
  shows "sv_cursor (project_log server_projectors es evs empty_server) = int (length es)"
  using assms
proof (induction es arbitrary: evs rule: rev_induct)
  case Nil
  then show ?case
    by (simp add: empty_server_def)
next
  case (snoc e es)
  obtain us ev where evs: "evs = us @ [ev]" "length us = length es"
    using snoc(3) by (cases evs rule: rev_cases) auto
  have "e_Seq (es ! i) = int i + 1" if "i < length es" for i
    using snoc(2) [of i] that by (simp add: nth_append)
  then have "sv_cursor (project_log server_projectors es us empty_server) = int (length es)"
    using snoc(1) evs(2) by blast
  moreover have "e_Seq e = int (length es) + 1"
    using snoc(2) [of "length es"] by simp
  ultimately show ?case
    using evs by (simp add: project_log_append server_cursor Cursor_Handle_def)
qed

lemma models_show_prefix:
  assumes "log_ok H J es" "models_ok opt empty_server es p" "o_Projectors opt = server_projectors"
  shows "shows_prefix opt es p \<and> sv_cursor p = int (length es)"
proof -
  obtain evs where evs: "list_all2 (decodes opt) es evs" "p = project_log server_projectors es evs empty_server"
    using assms(2,3) by (auto simp: models_ok_def)
  have "sv_cursor p = int (length es)"
    using cursor_at_end [OF log_ok_seq [OF assms(1)]] evs list_all2_lengthD by metis
  then show ?thesis
    using evs list_all2_lengthD [OF evs(1)] unfolding shows_prefix_def by (intro conjI exI [of _ evs] exI [of _ "length es"]) auto
qed

lemma shows_prefix_append:
  assumes "shows_prefix opt es p" "decodes opt w ev"
  shows "shows_prefix opt (es @ [w]) p"
proof -
  obtain evs n where "list_all2 (decodes opt) es evs" "n \<le> length es" "length evs = length es"
    "p = project_log server_projectors (take n es) (take n evs) empty_server" "sv_cursor p = int n"
    using assms(1) list_all2_lengthD by (fastforce simp: shows_prefix_def)
  then show ?thesis
    using assms(2) unfolding shows_prefix_def
    by (intro exI [of _ "evs @ [ev]"] exI [of _ n]) (simp add: list_all2_appendI)
qed

context ledger_port
begin

lemma catchUp_returns:
  assumes opt: "org_opt P opt" and inv: "inv l" and p: "shows_prefix opt (log l) p"
  shows "\<exists>p'. catchUp opt (l, p) = Some (None, (l, p')) \<and> models_ok opt empty_server (log l) p'"
proof -
  note o = org_optD [OF opt]
  obtain evs n where n: "list_all2 (decodes opt) (log l) evs" "n \<le> length (log l)"
    "p = project_log server_projectors (take n (log l)) (take n evs) empty_server" "sv_cursor p = int n"
    using p by (auto simp: shows_prefix_def)
  have len: "length evs = length (log l)"
    using list_all2_lengthD [OF n(1)] by simp
  show ?thesis
  proof (cases "n = length (log l)")
    case True
    then have "models_ok opt empty_server (log l) p"
      using n len o(3) by (auto simp: models_ok_def)
    then show ?thesis
      using True n(4) chain_head [OF inv] o(1) by (simp add: catchUp_def)
  next
    case False
    let ?p' = "project_log server_projectors (drop n (log l)) (drop n evs) p"
    have "list_all2 (decodes opt) (drop n (log l)) (drop n evs)"
      using n(1) by (rule list_all2_dropI)
    from replay_returns [OF o(1) _ inv this n(2), of p]
    have "Replay_ledger opt l (int n) p = Some (int (length (log l)), None, ?p')"
      using o(3) server_projectors_total by simp
    then have "catchUp opt (l, p) = Some (None, (l, ?p'))"
      using False n(2,4) chain_head [OF inv] o(1) by (simp add: catchUp_def)
    moreover have "?p' = project_log server_projectors (log l) evs empty_server"
      using project_log_append [of "take n (log l)" "take n evs" server_projectors "drop n (log l)" "drop n evs" empty_server]
        n(3) len by simp
    ultimately show ?thesis
      using n(1) o(3) by (auto simp: models_ok_def)
  qed
qed

lemma appendRejected_log:
  assumes "o_Ledger opt = P" "inv l" "appendRejected opt now ev (l, p) = (err, (l', p'))"
  shows "l' = l \<or> (\<exists>e r. pl_Append P l RejectedStream AnyVersion [e] = (Inr r, l') \<and> e_Origin e = None)"
proof -
  have "l' = l \<or> (\<exists>e r. pl_Append P l RejectedStream AnyVersion [e] = (r, l') \<and> e_Origin e = None)"
    using assms(1,3) by (fastforce simp: appendRejected_def blank_envelope_def Let_def split: sum.splits prod.splits list.splits)
  then show ?thesis
    using append_atomic [OF assms(2)] by (metis sum.exhaust)
qed

end

subsection \<open>Pushing\<close>

text \<open>What a record needs to be appended, and what is appended for it.\<close>

definition push_ok :: "'l org_config \<Rightarrow> string \<Rightarrow> string \<Rightarrow> envelope \<Rightarrow> bool" where
  "push_ok cfg pub user e \<longleftrightarrow>
     1 \<le> e_Ver e \<and> 1 \<le> e_Seq e \<and> Verify (oc_H cfg) (oc_J cfg) (e_PrevHash e) e = None \<and>
     oc_KeysVerify cfg pub (e_Hash e) (e_Sig e) \<and> Shareable (e_Stream e) \<and> Actor_Validate (e_Actor e) = None \<and>
     (IsHuman (e_Actor e) \<longrightarrow> ar_ID (e_Actor e) = user) \<and> (IsAgent (e_Actor e) \<longrightarrow> ar_Owner (e_Actor e) = user) \<and>
     (\<exists>ev. decode (oc_Options cfg) e = Inr ev)"

definition synced :: "string \<Rightarrow> envelope \<Rightarrow> envelope \<Rightarrow> bool" where
  "synced daemon e w \<longleftrightarrow> e_Stream w = e_Stream e \<and> e_Ver w = e_Ver e \<and> e_Kind w = e_Kind e \<and> e_V w = e_V e \<and>
     e_Actor w = e_Actor e \<and> e_Meta w = e_Meta e \<and> e_Body w = e_Body e \<and> e_Idem w = e_Idem e \<and>
     e_Origin w = Some \<lparr>og_DaemonID = daemon, og_LocalSeq = e_Seq e, og_PrevHash = e_PrevHash e\<rparr>"

definition push_effect :: "('l \<Rightarrow> envelope list) \<Rightarrow> ('l \<Rightarrow> string \<Rightarrow> int \<Rightarrow> ledger_error + int) \<Rightarrow> (envelope \<Rightarrow> bool) \<Rightarrow> string \<Rightarrow>
    envelope list \<Rightarrow> 'l \<Rightarrow> 'l \<Rightarrow> bool" where
  "push_effect log fo ok daemon evs l l' \<longleftrightarrow>
     (\<exists>ext. log l' = log l @ ext \<and>
        (\<forall>w \<in> set ext. e_Stream w = RejectedStream \<and> e_Origin w = None \<or> (\<exists>e \<in> set evs. ok e \<and> synced daemon e w))) \<and>
     (\<forall>d n q. fo l d n = Inr q \<longrightarrow> fo l' d n = Inr q)"

text \<open>Every record is answered once; an acceptance names the place of the record.\<close>

definition local_seqs :: "push_response \<Rightarrow> int multiset" where
  "local_seqs res = mset (map pa_LocalSeq (pp_Accepted res)) + mset (map pj_LocalSeq (pp_Rejected res))"

definition accepted_found :: "('l \<Rightarrow> string \<Rightarrow> int \<Rightarrow> ledger_error + int) \<Rightarrow> string \<Rightarrow> push_response \<Rightarrow> 'l \<Rightarrow> bool" where
  "accepted_found fo daemon res l \<longleftrightarrow> (\<forall>a \<in> set (pp_Accepted res). fo l daemon (pa_LocalSeq a) = Inr (pa_Seq a))"

lemma push_effect_refl: "push_effect log fo ok daemon evs l l"
  by (auto simp: push_effect_def)

lemma push_effect_trans:
  assumes "push_effect log fo ok daemon evs l l'" "push_effect log fo ok daemon evs' l' l''"
  shows "push_effect log fo ok daemon (evs @ evs') l l''"
proof -
  obtain ext ext' where "log l' = log l @ ext" "log l'' = log l' @ ext'"
    "\<forall>w \<in> set ext. e_Stream w = RejectedStream \<and> e_Origin w = None \<or> (\<exists>e \<in> set evs. ok e \<and> synced daemon e w)"
    "\<forall>w \<in> set ext'. e_Stream w = RejectedStream \<and> e_Origin w = None \<or> (\<exists>e \<in> set evs'. ok e \<and> synced daemon e w)"
    using assms by (auto simp: push_effect_def)
  then have "\<exists>ext. log l'' = log l @ ext \<and>
      (\<forall>w \<in> set ext. e_Stream w = RejectedStream \<and> e_Origin w = None \<or> (\<exists>e \<in> set (evs @ evs'). ok e \<and> synced daemon e w))"
    by (intro exI [of _ "ext @ ext'"]) auto
  then show ?thesis
    using assms by (simp add: push_effect_def)
qed

lemma push_refusal_None:
  "push_refusal opt user e = None \<longleftrightarrow> Shareable (e_Stream e) \<and> Actor_Validate (e_Actor e) = None \<and>
     (IsHuman (e_Actor e) \<longrightarrow> ar_ID (e_Actor e) = user) \<and> (IsAgent (e_Actor e) \<longrightarrow> ar_Owner (e_Actor e) = user) \<and>
     (\<exists>ev. decode opt e = Inr ev)"
  by (auto simp: push_refusal_def split: option.splits sum.splits)

text \<open>The configuration of a tenant over a ledger.\<close>

definition org_ok :: "digest \<Rightarrow> meta_json \<Rightarrow> 'l port_ledger \<Rightarrow> ('l \<Rightarrow> string \<Rightarrow> int \<Rightarrow> ledger_error + int) \<Rightarrow> 'l org_config \<Rightarrow> bool" where
  "org_ok H J P fo cfg \<longleftrightarrow> org_opt P (oc_Options cfg) \<and> oc_H cfg = H \<and> oc_J cfg = J \<and> oc_FindOrigin cfg = fo"

definition org_inv :: "('l \<Rightarrow> bool) \<Rightarrow> ('l \<Rightarrow> envelope list) \<Rightarrow> ('l, server_models) options \<Rightarrow> 'l \<times> server_models \<Rightarrow> bool" where
  "org_inv ok lg opt st \<longleftrightarrow> ok (fst st) \<and> shows_prefix opt (lg (fst st)) (snd st)"

context origin_port
begin

lemma push_reject_returns:
  assumes opt: "org_opt P opt" and st: "org_inv inv log opt st"
  shows "\<exists>err st'. push_reject opt now e code reason record res st =
      Some (err, res\<lparr>pp_Rejected := pp_Rejected res @ [\<lparr>pj_LocalSeq = e_Seq e, pj_Code = code, pj_Reason = reason\<rparr>]\<rparr>, st') \<and>
    org_inv inv log opt st' \<and> push_effect log fo ok daemon evs (fst st) (fst st')"
proof (cases "record")
  case False
  then show ?thesis
    using st by (simp add: push_reject_def push_effect_refl)
next
  case True
  note o = org_optD [OF opt]
  obtain l p where lp: "st = (l, p)"
    by fastforce
  have inv: "inv l" and pre: "shows_prefix opt (log l) p"
    using st lp by (simp_all add: org_inv_def)
  obtain p1 where p1: "catchUp opt (l, p) = Some (None, (l, p1))" "models_ok opt empty_server (log l) p1"
    using catchUp_returns [OF opt inv pre] by blast
  define rj where "rj = \<lparr>rj_Command = ''sync:'' @ e_Kind e, rj_Target = e_Stream e, rj_Code = code, rj_Reason = reason, rj_Actor = e_Actor e\<rparr>"
  obtain err l' p' where ar: "appendRejected opt now rj (l, p1) = (err, (l', p'))"
    by (metis surj_pair)
  have m: "models_ok opt empty_server (log l') p'"
    using rejection_models [OF o(1,2,4) _ inv p1(2) ar] o(3) server_projectors_total by simp
  have "inv l' \<and> push_effect log fo ok daemon evs l l'"
    using appendRejected_log [OF o(1) inv ar]
  proof (elim disjE exE)
    fix x r
    assume x: "pl_Append P l RejectedStream AnyVersion [x] = (Inr r, l') \<and> e_Origin x = None"
    then have app: "pl_Append P l RejectedStream AnyVersion [x] = (Inr r, l')"
      by simp
    show ?thesis
      using x append_ok [OF inv app] find_stable [OF inv app] by (auto simp: push_effect_def list_all2_Cons1 sealed_as_def)
  qed (use inv in \<open>simp add: push_effect_refl\<close>)
  moreover have "push_reject opt now e code reason record res st =
      Some (map_option TeamError err, res\<lparr>pp_Rejected := pp_Rejected res @ [\<lparr>pj_LocalSeq = e_Seq e, pj_Code = code, pj_Reason = reason\<rparr>]\<rparr>, (l', p'))"
    using True p1(1) ar lp by (simp add: push_reject_def Let_def rj_def)
  ultimately show ?thesis
    using models_show_prefix [OF log_wf m o(3)] lp by (auto simp: org_inv_def)
qed

lemma push_append:
  assumes cfg: "org_ok H J P fo cfg" and st: "org_inv inv log (oc_Options cfg) (l, p)" and ok: "push_ok cfg pub user e"
    and miss: "fo l daemon (e_Seq e) = Inl ErrNotFound"
    and app: "pl_Append P l (e_Stream e) (e_Ver e - 1)
      [e\<lparr>e_Seq := 0, e_Origin := Some \<lparr>og_DaemonID = daemon, og_LocalSeq = e_Seq e, og_PrevHash = e_PrevHash e\<rparr>\<rparr>] = (Inr r, l')"
  shows "org_inv inv log (oc_Options cfg) (l', p) \<and> push_effect log fo (push_ok cfg pub user) daemon [e] l l' \<and>
    fo l' daemon (e_Seq e) = Inr (rg_FromSeq r)"
proof -
  have inv: "inv l" and pre: "shows_prefix (oc_Options cfg) (log l) p"
    using st by (simp_all add: org_inv_def)
  obtain w where w: "log l' = log l @ [w]" "stream_log (log l') (e_Stream e) = stream_log (log l) (e_Stream e) @ [w]"
    "sealed_as (e_Stream e) (e\<lparr>e_Seq := 0, e_Origin := Some \<lparr>og_DaemonID = daemon, og_LocalSeq = e_Seq e, og_PrevHash = e_PrevHash e\<rparr>\<rparr>) w"
    using append_stream [OF inv app] by (auto simp: list_all2_Cons1)
  have inv': "inv l'" and ver: "e_Ver e - 1 = int (length (stream_log (log l) (e_Stream e)))"
    using append_ok [OF inv app] ok by (auto simp: push_ok_def)
  have "e_Ver w = e_Ver e"
    using log_ok_ver_nth [OF log_wf [OF inv'], of "length (stream_log (log l) (e_Stream e))" "e_Stream e"] w(2) ver by simp
  then have "synced daemon e w"
    using w(3) by (simp add: synced_def sealed_as_def)
  then have eff: "push_effect log fo (push_ok cfg pub user) daemon [e] l l'"
    using w(1) ok find_stable [OF inv app] by (auto simp: push_effect_def)
  obtain ev where "decode (oc_Options cfg) e = Inr ev"
    using ok by (auto simp: push_ok_def)
  then have "decodes (oc_Options cfg) w ev"
    using w(3) by (simp add: decodes_def decode_def sealed_as_def)
  then have "shows_prefix (oc_Options cfg) (log l') p"
    using shows_prefix_append [OF pre] w(1) by simp
  then show ?thesis
    using inv' eff find_appended [OF inv miss app] by (simp add: org_inv_def env_origin_key_def)
qed

end

lemma push_ok_refusal:
  "push_ok cfg pub user e \<longleftrightarrow> \<not> (e_Ver e < 1 \<or> e_Seq e < 1) \<and> Verify (oc_H cfg) (oc_J cfg) (e_PrevHash e) e = None \<and>
     oc_KeysVerify cfg pub (e_Hash e) (e_Sig e) \<and> push_refusal (oc_Options cfg) user e = None"
  unfolding push_ok_def push_refusal_None by auto

lemma accepted_found_effect:
  "accepted_found fo daemon res l \<Longrightarrow> push_effect log fo ok daemon evs l l' \<Longrightarrow> accepted_found fo daemon res l'"
  by (auto simp: accepted_found_def push_effect_def)

lemma accept_simps [simp]:
  "local_seqs (accept res n q dup) = add_mset n (local_seqs res)"
  "accepted_found fo daemon (accept res n q dup) l \<longleftrightarrow> accepted_found fo daemon res l \<and> fo l daemon n = Inr q"
  by (auto simp: accept_def local_seqs_def accepted_found_def)

lemma rejected_simps [simp]:
  "local_seqs (res\<lparr>pp_Rejected := pp_Rejected res @ [\<lparr>pj_LocalSeq = n, pj_Code = code, pj_Reason = reason\<rparr>]\<rparr>) = add_mset n (local_seqs res)"
  "accepted_found fo daemon (res\<lparr>pp_Rejected := rs\<rparr>) l \<longleftrightarrow> accepted_found fo daemon res l"
  by (simp_all add: local_seqs_def accepted_found_def)

text \<open>The outcome of a part of the loop.\<close>

definition push_outcome :: "('l \<Rightarrow> bool) \<Rightarrow> ('l \<Rightarrow> envelope list) \<Rightarrow> 'l org_config \<Rightarrow> string \<Rightarrow> string \<Rightarrow> string \<Rightarrow> envelope list \<Rightarrow>
    push_response \<Rightarrow> 'l \<times> server_models \<Rightarrow> 'l push_result \<Rightarrow> bool" where
  "push_outcome ok lg cfg daemon pub user evs res st out \<longleftrightarrow>
     (\<exists>err res' st'. out = Some (err, res', st') \<and> org_inv ok lg (oc_Options cfg) st' \<and>
        push_effect lg (oc_FindOrigin cfg) (push_ok cfg pub user) daemon evs (fst st) (fst st') \<and>
        accepted_found (oc_FindOrigin cfg) daemon res' (fst st') \<and>
        (err = None \<longrightarrow> local_seqs res' = local_seqs res + mset (map e_Seq evs)))"

lemma push_outcome_error:
  "org_inv ok lg (oc_Options cfg) st \<Longrightarrow> accepted_found (oc_FindOrigin cfg) daemon res (fst st) \<Longrightarrow>
    push_outcome ok lg cfg daemon pub user evs res st (Some (Some err, res, st))"
  by (auto simp: push_outcome_def push_effect_refl)

context origin_port
begin

lemma push_reject_outcome:
  assumes "org_ok H J P fo cfg" "org_inv inv log (oc_Options cfg) st" "accepted_found fo daemon res (fst st)"
  shows "push_outcome inv log cfg daemon pub user [e] res st (push_reject (oc_Options cfg) now e code reason rcd res st)"
proof -
  have opt: "org_opt P (oc_Options cfg)" and find: "oc_FindOrigin cfg = fo"
    using assms(1) by (simp_all add: org_ok_def)
  obtain err st' where "push_reject (oc_Options cfg) now e code reason rcd res st =
      Some (err, res\<lparr>pp_Rejected := pp_Rejected res @ [\<lparr>pj_LocalSeq = e_Seq e, pj_Code = code, pj_Reason = reason\<rparr>]\<rparr>, st')"
    "org_inv inv log (oc_Options cfg) st'" "push_effect log fo (push_ok cfg pub user) daemon [e] (fst st) (fst st')"
    using push_reject_returns [OF opt assms(2)] by blast
  then show ?thesis
    using accepted_found_effect [OF assms(3)] unfolding push_outcome_def find by fastforce
qed

lemma push_one_outcome:
  assumes cfg: "org_ok H J P fo cfg" and st: "org_inv inv log (oc_Options cfg) st" and acc: "accepted_found fo daemon res (fst st)"
  shows "push_outcome inv log cfg daemon pub user [e] res st (push_one cfg daemon pub user now e res st)"
proof -
  let ?opt = "oc_Options cfg"
  let ?copy = "e\<lparr>e_Seq := 0, e_Origin := Some \<lparr>og_DaemonID = daemon, og_LocalSeq = e_Seq e, og_PrevHash = e_PrevHash e\<rparr>\<rparr>"
  have c: "o_Ledger ?opt = P" "oc_FindOrigin cfg = fo" "oc_H cfg = H" "oc_J cfg = J"
    using cfg by (simp_all add: org_ok_def org_opt_def)
  obtain l p where lp: "st = (l, p)"
    by fastforce
  have inv: "inv l"
    using st lp by (simp add: org_inv_def)
  note rej = push_reject_outcome [OF cfg st acc]
  show ?thesis
  proof (cases "fo l daemon (e_Seq e)")
    case (Inr q)
    then show ?thesis
      using st acc lp by (simp add: push_one_def c push_outcome_def push_effect_refl)
  next
    case (Inl err)
    then have miss: "err = ErrNotFound" "\<And>x. x \<in> set (log l) \<Longrightarrow> env_origin_key x \<noteq> Some (originKey daemon (e_Seq e))"
      using find_miss [OF inv] by blast+
    show ?thesis
    proof (cases "push_ok cfg pub user e")
      case False
      then show ?thesis
        using Inl miss(1) rej lp push_ok_refusal [of cfg pub user e]
        by (auto simp: push_one_def c Let_def not_le not_less split: option.splits)
    next
      case True
      then have one: "push_one cfg daemon pub user now e res st =
          (case pl_Append P l (e_Stream e) (e_Ver e - 1) [?copy] of
             (Inr rng, l') \<Rightarrow> Some (None, accept res (e_Seq e) (rg_FromSeq rng) False, (l', p))
           | (Inl aerr, l') \<Rightarrow>
               if aerr = ErrDuplicateOrigin
                 then Some (None, accept res (e_Seq e) (case fo l' daemon (e_Seq e) of Inr seq \<Rightarrow> seq | Inl _ \<Rightarrow> 0) True, (l', p))
               else if aerr = ErrVersionConflict
                 then push_reject ?opt now e ''version-conflict''
                        (Sprintf ''stream %s is not at version %d on the server'' [e_Stream e, Itoa (e_Ver e - 1)]) True res (l', p)
               else if aerr = ErrDuplicateIdempotencyKey
                 then push_reject ?opt now e ''duplicate-idem'' ''idempotency key already used on this stream'' True res (l', p)
               else Some (Some (TeamError (ledger_error_string aerr)), res, (l', p)))"
        using Inl miss(1) lp push_ok_refusal [of cfg pub user e] by (auto simp: push_one_def c Let_def split: prod.split sum.split)
      obtain r l' where app: "pl_Append P l (e_Stream e) (e_Ver e - 1) [?copy] = (r, l')"
        by fastforce
      show ?thesis
      proof (cases r)
        case (Inl aerr)
        have "l' = l"
          using append_atomic [OF inv] app Inl by blast
        moreover have "fst (pl_Append P l (e_Stream e) (e_Ver e - 1) [?copy]) \<noteq> Inl ErrDuplicateOrigin"
          using miss(2) by (intro append_new_origin [OF inv]) (auto simp: env_origin_key_def)
        ultimately show ?thesis
          unfolding one using Inl app rej push_outcome_error [OF st, of daemon res pub user "[e]"] acc lp c by auto
      next
        case rng: (Inr rng)
        from push_append [OF cfg st [unfolded lp] True _ app [unfolded rng]] Inl miss(1)
        show ?thesis
          unfolding one using rng app accepted_found_effect [OF acc] lp by (auto simp: push_outcome_def c)
      qed
    qed
  qed
qed

lemma push_loop_outcome:
  assumes cfg: "org_ok H J P fo cfg" and "org_inv inv log (oc_Options cfg) st" "accepted_found fo daemon res (fst st)"
  shows "push_outcome inv log cfg daemon pub user evs res st (push_loop cfg daemon pub user now evs res st)"
  using assms(2,3)
proof (induction evs arbitrary: res st)
  case Nil
  then show ?case
    using cfg by (simp add: push_outcome_def push_effect_refl org_ok_def)
next
  case (Cons e evs)
  have find: "oc_FindOrigin cfg = fo"
    using cfg by (simp add: org_ok_def)
  obtain err res1 st1 where one: "push_one cfg daemon pub user now e res st = Some (err, res1, st1)"
    "org_inv inv log (oc_Options cfg) st1" "push_effect log fo (push_ok cfg pub user) daemon [e] (fst st) (fst st1)"
    "accepted_found fo daemon res1 (fst st1)" "err = None \<longrightarrow> local_seqs res1 = local_seqs res + {#e_Seq e#}"
    using push_one_outcome [OF cfg Cons(2,3), of pub user e now] by (auto simp: push_outcome_def find)
  show ?case
  proof (cases err)
    case None
    from Cons(1) [OF one(2,4)] show ?thesis
      using one None push_effect_trans [OF one(3)] unfolding push_outcome_def find by (fastforce simp: find)
  next
    case (Some x)
    then show ?thesis
      using one push_effect_trans [OF one(3) push_effect_refl, of evs] by (auto simp: push_outcome_def find)
  qed
qed

end

text \<open>What a whole push does, and what a repeated one does.\<close>

lemma go_sort_seq: "mset (go_sort (\<lambda>a b. e_Seq a < e_Seq b) evs) = mset evs"
  by (simp add: go_sort_sort_key)

lemma go_sort_seq_set: "set (go_sort (\<lambda>a b. e_Seq a < e_Seq b) evs) = set evs"
  using arg_cong [OF go_sort_seq, of set_mset] by simp

lemma push_effect_perm: "push_effect lg fo ok daemon evs l l' \<Longrightarrow> set evs = set evs' \<Longrightarrow> push_effect lg fo ok daemon evs' l l'"
  by (simp add: push_effect_def)

definition duplicates :: "('l \<Rightarrow> string \<Rightarrow> int \<Rightarrow> ledger_error + int) \<Rightarrow> string \<Rightarrow> 'l \<Rightarrow> envelope list \<Rightarrow> push_accepted list" where
  "duplicates fo daemon l evs =
     map (\<lambda>e. \<lparr>pa_LocalSeq = e_Seq e, pa_Seq = projr (fo l daemon (e_Seq e)), pa_Duplicate = True\<rparr>) evs"

lemma push_loop_known:
  assumes "\<And>e. e \<in> set evs \<Longrightarrow> \<exists>q. oc_FindOrigin cfg (fst st) daemon (e_Seq e) = Inr q"
  shows "push_loop cfg daemon pub user now evs res st =
    Some (None, res\<lparr>pp_Accepted := pp_Accepted res @ duplicates (oc_FindOrigin cfg) daemon (fst st) evs\<rparr>, st)"
  using assms
proof (induction evs arbitrary: res)
  case Nil
  then show ?case
    by (simp add: duplicates_def)
next
  case (Cons e evs)
  obtain q where "oc_FindOrigin cfg (fst st) daemon (e_Seq e) = Inr q"
    using Cons(2) by auto
  then have "push_one cfg daemon pub user now e res st = Some (None, accept res (e_Seq e) q True, st)"
    by (simp add: push_one_def)
  then show ?case
    using Cons(1) [of "accept res (e_Seq e) q True"] Cons(2) \<open>oc_FindOrigin cfg (fst st) daemon (e_Seq e) = Inr q\<close>
    by (simp add: accept_def duplicates_def)
qed

context origin_port
begin

lemma team_push:
  assumes cfg: "org_ok H J P fo cfg" and st: "org_inv inv log (oc_Options cfg) st"
    and key: "oc_DaemonKey cfg (pc_Org p) (pq_DaemonID req) = Inr (pub, pc_User p)"
  shows "\<exists>err res l m. TeamServer_Push cfg p req now st = Some (err, res, (l, m)) \<and> org_inv inv log (oc_Options cfg) (l, m) \<and>
    push_effect log fo (push_ok cfg pub (pc_User p)) (pq_DaemonID req) (pq_Events req) (fst st) l \<and>
    accepted_found fo (pq_DaemonID req) res l \<and>
    (err = None \<longrightarrow> local_seqs res = mset (map e_Seq (pq_Events req)) \<and> pp_Head res = int (length (log l)) \<and>
       models_ok (oc_Options cfg) empty_server (log l) m)"
proof -
  let ?opt = "oc_Options cfg" and ?d = "pq_DaemonID req" and ?u = "pc_User p"
  let ?evs = "go_sort (\<lambda>a b. e_Seq a < e_Seq b) (pq_Events req)"
  have opt: "org_opt P ?opt" and find: "oc_FindOrigin cfg = fo"
    using cfg by (simp_all add: org_ok_def)
  have "accepted_found fo ?d empty_response (fst st)"
    by (simp add: accepted_found_def empty_response_def)
  from push_loop_outcome [OF cfg st this, of pub ?u ?evs now]
  obtain err res l1 m1 where loop: "push_loop cfg ?d pub ?u now ?evs empty_response st = Some (err, res, (l1, m1))"
    and inv1: "org_inv inv log ?opt (l1, m1)" and acc: "accepted_found fo ?d res l1"
    and eff: "push_effect log fo (push_ok cfg pub ?u) ?d ?evs (fst st) l1"
    and seqs: "err = None \<longrightarrow> local_seqs res = local_seqs empty_response + mset (map e_Seq ?evs)"
    by (auto simp: push_outcome_def find)
  have eff': "push_effect log fo (push_ok cfg pub ?u) ?d (pq_Events req) (fst st) l1"
    using push_effect_perm [OF eff go_sort_seq_set] .
  show ?thesis
  proof (cases err)
    case (Some x)
    then show ?thesis
      using key loop inv1 acc eff' by (auto simp: TeamServer_Push_def)
  next
    case None
    obtain m2 where cu: "catchUp ?opt (l1, m1) = Some (None, (l1, m2))" "models_ok ?opt empty_server (log l1) m2"
      using catchUp_returns [OF opt] inv1 by (auto simp: org_inv_def)
    have "inv l1"
      using inv1 by (simp add: org_inv_def)
    then have "org_inv inv log ?opt (l1, m2)"
      using models_show_prefix [OF log_wf cu(2)] opt by (simp add: org_inv_def org_opt_def)
    moreover have "local_seqs res = mset (map e_Seq (pq_Events req))"
      using seqs None go_sort_seq [of "pq_Events req"] by (simp add: local_seqs_def empty_response_def)
    moreover have "TeamServer_Push cfg p req now st = Some (None, res\<lparr>pp_Head := int (length (log l1))\<rparr>, (l1, m2))"
      using key loop None cu(1) chain_head [OF \<open>inv l1\<close>] org_optD(1) [OF opt] by (simp add: TeamServer_Push_def)
    ultimately show ?thesis
      using eff' acc cu(2) by (auto simp: local_seqs_def accepted_found_def)
  qed
qed

lemma team_push_again:
  assumes cfg: "org_ok H J P fo cfg" and st: "org_inv inv log (oc_Options cfg) (l, m)"
    and key: "oc_DaemonKey cfg (pc_Org p) (pq_DaemonID req) = Inr (pub, pc_User p)"
    and known: "\<And>e. e \<in> set (pq_Events req) \<Longrightarrow> \<exists>q. fo l (pq_DaemonID req) (e_Seq e) = Inr q"
  shows "\<exists>m'. TeamServer_Push cfg p req now (l, m) =
    Some (None, \<lparr>pp_Accepted = duplicates fo (pq_DaemonID req) l (go_sort (\<lambda>a b. e_Seq a < e_Seq b) (pq_Events req)),
      pp_Rejected = [], pp_Head = int (length (log l))\<rparr>, (l, m'))"
proof -
  have opt: "org_opt P (oc_Options cfg)" and find: "oc_FindOrigin cfg = fo" and inv: "inv l"
    using cfg st by (simp_all add: org_ok_def org_inv_def)
  obtain m2 where "catchUp (oc_Options cfg) (l, m) = Some (None, (l, m2))"
    using catchUp_returns [OF opt inv] st by (auto simp: org_inv_def)
  then show ?thesis
    using key known push_loop_known [of "go_sort (\<lambda>a b. e_Seq a < e_Seq b) (pq_Events req)" cfg "(l, m)" "pq_DaemonID req"]
      chain_head [OF inv] org_optD(1) [OF opt]
    by (auto simp: TeamServer_Push_def find go_sort_seq_set empty_response_def)
qed

end

subsection \<open>Runs of a tenant\<close>

text \<open>
  The states of a tenant: pushes of its members' daemons, gate requests, resolutions and
  listings, in any order, from an empty ledger. What a push or a gate returns besides does not matter here.
\<close>

inductive org_reaches :: "'l org_config \<Rightarrow> string \<Rightarrow> 'l \<times> server_models \<Rightarrow> 'l \<times> server_models \<Rightarrow> bool" for cfg org start where
  org_start: "org_reaches cfg org start start"
| org_push: "org_reaches cfg org start st \<Longrightarrow> pc_Org p = org \<Longrightarrow> TeamServer_Push cfg p req now st = Some (err, res, st') \<Longrightarrow>
    org_reaches cfg org start st'"
| org_request: "org_reaches cfg org start st \<Longrightarrow> pc_Org p = org \<Longrightarrow>
    TeamServer_RequestGate (oc_H cfg) (oc_Options cfg) p body now st = Some (g, st') \<Longrightarrow> org_reaches cfg org start st'"
| org_resolve: "org_reaches cfg org start st \<Longrightarrow> pc_Org p = org \<Longrightarrow>
    TeamServer_ResolveGate (oc_Options cfg) p i dec reason at now st = Some (g, st') \<Longrightarrow> org_reaches cfg org start st'"
| org_list: "org_reaches cfg org start st \<Longrightarrow> TeamServer_ListGates (oc_Options cfg) state st = Some (gs, st') \<Longrightarrow>
    org_reaches cfg org start st'"

text \<open>A record of a tenant is its own, or it came from a registered daemon and was authorised.\<close>

definition record_authorised :: "'l org_config \<Rightarrow> string \<Rightarrow> envelope \<Rightarrow> bool" where
  "record_authorised cfg org w \<longleftrightarrow>
     (case e_Origin w of
        None \<Rightarrow> True
      | Some og \<Rightarrow> \<exists>pub user e. oc_DaemonKey cfg org (og_DaemonID og) = Inr (pub, user) \<and> push_ok cfg pub user e \<and>
          synced (og_DaemonID og) e w)"

text \<open>What every step of a tenant keeps, and the origins it keeps findable.\<close>

definition tenant_ok :: "('l \<Rightarrow> bool) \<Rightarrow> ('l \<Rightarrow> envelope list) \<Rightarrow> 'l org_config \<Rightarrow> string \<Rightarrow> 'l \<times> server_models \<Rightarrow> bool" where
  "tenant_ok ok lg cfg org st \<longleftrightarrow> org_inv ok lg (oc_Options cfg) st \<and> (\<forall>w \<in> set (lg (fst st)). record_authorised cfg org w)"

definition keeps_found :: "('l \<Rightarrow> string \<Rightarrow> int \<Rightarrow> ledger_error + int) \<Rightarrow> 'l \<Rightarrow> 'l \<Rightarrow> bool" where
  "keeps_found fo l l' \<longleftrightarrow> (\<forall>d n q. fo l d n = Inr q \<longrightarrow> fo l' d n = Inr q)"

lemma keeps_found_refl [simp]: "keeps_found fo l l"
  by (simp add: keeps_found_def)

lemma keeps_found_trans: "keeps_found fo l l' \<Longrightarrow> keeps_found fo l' l'' \<Longrightarrow> keeps_found fo l l''"
  by (simp add: keeps_found_def)

context origin_port
begin

lemma append_keeps:
  assumes "inv l" "pl_Append P l s expected evs = (r, l')" "\<And>e. e \<in> set evs \<Longrightarrow> e_Origin e = None"
    and "\<And>w. w \<in> set (log l) \<Longrightarrow> record_authorised cfg org w"
  shows "inv l' \<and> (\<forall>w \<in> set (log l'). record_authorised cfg org w) \<and> keeps_found fo l l'"
proof (cases r)
  case (Inl err)
  then show ?thesis
    using assms append_atomic [OF assms(1)] by (metis keeps_found_refl)
next
  case (Inr rng)
  obtain sealed where s: "log l' = log l @ sealed" "list_all2 (sealed_as s) evs sealed" "inv l'"
    using append_ok [OF assms(1)] assms(2) Inr by blast
  have "e_Origin w = None" if "w \<in> set sealed" for w
    using that s(2) assms(3) by (auto simp: list_all2_conv_all_nth in_set_conv_nth sealed_as_def) (metis nth_mem)
  then show ?thesis
    using s assms(4) find_stable [OF assms(1)] assms(2) Inr by (auto simp: record_authorised_def keeps_found_def)
qed

lemma build_batch_no_origin: "build_batch opt now actor meta idem events = Inr batch \<Longrightarrow> e \<in> set batch \<Longrightarrow> e_Origin e = None"
  by (induction events arbitrary: idem batch) (auto simp: blank_envelope_def split: sum.splits)

lemma handle_appends:
  assumes "o_Ledger opt = P" "Pipeline_Handle opt handlers now actor cmd (l, p) = (out, (l', p'))"
  shows "l' = l \<or> (\<exists>s expected evs r. pl_Append P l s expected evs = (r, l') \<and> (\<forall>e \<in> set evs. e_Origin e = None))"
  using assms build_batch_no_origin
  by (fastforce simp: Pipeline_Handle_def handle_def decide_step_def append_events_def recordRejection_def
      appendRejected_def blank_envelope_def Let_def split: option.splits prod.splits if_splits sum.splits list.splits)

text \<open>The pipeline on a state that has caught up.\<close>

lemma gate_command_keeps:
  assumes cfg: "org_ok H J P fo cfg" and inv: "inv l" and m: "models_ok (oc_Options cfg) empty_server (log l) m"
    and auth: "\<forall>w \<in> set (log l). record_authorised cfg org w"
    and h: "Pipeline_Handle (oc_Options cfg) handlers now actor cmd (l, m) = (out, st')"
  shows "tenant_ok inv log cfg org st' \<and> keeps_found fo l (fst st')"
proof -
  have "org_opt P (oc_Options cfg)"
    using cfg by (simp add: org_ok_def)
  note o = org_optD [OF this]
  obtain l' m' where st': "st' = (l', m')"
    by fastforce
  have keeps: "inv l' \<and> (\<forall>w \<in> set (log l'). record_authorised cfg org w) \<and> keeps_found fo l l'"
    using handle_appends [OF o(1) h [unfolded st']]
  proof (elim disjE exE conjE)
    fix s expected evs r
    assume app: "pl_Append P l s expected evs = (r, l')" "\<forall>e \<in> set evs. e_Origin e = None"
    show ?thesis
      by (rule append_keeps [OF inv app(1)]) (use app(2) auth in auto)
  qed (use inv auth in simp)
  have "models_ok (oc_Options cfg) empty_server (log l') m'"
    using handle_models [OF o(1,2,4) _ inv m, of handlers now actor cmd "fst out" "snd out"] h st' o(3) server_projectors_total by simp
  then show ?thesis
    using keeps models_show_prefix [OF log_wf _ o(3)] st' by (simp add: org_inv_def tenant_ok_def)
qed

text \<open>Every gate operation catches up first; if it goes on, it goes on with the pipeline or it stops there.\<close>

lemma catchUp_keeps:
  assumes cfg: "org_ok H J P fo cfg" and st: "org_inv inv log (oc_Options cfg) st"
  shows "\<exists>m. catchUp (oc_Options cfg) st = Some (None, (fst st, m)) \<and> models_ok (oc_Options cfg) empty_server (log (fst st)) m \<and>
    org_inv inv log (oc_Options cfg) (fst st, m)"
proof -
  have opt: "org_opt P (oc_Options cfg)" and inv: "inv (fst st)"
    using assms by (simp_all add: org_ok_def org_inv_def)
  obtain m where "catchUp (oc_Options cfg) (fst st, snd st) = Some (None, (fst st, m))"
    "models_ok (oc_Options cfg) empty_server (log (fst st)) m"
    using catchUp_returns [OF opt inv] st by (metis org_inv_def)
  then show ?thesis
    using models_show_prefix [OF log_wf [OF inv]] inv org_optD(3) [OF opt] by (auto simp: org_inv_def)
qed

lemma request_steps:
  assumes "TeamServer_RequestGate H' opt p body now st = Some (g, st')" "catchUp opt st = Some (None, st1)"
  shows "\<exists>cmd out. Pipeline_Handle opt app_handlers now (Principal_Actor p) cmd st1 = (out, st')"
  using assms unfolding TeamServer_RequestGate_def Let_def
  by (auto split: prod.splits option.splits bool.splits)

lemma resolve_steps:
  assumes "TeamServer_ResolveGate opt p i dec reason at now st = Some (g, st')" "catchUp opt st = Some (None, st1)"
  shows "st' = st1 \<or> (\<exists>cmd out. Pipeline_Handle opt app_handlers now (Principal_Actor p) cmd st1 = (out, st'))"
  using assms unfolding TeamServer_ResolveGate_def Let_def
  by (auto split: prod.splits option.splits if_splits)

lemma push_keeps:
  assumes cfg: "org_ok H J P fo cfg" and st: "tenant_ok inv log cfg (pc_Org p) st"
    and push: "TeamServer_Push cfg p req now st = Some (err, res, st')"
  shows "tenant_ok inv log cfg (pc_Org p) st' \<and> keeps_found fo (fst st) (fst st')"
proof (cases "\<exists>pub. oc_DaemonKey cfg (pc_Org p) (pq_DaemonID req) = Inr (pub, pc_User p)")
  case True
  then obtain pub where key: "oc_DaemonKey cfg (pc_Org p) (pq_DaemonID req) = Inr (pub, pc_User p)" ..
  have inv0: "org_inv inv log (oc_Options cfg) st" and auth: "\<forall>w \<in> set (log (fst st)). record_authorised cfg (pc_Org p) w"
    using st by (simp_all add: tenant_ok_def)
  have inv: "org_inv inv log (oc_Options cfg) st'"
    and eff: "push_effect log fo (push_ok cfg pub (pc_User p)) (pq_DaemonID req) (pq_Events req) (fst st) (fst st')"
    using team_push [OF cfg inv0 key, of now] push by auto
  have "record_authorised cfg (pc_Org p) w" if "push_ok cfg pub (pc_User p) e" "synced (pq_DaemonID req) e w" for e w
    using that key by (auto simp: record_authorised_def synced_def)
  moreover have "record_authorised cfg (pc_Org p) w" if "e_Origin w = None" for w
    using that by (simp add: record_authorised_def)
  ultimately have "record_authorised cfg (pc_Org p) w" if "w \<in> set (log (fst st'))" for w
    using that eff auth unfolding push_effect_def by (metis UnE set_append)
  then show ?thesis
    using inv eff by (auto simp: tenant_ok_def keeps_found_def push_effect_def)
next
  case False
  then have "st' = st"
    using push by (auto simp: TeamServer_Push_def split: sum.splits prod.splits if_splits)
  then show ?thesis
    using st by simp
qed

lemma org_run_keeps:
  assumes cfg: "org_ok H J P fo cfg" and run: "org_reaches cfg org start st" and start: "tenant_ok inv log cfg org start"
  shows "tenant_ok inv log cfg org st \<and> keeps_found fo (fst start) (fst st)"
  using run
proof (induction rule: org_reaches.induct)
  case org_start
  then show ?case
    using start by simp
next
  case (org_push st p req now err res st')
  then have "tenant_ok inv log cfg (pc_Org p) st" "keeps_found fo (fst start) (fst st)"
    by simp_all
  then show ?case
    using push_keeps [OF cfg _ org_push(3)] keeps_found_trans org_push(2) by metis
next
  case (org_request st p body now g st')
  then have st: "org_inv inv log (oc_Options cfg) st" "inv (fst st)" "\<forall>w \<in> set (log (fst st)). record_authorised cfg org w"
    by (simp_all add: tenant_ok_def org_inv_def)
  obtain m where m: "catchUp (oc_Options cfg) st = Some (None, (fst st, m))"
    "models_ok (oc_Options cfg) empty_server (log (fst st)) m"
    using catchUp_keeps [OF cfg st(1)] by blast
  then show ?case
    using request_steps [OF org_request(3) m(1)] gate_command_keeps [OF cfg st(2) m(2) st(3)] org_request(4) keeps_found_trans by metis
next
  case (org_resolve st p i dec reason at now g st')
  then have st: "org_inv inv log (oc_Options cfg) st" "inv (fst st)" "\<forall>w \<in> set (log (fst st)). record_authorised cfg org w"
    by (simp_all add: tenant_ok_def org_inv_def)
  obtain m where m: "catchUp (oc_Options cfg) st = Some (None, (fst st, m))"
    "models_ok (oc_Options cfg) empty_server (log (fst st)) m" "org_inv inv log (oc_Options cfg) (fst st, m)"
    using catchUp_keeps [OF cfg st(1)] by blast
  show ?case
    using resolve_steps [OF org_resolve(3) m(1)]
  proof
    assume "st' = (fst st, m)"
    then show ?thesis
      using m(3) st(3) org_resolve(4) by (simp add: tenant_ok_def)
  next
    assume "\<exists>cmd out. Pipeline_Handle (oc_Options cfg) app_handlers now (Principal_Actor p) cmd (fst st, m) = (out, st')"
    then show ?thesis
      using gate_command_keeps [OF cfg st(2) m(2) st(3)] org_resolve(4) keeps_found_trans by metis
  qed
next
  case (org_list st state gs st')
  then have st: "org_inv inv log (oc_Options cfg) st" "\<forall>w \<in> set (log (fst st)). record_authorised cfg org w"
    by (simp_all add: tenant_ok_def)
  obtain m where m: "catchUp (oc_Options cfg) st = Some (None, (fst st, m))" "org_inv inv log (oc_Options cfg) (fst st, m)"
    using catchUp_keeps [OF cfg st(1)] by blast
  then show ?case
    using org_list st(2) by (auto simp: TeamServer_ListGates_def tenant_ok_def)
qed

lemma tenant_start: "inv l0 \<Longrightarrow> log l0 = [] \<Longrightarrow> tenant_ok inv log cfg org (l0, empty_server)"
  by (simp add: tenant_ok_def org_inv_def shows_prefix_def empty_server_def)

end

end
