(* ===== verification/Sync.thy ===== *)
theory Sync
  imports Team_Facts
begin

section \<open>The daemon's side of synchronisation\<close>

text \<open>
  \<^verbatim>\<open>internal/app/sync.go\<close>: offering the shareable records of the personal ledger to the
  server, page by page, and copying the team layer into a cache. The server is reached through
  a client, a function on a state of its own that answers or fails. Neither loop has a
  bound of its own: not returning is \<open>None\<close>. \<open>clk\<close> is the clock, read after each page; its argument is the
  cursor that the page reached.
\<close>

record sync_state =
  ys_DaemonID :: string
  ys_PushCursor :: int
  ys_PullCursor :: int
  ys_PushedAt :: go_time
  ys_PulledAt :: go_time

record push_report =
  yr_Scanned :: int
  yr_Offered :: int
  yr_Accepted :: int
  yr_Rejected :: "push_rejected list"
  yr_Head :: int

record pull_report =
  yl_Received :: int
  yl_Cached :: int
  yl_Skipped :: int
  yl_Cursor :: int

subsection \<open>What stays personal\<close>

text \<open>The indexes may be absent.\<close>

definition Syncer_shareable :: "constraint_index option \<Rightarrow> session_index option \<Rightarrow> envelope \<Rightarrow> bool" where
  "Syncer_shareable constraints sessions e =
     (if HasPrefix (e_Stream e) ''constraint/''
        then (case constraints of
                None \<Rightarrow> True
              | Some cs \<Rightarrow>
                  (case ConstraintIndex_Get cs (TrimPrefix (e_Stream e) ''constraint/'') of
                     (c, ok) \<Rightarrow> \<not> (ok \<and> sk_Person (cu_Scope c) \<noteq> '''')))
      else if HasPrefix (e_Stream e) ''scope/''
        then (case ParseScopeKey (TrimPrefix (e_Stream e) ''scope/'') of (k, err) \<Rightarrow> err = None \<and> sk_Person k = '''')
      else if HasPrefix (e_Stream e) ''session/''
        then (case sessions of
                None \<Rightarrow> False
              | Some ss \<Rightarrow> (case SessionIndex_Get ss (e_Stream e) of (n, ok) \<Rightarrow> ok \<and> length (su_Shared n) > 0))
      else Shareable (e_Stream e))"

definition offered :: "constraint_index option \<Rightarrow> session_index option \<Rightarrow> envelope \<Rightarrow> bool" where
  "offered constraints sessions e \<longleftrightarrow> \<not> (e_Stream e = RejectedStream \<or> \<not> Syncer_shareable constraints sessions e)"

subsection \<open>Push\<close>

type_synonym 's push_client = "push_request \<Rightarrow> 's \<Rightarrow> (go_error + push_response) \<times> 's"

text \<open>One page of the loop: the error, if any, and the new report, cursors and server.\<close>

definition push_page :: "'s push_client \<Rightarrow> (envelope \<Rightarrow> bool) \<Rightarrow> string \<Rightarrow> (int \<Rightarrow> go_time) \<Rightarrow> envelope list \<Rightarrow>
    push_report \<times> sync_state \<times> 's \<Rightarrow> go_error option \<times> push_report \<times> sync_state \<times> 's" where
  "push_page client may daemon clk pg x =
     (case x of (rep, st, srv) \<Rightarrow>
      (let offer = filter may pg;
          (err, rep1, srv1) =
            (if length offer > 0
             then (case client \<lparr>pq_DaemonID = daemon, pq_Events = offer\<rparr> srv of
                     (Inl e, srv') \<Rightarrow> (Some (''sync push: '' @ e), rep, srv')
                   | (Inr res, srv') \<Rightarrow>
                       (None, rep\<lparr>yr_Offered := yr_Offered rep + int (length offer),
                                  yr_Accepted := yr_Accepted rep + int (length (pp_Accepted res)),
                                  yr_Rejected := yr_Rejected rep @ pp_Rejected res, yr_Head := pp_Head res\<rparr>, srv'))
             else (None, rep, srv)) in
      if err \<noteq> None then (err, rep1, st, srv1)
      else let last' = e_Seq (last pg) in
        (None, rep1\<lparr>yr_Scanned := yr_Scanned rep1 + (last' - ys_PushCursor st)\<rparr>,
         st\<lparr>ys_PushCursor := last', ys_PushedAt := clk last'\<rparr>, srv1)))"

partial_function (option) push_pages :: "'s push_client \<Rightarrow> (envelope \<Rightarrow> bool) \<Rightarrow> string \<Rightarrow> (int \<Rightarrow> go_time) \<Rightarrow> 'l port_ledger \<Rightarrow> 'l \<Rightarrow> int \<Rightarrow>
    push_report \<times> sync_state \<times> 's \<Rightarrow> (go_error option \<times> push_report \<times> sync_state \<times> 's) option" where
  "push_pages client may daemon clk P l batch x =
     (case pl_ReadAll P l (ys_PushCursor (fst (snd x)) + 1) batch of
        Inl err \<Rightarrow> Some (Some (ledger_error_string err), x)
      | Inr pg \<Rightarrow>
          if length pg = 0 then Some (None, x)
          else case push_page client may daemon clk pg x of (err, x') \<Rightarrow>
            (if err \<noteq> None then Some (err, x')
             else if int (length pg) < batch then Some (None, x')
             else push_pages client may daemon clk P l batch x'))"

definition empty_report :: push_report where
  "empty_report = \<lparr>yr_Scanned = 0, yr_Offered = 0, yr_Accepted = 0, yr_Rejected = [], yr_Head = 0\<rparr>"

definition Syncer_Push :: "'s push_client \<Rightarrow> constraint_index option \<Rightarrow> session_index option \<Rightarrow> string \<Rightarrow> (int \<Rightarrow> go_time) \<Rightarrow>
    'l port_ledger \<Rightarrow> 'l \<Rightarrow> int \<Rightarrow> sync_state \<Rightarrow> 's \<Rightarrow> (go_error option \<times> push_report \<times> sync_state \<times> 's) option" where
  "Syncer_Push client constraints sessions daemon clk P l Batch st srv =
     push_pages client (offered constraints sessions) daemon clk P l (if Batch \<le> 0 then 200 else Batch) (empty_report, st, srv)"

subsection \<open>Pull\<close>

type_synonym 's pull_client = "int \<Rightarrow> int \<Rightarrow> 's \<Rightarrow> (go_error + pull_response) \<times> 's"

text \<open>The projectors on one cached record; the first error ends the loop.\<close>

fun project_pulled :: "'p projector list \<Rightarrow> envelope \<Rightarrow> event \<Rightarrow> 'p \<Rightarrow> go_error option \<times> 'p" where
  "project_pulled [] e ev p = (None, p)"
| "project_pulled ((name, h) # prs) e ev p =
     (case h e ev p of (Some err, p') \<Rightarrow> (Some err, p') | (None, p') \<Rightarrow> project_pulled prs e ev p')"

text \<open>One pulled record: the error, if any, and the new report, cache and read models.\<close>

definition pull_one :: "('l, 'p) options \<Rightarrow> ('l \<Rightarrow> string \<Rightarrow> int \<Rightarrow> ledger_error + int) \<Rightarrow> string \<Rightarrow> envelope \<Rightarrow>
    pull_report \<times> 'l \<times> 'p \<Rightarrow> go_error option \<times> pull_report \<times> 'l \<times> 'p" where
  "pull_one opt fo daemon e x =
     (case x of (rep0, cache, p) \<Rightarrow>
      (let rep = rep0\<lparr>yl_Received := yl_Received rep0 + 1\<rparr>;
          skip = rep\<lparr>yl_Skipped := yl_Skipped rep + 1\<rparr> in
      if (case e_Origin e of Some og \<Rightarrow> og_DaemonID og = daemon | None \<Rightarrow> False) then (None, skip, cache, p)
      else case decode opt e of
        Inl err \<Rightarrow> (Some (Sprintf ''sync pull: seq %d: %w'' [Itoa (e_Seq e), err]), rep, cache, p)
      | Inr ev \<Rightarrow>
        let og = (case e_Origin e of
                    None \<Rightarrow> \<lparr>og_DaemonID = ''server'', og_LocalSeq = e_Seq e, og_PrevHash = []\<rparr>
                  | Some g \<Rightarrow> g);
            c = e\<lparr>e_Seq := 0, e_Origin := Some og\<rparr> in
        (case fo cache (og_DaemonID og) (og_LocalSeq og) of
           Inr _ \<Rightarrow> (None, skip, cache, p)
         | Inl ferr \<Rightarrow>
           if ferr \<noteq> ErrNotFound then (Some (ledger_error_string ferr), rep, cache, p)
           else (case pl_Append (o_Ledger opt) cache (e_Stream e) AnyVersion [c] of
             (Inl aerr, cache') \<Rightarrow>
               if aerr = ErrDuplicateOrigin \<or> aerr = ErrDuplicateIdempotencyKey then (None, skip, cache', p)
               else (Some (Sprintf ''sync pull: cache seq %d: %w'' [Itoa (e_Seq e), ledger_error_string aerr]), rep, cache', p)
           | (Inr rng, cache') \<Rightarrow>
               let rep' = rep\<lparr>yl_Cached := yl_Cached rep + 1\<rparr> in
               (case pl_Read (o_Ledger opt) cache' (e_Stream e) (rg_FromVer rng) of
                  Inl _ \<Rightarrow> (None, rep', cache', p)
                | Inr [] \<Rightarrow> (None, rep', cache', p)
                | Inr (w # ws) \<Rightarrow>
                    (case project_pulled (o_Projectors opt) w ev p of
                       (None, p') \<Rightarrow> (None, rep', cache', p')
                     | (Some err, p') \<Rightarrow>
                         (Some (Sprintf ''sync pull: project seq %d: %w'' [Itoa (e_Seq e), err]), rep', cache', p')))))))"

fun pull_events :: "('l, 'p) options \<Rightarrow> ('l \<Rightarrow> string \<Rightarrow> int \<Rightarrow> ledger_error + int) \<Rightarrow> string \<Rightarrow> envelope list \<Rightarrow>
    pull_report \<times> 'l \<times> 'p \<Rightarrow> go_error option \<times> pull_report \<times> 'l \<times> 'p" where
  "pull_events opt fo daemon [] x = (None, x)"
| "pull_events opt fo daemon (e # es) x =
     (case pull_one opt fo daemon e x of
        (Some err, x') \<Rightarrow> (Some err, x')
      | (None, x') \<Rightarrow> pull_events opt fo daemon es x')"

partial_function (option) Syncer_Pull :: "'s pull_client \<Rightarrow> ('l, 'p) options \<Rightarrow> ('l \<Rightarrow> string \<Rightarrow> int \<Rightarrow> ledger_error + int) \<Rightarrow> string \<Rightarrow>
    (int \<Rightarrow> go_time) \<Rightarrow> sync_state \<times> 's \<times> (pull_report \<times> 'l \<times> 'p) \<Rightarrow>
    (go_error option \<times> sync_state \<times> 's \<times> (pull_report \<times> 'l \<times> 'p)) option" where
  "Syncer_Pull client opt fo daemon clk y =
     (case y of (st, srv, x) \<Rightarrow>
      (case client (ys_PullCursor st) 0 srv of
        (Inl e, srv') \<Rightarrow> Some (Some (''sync pull: '' @ e), st, srv', x)
      | (Inr res, srv') \<Rightarrow>
        (case pull_events opt fo daemon (pu_Events res) x of
           (Some err, x') \<Rightarrow> Some (Some err, st, srv', x')
         | (None, x') \<Rightarrow>
           (case x' of (rep, cp) \<Rightarrow>
            let st' = st\<lparr>ys_PullCursor := pu_Cursor res, ys_PulledAt := clk (pu_Cursor res)\<rparr>;
                y' = (st', srv', (rep\<lparr>yl_Cursor := pu_Cursor res\<rparr>, cp)) in
            if \<not> pu_More res then Some (None, y')
            else Syncer_Pull client opt fo daemon clk y'))))"

end
