(* ===== verification/Sync_Facts.thy ===== *)
theory Sync_Facts
  imports Sync
begin

section \<open>What synchronisation guarantees\<close>

text \<open>
  A push offers exactly the shareable records after its cursor, once and in order, and it
  returns; a pull leaves a sound cache that holds nothing but records of the team layer.
\<close>

subsection \<open>The requests of a push\<close>

definition traced :: "'s push_client \<Rightarrow> ('s \<times> push_request list) push_client" where
  "traced client req x = (case client req (fst x) of (r, s) \<Rightarrow> (r, (s, snd x @ [req])))"

lemma page_last:
  assumes "log_ok H J es" "take k (drop n es) \<noteq> []"
  shows "e_Seq (last (take k (drop n es))) = int (n + length (take k (drop n es)))"
proof -
  obtain j where j: "length (take k (drop n es)) = Suc j"
    using assms(2) by (cases "take k (drop n es)") auto
  then have "n + j < length es" "last (take k (drop n es)) = es ! (n + j)"
    using assms(2) by (auto simp: last_conv_nth min_def split: if_splits)
  then show ?thesis
    using log_ok_seq [OF assms(1), of "n + j"] j by simp
qed

text \<open>What a page leaves: the requests it made, and the cursor after it.\<close>

definition page_request :: "(envelope \<Rightarrow> bool) \<Rightarrow> string \<Rightarrow> envelope list \<Rightarrow> push_request list" where
  "page_request may daemon pg =
     (if filter may pg = [] then [] else [\<lparr>pq_DaemonID = daemon, pq_Events = filter may pg\<rparr>])"

lemma page_request_events [simp]: "concat (map pq_Events (page_request may daemon pg)) = filter may pg"
  by (simp add: page_request_def)

lemma page_request_set: "q \<in> set (page_request may daemon pg) \<Longrightarrow> pq_DaemonID q = daemon \<and> pq_Events q \<noteq> []"
  by (auto simp: page_request_def split: if_splits)

lemma push_page_trace:
  assumes "push_page (traced client) may daemon clk pg (rep, st, (srv, tr)) = (err, rep', st', (srv', tr'))"
  shows "tr' = tr @ page_request may daemon pg"
    and "err = None \<Longrightarrow> ys_PushCursor st' = e_Seq (last pg) \<and> yr_Scanned rep' = yr_Scanned rep + (e_Seq (last pg) - ys_PushCursor st)"
    and "err \<noteq> None \<Longrightarrow> st' = st \<and> yr_Scanned rep' = yr_Scanned rep"
  using assms by (auto simp: push_page_def page_request_def traced_def Let_def split: prod.splits sum.splits if_splits)

definition push_trace :: "(envelope \<Rightarrow> bool) \<Rightarrow> string \<Rightarrow> envelope list \<Rightarrow> nat \<Rightarrow> go_error option \<Rightarrow> int \<Rightarrow> push_request list \<Rightarrow> bool" where
  "push_trace may daemon es n err cursor reqs \<longleftrightarrow>
     (\<forall>q \<in> set reqs. pq_DaemonID q = daemon \<and> pq_Events q \<noteq> []) \<and>
     (\<exists>j k. n \<le> j \<and> j \<le> k \<and> k \<le> length es \<and> cursor = int j \<and>
        concat (map pq_Events reqs) = filter may (take (k - n) (drop n es)) \<and>
        (err = None \<longrightarrow> j = length es))"

lemma push_traceI:
  assumes "n \<le> j" "j \<le> k" "k \<le> length es" "cursor = int j" "err = None \<Longrightarrow> j = length es"
    and "concat (map pq_Events reqs) = filter may (take (k - n) (drop n es))"
    and "\<And>q. q \<in> set reqs \<Longrightarrow> pq_DaemonID q = daemon \<and> pq_Events q \<noteq> []"
  shows "push_trace may daemon es n err cursor reqs"
  using assms unfolding push_trace_def by blast

lemma push_trace_end: "n = length es \<Longrightarrow> push_trace may daemon es n None (int n) []"
  by (auto simp: push_trace_def)

lemma push_trace_step:
  assumes "push_trace may daemon es (n + length pg) err cursor reqs" "take (length pg) (drop n es) = pg" "n + length pg \<le> length es"
  shows "push_trace may daemon es n err cursor (page_request may daemon pg @ reqs)"
proof -
  obtain j k where jk: "n + length pg \<le> j" "j \<le> k" "k \<le> length es" "cursor = int j" "err = None \<longrightarrow> j = length es"
    "concat (map pq_Events reqs) = filter may (take (k - (n + length pg)) (drop (n + length pg) es))"
    and q: "\<forall>q \<in> set reqs. pq_DaemonID q = daemon \<and> pq_Events q \<noteq> []"
    using assms(1) unfolding push_trace_def by blast
  have "take (k - n) (drop n es) = pg @ take (k - (n + length pg)) (drop (n + length pg) es)"
    using take_add [of "length pg" "k - (n + length pg)" "drop n es"] jk(1,2) assms(2) by (simp add: add.commute)
  then have "concat (map pq_Events (page_request may daemon pg @ reqs)) =
      filter may (take (k - n) (drop n es))"
    using jk(6) by simp
  moreover have "n \<le> j"
    using jk(1) by simp
  ultimately show ?thesis
    using jk(2-5) q page_request_set [of _ may daemon pg] by (intro push_traceI [of n j k]) auto
qed

context ledger_port
begin

lemma push_pages_returns:
  assumes inv: "inv l" and batch: "0 < batch" and "ys_PushCursor st = int n" "n \<le> length (log l)"
  shows "\<exists>err rep' st' srv' reqs. push_pages (traced client) may daemon clk P l batch (rep, st, (srv, tr)) =
      Some (err, rep', st', (srv', tr @ reqs)) \<and> push_trace may daemon (log l) n err (ys_PushCursor st') reqs \<and>
      yr_Scanned rep' = yr_Scanned rep + (ys_PushCursor st' - int n)"
  using assms(3,4)
proof (induction "length (log l) - n" arbitrary: n rep st srv tr rule: less_induct)
  case less
  let ?pg = "take (nat batch) (drop n (log l))"
  have rd: "pl_ReadAll P l (int n + 1) batch = Inr ?pg"
    using read_all [OF inv, of "int n + 1" batch] batch by (simp add: Let_def)
  show ?case
  proof (cases "?pg = []")
    case True
    then have "n = length (log l)"
      using batch less(3) by auto
    moreover have "push_pages (traced client) may daemon clk P l batch (rep, st, (srv, tr)) = Some (None, rep, st, (srv, tr @ []))"
      using rd less(2) True by (subst push_pages.simps) simp
    ultimately show ?thesis
      using less(2) push_trace_end [of n "log l"] by (intro exI conjI) auto
  next
    case False
    obtain err rep1 st1 srv1 tr1 where pg: "push_page (traced client) may daemon clk ?pg (rep, st, (srv, tr)) = (err, rep1, st1, (srv1, tr1))"
      by (metis surj_pair)
    note step = push_page_trace [OF pg]
    let ?req = "page_request may daemon ?pg"
    let ?m = "n + length ?pg"
    have m: "n < ?m" "?m \<le> length (log l)" "take (length ?pg) (drop n (log l)) = ?pg"
      using False less(3) by (auto simp: min_def)
    show ?thesis
    proof (cases err)
      case (Some x)
      have "push_trace may daemon (log l) n err (ys_PushCursor st1) ?req"
      proof (rule push_traceI)
        show "concat (map pq_Events ?req) = filter may (take (?m - n) (drop n (log l)))"
          using m(3) by simp
      qed (use m Some step(3) less(2) page_request_set in simp_all)
      moreover have "push_pages (traced client) may daemon clk P l batch (rep, st, (srv, tr)) = Some (err, rep1, st1, (srv1, tr1))"
        using rd less(2) False Some pg by (subst push_pages.simps) simp
      ultimately show ?thesis
        using step(1,3) Some less(2) by (intro exI conjI) auto
    next
      case None
      have cur: "ys_PushCursor st1 = int ?m" "yr_Scanned rep1 = yr_Scanned rep + (int ?m - int n)"
        using page_last [OF log_wf [OF inv] False] step(2) None less(2) by simp_all
      obtain err' rep' st' srv' reqs where rest: "(if int (length ?pg) < batch then Some (None, rep1, st1, (srv1, tr1))
          else push_pages (traced client) may daemon clk P l batch (rep1, st1, (srv1, tr1))) = Some (err', rep', st', (srv', tr1 @ reqs))"
        "push_trace may daemon (log l) ?m err' (ys_PushCursor st') reqs" "yr_Scanned rep' = yr_Scanned rep1 + (ys_PushCursor st' - int ?m)"
      proof (cases "int (length ?pg) < batch")
        case True
        then have "?m = length (log l)"
          using less(3) by auto
        then show thesis
          using that [of None rep1 st1 srv1 "[]"] True cur(1) push_trace_end [of ?m "log l"] by simp
      next
        case full: False
        have "length (log l) - ?m < length (log l) - n"
          using m by linarith
        from less(1) [OF this cur(1) m(2), of rep1 srv1 tr1] show thesis
          using that full by auto
      qed
      have "push_pages (traced client) may daemon clk P l batch (rep, st, (srv, tr)) = Some (err', rep', st', (srv', tr1 @ reqs))"
        using rd less(2) False None pg rest(1) by (subst push_pages.simps) auto
      then show ?thesis
        using push_trace_step [OF rest(2) m(3,2)] step(1) rest(3) cur(2) by (intro exI conjI) auto
    qed
  qed
qed

end

subsection \<open>The cache after a pull\<close>

definition pull_origin :: "envelope \<Rightarrow> origin" where
  "pull_origin e = (case e_Origin e of
     None \<Rightarrow> \<lparr>og_DaemonID = ''server'', og_LocalSeq = e_Seq e, og_PrevHash = []\<rparr> | Some g \<Rightarrow> g)"

definition own_record :: "string \<Rightarrow> envelope \<Rightarrow> bool" where
  "own_record daemon e \<longleftrightarrow> (\<exists>og. e_Origin e = Some og \<and> og_DaemonID og = daemon)"

definition copied :: "envelope \<Rightarrow> envelope \<Rightarrow> bool" where
  "copied e w \<longleftrightarrow> e_Stream w = e_Stream e \<and> e_Kind w = e_Kind e \<and> e_V w = e_V e \<and> e_Actor w = e_Actor e \<and>
     e_Meta w = e_Meta e \<and> e_Body w = e_Body e \<and> e_Idem w = e_Idem e \<and> e_Origin w = Some (pull_origin e)"

text \<open>A record is in the cache by its origin, or another record of its stream has its key.\<close>

definition in_cache :: "('l \<Rightarrow> envelope list) \<Rightarrow> ('l \<Rightarrow> string \<Rightarrow> int \<Rightarrow> ledger_error + int) \<Rightarrow> 'l \<Rightarrow> envelope \<Rightarrow> bool" where
  "in_cache lg fo cache e \<longleftrightarrow>
     (\<exists>q. fo cache (og_DaemonID (pull_origin e)) (og_LocalSeq (pull_origin e)) = Inr q) \<or>
     e_Idem e \<noteq> '''' \<and> (\<exists>x \<in> set (lg cache). e_Idem x \<noteq> '''' \<and> env_idem_key x = idemKey (e_Stream e) (e_Idem e))"

definition pull_effect :: "('l \<Rightarrow> envelope list) \<Rightarrow> ('l \<Rightarrow> string \<Rightarrow> int \<Rightarrow> ledger_error + int) \<Rightarrow> string \<Rightarrow> envelope list \<Rightarrow>
    go_error option \<Rightarrow> 'l \<Rightarrow> 'l \<Rightarrow> bool" where
  "pull_effect lg fo daemon es err c c' \<longleftrightarrow>
     (\<exists>ext. lg c' = lg c @ ext \<and> (\<forall>w \<in> set ext. \<exists>e \<in> set es. \<not> own_record daemon e \<and> copied e w)) \<and>
     (\<forall>d n q. fo c d n = Inr q \<longrightarrow> fo c' d n = Inr q) \<and>
     (err = None \<longrightarrow> (\<forall>e \<in> set es. own_record daemon e \<or> in_cache lg fo c' e))"

lemma pull_effect_refl: "\<forall>e \<in> set es. own_record daemon e \<or> in_cache lg fo c e \<Longrightarrow> pull_effect lg fo daemon es err c c"
  by (auto simp: pull_effect_def)

lemma pull_effect_error: "err \<noteq> None \<Longrightarrow> pull_effect lg fo daemon es err c c"
  by (auto simp: pull_effect_def)

lemma in_cache_mono: "in_cache lg fo c e \<Longrightarrow> pull_effect lg fo daemon es err c c' \<Longrightarrow> in_cache lg fo c' e"
  by (auto simp: in_cache_def pull_effect_def)

lemma pull_effect_trans:
  assumes "pull_effect lg fo daemon es None c c'" "pull_effect lg fo daemon es' err c' c''"
  shows "pull_effect lg fo daemon (es @ es') err c c''"
proof -
  obtain ext ext' where "lg c' = lg c @ ext" "lg c'' = lg c' @ ext'"
    "\<forall>w \<in> set ext. \<exists>e \<in> set es. \<not> own_record daemon e \<and> copied e w"
    "\<forall>w \<in> set ext'. \<exists>e \<in> set es'. \<not> own_record daemon e \<and> copied e w"
    using assms by (auto simp: pull_effect_def)
  then have "\<exists>ext. lg c'' = lg c @ ext \<and> (\<forall>w \<in> set ext. \<exists>e \<in> set (es @ es'). \<not> own_record daemon e \<and> copied e w)"
    by (intro exI [of _ "ext @ ext'"]) auto
  moreover have "own_record daemon e \<or> in_cache lg fo c'' e" if "e \<in> set (es @ es')" "err = None" for e
    using that assms in_cache_mono [OF _ assms(2)] by (auto simp: pull_effect_def)
  ultimately show ?thesis
    using assms by (simp add: pull_effect_def)
qed

lemma pull_effect_weaken: "pull_effect lg fo daemon es (Some x) c c' \<Longrightarrow> pull_effect lg fo daemon (es @ es') (Some x) c c'"
  by (fastforce simp: pull_effect_def)

context origin_port
begin

lemma pull_one_effect:
  assumes opt: "o_Ledger opt = P" and inv: "inv c" and one: "pull_one opt fo daemon e (rep, c, p) = (err, rep', c', p')"
  shows "inv c' \<and> pull_effect log fo daemon [e] err c c'"
proof -
  let ?og = "pull_origin e"
  let ?c = "e\<lparr>e_Seq := 0, e_Origin := Some ?og\<rparr>"
  have own: "(case e_Origin e of Some og \<Rightarrow> og_DaemonID og = daemon | None \<Rightarrow> False) \<longleftrightarrow> own_record daemon e"
    by (auto simp: own_record_def split: option.splits)
  note one' = one [unfolded pull_one_def prod.case Let_def own pull_origin_def [symmetric] opt]
  obtain r c1 where app: "pl_Append P c (e_Stream e) AnyVersion [?c] = (r, c1)"
    by fastforce
  consider (own) "own_record daemon e" | (bad) x where "\<not> own_record daemon e" "decode opt e = Inl x"
    | (hit) ev q where "\<not> own_record daemon e" "decode opt e = Inr ev" "fo c (og_DaemonID ?og) (og_LocalSeq ?og) = Inr q"
    | (append) ev where "\<not> own_record daemon e" "fo c (og_DaemonID ?og) (og_LocalSeq ?og) = Inl ErrNotFound" "decode opt e = Inr ev"
    using find_miss [OF inv] by (metis sum.exhaust)
  then show ?thesis
  proof cases
    case own
    then show ?thesis
      using one' inv by (auto simp: pull_effect_refl)
  next
    case bad
    then show ?thesis
      using one' inv by (auto simp: pull_effect_error)
  next
    case hit
    then show ?thesis
      using one' inv by (auto simp: pull_effect_refl in_cache_def)
  next
    case (append ev)
    note one'' = one' [unfolded append(2,3) sum.case app prod.case]
    have res: "c' = c1 \<and> (r = Inl ErrDuplicateOrigin \<or> r = Inl ErrDuplicateIdempotencyKey \<or> (\<exists>rng. r = Inr rng) \<or> err \<noteq> None)"
    proof (cases r)
      case (Inl aerr)
      then show ?thesis
        using one'' append(1) by (auto split: if_splits)
    next
      case (Inr rng)
      obtain ws where "pl_Read P c1 (e_Stream e) (rg_FromVer rng) = ws"
        by blast
      then show ?thesis
        using one'' append(1) Inr by (auto split: sum.splits list.splits prod.splits option.splits)
    qed
    have key: "env_origin_key ?c = Some (originKey (og_DaemonID ?og) (og_LocalSeq ?og))"
      by (simp add: env_origin_key_def)
    show ?thesis
    proof (cases r)
      case (Inl aerr)
      then have c: "c' = c"
        using res append_atomic [OF inv] app by blast
      have "aerr \<noteq> ErrDuplicateOrigin"
        using append_new_origin [OF inv, of "[?c]" "e_Stream e" AnyVersion] find_miss [OF inv append(2)] app Inl key by auto
      then show ?thesis
        using res append_taken [OF inv, of "e_Stream e" AnyVersion ?c c1] app Inl inv
        by (cases "err = None") (auto simp: c pull_effect_error in_cache_def intro!: pull_effect_refl)
    next
      case (Inr rng)
      obtain w where w: "log c1 = log c @ [w]" "sealed_as (e_Stream e) ?c w" "inv c1"
        using append_ok [OF inv app [unfolded Inr]] by (auto simp: list_all2_Cons1)
      then have "copied e w"
        by (simp add: copied_def sealed_as_def)
      moreover have "in_cache log fo c1 e"
        using find_appended [OF inv append(2) app [unfolded Inr] key] by (simp add: in_cache_def)
      ultimately show ?thesis
        using append(1) res w find_stable [OF inv app [unfolded Inr]] by (auto simp: pull_effect_def)
    qed
  qed
qed

lemma pull_events_effect:
  assumes opt: "o_Ledger opt = P" and "inv c" "pull_events opt fo daemon es (rep, c, p) = (err, rep', c', p')"
  shows "inv c' \<and> pull_effect log fo daemon es err c c'"
  using assms(2,3)
proof (induction es arbitrary: rep c p)
  case Nil
  then show ?case
    by (auto simp: pull_effect_refl)
next
  case (Cons e es)
  obtain err1 rep1 c1 p1 where one: "pull_one opt fo daemon e (rep, c, p) = (err1, rep1, c1, p1)"
    by (metis surj_pair)
  note eff = pull_one_effect [OF opt Cons(2) one]
  show ?case
  proof (cases err1)
    case None
    then have "inv c' \<and> pull_effect log fo daemon es err c1 c'"
      using Cons(1) [of c1 rep1 p1] Cons(3) one eff by simp
    then show ?thesis
      using pull_effect_trans [of log fo daemon "[e]" c c1 es err c'] eff None by simp
  next
    case (Some x)
    then show ?thesis
      using Cons(3) one eff pull_effect_weaken [of log fo daemon "[e]" x c c1 es] by auto
  qed
qed

end

subsection \<open>Pulling from the team server\<close>

fun team_error_string :: "team_error \<Rightarrow> go_error" where
  "team_error_string (TeamNotFound e) = e"
| "team_error_string (TeamForbidden e) = e"
| "team_error_string (TeamError e) = e"
| "team_error_string (TeamApp _) = ''app: rejected''"

text \<open>A client that is the server itself; pulling does not change it.\<close>

definition team_pull :: "('l, server_models) options \<Rightarrow> int \<Rightarrow> 'l pull_client" where
  "team_pull opt PullLimit since limit l =
     (case TeamServer_Pull opt PullLimit since limit l of
        Inl e \<Rightarrow> (Inl (team_error_string e), l)
      | Inr r \<Rightarrow> (Inr r, l))"

definition pull_page :: "int \<Rightarrow> nat" where
  "pull_page PullLimit = nat (if PullLimit \<le> 0 then 500 else PullLimit)"

context ledger_port
begin

text \<open>A page holds the team layer of the next records; the cursor moves past all of them.\<close>

lemma Pull_page:
  assumes "o_Ledger opt = P" "inv l" "n \<le> length (log l)"
  shows "TeamServer_Pull opt lim (int n) 0 l =
    Inr \<lparr>pu_Cursor = int (n + length (take (pull_page lim) (drop n (log l)))),
         pu_Events = filter (\<lambda>e. TeamLayer (e_Stream e)) (take (pull_page lim) (drop n (log l))),
         pu_More = (length (take (pull_page lim) (drop n (log l))) = pull_page lim)\<rparr>"
proof -
  let ?max = "if lim \<le> 0 then 500 else lim" and ?pg = "take (pull_page lim) (drop n (log l))"
  have max: "0 < ?max" "int (pull_page lim) = ?max"
    by (simp_all add: pull_page_def)
  have "pl_ReadAll P l (int n + 1) ?max = Inr ?pg"
    using read_all [OF assms(2), of "int n + 1" ?max] max(1) by (simp add: Let_def pull_page_def)
  moreover have "(if ?pg = [] then int n else e_Seq (last ?pg)) = int (n + length ?pg)"
    using page_last [OF log_wf [OF assms(2)], of "pull_page lim" n] by simp
  ultimately show ?thesis
    unfolding TeamServer_Pull_def Let_def assms(1)
    by (simp only: max(2) [symmetric] sum.case of_nat_eq_iff order.refl simp_thms if_True)
qed

end

lemma Syncer_Pull_step:
  assumes "team_pull sopt lim (ys_PullCursor st) 0 L = (Inr res, L)" "pull_events opt fo daemon (pu_Events res) x = (err, rep, c, p)"
  shows "Syncer_Pull (team_pull sopt lim) opt fo daemon clk (st, L, x) =
    (if err \<noteq> None then Some (err, st, L, rep, c, p)
     else let y = (st\<lparr>ys_PullCursor := pu_Cursor res, ys_PulledAt := clk (pu_Cursor res)\<rparr>, L, rep\<lparr>yl_Cursor := pu_Cursor res\<rparr>, c, p) in
       if \<not> pu_More res then Some (None, y) else Syncer_Pull (team_pull sopt lim) opt fo daemon clk y)"
  using assms by (subst Syncer_Pull.simps) (auto simp: Let_def split: option.splits)

lemma pull_returns:
  assumes srv: "o_Ledger sopt = mem_port H J" "ledger_inv H J L" and opt: "o_Ledger opt = mem_port H J"
    and "ledger_inv H J c" "ys_PullCursor st = int n" "n \<le> length (l_all L)"
  shows "\<exists>err st' rep' c' p'. Syncer_Pull (team_pull sopt lim) opt FindOrigin daemon clk (st, L, rep, c, p) = Some (err, st', L, rep', c', p') \<and>
    ledger_inv H J c' \<and>
    (\<exists>k. n \<le> k \<and> k \<le> length (l_all L) \<and> (err = None \<longrightarrow> k = length (l_all L) \<and> ys_PullCursor st' = int k) \<and>
      pull_effect l_all FindOrigin daemon (filter (\<lambda>e. TeamLayer (e_Stream e)) (take (k - n) (drop n (l_all L)))) err c c')"
  using assms(4-6)
proof (induction "length (l_all L) - n" arbitrary: n st rep c p rule: less_induct)
  case less
  let ?pg = "take (pull_page lim) (drop n (l_all L))" and ?team = "\<lambda>es. filter (\<lambda>e. TeamLayer (e_Stream e)) es"
  let ?m = "n + length ?pg"
  have lim: "0 < pull_page lim"
    by (simp add: pull_page_def)
  have m: "?m \<le> length (l_all L)" "take (?m - n) (drop n (l_all L)) = ?pg"
    using less(4) by (auto simp: min_def)
  define res where "res = \<lparr>pu_Cursor = int ?m, pu_Events = ?team ?pg, pu_More = (length ?pg = pull_page lim)\<rparr>"
  have page: "team_pull sopt lim (ys_PullCursor st) 0 L = (Inr res, L)"
    using memory.Pull_page [OF srv less(4), of lim] less(3) by (simp add: team_pull_def res_def)
  have res: "pu_Cursor res = int ?m" "pu_Events res = ?team ?pg" "pu_More res \<longleftrightarrow> length ?pg = pull_page lim"
    by (simp_all add: res_def)
  obtain err rep1 c1 p1 where ev: "pull_events opt FindOrigin daemon (pu_Events res) (rep, c, p) = (err, rep1, c1, p1)"
    by (metis surj_pair)
  have eff: "ledger_inv H J c1" "pull_effect l_all FindOrigin daemon (?team ?pg) err c c1"
    using team.pull_events_effect [OF opt less(2) ev] res(2) by simp_all
  note step = Syncer_Pull_step [OF page ev, of clk]
  show ?case
  proof (cases "err = None \<and> pu_More res")
    case False
    then show ?thesis
    proof (cases "err = None")
      case True
      then have "?m = length (l_all L)"
        using False res(3) less(4) by (auto simp: min_def split: if_splits)
      then show ?thesis
        using step False True eff m(2) res(1) by (auto simp: Let_def intro!: exI [of _ "length (l_all L)"])
    next
      case err: False
      then show ?thesis
        using step eff m by (auto intro!: exI [of _ ?m])
    qed
  next
    case True
    let ?st = "st\<lparr>ys_PullCursor := pu_Cursor res, ys_PulledAt := clk (pu_Cursor res)\<rparr>"
    have "length (l_all L) - ?m < length (l_all L) - n"
      using True res(3) lim m(1) by linarith
    moreover have "ys_PullCursor ?st = int ?m"
      using res(1) by simp
    ultimately obtain err' st' rep' c' p' k where rest: "Syncer_Pull (team_pull sopt lim) opt FindOrigin daemon clk
        (?st, L, rep1\<lparr>yl_Cursor := pu_Cursor res\<rparr>, c1, p1) = Some (err', st', L, rep', c', p')" "ledger_inv H J c'"
      and k: "?m \<le> k" "k \<le> length (l_all L)" "err' = None \<longrightarrow> k = length (l_all L) \<and> ys_PullCursor st' = int k"
        "pull_effect l_all FindOrigin daemon (?team (take (k - ?m) (drop ?m (l_all L)))) err' c1 c'"
      using less(1) [OF _ eff(1) _ m(1)] by blast
    have "take (k - n) (drop n (l_all L)) = ?pg @ take (k - ?m) (drop ?m (l_all L))"
      using take_add [of "?m - n" "k - ?m" "drop n (l_all L)"] k(1) m(2) by (simp add: add.commute)
    then have "pull_effect l_all FindOrigin daemon (?team (take (k - n) (drop n (l_all L)))) err' c c'"
      using pull_effect_trans [OF _ k(4), of "?team ?pg" c] eff(2) True by simp
    moreover have "Syncer_Pull (team_pull sopt lim) opt FindOrigin daemon clk (st, L, rep, c, p) = Some (err', st', L, rep', c', p')"
      using step rest(1) True by (simp add: Let_def)
    moreover have "n \<le> k"
      using k(1) by simp
    ultimately show ?thesis
      using rest(2) k(2,3) by blast
  qed
qed

end
