(* ===== verification/Team_Properties.thy ===== *)
theory Team_Properties
  imports Sync_Facts Runtime_Facts Sample_Inputs
begin

section \<open>Properties of the team server and of synchronisation\<close>

text \<open>
  What holds of every run of a tenant over the in-memory ledger, of what a push answers and
  of a repeated push; what a daemon offers; what a pull leaves in the cache.
\<close>

subsection \<open>A tenant over the in-memory ledger\<close>

definition mem_org :: "digest \<Rightarrow> meta_json \<Rightarrow> (event \<Rightarrow> go_error + bytes) \<Rightarrow> (codec_key \<Rightarrow> bytes \<Rightarrow> go_error + event) \<Rightarrow>
    (string \<Rightarrow> hash \<Rightarrow> bytes \<Rightarrow> bool) \<Rightarrow> (string \<Rightarrow> string \<Rightarrow> ledger_error + (string \<times> string)) \<Rightarrow> mem_ledger org_config" where
  "mem_org H J mar un verify keys =
     \<lparr>oc_Options = org_options H (mem_port H J) mar un DefaultPolicy, oc_H = H, oc_J = J, oc_FindOrigin = FindOrigin,
      oc_KeysVerify = verify, oc_DaemonKey = keys\<rparr>"

lemma mem_org_ok:
  assumes "json_roundtrip mar un"
  shows "org_ok H J (mem_port H J) FindOrigin (mem_org H J mar un verify keys)"
  using assms by (simp add: org_ok_def org_opt_def mem_org_def org_options_def new_options_def json_faithful_def json_roundtrip_def)

abbreviation tenant_runs :: "mem_ledger org_config \<Rightarrow> string \<Rightarrow> signer option \<Rightarrow> mem_ledger \<times> server_models \<Rightarrow> bool" where
  "tenant_runs cfg org sg st \<equiv> org_reaches cfg org (NewLedger sg, empty_server) st"

lemma tenant_run_ok:
  assumes "json_roundtrip mar un" "tenant_runs (mem_org H J mar un verify keys) org sg st"
  shows "tenant_ok (ledger_inv H J) l_all (mem_org H J mar un verify keys) org st"
  using team.org_run_keeps [OF mem_org_ok [OF assms(1)] assms(2) team.tenant_start] NewLedger_inv
  by (simp add: NewLedger_def)

text \<open>A tenant with one registered daemon, and a push of one record from an empty ledger.\<close>

definition sample_retirement :: event where
  "sample_retirement = EvConstraint (ConstraintRetired \<lparr>ct_ID = ''c'', ct_Reason = ''obsolete'', ct_By = ada, ct_At = 5\<rparr>)"

definition team_marshal :: "event \<Rightarrow> go_error + bytes" where
  "team_marshal e = (if e = sample_retirement then Inr ''body'' else Inl ''unsupported value'')"

definition team_unmarshal :: "codec_key \<Rightarrow> bytes \<Rightarrow> go_error + event" where
  "team_unmarshal k b = (if k = event_kv sample_retirement \<and> b = ''body'' then Inr sample_retirement else Inl ''unexpected end of JSON input'')"

definition sample_keys :: "string \<Rightarrow> string \<Rightarrow> ledger_error + (string \<times> string)" where
  "sample_keys org d = (if org = ''acme'' \<and> d = ''d1'' then Inr (''pk'', ''ada'') else Inl ErrNotFound)"

abbreviation sample_tenant :: "mem_ledger org_config" where
  "sample_tenant \<equiv> mem_org sample_digest sample_json team_marshal team_unmarshal (\<lambda>pub h s. pub = ''pk'') sample_keys"

definition sample_member :: principal where
  "sample_member = \<lparr>pc_Org = ''acme'', pc_User = ''ada'', pc_Kind = ''human'', pc_Owner = ''''\<rparr>"

definition sample_push :: push_request where
  "sample_push = \<lparr>pq_DaemonID = ''d1'', pq_Events = [sample_sealed]\<rparr>"

definition sample_cursors :: sync_state where
  "sample_cursors = \<lparr>ys_DaemonID = ''d1'', ys_PushCursor = 0, ys_PullCursor = 0, ys_PushedAt = 0, ys_PulledAt = 0\<rparr>"

lemma team_json_roundtrip: "json_roundtrip team_marshal team_unmarshal"
  by (auto simp: json_roundtrip_def team_marshal_def team_unmarshal_def split: if_splits)

lemma sample_key: "sample_keys (pc_Org sample_member) (pq_DaemonID sample_push) = Inr (''pk'', pc_User sample_member)"
  by (simp add: sample_keys_def sample_member_def sample_push_def)

lemma sample_push_ok: "push_ok sample_tenant ''pk'' ''ada'' sample_sealed"
proof -
  have "Verify sample_digest sample_json [] sample_sealed = None"
    by (rule Seal_Verify [OF sample_Seal])
  moreover have "decode (oc_Options sample_tenant) sample_sealed = Inr sample_retirement"
  proof -
    have "encode (oc_Options sample_tenant) sample_retirement = Inr ''body''"
      using event_kv_registered [of sample_retirement]
      by (simp add: encode_def Codec_Encode_def mem_org_def org_options_def new_options_def team_marshal_def)
    moreover have "current sample_retirement"
      by (rule current_unless_v1) (simp_all add: sample_retirement_def)
    ultimately have "decodes (oc_Options sample_tenant) sample_sealed sample_retirement"
      using mem_org_ok [OF team_json_roundtrip]
      by (intro encode_decode) (simp_all add: org_ok_def org_opt_def sample_retirement_def sample_defs)
    then show ?thesis
      by (simp add: decodes_def)
  qed
  ultimately show ?thesis
    by (simp add: push_ok_def mem_org_def) (simp add: sample_defs Shareable_def Actor_Validate_def)
qed

lemma sample_pushed:
  "\<exists>l m. TeamServer_Push sample_tenant sample_member sample_push 5 (NewLedger None, empty_server) =
    Some (None, \<lparr>pp_Accepted = [\<lparr>pa_LocalSeq = 1, pa_Seq = 1, pa_Duplicate = False\<rparr>], pp_Rejected = [], pp_Head = 1\<rparr>, (l, m)) \<and>
    length (l_all l) = 1"
proof -
  let ?copy = "sample_sealed\<lparr>e_Seq := 0, e_Origin := Some \<lparr>og_DaemonID = ''d1'', og_LocalSeq = 1, og_PrevHash = []\<rparr>\<rparr>"
  have seq: "e_Seq sample_sealed = 1" "e_PrevHash sample_sealed = []" "e_Ver sample_sealed = 1"
    by (simp_all add: sample_defs)
  obtain l where app: "mem_Append sample_digest sample_json (NewLedger None) (e_Stream sample_sealed) 0 [?copy] =
      (Inr \<lparr>rg_Stream = e_Stream sample_sealed, rg_FromVer = 1, rg_ToVer = 1, rg_FromSeq = 1, rg_ToSeq = 1\<rparr>, l)" "length (l_all l) = 1"
    by (simp add: mem_Append_def NewLedger_def map_get_def seal_batch.simps Let_def Seal_def metaHash_def hash_sum_def sealedMeta_def
        sign_unsigned_def commit_one_def sample_defs)
  have st: "org_inv (ledger_inv sample_digest sample_json) l_all (oc_Options sample_tenant) (NewLedger None, empty_server)"
    using team.tenant_start [OF NewLedger_inv, of None sample_digest sample_json sample_tenant] by (simp add: tenant_ok_def NewLedger_def)
  note cfg = mem_org_ok [OF team_json_roundtrip, of sample_digest sample_json "\<lambda>pub h s. pub = ''pk''" sample_keys]
  have o: "o_Ledger (oc_Options sample_tenant) = mem_port sample_digest sample_json" "oc_FindOrigin sample_tenant = FindOrigin"
    using cfg by (simp_all add: org_ok_def org_opt_def)
  have one: "push_one sample_tenant ''d1'' ''pk'' ''ada'' 5 sample_sealed empty_response (NewLedger None, empty_server) =
      Some (None, accept empty_response 1 1 False, (l, empty_server))"
    using sample_push_ok [unfolded push_ok_refusal] app(1) o seq
    by (simp add: push_one_def FindOrigin_def NewLedger_def mem_port_def)
  then have loop: "push_loop sample_tenant ''d1'' ''pk'' ''ada'' 5 [sample_sealed] empty_response (NewLedger None, empty_server) =
      Some (None, accept empty_response 1 1 False, (l, empty_server))"
    by simp
  have "org_inv (ledger_inv sample_digest sample_json) l_all (oc_Options sample_tenant) (l, empty_server)"
    using team.push_one_outcome [OF cfg st, of "''d1''" empty_response "''pk''" "''ada''" sample_sealed 5] one
    by (simp add: push_outcome_def accepted_found_def empty_response_def)
  then obtain m where "catchUp (oc_Options sample_tenant) (l, empty_server) = Some (None, (l, m))"
    "pl_Head (mem_port sample_digest sample_json) l = Inr \<lparr>hd_Seq = 1, hd_Hash = log_head (l_all l)\<rparr>"
    using team.catchUp_keeps [OF cfg] memory.chain_head app(2) by (fastforce simp: org_inv_def)
  then show ?thesis
    using loop o(1) app(2) by (auto simp: TeamServer_Push_def mem_org_def sample_keys_def sample_member_def sample_push_def go_sort_def accept_def empty_response_def)
qed

lemma sample_tenant_reached: "\<exists>l m. tenant_runs sample_tenant ''acme'' None (l, m) \<and> length (l_all l) = 1"
  using sample_pushed org_push [OF org_start] by (metis (no_types, lifting) principal.select_convs(1) sample_member_def)

subsection \<open>The tenant's record\<close>

text \<open>
  C8. Every run of a tenant of the team server, from an empty ledger through any sequence of pushes, gate requests, resolutions and
  listings, keeps its record sound: the hash chain verifies; every record that came from a daemon passed
  the checks under the key and the user that the daemon is registered with (hash, signature, shareable stream, actor), and
  kept its content; catching up returns and gives exactly the read models of a rebuild.
\<close>

theorem tenant_runs_sound:
  assumes "json_roundtrip mar un" and "tenant_runs (mem_org H J mar un verify keys) org sg (l, m)"
  shows "VerifyChain H J [] (l_all l) = Inr (log_head (l_all l)) \<and>
    (\<forall>w \<in> set (l_all l). record_authorised (mem_org H J mar un verify keys) org w) \<and>
    (\<exists>m'. catchUp (oc_Options (mem_org H J mar un verify keys)) (l, m) = Some (None, (l, m')) \<and>
       Rebuild (oc_Options (mem_org H J mar un verify keys)) l empty_server = Some (int (length (l_all l)), None, m'))"
proof -
  let ?cfg = "mem_org H J mar un verify keys"
  note cfg = mem_org_ok [OF assms(1), of H J verify keys]
  then have o: "o_Ledger (oc_Options ?cfg) = mem_port H J" "o_Projectors (oc_Options ?cfg) = server_projectors"
    by (simp_all add: org_ok_def org_opt_def)
  have ok: "org_inv (ledger_inv H J) l_all (oc_Options ?cfg) (l, m)" "\<forall>w \<in> set (l_all l). record_authorised ?cfg org w"
    using tenant_run_ok [OF assms] by (simp_all add: tenant_ok_def)
  then have inv: "ledger_inv H J l"
    by (simp add: org_inv_def)
  obtain m' where m': "catchUp (oc_Options ?cfg) (l, m) = Some (None, (l, m'))" "models_ok (oc_Options ?cfg) empty_server (l_all l) m'"
    using team.catchUp_keeps [OF cfg ok(1)] by auto
  then have "Rebuild (oc_Options ?cfg) l empty_server = Some (int (length (l_all l)), None, m')"
    using memory.replay_returns [OF o(1) _ inv, of 0] server_projectors_total o(2) by (auto simp: models_ok_def Rebuild_def)
  then show ?thesis
    using ok(2) memory.chain_verifies [OF inv] m'(1) by blast
qed

theorem tenant_runs_sound_witness:
  "\<exists>l m. tenant_runs sample_tenant ''acme'' None (l, m) \<and> length (l_all l) = 1 \<and>
    VerifyChain sample_digest sample_json [] (l_all l) = Inr (log_head (l_all l)) \<and>
    (\<forall>w \<in> set (l_all l). record_authorised sample_tenant ''acme'' w)"
proof -
  obtain l m where "tenant_runs sample_tenant ''acme'' None (l, m)" "length (l_all l) = 1"
    using sample_tenant_reached by blast
  then show ?thesis
    using tenant_runs_sound [OF team_json_roundtrip, of sample_digest sample_json "\<lambda>pub h s. pub = ''pk''" sample_keys] by blast
qed

subsection \<open>Pushing\<close>

text \<open>
  C9. What a push does: for a daemon registered to the user, it returns; it appends copies of offered records that pass
  every check, and rejections, and nothing else; every acceptance names the place of the record. Without an error
  every offered record is answered exactly once, as accepted or as rejected, and the read models show the whole ledger.
\<close>

theorem push_answered:
  assumes "json_roundtrip mar un" and "tenant_runs (mem_org H J mar un verify keys) (pc_Org p) sg st"
    and "keys (pc_Org p) (pq_DaemonID req) = Inr (pub, pc_User p)"
  shows "\<exists>err res l m. TeamServer_Push (mem_org H J mar un verify keys) p req now st = Some (err, res, (l, m)) \<and>
    push_effect l_all FindOrigin (push_ok (mem_org H J mar un verify keys) pub (pc_User p)) (pq_DaemonID req) (pq_Events req) (fst st) l \<and>
    accepted_found FindOrigin (pq_DaemonID req) res l \<and>
    (err = None \<longrightarrow> local_seqs res = mset (map e_Seq (pq_Events req)) \<and> pp_Head res = int (length (l_all l)) \<and>
       Rebuild (oc_Options (mem_org H J mar un verify keys)) l empty_server = Some (pp_Head res, None, m))"
proof -
  let ?cfg = "mem_org H J mar un verify keys"
  note cfg = mem_org_ok [OF assms(1), of H J verify keys]
  have o: "o_Ledger (oc_Options ?cfg) = mem_port H J" "o_Projectors (oc_Options ?cfg) = server_projectors"
    using cfg by (simp_all add: org_ok_def org_opt_def)
  have st: "org_inv (ledger_inv H J) l_all (oc_Options ?cfg) st"
    using tenant_run_ok [OF assms(1,2)] by (simp add: tenant_ok_def)
  have key: "oc_DaemonKey ?cfg (pc_Org p) (pq_DaemonID req) = Inr (pub, pc_User p)"
    using assms(3) by (simp add: mem_org_def)
  have "Rebuild (oc_Options ?cfg) l empty_server = Some (int (length (l_all l)), None, m)"
    if "ledger_inv H J l" "models_ok (oc_Options ?cfg) empty_server (l_all l) m" for l m
    using memory.replay_returns [OF o(1) _ that(1), of 0] server_projectors_total o(2) that(2) by (auto simp: models_ok_def Rebuild_def)
  then show ?thesis
    using team.team_push [OF cfg st key, of now] by (auto simp: org_inv_def)
qed

theorem push_answered_witness:
  "\<exists>err res l m. TeamServer_Push sample_tenant sample_member sample_push 5 (NewLedger None, empty_server) = Some (err, res, (l, m)) \<and>
    accepted_found FindOrigin ''d1'' res l \<and> (err = None \<longrightarrow> local_seqs res = {#1#})"
  using push_answered [where keys = sample_keys and H = sample_digest and J = sample_json and verify = "\<lambda>pub h s. pub = ''pk''"
      and sg = None and now = 5, OF team_json_roundtrip org_start sample_key]
  by (auto simp: sample_push_def sample_defs)

text \<open>
  C10. Pushing again is safe: once a push has been answered, then after any further steps of the tenant a push of any of the
  accepted records changes nothing in the ledger, is answered without an error and rejection, and reports each record as a duplicate
  at the place that the first answer named.
\<close>

theorem push_again:
  assumes "json_roundtrip mar un" and "tenant_runs (mem_org H J mar un verify keys) (pc_Org p) sg st"
    and "keys (pc_Org p) (pq_DaemonID req) = Inr (pub, pc_User p)"
    and "TeamServer_Push (mem_org H J mar un verify keys) p req now st = Some (err, res, st1)"
    and "org_reaches (mem_org H J mar un verify keys) (pc_Org p) st1 (l, m)"
    and "pq_DaemonID again = pq_DaemonID req"
    and "set (map e_Seq (pq_Events again)) \<subseteq> set (map pa_LocalSeq (pp_Accepted res))"
  shows "\<exists>res' m'. TeamServer_Push (mem_org H J mar un verify keys) p again now' (l, m) = Some (None, res', (l, m')) \<and>
    pp_Rejected res' = [] \<and> mset (map pa_LocalSeq (pp_Accepted res')) = mset (map e_Seq (pq_Events again)) \<and>
    (\<forall>a \<in> set (pp_Accepted res'). \<exists>b \<in> set (pp_Accepted res).
       pa_LocalSeq a = pa_LocalSeq b \<and> pa_Seq a = pa_Seq b \<and> pa_Duplicate a)"
proof -
  let ?cfg = "mem_org H J mar un verify keys" and ?d = "pq_DaemonID req"
  let ?evs = "go_sort (\<lambda>a b. e_Seq a < e_Seq b) (pq_Events again)"
  note cfg = mem_org_ok [OF assms(1), of H J verify keys]
  note st = tenant_run_ok [OF assms(1,2)]
  have key: "oc_DaemonKey ?cfg (pc_Org p) ?d = Inr (pub, pc_User p)" "oc_DaemonKey ?cfg (pc_Org p) (pq_DaemonID again) = Inr (pub, pc_User p)"
    using assms(3,6) by (simp_all add: mem_org_def)
  have acc: "accepted_found FindOrigin ?d res (fst st1)"
    using team.team_push [OF cfg _ key(1), of st now] st assms(4) by (auto simp: tenant_ok_def)
  have ok: "tenant_ok (ledger_inv H J) l_all ?cfg (pc_Org p) (l, m)" "keeps_found FindOrigin (fst st1) l"
    using team.org_run_keeps [OF cfg assms(5)] team.push_keeps [OF cfg st assms(4)] by simp_all
  have known: "\<exists>b \<in> set (pp_Accepted res). pa_LocalSeq b = e_Seq e \<and> FindOrigin l ?d (e_Seq e) = Inr (pa_Seq b)"
    if "e \<in> set (pq_Events again)" for e
  proof -
    have "e_Seq e \<in> set (map pa_LocalSeq (pp_Accepted res))"
      using \<open>e \<in> set (pq_Events again)\<close> assms(7) by auto
    then obtain b where "b \<in> set (pp_Accepted res)" "pa_LocalSeq b = e_Seq e"
      by auto
    then show ?thesis
      using acc ok(2) unfolding accepted_found_def keeps_found_def by metis
  qed
  have st': "org_inv (ledger_inv H J) l_all (oc_Options ?cfg) (l, m)"
    using ok(1) by (simp add: tenant_ok_def)
  have "\<exists>m'. TeamServer_Push ?cfg p again now' (l, m) = Some (None,
      \<lparr>pp_Accepted = duplicates FindOrigin (pq_DaemonID again) l ?evs, pp_Rejected = [], pp_Head = int (length (l_all l))\<rparr>, (l, m'))"
    by (rule team.team_push_again [OF cfg st' key(2)]) (use known assms(6) in metis)
  then obtain m' where push: "TeamServer_Push ?cfg p again now' (l, m) = Some (None,
      \<lparr>pp_Accepted = duplicates FindOrigin ?d l ?evs, pp_Rejected = [], pp_Head = int (length (l_all l))\<rparr>, (l, m'))"
    using assms(6) by auto
  have "\<exists>b \<in> set (pp_Accepted res). pa_LocalSeq a = pa_LocalSeq b \<and> pa_Seq a = pa_Seq b \<and> pa_Duplicate a"
    if "a \<in> set (duplicates FindOrigin ?d l ?evs)" for a
  proof -
    obtain e where e: "e \<in> set (pq_Events again)" "a = \<lparr>pa_LocalSeq = e_Seq e, pa_Seq = projr (FindOrigin l ?d (e_Seq e)), pa_Duplicate = True\<rparr>"
      using \<open>a \<in> set (duplicates FindOrigin ?d l ?evs)\<close> unfolding duplicates_def set_map go_sort_seq_set by blast
    show ?thesis
      using known [OF e(1)] e(2) by force
  qed
  moreover have "mset (map pa_LocalSeq (duplicates FindOrigin ?d l ?evs)) = mset (map e_Seq (pq_Events again))"
    using go_sort_seq [of "pq_Events again"] by (simp add: duplicates_def comp_def)
  ultimately show ?thesis
    using push by auto
qed

theorem push_again_witness:
  "\<exists>l m res m'. tenant_runs sample_tenant ''acme'' None (l, m) \<and>
    TeamServer_Push sample_tenant sample_member sample_push 9 (l, m) = Some (None, res, (l, m')) \<and>
    pp_Rejected res = [] \<and> mset (map pa_LocalSeq (pp_Accepted res)) = {#1#}"
proof -
  obtain l m where push: "TeamServer_Push sample_tenant sample_member sample_push 5 (NewLedger None, empty_server) =
      Some (None, \<lparr>pp_Accepted = [\<lparr>pa_LocalSeq = 1, pa_Seq = 1, pa_Duplicate = False\<rparr>], pp_Rejected = [], pp_Head = 1\<rparr>, (l, m))"
    using sample_pushed by blast
  have seqs: "map e_Seq (pq_Events sample_push) = [1]"
    by (simp add: sample_push_def sample_defs)
  have "tenant_runs sample_tenant ''acme'' None (l, m)"
    using org_push [OF org_start _ push] by (simp add: sample_member_def)
  then show ?thesis
    using push_again [where keys = sample_keys and sg = None, OF team_json_roundtrip org_start sample_key push org_start refl, of 9] seqs by fastforce
qed

subsection \<open>The daemon's side\<close>

text \<open>
  C11. What a daemon offers: against any server, a push of the daemon returns; over all its requests it offers exactly the records
  after its cursor that may be shared, each once and in order: never a rejection, a record of a personal scope or of a session that
  is not shared. Without an error it went through the whole ledger; the cursor never passes a record whose page failed.
\<close>

theorem sync_push_offers:
  assumes "ledger_inv H J l" and "ys_PushCursor st = int n" and "n \<le> length (l_all l)"
  shows "\<exists>err rep st' srv' reqs j k.
    Syncer_Push (traced client) constraints sessions daemon clk (mem_port H J) l Batch st (srv, []) =
      Some (err, rep, st', (srv', reqs)) \<and>
    concat (map pq_Events reqs) = filter (offered constraints sessions) (take (k - n) (drop n (l_all l))) \<and>
    n \<le> j \<and> j \<le> k \<and> k \<le> length (l_all l) \<and> ys_PushCursor st' = int j \<and> (err = None \<longrightarrow> j = length (l_all l)) \<and>
    yr_Scanned rep = int j - int n"
proof -
  have "0 < (if Batch \<le> 0 then 200 else Batch)"
    by simp
  from memory.push_pages_returns [OF assms(1) this assms(2,3), of client "offered constraints sessions" daemon clk empty_report srv "[]"]
  obtain err rep st' srv' reqs where run: "Syncer_Push (traced client) constraints sessions daemon clk (mem_port H J) l Batch st (srv, []) =
      Some (err, rep, st', (srv', reqs))" "push_trace (offered constraints sessions) daemon (l_all l) n err (ys_PushCursor st') reqs"
    "yr_Scanned rep = ys_PushCursor st' - int n"
    unfolding Syncer_Push_def by (auto simp: empty_report_def)
  from run(2) obtain j k where "n \<le> j" "j \<le> k" "k \<le> length (l_all l)" "ys_PushCursor st' = int j" "err = None \<longrightarrow> j = length (l_all l)"
    "concat (map pq_Events reqs) = filter (offered constraints sessions) (take (k - n) (drop n (l_all l)))"
    unfolding push_trace_def by blast
  with run(1,3) show ?thesis
    by (intro exI conjI) auto
qed

theorem sync_push_offers_witness:
  "\<exists>L err rep st' srv' reqs k. length (l_all L) = 1 \<and>
    Syncer_Push (traced (\<lambda>req n. (Inr empty_response, n + 1))) None None ''d1'' (\<lambda>_. 0) (mem_port sample_digest sample_json) L 0
      sample_cursors (0 :: nat, []) =
      Some (err, rep, st', (srv', reqs)) \<and> concat (map pq_Events reqs) = filter (offered None None) (take k (l_all L)) \<and>
    (err = None \<longrightarrow> yr_Scanned rep = 1)"
proof -
  obtain L m where run: "tenant_runs sample_tenant ''acme'' None (L, m)" and len: "length (l_all L) = 1"
    using sample_tenant_reached by blast
  have inv: "ledger_inv sample_digest sample_json L"
    using tenant_run_ok [OF team_json_roundtrip run] by (simp add: tenant_ok_def org_inv_def)
  have cur: "ys_PushCursor sample_cursors = int 0" "0 \<le> length (l_all L)"
    by (simp_all add: sample_cursors_def)
  from sync_push_offers [where client = "\<lambda>req n. (Inr empty_response, n + 1)" and constraints = None and sessions = None
      and daemon = "''d1''" and clk = "\<lambda>_. 0" and Batch = 0 and srv = "0 :: nat", OF inv cur]
  obtain err rep st' srv' reqs j k where
    "Syncer_Push (traced (\<lambda>req n. (Inr empty_response, n + 1))) None None ''d1'' (\<lambda>_. 0) (mem_port sample_digest sample_json) L 0
      sample_cursors (0 :: nat, []) = Some (err, rep, st', (srv', reqs))"
    "concat (map pq_Events reqs) = filter (offered None None) (take (k - 0) (drop 0 (l_all L)))"
    "err = None \<longrightarrow> j = length (l_all L)" "yr_Scanned rep = int j - int 0"
    by blast
  with len show ?thesis
    by (intro exI [of _ L] exI [of _ err] exI [of _ rep] exI [of _ st'] exI [of _ srv'] exI [of _ reqs] exI [of _ k]) simp
qed

text \<open>
  C12. What a pull leaves: against the team server, a pull of a daemon returns and leaves a cache whose hash chain verifies, and
  which grew only by copies of records of the team layer that are not the daemon's own. Without an error
  every such record after the cursor is in the cache, by its origin or its key, and the cursor is at the end of the server's ledger.
\<close>

theorem pull_team_layer:
  assumes "o_Ledger sopt = mem_port H J" and "ledger_inv H J L" and "o_Ledger opt = mem_port H J" and "ledger_inv H J c"
    and "ys_PullCursor st = int n" and "n \<le> length (l_all L)"
  shows "\<exists>err st' rep' c' p'.
    Syncer_Pull (team_pull sopt lim) opt FindOrigin daemon clk (st, L, rep, c, p) = Some (err, st', L, rep', c', p') \<and>
    VerifyChain H J [] (l_all c') = Inr (log_head (l_all c')) \<and>
    (\<exists>ext. l_all c' = l_all c @ ext \<and>
       (\<forall>w \<in> set ext. \<exists>e \<in> set (l_all L). TeamLayer (e_Stream e) \<and> \<not> own_record daemon e \<and> copied e w)) \<and>
    (err = None \<longrightarrow> ys_PullCursor st' = int (length (l_all L)) \<and>
       (\<forall>e \<in> set (drop n (l_all L)). TeamLayer (e_Stream e) \<and> \<not> own_record daemon e \<longrightarrow> in_cache l_all FindOrigin c' e))"
proof -
  obtain err st' rep' c' p' k where
    run: "Syncer_Pull (team_pull sopt lim) opt FindOrigin daemon clk (st, L, rep, c, p) = Some (err, st', L, rep', c', p')"
    and inv: "ledger_inv H J c'"
    and fin: "err = None \<longrightarrow> k = length (l_all L) \<and> ys_PullCursor st' = int k"
    and eff: "pull_effect l_all FindOrigin daemon (filter (\<lambda>e. TeamLayer (e_Stream e)) (take (k - n) (drop n (l_all L)))) err c c'"
    using pull_returns [OF assms, of lim daemon clk rep p] by blast
  have grown: "\<exists>ext. l_all c' = l_all c @ ext \<and>
      (\<forall>w \<in> set ext. \<exists>e \<in> set (l_all L). TeamLayer (e_Stream e) \<and> \<not> own_record daemon e \<and> copied e w)"
    using eff unfolding pull_effect_def by (fastforce dest: in_set_takeD in_set_dropD)
  have "in_cache l_all FindOrigin c' e"
    if "err = None" "e \<in> set (drop n (l_all L))" "TeamLayer (e_Stream e)" "\<not> own_record daemon e" for e
    using eff that fin by (auto simp: pull_effect_def)
  then have "err = None \<longrightarrow> ys_PullCursor st' = int (length (l_all L)) \<and>
      (\<forall>e \<in> set (drop n (l_all L)). TeamLayer (e_Stream e) \<and> \<not> own_record daemon e \<longrightarrow> in_cache l_all FindOrigin c' e)"
    using fin by blast
  then show ?thesis
    using run memory.chain_verifies [OF inv] grown by blast
qed

theorem pull_team_layer_witness:
  "\<exists>L err st' rep' c' p'. length (l_all L) = 1 \<and>
    Syncer_Pull (team_pull (oc_Options sample_tenant) 0) (oc_Options sample_tenant) FindOrigin ''d2'' (\<lambda>_. 0)
      (sample_cursors, L,
       \<lparr>yl_Received = 0, yl_Cached = 0, yl_Skipped = 0, yl_Cursor = 0\<rparr>, NewLedger None, empty_server) = Some (err, st', L, rep', c', p') \<and>
    VerifyChain sample_digest sample_json [] (l_all c') = Inr (log_head (l_all c'))"
proof -
  obtain L m where run: "tenant_runs sample_tenant ''acme'' None (L, m)" and len: "length (l_all L) = 1"
    using sample_tenant_reached by blast
  have inv: "ledger_inv sample_digest sample_json L"
    using tenant_run_ok [OF team_json_roundtrip run] by (simp add: tenant_ok_def org_inv_def)
  have o: "o_Ledger (oc_Options sample_tenant) = mem_port sample_digest sample_json"
    using mem_org_ok [OF team_json_roundtrip] by (simp add: org_ok_def org_opt_def)
  have "ys_PullCursor sample_cursors = int 0" "0 \<le> length (l_all L)"
    by (simp_all add: sample_cursors_def)
  from pull_team_layer [OF o inv o NewLedger_inv this] show ?thesis
    using len by blast
qed

end
