(* ===== verification/Go_Text.thy ===== *)
theory Go_Text
  imports Go_Path
begin

section \<open>More of package strings\<close>

text \<open>
  Searching and trimming as the renderers use them: \<^verbatim>\<open>Index\<close>, \<^verbatim>\<open>LastIndex\<close>, \<^verbatim>\<open>Contains\<close>,
  \<^verbatim>\<open>TrimRight\<close> of one byte, the runes of a string and \<^verbatim>\<open>TrimSpace\<close> with the white space of
  package \<^verbatim>\<open>unicode\<close>. The lemmas say where a marker that does not overlap itself is found.
\<close>

definition Contains_str :: "string \<Rightarrow> string \<Rightarrow> bool" where
  "Contains_str s sub \<longleftrightarrow> snd (snd (Cut s sub))"

definition Index :: "string \<Rightarrow> string \<Rightarrow> int" where
  "Index s sub = (case Cut s sub of (b, _, ok) \<Rightarrow> if ok then int (length b) else - 1)"

definition LastIndex :: "string \<Rightarrow> string \<Rightarrow> int" where
  "LastIndex s sub = (case Cut (rev s) (rev sub) of (_, a, ok) \<Rightarrow> if ok then int (length a) else - 1)"

definition TrimRight_byte :: "string \<Rightarrow> char \<Rightarrow> string" where
  "TrimRight_byte s c = rev (dropWhile (\<lambda>x. x = c) (rev s))"

text \<open>A loop over the runes of a string, with the bytes of each.\<close>

function runes :: "string \<Rightarrow> (nat \<times> string) list" where
  "runes s = (if s = [] then [] else case DecodeRuneInString s of (r, n) \<Rightarrow> (r, take n s) # runes (drop n s))"
  by auto
termination
proof (relation "measure length")
  fix s x y
  assume "s \<noteq> []" "(x, y) = DecodeRuneInString s"
  then have "0 < y"
    using DecodeRune_progress [of s] by (metis snd_conv)
  then show "(drop y s, s) \<in> measure length"
    using \<open>s \<noteq> []\<close> by simp
qed simp

declare runes.simps [simp del]

definition unicode_IsSpace :: "nat \<Rightarrow> bool" where
  "unicode_IsSpace r \<longleftrightarrow> 9 \<le> r \<and> r \<le> 13 \<or> r = 32 \<or> r = 133 \<or> r = 160 \<or> r = 5760 \<or> 8192 \<le> r \<and> r \<le> 8202 \<or>
     r = 8232 \<or> r = 8233 \<or> r = 8239 \<or> r = 8287 \<or> r = 12288"

definition TrimSpace :: "string \<Rightarrow> string" where
  "TrimSpace s = (let sp = (\<lambda>(r, _). unicode_IsSpace r) in
     concat (map snd (rev (dropWhile sp (rev (dropWhile sp (runes s)))))))"

subsection \<open>Where a marker is found\<close>

lemma HasPrefix_length: "HasPrefix s p \<Longrightarrow> length p \<le> length s"
  by (auto simp: HasPrefix_iff)

lemma HasPrefix_appendD:
  assumes "HasPrefix (t @ s) p"
  shows "HasPrefix t p \<or> (\<exists>w. w \<noteq> [] \<and> p = t @ w \<and> HasPrefix s w)"
proof -
  obtain z where "t @ s = p @ z"
    using assms by (auto simp: HasPrefix_iff)
  then obtain u where "t = p @ u \<and> u @ s = z \<or> t @ u = p \<and> s = u @ z"
    by (auto simp: append_eq_append_conv2)
  then show ?thesis
    by (cases "u = []") (auto simp: HasPrefix_iff)
qed

text \<open>A marker whose first byte does not occur in it again.\<close>

lemma marker_straddle:
  assumes "x \<notin> set xs" "HasPrefix (t @ s) (x # xs)" "s = [] \<or> HasPrefix s [x]" "t \<noteq> []"
  shows "HasPrefix t (x # xs)"
  using HasPrefix_appendD [OF assms(2)]
proof
  assume "\<exists>w. w \<noteq> [] \<and> x # xs = t @ w \<and> HasPrefix s w"
  then obtain w where w: "w \<noteq> []" "x # xs = t @ w" "HasPrefix s w"
    by blast
  obtain t' where "t = x # t'" "xs = t' @ w"
    using w(2) assms(4) by (cases t) auto
  then have "x \<notin> set w"
    using assms(1) by auto
  then show ?thesis
    using w(1,3) assms(3) by (cases w; cases s) auto
qed

lemma Cut_Contains: "Contains_str (c # t) p \<longleftrightarrow> HasPrefix (c # t) p \<or> Contains_str t p"
  by (auto simp: Contains_str_def split: prod.splits)

lemma Contains_Nil [simp]: "Contains_str [] p \<longleftrightarrow> p = []"
  by (auto simp: Contains_str_def)

lemma Contains_prefix: "HasPrefix t p \<Longrightarrow> t \<noteq> [] \<Longrightarrow> Contains_str t p"
  by (cases t) (auto simp: Cut_Contains)

lemma Contains_snoc:
  assumes "y \<notin> set p" "p \<noteq> []"
  shows "Contains_str (t @ [y]) p \<longleftrightarrow> Contains_str t p"
proof (induction t)
  case Nil
  then show ?case
    using assms by (cases p) (auto simp: Cut_Contains)
next
  case (Cons c t)
  have "HasPrefix ((c # t) @ [y]) p \<longleftrightarrow> HasPrefix (c # t) p"
  proof
    assume "HasPrefix ((c # t) @ [y]) p"
    then show "HasPrefix (c # t) p"
      using HasPrefix_appendD [of "c # t" "[y]" p] assms(1) by (auto simp: HasPrefix_iff Cons_eq_append_conv)
  next
    assume "HasPrefix (c # t) p"
    then show "HasPrefix ((c # t) @ [y]) p"
      unfolding HasPrefix_iff by (metis append.assoc)
  qed
  then show ?case
    using Cons by (simp add: Cut_Contains)
qed

lemma Cut_marker:
  assumes "x \<notin> set xs" "\<not> Contains_str t (x # xs)"
  shows "Cut (t @ (x # xs) @ z) (x # xs) = (t, z, True)"
  using assms(2)
proof (induction t)
  case (Cons c t)
  then have "\<not> HasPrefix ((c # t) @ ((x # xs) @ z)) (x # xs)"
    using marker_straddle [OF assms(1), of "c # t" "(x # xs) @ z"] by (auto simp: Cut_Contains)
  moreover have "Cut (t @ (x # xs) @ z) (x # xs) = (t, z, True)"
    using Cons by (simp add: Cut_Contains)
  ultimately show ?case
    by simp
qed simp

text \<open>A marker whose last byte occurs neither in it before nor in the text.\<close>

lemma Cut_line_marker:
  assumes "y \<notin> set q" "y \<notin> set t"
  shows "Cut (t @ (q @ [y]) @ z) (q @ [y]) = (t, z, True)"
  using assms(2)
proof (induction t)
  case Nil
  then show ?case
    by (cases "q @ [y]") auto
next
  case (Cons c t)
  have "\<not> HasPrefix ((c # t) @ (q @ [y]) @ z) (q @ [y])"
  proof
    assume "HasPrefix ((c # t) @ (q @ [y]) @ z) (q @ [y])"
    then obtain w where w: "((c # t) @ q) @ y # z = q @ y # w"
      by (auto simp: HasPrefix_iff)
    have "(((c # t) @ q) @ y # z) ! length q = ((c # t) @ q) ! length q"
      by (rule nth_append_left) simp
    then have "((c # t) @ q) ! length q = y"
      unfolding w by simp
    moreover have "((c # t) @ q) ! length q \<in> set ((c # t) @ q)"
      by (rule nth_mem) simp
    ultimately show False
      using Cons(2) assms(1) by auto
  qed
  then show ?case
    using Cons by simp
qed

lemma TrimRight_snoc: "TrimRight_byte (s @ [c]) c = TrimRight_byte s c"
  by (simp add: TrimRight_byte_def)

end
