(* ===== verification/Supply_Blocks.thy ===== *)
theory Supply_Blocks
  imports Go_Text Gate
begin

section \<open>Managed blocks\<close>

text \<open>
  The managed blocks of \<^verbatim>\<open>internal/core/supply/render.go\<close>: text between two markers inside a file that
  otherwise belongs to the user. The expression \<^verbatim>\<open>blockRe\<close> is written out as the function that
  matches it at the start of a text: its two groups have no white space and are followed by
  a space, so a match at a position is unique, and the lazy middle part ends at the first end
  marker. Bytes from 128 up belong to no white space of the expression.
\<close>

definition beginTag :: string where
  "beginTag = ''<!-- keelage:begin ''"

definition endTag :: string where
  "endTag = ''<!-- keelage:end -->''"

abbreviation newline :: string where "newline \<equiv> [CHR 0x0A]"

definition BlockHash :: "(bytes \<Rightarrow> bytes) \<Rightarrow> string \<Rightarrow> string" where
  "BlockHash H body = hex_encode (take 8 (H body))"

definition ManagedBlock :: "(bytes \<Rightarrow> bytes) \<Rightarrow> string \<Rightarrow> string \<Rightarrow> string" where
  "ManagedBlock H i body = beginTag @ i @ '' '' @ BlockHash H body @ '' -->'' @ newline @ body @ newline @ endTag"

subsection \<open>blockRe\<close>

definition re_nonspace :: "char \<Rightarrow> bool" where
  "re_nonspace c \<longleftrightarrow> c \<notin> {CHR 0x09, CHR 0x0A, CHR 0x0C, CHR 0x0D, CHR '' ''}"

text \<open>The begin marker with its two groups, and what follows it.\<close>

definition block_header :: "string \<Rightarrow> (string \<times> string \<times> string) option" where
  "block_header s =
     (if \<not> HasPrefix s beginTag then None
      else let r = drop (length beginTag) s; g1 = takeWhile re_nonspace r; r1 = dropWhile re_nonspace r in
        if g1 = [] \<or> \<not> HasPrefix r1 '' '' then None
        else let g2 = takeWhile re_nonspace (tl r1); r2 = dropWhile re_nonspace (tl r1) in
          if g2 = [] \<or> \<not> HasPrefix r2 ('' -->'' @ newline) then None
          else Some (g1, g2, drop 5 r2))"

text \<open>A match without the leading line break: the groups, the matched text and the rest.\<close>

definition block_core :: "string \<Rightarrow> (string \<times> string \<times> string \<times> string) option" where
  "block_core s =
     (case block_header s of
        None \<Rightarrow> None
      | Some (g1, g2, r) \<Rightarrow>
          (case Cut r endTag of
             (_, a, True) \<Rightarrow>
               let rest = (if HasPrefix a newline then tl a else a) in Some (g1, g2, take (length s - length rest) s, rest)
           | (_, _, False) \<Rightarrow> None))"

definition block_at :: "string \<Rightarrow> (string \<times> string \<times> string \<times> string) option" where
  "block_at s =
     (case (if HasPrefix s newline then block_core (tl s) else None) of
        Some (g1, g2, m, rest) \<Rightarrow> Some (g1, g2, newline @ m, rest)
      | None \<Rightarrow> block_core s)"

lemma block_header_shrinks: "block_header s = Some (g1, g2, r) \<Longrightarrow> length r < length s"
proof -
  assume h: "block_header s = Some (g1, g2, r)"
  define r0 where "r0 = drop (length beginTag) s"
  define r1 where "r1 = dropWhile re_nonspace r0"
  have s: "HasPrefix s beginTag" "r = drop 5 (dropWhile re_nonspace (tl r1))"
    using h by (auto simp: block_header_def Let_def r0_def r1_def split: if_splits)
  then have "length r \<le> length (dropWhile re_nonspace (tl r1))"
    by simp
  moreover have "length r0 < length s"
    using HasPrefix_length [OF s(1)] by (simp add: r0_def beginTag_def)
  moreover have "length (dropWhile re_nonspace (tl r1)) \<le> length (tl r1)"
    by (rule length_dropWhile_le)
  moreover have "length r1 \<le> length r0"
    unfolding r1_def by (rule length_dropWhile_le)
  ultimately show ?thesis
    by simp
qed

lemma Cut_rest_le: "Cut s p = (b, a, ok) \<Longrightarrow> length a \<le> length s"
  by (cases ok) (auto dest: Cut_found Cut_not_found)

lemma block_core_shrinks: "block_core s = Some (g1, g2, m, rest) \<Longrightarrow> length rest < length s"
  by (fastforce simp: block_core_def Let_def dest: block_header_shrinks Cut_rest_le split: option.splits prod.splits bool.splits if_splits)

lemma block_at_shrinks: "block_at s = Some (g1, g2, m, rest) \<Longrightarrow> length rest < length s"
  by (cases s) (auto simp: block_at_def dest!: block_core_shrinks split: option.splits if_splits)

subsection \<open>All matches\<close>

function block_matches :: "string \<Rightarrow> (string \<times> string \<times> string) list" where
  "block_matches s =
     (if s = [] then []
      else case block_at s of
        Some (g1, g2, m, rest) \<Rightarrow> (g1, g2, m) # block_matches rest
      | None \<Rightarrow> block_matches (tl s))"
  by auto
termination
  by (relation "measure length") (auto dest: block_at_shrinks)

text \<open>\<^verbatim>\<open>ReplaceAllStringFunc\<close>, with the variables that the function assigns as a state.\<close>

function replace_blocks :: "('s \<Rightarrow> string \<Rightarrow> string \<times> 's) \<Rightarrow> 's \<Rightarrow> string \<Rightarrow> string \<times> 's" where
  "replace_blocks f st s =
     (if s = [] then ([], st)
      else case block_at s of
        Some (g1, g2, m, rest) \<Rightarrow>
          (case f st m of (x, st1) \<Rightarrow> case replace_blocks f st1 rest of (y, st2) \<Rightarrow> (x @ y, st2))
      | None \<Rightarrow> (case replace_blocks f st (tl s) of (y, st1) \<Rightarrow> (hd s # y, st1)))"
  by auto
termination
  by (relation "measure (\<lambda>(f, st, s). length s)") (auto dest: block_at_shrinks)

declare block_matches.simps [simp del] replace_blocks.simps [simp del]

definition submatch_id :: "string \<Rightarrow> string" where
  "submatch_id m = (case block_matches m of [] \<Rightarrow> '''' | (g1, _, _) # _ \<Rightarrow> g1)"

subsection \<open>Finding, replacing and removing a block\<close>

fun find_in :: "string \<Rightarrow> (string \<times> string \<times> string) list \<Rightarrow> string \<times> string \<times> bool" where
  "find_in i [] = ('''', '''', False)"
| "find_in i ((g1, g2, full) # ms) =
     (if g1 \<noteq> i then find_in i ms
      else let start = Index full (''-->'' @ newline) + 4; end = LastIndex full (newline @ endTag) in
        if start < 4 \<or> end < start then (g2, '''', True)
        else (g2, take (nat (end - start)) (drop (nat start) full), True))"

definition FindBlock :: "string \<Rightarrow> string \<Rightarrow> string \<times> string \<times> bool" where
  "FindBlock content i = find_in i (block_matches content)"

definition upsert_at :: "string \<Rightarrow> string \<Rightarrow> bool \<Rightarrow> string \<Rightarrow> string \<times> bool" where
  "upsert_at block i replaced m =
     (if submatch_id m \<noteq> i \<or> replaced then (m, replaced)
      else ((if HasPrefix m newline then newline else []) @ block @ (if HasSuffix m newline then newline else []), True))"

definition UpsertBlock :: "(bytes \<Rightarrow> bytes) \<Rightarrow> string \<Rightarrow> string \<Rightarrow> string \<Rightarrow> string" where
  "UpsertBlock H content i body =
     (let block = ManagedBlock H i body; (out, replaced) = replace_blocks (upsert_at block i) False content in
      if replaced then out
      else if content = '''' then block @ newline
      else (if HasSuffix content newline then content else content @ newline) @ newline @ block @ newline)"

definition remove_at :: "string \<Rightarrow> bool \<Rightarrow> string \<Rightarrow> string \<times> bool" where
  "remove_at i removed m =
     (if submatch_id m \<noteq> i \<or> removed then (m, removed)
      else (if HasPrefix m newline \<and> HasSuffix m newline then newline else [], True))"

definition RemoveBlock :: "string \<Rightarrow> string \<Rightarrow> string \<times> bool" where
  "RemoveBlock content i =
     (case replace_blocks (remove_at i) False content of (out, removed) \<Rightarrow>
        (if removed
         then (let t = TrimRight_byte out (CHR 0x0A) in if t \<noteq> '''' then t @ newline else t)
         else out, removed))"

end
