(* ===== verification/Supply_Facts.thy ===== *)
theory Supply_Facts
  imports Supply_Blocks
begin

section \<open>Managed blocks as documents\<close>

text \<open>
  An abstract view of a file with managed blocks: a text, then blocks each followed by a text, where
  no text holds a begin marker and no body an end marker. Finding, replacing and removing a
  block on the rendered file are the evident operations on this view.
\<close>

type_synonym block = "string \<times> string \<times> string"
type_synonym doc = "string \<times> (block \<times> string) list"

fun render_block :: "block \<Rightarrow> string" where
  "render_block (i, h, body) = beginTag @ i @ '' '' @ h @ '' -->'' @ newline @ body @ newline @ endTag"

fun render_tail :: "(block \<times> string) list \<Rightarrow> string" where
  "render_tail [] = []"
| "render_tail ((b, u) # bs) = render_block b @ u @ render_tail bs"

definition render :: "doc \<Rightarrow> string" where
  "render d = fst d @ render_tail (snd d)"

definition group_ok :: "string \<Rightarrow> bool" where
  "group_ok g \<longleftrightarrow> g \<noteq> [] \<and> list_all re_nonspace g"

fun block_ok :: "block \<Rightarrow> bool" where
  "block_ok (i, h, body) \<longleftrightarrow> group_ok i \<and> group_ok h \<and> \<not> Contains_str body endTag"

definition text_ok :: "string \<Rightarrow> bool" where
  "text_ok t \<longleftrightarrow> \<not> Contains_str t beginTag"

definition tail_ok :: "(block \<times> string) list \<Rightarrow> bool" where
  "tail_ok bs \<longleftrightarrow> (\<forall>(b, u) \<in> set bs. block_ok b \<and> text_ok u)"

definition doc_ok :: "doc \<Rightarrow> bool" where
  "doc_ok d \<longleftrightarrow> text_ok (fst d) \<and> tail_ok (snd d)"

lemma tail_ok_simps [simp]: "tail_ok []" "tail_ok ((b, u) # bs) \<longleftrightarrow> block_ok b \<and> text_ok u \<and> tail_ok bs"
  by (simp_all add: tail_ok_def)

subsection \<open>Markers in texts\<close>

lemma beginTag_cons: "\<exists>xs. beginTag = CHR ''<'' # xs \<and> CHR ''<'' \<notin> set xs"
  by (simp add: beginTag_def)

lemma endTag_cons: "\<exists>xs. endTag = CHR ''<'' # xs \<and> CHR ''<'' \<notin> set xs"
  by (simp add: endTag_def)

lemma text_ok_Cons: "text_ok (c # t) \<Longrightarrow> \<not> HasPrefix (c # t) beginTag \<and> text_ok t"
  by (simp add: text_ok_def Cut_Contains)

lemma text_ok_Nil [simp]: "text_ok []"
  by (simp add: text_ok_def beginTag_def)

text \<open>Whatever follows a text is empty or starts with a block.\<close>

definition follows :: "string \<Rightarrow> bool" where
  "follows s \<longleftrightarrow> s = [] \<or> HasPrefix s beginTag"

lemma follows_tail [simp]: "follows (render_tail bs)"
  by (cases bs rule: render_tail.cases) (auto simp: follows_def HasPrefix_iff)

lemma text_no_header:
  assumes "text_ok t" "t \<noteq> []" "follows s"
  shows "block_core (t @ s) = None"
proof -
  obtain xs where xs: "beginTag = CHR ''<'' # xs" "CHR ''<'' \<notin> set xs"
    using beginTag_cons by blast
  have "s = [] \<or> HasPrefix s [CHR ''<'']"
    using assms(3) unfolding follows_def xs(1) by (cases s) auto
  then have "\<not> HasPrefix (t @ s) beginTag"
    using marker_straddle [OF xs(2), of t s] assms(1,2) text_ok_Cons xs(1) by (cases t) auto
  then show ?thesis
    by (simp add: block_core_def block_header_def)
qed

lemma block_core_Nil [simp]: "block_core [] = None"
  by (simp add: block_core_def block_header_def beginTag_def)

lemma text_no_block:
  assumes "text_ok (c # t)" "follows s" "c \<noteq> CHR 0x0A \<or> t \<noteq> [] \<or> s = []"
  shows "block_at (c # t @ s) = None"
proof -
  have "block_core (c # t @ s) = None"
    using text_no_header [OF assms(1) _ assms(2)] by simp
  moreover have "block_core (t @ s) = None" if "c = CHR 0x0A"
    using text_no_header [of t s] assms text_ok_Cons that by (cases "t = []") auto
  ultimately show ?thesis
    by (auto simp: block_at_def)
qed

subsection \<open>A block is matched whole\<close>

lemma takeWhile_group: "group_ok g \<Longrightarrow> \<not> re_nonspace c \<Longrightarrow> takeWhile re_nonspace (g @ c # r) = g \<and> dropWhile re_nonspace (g @ c # r) = c # r"
  by (simp add: group_ok_def list_all_iff takeWhile_append2 dropWhile_append2)

lemma not_nonspace [simp]: "\<not> re_nonspace (CHR '' '')"
  by (simp add: re_nonspace_def)

lemma block_header_render:
  assumes "group_ok i" "group_ok h"
  shows "block_header (beginTag @ i @ '' '' @ h @ '' -->'' @ newline @ r) = Some (i, h, r)"
  using assms takeWhile_group [OF assms(1), of "CHR '' ''" "h @ '' -->'' @ newline @ r"]
    takeWhile_group [OF assms(2), of "CHR '' ''" "''-->'' @ newline @ r"]
  by (simp add: block_header_def Let_def group_ok_def)

lemma matched_text:
  "take (length (m @ u) - length (if HasPrefix u newline then tl u else u)) (m @ u) = m @ (if HasPrefix u newline then newline else [])"
  by (cases u) auto

lemma block_core_render:
  assumes "block_ok b"
  shows "block_core (render_block b @ u) =
    Some (fst b, fst (snd b), render_block b @ (if HasPrefix u newline then newline else []), if HasPrefix u newline then tl u else u)"
proof -
  obtain i h body where b: "b = (i, h, body)"
    by (cases b) auto
  obtain xs where xs: "endTag = CHR ''<'' # xs" "CHR ''<'' \<notin> set xs"
    using endTag_cons by blast
  have "\<not> Contains_str (body @ newline) endTag"
    using assms b Contains_snoc [of "CHR 0x0A" endTag body] by (simp add: endTag_def)
  then have "Cut ((body @ newline) @ endTag @ u) endTag = (body @ newline, u, True)"
    using Cut_marker [OF xs(2)] xs(1) by metis
  moreover have "block_header (render_block b @ u) = Some (i, h, (body @ newline) @ endTag @ u)"
    using block_header_render [of i h "(body @ newline) @ endTag @ u"] assms b by simp
  ultimately show ?thesis
    using b matched_text [of "render_block b" u] by (simp add: block_core_def Let_def del: render_block.simps)
qed

lemma render_block_head: "HasPrefix (render_block b @ u) newline \<longleftrightarrow> False"
  by (cases b) (simp add: beginTag_def)

lemma block_at_render:
  assumes "block_ok b"
  shows "block_at (render_block b @ u) =
      Some (fst b, fst (snd b), render_block b @ (if HasPrefix u newline then newline else []), if HasPrefix u newline then tl u else u)"
    and "block_at (newline @ render_block b @ u) =
      Some (fst b, fst (snd b), newline @ render_block b @ (if HasPrefix u newline then newline else []), if HasPrefix u newline then tl u else u)"
  using block_core_render [OF assms, of u] render_block_head [of b u] by (simp_all add: block_at_def)

subsection \<open>Scanning a document\<close>

text \<open>What a match takes of the text before and of the text after a block.\<close>

definition lead :: "string \<Rightarrow> string" where
  "lead t = (if HasSuffix t newline then newline else [])"

definition before :: "string \<Rightarrow> string" where
  "before t = (if HasSuffix t newline then butlast t else t)"

definition trail :: "string \<Rightarrow> string" where
  "trail u = (if HasPrefix u newline then newline else [])"

definition after :: "string \<Rightarrow> string" where
  "after u = (if HasPrefix u newline then tl u else u)"

fun doc_matches :: "string \<Rightarrow> (block \<times> string) list \<Rightarrow> (string \<times> string \<times> string) list" where
  "doc_matches t [] = []"
| "doc_matches t ((b, u) # bs) = (fst b, fst (snd b), lead t @ render_block b @ trail u) # doc_matches (after u) bs"

fun doc_replace :: "('s \<Rightarrow> string \<Rightarrow> string \<times> 's) \<Rightarrow> 's \<Rightarrow> string \<Rightarrow> (block \<times> string) list \<Rightarrow> string \<times> 's" where
  "doc_replace f st t [] = (t, st)"
| "doc_replace f st t ((b, u) # bs) =
     (case f st (lead t @ render_block b @ trail u) of (x, st1) \<Rightarrow>
        case doc_replace f st1 (after u) bs of (y, st2) \<Rightarrow> (before t @ x @ y, st2))"

lemma before_lead: "before t @ lead t = t"
  by (auto simp: before_def lead_def HasSuffix_iff)

lemma trail_after: "trail u @ after u = u"
  by (cases u) (auto simp: trail_def after_def)

lemma trail_after_more: "trail u @ after u @ r = u @ r"
  by (cases u) (auto simp: trail_def after_def)

lemma after_ok: "text_ok u \<Longrightarrow> text_ok (after u)"
  by (cases u) (auto simp: after_def dest: text_ok_Cons)

lemma scan_text:
  assumes "text_ok (t @ k)" "follows s" "k \<noteq> [] \<or> s = [] \<or> \<not> HasSuffix t newline"
  shows "block_matches (t @ k @ s) = block_matches (k @ s) \<and>
    replace_blocks f st (t @ k @ s) = (t @ fst (replace_blocks f st (k @ s)), snd (replace_blocks f st (k @ s)))"
  using assms(1,3)
proof (induction t)
  case (Cons c t)
  have "c \<noteq> CHR 0x0A \<or> t @ k \<noteq> [] \<or> s = []"
    using Cons(3) by (auto simp: HasSuffix_def)
  then have "block_at (c # t @ k @ s) = None"
    using text_no_block [of c "t @ k" s] Cons(2) assms(2) by simp
  moreover have "k \<noteq> [] \<or> s = [] \<or> \<not> HasSuffix t newline"
    using Cons(3) by (auto simp: HasSuffix_iff)
  moreover have "text_ok (t @ k)"
    using Cons(2) text_ok_Cons by simp
  ultimately show ?case
    using Cons(1) by (simp add: block_matches.simps [of "c # t @ k @ s"] replace_blocks.simps [of f st "c # t @ k @ s"] split: prod.splits)
qed simp

lemma scan_before:
  assumes "text_ok t"
  shows "block_matches (t @ render_tail bs) = block_matches (lead t @ render_tail bs) \<and>
    replace_blocks f st (t @ render_tail bs) =
      (before t @ fst (replace_blocks f st (lead t @ render_tail bs)), snd (replace_blocks f st (lead t @ render_tail bs)))"
proof -
  have "lead t \<noteq> [] \<or> render_tail bs = [] \<or> \<not> HasSuffix (before t) newline"
    by (auto simp: lead_def before_def)
  then show ?thesis
    using scan_text [of "before t" "lead t" "render_tail bs" f st] assms before_lead [of t] by (metis append.assoc follows_tail)
qed

lemma scan_doc:
  assumes "text_ok t" "tail_ok bs"
  shows "block_matches (t @ render_tail bs) = doc_matches t bs \<and> replace_blocks f st (t @ render_tail bs) = doc_replace f st t bs"
  using assms
proof (induction bs arbitrary: t st rule: render_tail.induct)
  case 1
  have "block_matches (lead t) = [] \<and> replace_blocks f st (lead t) = (lead t, st)"
    by (simp add: lead_def block_at_def block_core_def block_header_def beginTag_def block_matches.simps replace_blocks.simps)
  then show ?case
    using scan_before [OF 1(1), of "[]" f st] before_lead [of t] by simp
next
  case (2 b u bs)
  have ok: "block_ok b" "text_ok (after u)" "tail_ok bs"
    using 2(3) after_ok by auto
  let ?s = "lead t @ render_block b @ u @ render_tail bs"
  have tl: "HasPrefix u newline \<Longrightarrow> tl (u @ render_tail bs) = tl u @ render_tail bs"
    by (cases u) auto
  have "HasPrefix (u @ render_tail bs) newline \<longleftrightarrow> HasPrefix u newline"
    using render_block_head by (cases u; cases bs rule: render_tail.cases) (auto simp del: render_block.simps)
  then have "block_at ?s = Some (fst b, fst (snd b), lead t @ render_block b @ trail u, after u @ render_tail bs)"
    using block_at_render [OF ok(1), of "u @ render_tail bs"] tl by (auto simp: lead_def trail_def after_def)
  moreover have "render_block b \<noteq> []"
    by (cases b) (simp add: beginTag_def)
  ultimately have "block_matches ?s = doc_matches t ((b, u) # bs)"
    "replace_blocks f st ?s = (case f st (lead t @ render_block b @ trail u) of (x, st1) \<Rightarrow>
        case doc_replace f st1 (after u) bs of (y, st2) \<Rightarrow> (x @ y, st2))"
    using 2(1) [OF ok(2,3)] by (simp_all add: block_matches.simps [of ?s] replace_blocks.simps [of f st ?s])
  then show ?case
    using scan_before [OF 2(2), of "(b, u) # bs" f st] by (simp split: prod.splits)
qed

lemmas block_matches_render = scan_doc [THEN conjunct1]
lemmas replace_blocks_render = scan_doc [THEN conjunct2]

subsection \<open>What is read from a match\<close>

lemma newline_ok [simp]: "text_ok newline"
  by (simp add: text_ok_def beginTag_def Cut_Contains)

lemma lead_trail_ok [simp]: "text_ok (lead t)" "text_ok (trail u)" "lead (lead t) = lead t" "trail (trail u) = trail u"
  by (auto simp: lead_def trail_def HasSuffix_def)

lemma submatch_render: "block_ok b \<Longrightarrow> submatch_id (lead t @ render_block b @ trail u) = fst b"
  using block_matches_render [of "lead t" "[(b, trail u)]"] by (simp add: submatch_id_def)

lemma block_id_ok: "block_ok b \<Longrightarrow> CHR 0x0A \<notin> set (fst b) \<and> CHR 0x0A \<notin> set (fst (snd b))"
  by (cases b) (auto simp: group_ok_def list_all_iff re_nonspace_def)

lemma find_in_match:
  assumes "block_ok b"
  shows "find_in i ((fst b, fst (snd b), lead t @ render_block b @ trail u) # ms) =
    (if fst b = i then (fst (snd b), snd (snd b), True) else find_in i ms)"
proof -
  obtain j h body where b: "b = (j, h, body)"
    by (cases b) auto
  let ?full = "lead t @ render_block b @ trail u" and ?head = "beginTag @ j @ '' '' @ h @ '' ''"
  have "Cut (?head @ (''-->'' @ newline) @ body @ newline @ endTag @ trail u) (''-->'' @ newline) =
      (?head, body @ newline @ endTag @ trail u, True)"
    by (rule Cut_line_marker) (use block_id_ok [OF assms] b in \<open>auto simp: beginTag_def\<close>)
  then have "Cut ?full (''-->'' @ newline) = (lead t @ ?head, body @ newline @ endTag @ trail u, True)"
    using b by (simp add: lead_def)
  then have idx: "Index ?full (''-->'' @ newline) = int (length (lead t @ ?head))"
    by (simp add: Index_def)
  have "rev (newline @ endTag) = CHR ''>'' # tl (rev endTag @ newline)" "CHR ''>'' \<notin> set (tl (rev endTag @ newline))"
    by (simp_all add: endTag_def)
  moreover have "\<not> Contains_str (trail u) (CHR ''>'' # xs)" for xs
    by (simp add: trail_def Cut_Contains)
  ultimately have "Cut (trail u @ rev (newline @ endTag) @ rev (lead t @ ?head @ ''-->'' @ newline @ body)) (rev (newline @ endTag)) =
      (trail u, rev (lead t @ ?head @ ''-->'' @ newline @ body), True)"
    using Cut_marker by metis
  moreover have "rev ?full = trail u @ rev (newline @ endTag) @ rev (lead t @ ?head @ ''-->'' @ newline @ body)"
    using b by (simp add: trail_def)
  ultimately have last: "LastIndex ?full (newline @ endTag) = int (length (lead t @ ?head @ ''-->'' @ newline @ body))"
    by (simp add: LastIndex_def)
  have "?full = (lead t @ ?head @ ''-->'' @ newline) @ body @ newline @ endTag @ trail u"
    using b by simp
  then have body: "take (length body) (drop (length (lead t @ ?head @ ''-->'' @ newline)) ?full) = body"
    by (metis append_eq_conv_conj)
  define full where "full = ?full"
  define n where "n = length (lead t @ ?head @ ''-->'' @ newline)"
  have "Index full (''-->'' @ newline) + 4 = int n" "LastIndex full (newline @ endTag) = int (n + length body)" "4 \<le> n"
    "take (length body) (drop n full) = body"
    using idx last body by (simp_all add: n_def full_def)
  then have "find_in i ((j, h, full) # ms) = (if j = i then (h, body, True) else find_in i ms)"
    by (simp only: find_in.simps Let_def) simp
  then show ?thesis
    using b by (simp add: full_def)
qed

fun doc_find :: "string \<Rightarrow> (block \<times> string) list \<Rightarrow> string \<times> string \<times> bool" where
  "doc_find i [] = ('''', '''', False)"
| "doc_find i ((b, u) # bs) = (if fst b = i then (fst (snd b), snd (snd b), True) else doc_find i bs)"

lemma find_in_doc: "tail_ok bs \<Longrightarrow> find_in i (doc_matches t bs) = doc_find i bs"
  by (induction bs arbitrary: t rule: render_tail.induct) (simp_all add: find_in_match del: find_in.simps(2))

lemma FindBlock_render: "doc_ok d \<Longrightarrow> FindBlock (render d) i = doc_find i (snd d)"
  using block_matches_render [of "fst d" "snd d"] find_in_doc by (simp add: FindBlock_def render_def doc_ok_def)

subsection \<open>Replacing a block\<close>

fun tail_put :: "block \<Rightarrow> (block \<times> string) list \<Rightarrow> (block \<times> string) list" where
  "tail_put new [] = []"
| "tail_put new ((b, u) # bs) = (if fst b = fst new then (new, u) # bs else (b, u) # tail_put new bs)"

definition doc_has :: "string \<Rightarrow> (block \<times> string) list \<Rightarrow> bool" where
  "doc_has i bs \<longleftrightarrow> i \<in> set (map (fst \<circ> fst) bs)"

lemma doc_has_simps [simp]: "doc_has i [] = False" "doc_has i ((b, u) # bs) \<longleftrightarrow> fst b = i \<or> doc_has i bs"
  by (auto simp: doc_has_def)

lemma doc_has_find: "snd (snd (doc_find i bs)) \<longleftrightarrow> doc_has i bs"
  by (induction i bs rule: doc_find.induct) auto

lemma match_ends [simp]:
  "HasPrefix (lead t @ render_block b @ trail u) newline \<longleftrightarrow> lead t = newline"
  "HasSuffix (lead t @ render_block b @ trail u) newline \<longleftrightarrow> trail u = newline"
proof -
  show "HasPrefix (lead t @ render_block b @ trail u) newline \<longleftrightarrow> lead t = newline"
    using render_block_head [of b "trail u"] by (auto simp: lead_def)
  have "HasSuffix s newline \<longleftrightarrow> s \<noteq> [] \<and> last s = CHR 0x0A" for s
    by (cases s rule: rev_cases) (auto simp: HasSuffix_iff)
  then show "HasSuffix (lead t @ render_block b @ trail u) newline \<longleftrightarrow> trail u = newline"
    by (cases b) (auto simp: trail_def endTag_def)
qed

lemma lead_trail_if: "(if lead t = newline then newline else []) = lead t" "(if trail u = newline then newline else []) = trail u"
  by (simp_all add: lead_def trail_def)

lemma before_render: "before t @ lead t @ m @ trail u @ after u @ r = t @ m @ u @ r"
  using before_lead [of t] trail_after [of u] by (metis append.assoc)

lemma replace_done:
  assumes "\<And>m. f True m = (m, True)"
  shows "doc_replace f True t bs = (t @ render_tail bs, True)"
  by (induction bs arbitrary: t rule: render_tail.induct)
     (simp_all add: assms before_lead before_render del: render_block.simps)

lemma upsert_doc:
  assumes "tail_ok bs"
  shows "doc_replace (upsert_at (render_block new) (fst new)) False t bs = (t @ render_tail (tail_put new bs), doc_has (fst new) bs)"
  using assms
proof (induction bs arbitrary: t rule: render_tail.induct)
  case (2 b u bs)
  have id: "submatch_id (lead t @ render_block b @ trail u) = fst b"
    using submatch_render 2(2) by simp
  have "upsert_at (render_block new) (fst new) True m = (m, True)" for m
    by (simp add: upsert_at_def)
  then have fin: "doc_replace (upsert_at (render_block new) (fst new)) True t bs = (t @ render_tail bs, True)" for t bs
    by (rule replace_done)
  have put: "upsert_at (render_block new) (fst new) False (lead t @ render_block b @ trail u) =
      (if fst b = fst new then (lead t @ render_block new @ trail u, True) else (lead t @ render_block b @ trail u, False))"
    using id by (simp add: upsert_at_def lead_trail_if del: render_block.simps)
  show ?case
    using 2 fin by (simp add: put before_render del: render_block.simps)
qed simp

lemma tail_put_ok: "tail_ok bs \<Longrightarrow> block_ok new \<Longrightarrow> tail_ok (tail_put new bs)"
  by (induction new bs rule: tail_put.induct) auto

lemma doc_find_put:
  "doc_has (fst new) bs \<Longrightarrow> doc_find i (tail_put new bs) = (if i = fst new then (fst (snd new), snd (snd new), True) else doc_find i bs)"
  by (induction new bs rule: tail_put.induct) auto

text \<open>A new block goes to the end, after an empty line.\<close>

fun tail_add :: "string \<Rightarrow> block \<Rightarrow> (block \<times> string) list \<Rightarrow> doc" where
  "tail_add t new [] = ((if t = [] then [] else (if HasSuffix t newline then t else t @ newline) @ newline), [(new, newline)])"
| "tail_add t new ((b, u) # bs) =
     (let d = tail_add u new bs in (t, (b, if bs = [] \<and> u = [] then newline @ newline else fst d) # snd d))"

text \<open>A new block goes to the end, after a separator of line breaks.\<close>

definition doc_add :: "string \<Rightarrow> block \<Rightarrow> doc \<Rightarrow> doc" where
  "doc_add sep new d =
     (if snd d = [] then (fst d @ sep, [(new, newline)])
      else (fst d, butlast (snd d) @ [(fst (last (snd d)), snd (last (snd d)) @ sep), (new, newline)]))"

lemma render_tail_append: "render_tail (bs @ cs) = render_tail bs @ render_tail cs"
  by (induction bs rule: render_tail.induct) simp_all

lemma tail_ok_append: "tail_ok (bs @ cs) \<longleftrightarrow> tail_ok bs \<and> tail_ok cs"
  by (auto simp: tail_ok_def)

lemma render_add: "render (doc_add sep new d) = render d @ sep @ render_block new @ newline"
  by (cases "snd d" rule: rev_cases) (auto simp: doc_add_def render_def render_tail_append)

lemma text_ok_newlines: "text_ok t \<Longrightarrow> set sep \<subseteq> {CHR 0x0A} \<Longrightarrow> text_ok (t @ sep)"
proof (induction sep arbitrary: t)
  case (Cons c sep)
  have "CHR 0x0A \<notin> set beginTag" "beginTag \<noteq> []"
    by (simp_all add: beginTag_def)
  then have "text_ok (t @ [c])"
    using Cons(2,3) Contains_snoc [of "CHR 0x0A" beginTag t] by (simp add: text_ok_def)
  then show ?case
    using Cons(1) [of "t @ [c]"] Cons(3) by simp
qed simp

lemma doc_add_ok: "doc_ok d \<Longrightarrow> block_ok new \<Longrightarrow> set sep \<subseteq> {CHR 0x0A} \<Longrightarrow> doc_ok (doc_add sep new d)"
  by (cases "snd d" rule: rev_cases) (auto simp: doc_add_def doc_ok_def tail_ok_append text_ok_newlines)

lemma doc_find_append: "doc_find i (bs @ cs) = (if doc_has i bs then doc_find i bs else doc_find i cs)"
  by (induction i bs rule: doc_find.induct) auto

lemma doc_has_append: "doc_has i (bs @ cs) \<longleftrightarrow> doc_has i bs \<or> doc_has i cs"
  by (auto simp: doc_has_def)

lemma doc_find_add:
  assumes "\<not> doc_has (fst new) (snd d)"
  shows "doc_find i (snd (doc_add sep new d)) = (if i = fst new then (fst (snd new), snd (snd new), True) else doc_find i (snd d))"
  using assms
  by (cases "snd d" rule: rev_cases) (auto simp: doc_add_def doc_find_append doc_has_append)

definition new_block :: "(bytes \<Rightarrow> bytes) \<Rightarrow> string \<Rightarrow> string \<Rightarrow> block" where
  "new_block H i body = (i, BlockHash H body, body)"

lemma ManagedBlock_render: "ManagedBlock H i body = render_block (new_block H i body)"
  by (simp add: ManagedBlock_def new_block_def)

definition block_sep :: "string \<Rightarrow> string" where
  "block_sep content = (if content = '''' then [] else if HasSuffix content newline then newline else newline @ newline)"

definition doc_upsert :: "(bytes \<Rightarrow> bytes) \<Rightarrow> string \<Rightarrow> string \<Rightarrow> doc \<Rightarrow> doc" where
  "doc_upsert H i body d =
     (if doc_has i (snd d) then (fst d, tail_put (new_block H i body) (snd d))
      else doc_add (block_sep (render d)) (new_block H i body) d)"

theorem UpsertBlock_render:
  assumes "doc_ok d"
  shows "UpsertBlock H (render d) i body = render (doc_upsert H i body d)"
proof -
  have id: "fst (new_block H i body) = i"
    by (simp add: new_block_def)
  have "replace_blocks (upsert_at (ManagedBlock H i body) i) False (render d) =
      (render (fst d, tail_put (new_block H i body) (snd d)), doc_has i (snd d))"
    using replace_blocks_render [of "fst d" "snd d" "upsert_at (ManagedBlock H i body) i" False] upsert_doc [of "snd d" "new_block H i body" "fst d"] assms id
    by (simp add: render_def doc_ok_def ManagedBlock_render)
  then show ?thesis
    by (simp add: UpsertBlock_def doc_upsert_def render_add block_sep_def ManagedBlock_render Let_def)
qed

lemma hex_digit_nonspace: "d < 16 \<Longrightarrow> re_nonspace (hex_digit d)"
proof -
  have "list_all (\<lambda>d. re_nonspace (hex_digit d)) [0..<16]"
    by code_simp
  then show "d < 16 \<Longrightarrow> re_nonspace (hex_digit d)"
    by (auto simp: list_all_iff)
qed

lemma hex_encode_group: "bs \<noteq> [] \<Longrightarrow> group_ok (hex_encode bs)"
proof -
  have "of_char c div 16 < (16 :: nat)" "of_char c mod 16 < (16 :: nat)" for c :: char
    using nat_of_char_less_256 [of c] by (auto simp: div_less_iff_less_mult)
  then show "bs \<noteq> [] \<Longrightarrow> group_ok (hex_encode bs)"
    by (cases bs) (auto simp: group_ok_def hex_encode_def list_all_iff hex_digit_nonspace)
qed

lemma new_block_ok: "group_ok i \<Longrightarrow> H body \<noteq> [] \<Longrightarrow> \<not> Contains_str body endTag \<Longrightarrow> block_ok (new_block H i body)"
  by (simp add: new_block_def BlockHash_def hex_encode_group)

lemma doc_upsert_ok: "doc_ok d \<Longrightarrow> block_ok (new_block H i body) \<Longrightarrow> doc_ok (doc_upsert H i body d)"
  unfolding doc_upsert_def using doc_add_ok [of d "new_block H i body"] tail_put_ok
  by (auto simp: doc_ok_def block_sep_def)

lemma doc_upsert_find:
  "doc_find j (snd (doc_upsert H i body d)) = (if j = i then (BlockHash H body, body, True) else doc_find j (snd d))"
  using doc_find_put [of "new_block H i body" "snd d" j] doc_find_add [of "new_block H i body" d j]
  by (auto simp: doc_upsert_def new_block_def)

subsection \<open>Removing a block\<close>

fun tail_remove :: "string \<Rightarrow> string \<Rightarrow> (block \<times> string) list \<Rightarrow> string" where
  "tail_remove i t [] = t"
| "tail_remove i t ((b, u) # bs) =
     (if fst b = i
      then before t @ (if lead t = newline \<and> trail u = newline then newline else []) @ after u @ render_tail bs
      else t @ render_block b @ trail u @ tail_remove i (after u) bs)"

lemma remove_doc:
  assumes "tail_ok bs"
  shows "doc_replace (remove_at i) False t bs = (tail_remove i t bs, doc_has i bs)"
  using assms
proof (induction bs arbitrary: t rule: render_tail.induct)
  case (2 b u bs)
  have id: "submatch_id (lead t @ render_block b @ trail u) = fst b"
    using submatch_render 2(2) by simp
  have "remove_at i True m = (m, True)" for m
    by (simp add: remove_at_def)
  then have fin: "doc_replace (remove_at i) True t bs = (t @ render_tail bs, True)" for t bs
    by (rule replace_done)
  have at: "remove_at i False (lead t @ render_block b @ trail u) =
      (if fst b = i then (if lead t = newline \<and> trail u = newline then newline else [], True)
       else (lead t @ render_block b @ trail u, False))"
    using id by (simp add: remove_at_def del: render_block.simps)
  have ok: "tail_ok bs"
    using 2(2) by simp
  have bl: "before t @ lead t @ x = t @ x" for x
    using before_lead [of t] by (metis append.assoc)
  show ?case
    using 2(1) [OF ok] fin by (simp add: at bl del: render_block.simps)
qed simp

lemma RemoveBlock_render:
  assumes "doc_ok d"
  shows "RemoveBlock (render d) i =
    (if doc_has i (snd d)
     then (let t = TrimRight_byte (tail_remove i (fst d) (snd d)) (CHR 0x0A) in if t \<noteq> '''' then t @ newline else t)
     else render d, doc_has i (snd d))"
proof -
  have "tail_remove i (fst d) (snd d) = render d" if "\<not> doc_has i (snd d)"
  proof -
    have "tail_remove i t bs = t @ render_tail bs" if "\<not> doc_has i bs" for t bs
      using that
    proof (induction bs arbitrary: t rule: render_tail.induct)
      case (2 b u bs)
      then show ?case
        by (simp add: trail_after_more del: render_block.simps)
    qed simp
    then show ?thesis
      using that by (simp add: render_def)
  qed
  then show ?thesis
    using replace_blocks_render [of "fst d" "snd d" "remove_at i" False] remove_doc [of "snd d" i "fst d"] assms
    by (simp add: RemoveBlock_def render_def doc_ok_def)
qed

lemma trim_newlines: "set sep \<subseteq> {CHR 0x0A} \<Longrightarrow> TrimRight_byte (s @ sep) (CHR 0x0A) = TrimRight_byte s (CHR 0x0A)"
proof -
  assume "set sep \<subseteq> {CHR 0x0A}"
  then have "dropWhile (\<lambda>x. x = CHR 0x0A) (rev sep @ rev s) = dropWhile (\<lambda>x. x = CHR 0x0A) (rev s)"
    by (intro dropWhile_append2) auto
  then show ?thesis
    by (simp add: TrimRight_byte_def)
qed

lemma tail_remove_last:
  "\<not> doc_has i bs \<Longrightarrow> fst b = i \<Longrightarrow> tail_remove i t (bs @ [(b, newline)]) = t @ render_tail bs"
proof (induction bs arbitrary: t rule: render_tail.induct)
  case 1
  then show ?case
    using before_lead [of t] by (auto simp: after_def trail_def lead_def)
next
  case (2 b' u bs)
  then show ?case
    by (simp add: trail_after_more del: render_block.simps)
qed

lemma remove_added:
  assumes "\<not> doc_has (fst new) (snd d)"
  shows "tail_remove (fst new) (fst (doc_add sep new d)) (snd (doc_add sep new d)) = render d @ sep"
proof (cases "snd d" rule: rev_cases)
  case Nil
  then show ?thesis
    using tail_remove_last [of "fst new" "[]" new] by (simp add: doc_add_def render_def)
next
  case (snoc bs x)
  obtain b u where x: "x = (b, u)"
    by fastforce
  have "\<not> doc_has (fst new) (bs @ [(b, u @ sep)])"
    using assms snoc x by (simp add: doc_has_append)
  then show ?thesis
    using tail_remove_last [of "fst new" "bs @ [(b, u @ sep)]" new] snoc x by (simp add: doc_add_def render_def render_tail_append)
qed

subsection \<open>Tidy files\<close>

text \<open>A file in which every begin marker opens a complete block; the files that keelage writes stay so.\<close>

definition tidy :: "string \<Rightarrow> bool" where
  "tidy content \<longleftrightarrow> (\<exists>d. doc_ok d \<and> content = render d)"

lemma tail_put_split:
  assumes "doc_has (fst new) bs"
  shows "\<exists>pre b post. render_tail bs = pre @ render_block b @ post \<and> render_tail (tail_put new bs) = pre @ render_block new @ post \<and>
    fst b = fst new \<and> doc_find (fst new) bs = (fst (snd b), snd (snd b), True)"
  using assms
proof (induction bs rule: render_tail.induct)
  case (2 b u bs)
  show ?case
  proof (cases "fst b = fst new")
    case True
    then show ?thesis
      by (intro exI [of _ "[]"] exI [of _ b] exI [of _ "u @ render_tail bs"]) simp
  next
    case False
    then obtain pre b' post where "render_tail bs = pre @ render_block b' @ post" "render_tail (tail_put new bs) = pre @ render_block new @ post"
      "fst b' = fst new" "doc_find (fst new) bs = (fst (snd b'), snd (snd b'), True)"
      using 2 by auto
    then show ?thesis
      using False by (intro exI [of _ "render_block b @ u @ pre"] exI [of _ b'] exI [of _ post]) simp
  qed
qed simp

lemma tail_put_same: "doc_find (fst new) bs = (fst (snd new), snd (snd new), True) \<Longrightarrow> tail_put new bs = bs"
  by (induction new bs rule: tail_put.induct) (auto split: if_splits)

lemma upsert_find:
  assumes d: "doc_ok d" and new: "block_ok (new_block H i body)"
  shows "FindBlock (UpsertBlock H (render d) i body) j = (if j = i then (BlockHash H body, body, True) else FindBlock (render d) j)"
  using FindBlock_render [OF doc_upsert_ok [OF d new]] FindBlock_render [OF d] doc_upsert_find UpsertBlock_render [OF d] by simp

lemma upsert_again:
  assumes d: "doc_ok d" and new: "block_ok (new_block H i body)"
  shows "UpsertBlock H (UpsertBlock H (render d) i body) i body = UpsertBlock H (render d) i body"
proof -
  let ?d = "doc_upsert H i body d"
  have "doc_find i (snd ?d) = (BlockHash H body, body, True)"
    using doc_upsert_find [of i H i body d] by simp
  then have "doc_has i (snd ?d)" "tail_put (new_block H i body) (snd ?d) = snd ?d"
    using doc_has_find [of i "snd ?d"] tail_put_same [of "new_block H i body" "snd ?d"] by (simp_all add: new_block_def)
  then show ?thesis
    using UpsertBlock_render [OF doc_upsert_ok [OF d new]] UpsertBlock_render [OF d] by (simp add: doc_upsert_def [of H i body ?d])
qed

lemma upsert_replaces:
  assumes d: "doc_ok d" and "doc_has i (snd d)"
  shows "\<exists>pre old post. render d = pre @ render_block old @ post \<and> fst old = i \<and> FindBlock (render d) i = (fst (snd old), snd (snd old), True) \<and>
    UpsertBlock H (render d) i body = pre @ ManagedBlock H i body @ post"
proof -
  let ?new = "new_block H i body"
  obtain pre b post where "render_tail (snd d) = pre @ render_block b @ post" "render_tail (tail_put ?new (snd d)) = pre @ render_block ?new @ post"
    "fst b = i" "doc_find i (snd d) = (fst (snd b), snd (snd b), True)"
    using tail_put_split [of ?new "snd d"] assms by (auto simp: new_block_def)
  then show ?thesis
    using assms UpsertBlock_render [OF d] FindBlock_render [OF d, of i]
    by (intro exI [of _ "fst d @ pre"] exI [of _ b] exI [of _ post]) (simp add: render_def doc_upsert_def ManagedBlock_render)
qed

lemma upsert_appends:
  assumes d: "doc_ok d" and "\<not> doc_has i (snd d)"
  shows "\<exists>sep. length sep \<le> 2 \<and> set sep \<subseteq> {CHR 0x0A} \<and> UpsertBlock H (render d) i body = render d @ sep @ ManagedBlock H i body @ newline"
  using assms UpsertBlock_render [OF d]
  by (intro exI [of _ "block_sep (render d)"]) (simp add: doc_upsert_def render_add ManagedBlock_render block_sep_def)

end
