(* ===== verification/Supply.thy ===== *)
theory Supply
  imports Supply_Blocks Scope_Key
begin

section \<open>Answers to coding tools\<close>

text \<open>
  \<^verbatim>\<open>internal/core/supply\<close>: \<^verbatim>\<open>hook.go\<close> (the facts about edited files and the answer composed from them),
  \<^verbatim>\<open>manifest.go\<close> (the repository's sidecar) and the rendering of \<^verbatim>\<open>render.go\<close>. States and kinds are strings here, as in the
  sources. A \<^verbatim>\<open>strings.Builder\<close> is the text written so far. Characters outside ASCII are their UTF-8 bytes.
\<close>

abbreviation middle_dot :: string where "middle_dot \<equiv> [CHR 0xC2, CHR 0xB7]"
abbreviation em_dash :: string where "em_dash \<equiv> [CHR 0xE2, CHR 0x80, CHR 0x94]"

subsection \<open>hook.go\<close>

record response =
  rp_Inject :: string
  rp_Warn :: "string list"
  rp_Block :: "string option"

definition Response_Empty :: "response \<Rightarrow> bool" where
  "Response_Empty r \<longleftrightarrow> rp_Inject r = '''' \<and> rp_Warn r = [] \<and> rp_Block r = None"

record anchor_fact =
  af_Key :: string
  af_State :: string
  af_MovedTo :: string

record constraint_fact =
  cf_ID :: ID
  cf_Kind :: string
  cf_State :: string
  cf_Scope :: scope_key
  cf_Body :: string
  cf_Explanation :: string
  cf_Anchors :: "string list"
  cf_Level :: level
  cf_DenyEdit :: bool

record facts =
  fx_File :: string
  fx_Repo :: string
  fx_Anchors :: "anchor_fact list"
  fx_Constraints :: "constraint_fact list"
  fx_Actor :: actor_kind

definition DenyEditMarker :: string where
  "DenyEditMarker = ''deny-edit''"

definition scopeLabel :: "scope_key \<Rightarrow> string" where
  "scopeLabel k =
     (let parts = (if sk_Product k \<noteq> '''' then [''product '' @ sk_Product k] else []) @
                  (if sk_Team k \<noteq> '''' then [''team '' @ sk_Team k] else []) @
                  (if sk_Repo k \<noteq> ''''
                   then (if sk_PathGlob k \<noteq> '''' then [sk_Repo k @ '':'' @ sk_PathGlob k] else [''repo '' @ sk_Repo k]) else []) @
                  (if sk_Person k \<noteq> '''' then [''personal''] else []) in
      if parts = [] then ''global'' else Join parts '', '')"

definition anchor_line :: "anchor_fact \<Rightarrow> string" where
  "anchor_line a = newline @ ''- anchor '' @ af_Key a @ '' is '' @ af_State a @
     (if af_MovedTo a \<noteq> '''' then '' (moved to '' @ af_MovedTo a @ '')'' else [])"

definition anchor_warn :: "anchor_fact \<Rightarrow> string list" where
  "anchor_warn a =
     (if af_State a = ''stale''
        then [''anchor '' @ af_Key a @ '' is stale: its signature changed since the bound constraints were verified'']
      else if af_State a = ''review''
        then [''anchor '' @ af_Key a @ '' is under review: its body changed since the bound constraints were verified'']
      else if af_State a = ''unrealized'' then [''anchor '' @ af_Key a @ '' no longer exists in the working tree'']
      else [])"

definition fact_less :: "constraint_fact \<Rightarrow> constraint_fact \<Rightarrow> bool" where
  "fact_less c d \<longleftrightarrow>
     (if Width (cf_Scope c) \<noteq> Width (cf_Scope d) then Width (cf_Scope c) > Width (cf_Scope d) else cf_ID c < cf_ID d)"

definition constraint_line :: "constraint_fact \<Rightarrow> string" where
  "constraint_line c = newline @ ''- '' @ cf_Kind c @ '' ('' @ cf_State c @ '', '' @ scopeLabel (cf_Scope c) @ ''): '' @ TrimSpace (cf_Body c) @
     (if cf_Explanation c \<noteq> '''' then '' '' @ em_dash @ '' '' @ TrimSpace (cf_Explanation c) else [])"

definition block_reason :: "facts \<Rightarrow> constraint_fact \<Rightarrow> string" where
  "block_reason f c = ''keelage: '' @ TrimSpace (cf_Body c) @ '' (autonomy '' @ Level_String (cf_Level c) @ '' in '' @ scopeLabel (cf_Scope c) @
     '' denies agent edits to '' @ fx_File f @ ''; a human edits or raises the level)''"

text \<open>One anchor and one constraint of a file, with the text and the answer so far.\<close>

definition compose_anchor :: "string \<times> response \<Rightarrow> anchor_fact \<Rightarrow> string \<times> response" where
  "compose_anchor x a = (fst x @ anchor_line a, (snd x)\<lparr>rp_Warn := rp_Warn (snd x) @ anchor_warn a\<rparr>)"

definition compose_constraint :: "facts \<Rightarrow> string \<times> response \<Rightarrow> constraint_fact \<Rightarrow> string \<times> response" where
  "compose_constraint f x c =
     (let r1 = (if cf_State c = ''review''
                then (snd x)\<lparr>rp_Warn := rp_Warn (snd x) @ [''constraint '' @ cf_ID c @ '' is under review'']\<rparr> else snd x);
          r2 = (if cf_DenyEdit c \<and> fx_Actor f = ActorAgent \<and> rp_Block r1 = None
                then r1\<lparr>rp_Block := Some (block_reason f c)\<rparr> else r1) in
      (fst x @ constraint_line c, r2))"

definition compose_file :: "string \<times> response \<Rightarrow> facts \<Rightarrow> string \<times> response" where
  "compose_file x f =
     (if fx_Anchors f = [] \<and> fx_Constraints f = [] then x
      else let b = fst x @ (if length (fst x) > 0 then newline else []) @ ''keelage '' @ middle_dot @ '' '' @ fx_File f @ '':'';
               x1 = foldl compose_anchor (b, snd x) (go_sort (\<lambda>a b. af_Key a < af_Key b) (fx_Anchors f)) in
           foldl (compose_constraint f) x1 (go_sort fact_less (fx_Constraints f)))"

definition Compose :: "facts list \<Rightarrow> response" where
  "Compose fs =
     (case foldl compose_file ('''', \<lparr>rp_Inject = '''', rp_Warn = [], rp_Block = None\<rparr>) fs of
        (b, r) \<Rightarrow> r\<lparr>rp_Inject := b, rp_Warn := go_sort (<) (rp_Warn r)\<rparr>)"

record touches =
  tc_Anchor :: string
  tc_State :: string
  tc_MovedTo :: string
  tc_Constraints :: "constraint_fact list"

record related =
  rl_ID :: string
  rl_Kind :: string
  rl_Anchors :: "string list"
  rl_Constraints :: "string list"
  rl_Supersedes :: string
  rl_SupersededBy :: string
  rl_MovedTo :: string
  rl_State :: string

subsection \<open>manifest.go\<close>

record import_record =
  im_Path :: string
  im_Kind :: string
  im_ObjectID :: string
  im_Hash :: string
  im_Scope :: string

record rendered_file =
  rf_Path :: string
  rf_Tool :: string
  rf_Hash :: string
  rf_Managed :: bool
  rf_BlockID :: string

record manifest =
  mf_Version :: int
  mf_Repo :: string
  mf_Adapters :: "(string \<times> string) list"
  mf_Imports :: "import_record list"
  mf_Rendered :: "rendered_file list"
  mf_Gitignore :: bool
  mf_UpdatedAt :: go_time

definition zero_import :: import_record where
  "zero_import = \<lparr>im_Path = '''', im_Kind = '''', im_ObjectID = '''', im_Hash = '''', im_Scope = ''''\<rparr>"

definition zero_rendered :: rendered_file where
  "zero_rendered = \<lparr>rf_Path = '''', rf_Tool = '''', rf_Hash = '''', rf_Managed = False, rf_BlockID = ''''\<rparr>"

definition FindImport :: "manifest \<Rightarrow> string \<Rightarrow> import_record \<times> bool" where
  "FindImport m path = (case List.find (\<lambda>i. im_Path i = path) (mf_Imports m) of Some i \<Rightarrow> (i, True) | None \<Rightarrow> (zero_import, False))"

text \<open>The loop of the two setters: the first record with the path is replaced, or the new one is appended.\<close>

fun set_by :: "('a \<Rightarrow> string) \<Rightarrow> 'a \<Rightarrow> 'a list \<Rightarrow> 'a list" where
  "set_by key v [] = [v]"
| "set_by key v (x # xs) = (if key x = key v then v # xs else x # set_by key v xs)"

definition SetImport :: "manifest \<Rightarrow> import_record \<Rightarrow> manifest" where
  "SetImport m i = m\<lparr>mf_Imports := set_by im_Path i (mf_Imports m)\<rparr>"

definition FindRendered :: "manifest \<Rightarrow> string \<Rightarrow> rendered_file \<times> bool" where
  "FindRendered m path = (case List.find (\<lambda>r. rf_Path r = path) (mf_Rendered m) of Some r \<Rightarrow> (r, True) | None \<Rightarrow> (zero_rendered, False))"

definition SetRendered :: "manifest \<Rightarrow> rendered_file \<Rightarrow> manifest" where
  "SetRendered m r = m\<lparr>mf_Rendered := set_by rf_Path r (mf_Rendered m)\<rparr>"

definition ImportedObjectIDs :: "manifest \<Rightarrow> (string \<times> bool) list" where
  "ImportedObjectIDs m = foldl (\<lambda>out i. map_put (im_ObjectID i) True out) [] (mf_Imports m)"

subsection \<open>render.go\<close>

record file_op =
  fo_Path :: string
  fo_Content :: string
  fo_Delete :: bool
  fo_Managed :: bool
  fo_BlockID :: string

record decision_fact =
  df_ID :: ID
  df_Title :: string
  df_State :: string
  df_Path :: string

record render_input =
  ri_Repo :: string
  ri_Tool :: string
  ri_Constraints :: "constraint_fact list"
  ri_Decisions :: "decision_fact list"
  ri_Anchors :: "anchor_fact list"

definition ContextDir :: string where
  "ContextDir = ''.keelage/context''"

definition PointerBlockID :: string where
  "PointerBlockID = ''context''"

definition render_constraint :: "constraint_fact \<Rightarrow> string" where
  "render_constraint c = newline @ ''- **'' @ cf_Kind c @ ''** ('' @ cf_State c @ '', '' @ scopeLabel (cf_Scope c) @ ''): '' @ TrimSpace (cf_Body c) @
     (if cf_Explanation c \<noteq> '''' then '' '' @ em_dash @ '' '' @ TrimSpace (cf_Explanation c) else []) @
     (if length (cf_Anchors c) > 0 then '' '' @ middle_dot @ '' anchors: '' @ Join (cf_Anchors c) '', '' else []) @
     (if cf_DenyEdit c then '' '' @ middle_dot @ '' agents do not edit here'' else [])"

definition render_decision :: "decision_fact \<Rightarrow> string" where
  "render_decision d = newline @ ''- '' @ df_Title d @ '' ('' @ df_State d @ '')'' @
     (if df_Path d \<noteq> '''' then '' '' @ em_dash @ '' see '' @ df_Path d else [])"

definition render_anchor :: "anchor_fact \<Rightarrow> string" where
  "render_anchor a = newline @ ''- '' @ af_Key a @ '' is '' @ af_State a @
     (if af_MovedTo a \<noteq> '''' then '' (moved to '' @ af_MovedTo a @ '')'' else [])"

definition renderContextMarkdown :: "render_input \<Rightarrow> string" where
  "renderContextMarkdown inp =
     ''# keelage context '' @ em_dash @ '' '' @ ri_Repo inp @ newline @ newline @
     ''Generated by keelage from the charter in force for this repository. Do not edit: run `keelage init` to refresh. '' @
     ''Statements here are project facts.'' @ newline @
     (if length (ri_Constraints inp) > 0
      then newline @ ''## Constraints in force'' @ newline @
           concat (map render_constraint (go_sort fact_less (ri_Constraints inp))) @ newline else []) @
     (if length (ri_Decisions inp) > 0
      then newline @ ''## Decisions'' @ newline @
           concat (map render_decision (go_sort (\<lambda>a b. df_Title a < df_Title b) (ri_Decisions inp))) @ newline else []) @
     (if length (ri_Anchors inp) > 0
      then newline @ ''## Anchors needing attention'' @ newline @
           concat (map render_anchor (go_sort (\<lambda>a b. af_Key a < af_Key b) (ri_Anchors inp))) @ newline else []) @
     newline @ ''Before editing a symbol listed above, call `mcp__keelage__what_touches` with its anchor.'' @ newline"

definition RenderClaudeCode :: "render_input \<Rightarrow> file_op list" where
  "RenderClaudeCode inp =
     (let contextPath = ContextDir @ ''/claude-code/context.md'' in
      [\<lparr>fo_Path = contextPath, fo_Content = renderContextMarkdown inp, fo_Delete = False, fo_Managed = False, fo_BlockID = ''''\<rparr>,
       \<lparr>fo_Path = ''CLAUDE.md'', fo_Content = ''@'' @ contextPath, fo_Delete = False, fo_Managed = True, fo_BlockID = PointerBlockID\<rparr>])"

subsection \<open>What an answer says\<close>

lemma foldl_anchor: "foldl compose_anchor x as =
    (fst x @ concat (map anchor_line as), (snd x)\<lparr>rp_Warn := rp_Warn (snd x) @ concat (map anchor_warn as)\<rparr>)"
  by (induction as arbitrary: x) (simp_all add: compose_anchor_def)

text \<open>The first constraint of a list that denies an agent's edit.\<close>

definition denial :: "facts \<Rightarrow> constraint_fact list \<Rightarrow> string option" where
  "denial f cs = (if fx_Actor f = ActorAgent then map_option (block_reason f) (List.find cf_DenyEdit cs) else None)"

definition review_warn :: "constraint_fact \<Rightarrow> string list" where
  "review_warn c = (if cf_State c = ''review'' then [''constraint '' @ cf_ID c @ '' is under review''] else [])"

lemma foldl_constraint: "foldl (compose_constraint f) x cs =
    (fst x @ concat (map constraint_line cs),
     (snd x)\<lparr>rp_Warn := rp_Warn (snd x) @ concat (map review_warn cs),
             rp_Block := (case rp_Block (snd x) of Some r \<Rightarrow> Some r | None \<Rightarrow> denial f cs)\<rparr>)"
  by (induction cs arbitrary: x) (auto simp: compose_constraint_def denial_def review_warn_def Let_def split: option.splits)

definition file_text :: "facts \<Rightarrow> string" where
  "file_text f = ''keelage '' @ middle_dot @ '' '' @ fx_File f @ '':'' @
     concat (map anchor_line (go_sort (\<lambda>a b. af_Key a < af_Key b) (fx_Anchors f))) @
     concat (map constraint_line (go_sort fact_less (fx_Constraints f)))"

definition file_warn :: "facts \<Rightarrow> string list" where
  "file_warn f = concat (map anchor_warn (go_sort (\<lambda>a b. af_Key a < af_Key b) (fx_Anchors f))) @
     concat (map review_warn (go_sort fact_less (fx_Constraints f)))"

definition silent :: "facts \<Rightarrow> bool" where
  "silent f \<longleftrightarrow> fx_Anchors f = [] \<and> fx_Constraints f = []"

lemma compose_file_eq: "compose_file x f =
    (if silent f then x
     else (fst x @ (if fst x = [] then [] else newline) @ file_text f,
           (snd x)\<lparr>rp_Warn := rp_Warn (snd x) @ file_warn f,
                   rp_Block := (case rp_Block (snd x) of Some r \<Rightarrow> Some r | None \<Rightarrow> denial f (go_sort fact_less (fx_Constraints f)))\<rparr>))"
  by (auto simp: compose_file_def silent_def foldl_anchor foldl_constraint file_text_def file_warn_def Let_def)

end
