(* ===== verification/Turn.thy ===== *)
theory Turn
  imports Go_Text Session
begin

section \<open>Classification of turns\<close>

text \<open>
  \<^verbatim>\<open>internal/core/supply/turn.go\<close>. Its regular expressions are built from matchers: a matcher maps a position (the byte before it,
  if any, and the rest of the text) to the positions after a match, the preferred one
  first, as the leftmost-first semantics of package \<^verbatim>\<open>regexp\<close> orders them. Only byte classes
  are repeated in these expressions. Matching byte by byte agrees with matching rune by rune here: a literal
  starts with the first byte of a rune, and every byte from 128 up is in the negated classes.
\<close>

subsection \<open>Matchers\<close>

type_synonym re_pos = "char option \<times> string"
type_synonym matcher = "re_pos \<Rightarrow> re_pos list"

definition re_seq :: "matcher \<Rightarrow> matcher \<Rightarrow> matcher" where
  "re_seq a b p = concat (map b (a p))"

definition re_alt :: "matcher list \<Rightarrow> matcher" where
  "re_alt ms p = concat (map (\<lambda>m. m p) ms)"

definition re_class :: "(char \<Rightarrow> bool) \<Rightarrow> matcher" where
  "re_class P p = (case snd p of [] \<Rightarrow> [] | c # cs \<Rightarrow> if P c then [(Some c, cs)] else [])"

fun re_lit :: "string \<Rightarrow> matcher" where
  "re_lit [] p = [p]"
| "re_lit (c # cs) p = re_seq (re_class (\<lambda>x. x = c)) (re_lit cs) p"

definition re_opt :: "matcher \<Rightarrow> matcher" where
  "re_opt m p = m p @ [p]"

fun star_from :: "(char \<Rightarrow> bool) \<Rightarrow> char option \<Rightarrow> string \<Rightarrow> re_pos list" where
  "star_from P prev [] = [(prev, [])]"
| "star_from P prev (c # cs) = (if P c then star_from P (Some c) cs @ [(prev, c # cs)] else [(prev, c # cs)])"

definition re_star :: "(char \<Rightarrow> bool) \<Rightarrow> matcher" where
  "re_star P p = star_from P (fst p) (snd p)"

definition re_plus :: "(char \<Rightarrow> bool) \<Rightarrow> matcher" where
  "re_plus P = re_seq (re_class P) (re_star P)"

definition re_bol :: matcher where
  "re_bol p = (if fst p = None then [p] else [])"

definition re_eol :: matcher where
  "re_eol p = (if snd p = [] then [p] else [])"

definition word_byte :: "char \<Rightarrow> bool" where
  "word_byte c = (c = CHR ''_'' \<or> list_ex (\<lambda>(lo, hi). lo \<le> c \<and> c \<le> hi) [(CHR ''a'', CHR ''z''), (CHR ''A'', CHR ''Z''), (CHR ''0'', CHR ''9'')])"

definition re_wordb :: matcher where
  "re_wordb p = (if (case fst p of None \<Rightarrow> False | Some c \<Rightarrow> word_byte c) \<noteq> (case snd p of [] \<Rightarrow> False | c # _ \<Rightarrow> word_byte c)
                 then [p] else [])"

text \<open>
  A letter under \<^verbatim>\<open>(?i)\<close>: both cases, and the two runes outside ASCII that fold to a letter, U+017F for \<open>s\<close> and
  U+212A for \<open>k\<close>.
\<close>

definition re_fold :: "char \<Rightarrow> matcher" where
  "re_fold c = re_alt ([re_class (\<lambda>x. x = c \<or> x = upper_byte c)] @
     (if c = CHR ''s'' then [re_lit [CHR 0xC5, CHR 0xBF]] else []) @
     (if c = CHR ''k'' then [re_lit [CHR 0xE2, CHR 0x84, CHR 0xAA]] else []))"

fun re_ilit :: "string \<Rightarrow> matcher" where
  "re_ilit [] p = [p]"
| "re_ilit (c # cs) p = re_seq (re_fold c) (re_ilit cs) p"

fun re_seqs :: "matcher list \<Rightarrow> matcher" where
  "re_seqs [] p = [p]"
| "re_seqs (m # ms) p = re_seq m (re_seqs ms) p"

text \<open>The matches of a search, leftmost position first.\<close>

fun re_search :: "matcher \<Rightarrow> char option \<Rightarrow> string \<Rightarrow> re_pos list" where
  "re_search m prev [] = m (prev, [])"
| "re_search m prev (c # cs) = m (prev, c # cs) @ re_search m (Some c) cs"

definition MatchString :: "matcher \<Rightarrow> string \<Rightarrow> bool" where
  "MatchString m s \<longleftrightarrow> re_search m None s \<noteq> []"

definition re_space :: "char \<Rightarrow> bool" where
  "re_space c \<longleftrightarrow> c \<in> {CHR 0x09, CHR 0x0A, CHR 0x0C, CHR 0x0D, CHR '' ''}"

definition re_not_space :: "char \<Rightarrow> bool" where
  "re_not_space c \<longleftrightarrow> \<not> re_space c"

subsection \<open>The expressions\<close>

definition redirectPatterns :: "(string \<times> matcher) list" where
  "redirectPatterns =
     [(''ko-negation'', re_seqs
        [re_alt [re_bol, re_class re_space],
         re_alt [re_lit [CHR 0xEC, CHR 0x95, CHR 0x84, CHR 0xEB, CHR 0x8B, CHR 0x88],
                 re_lit [CHR 0xEC, CHR 0x95, CHR 0x84, CHR 0xEB, CHR 0x83, CHR 0x90],
                 re_lit [CHR 0xEC, CHR 0x95, CHR 0x84, CHR 0xEB, CHR 0x8B, CHR 0x88, CHR 0xEC, CHR 0x95, CHR 0xBC],
                 re_lit [CHR 0xEC, CHR 0x95, CHR 0x84, CHR 0xEB, CHR 0x8B, CHR 0x88, CHR 0xEC, CHR 0x9A, CHR 0x94],
                 re_lit [CHR 0xEC, CHR 0x95, CHR 0x84, CHR 0xEB, CHR 0x8B, CHR 0x88, CHR 0xEC, CHR 0x98, CHR 0xA4]],
         re_alt [re_class (\<lambda>c. re_space c \<or> c \<in> {CHR '','', CHR ''.'', CHR ''!''}), re_eol]]),
      (''ko-instead'', re_alt
        [re_lit [CHR 0xEB, CHR 0xA7, CHR 0x90, CHR 0xEA, CHR 0xB3, CHR 0xA0],
         re_lit [CHR 0xEB, CHR 0x8C, CHR 0x80, CHR 0xEC, CHR 0x8B, CHR 0xA0],
         re_lit ([CHR 0xEA, CHR 0xB7, CHR 0xB8, CHR 0xEA, CHR 0xB2, CHR 0x8C] @ '' '' @
                 [CHR 0xEC, CHR 0x95, CHR 0x84, CHR 0xEB, CHR 0x8B, CHR 0x88, CHR 0xEB, CHR 0x9D, CHR 0xBC]),
         re_lit ([CHR 0xEA, CHR 0xB7, CHR 0xB8, CHR 0xEA, CHR 0xB1, CHR 0xB0] @ '' '' @
                 [CHR 0xEB, CHR 0xA7, CHR 0x90, CHR 0xEA, CHR 0xB3, CHR 0xA0]),
         re_seqs [re_lit [CHR 0xED, CHR 0x95, CHR 0x98, CHR 0xEC, CHR 0xA7, CHR 0x80], re_opt (re_lit '' ''),
                  re_lit [CHR 0xEB, CHR 0xA7, CHR 0x88]],
         re_seqs [re_lit [CHR 0xED, CHR 0x95, CHR 0x98, CHR 0xEC, CHR 0xA7, CHR 0x80], re_opt (re_lit '' ''),
                  re_lit [CHR 0xEB, CHR 0xA7, CHR 0x90, CHR 0xEA, CHR 0xB3, CHR 0xA0]],
         re_lit [CHR 0xEB, CHR 0x90, CHR 0x98, CHR 0xEB, CHR 0x8F, CHR 0x8C, CHR 0xEB, CHR 0xA0, CHR 0xA4],
         re_lit [CHR 0xEB, CHR 0xA1, CHR 0xA4, CHR 0xEB, CHR 0xB0, CHR 0xB1],
         re_lit [CHR 0xEC, CHR 0x9B, CHR 0x90, CHR 0xEB, CHR 0x9E, CHR 0x98, CHR 0xEB, CHR 0x8C, CHR 0x80, CHR 0xEB, CHR 0xA1, CHR 0x9C]]),
      (''en-negation'', re_seqs
        [re_bol, re_star re_space,
         re_alt [re_ilit ''no'', re_ilit ''nope'', re_ilit ''not that'', re_ilit ''wrong'',
                 re_seqs [re_ilit ''don'', re_opt (re_lit [CHR 0x27]), re_ilit ''t'']],
         re_class (\<lambda>c. re_space c \<or> c \<in> {CHR '','', CHR ''.'', CHR ''!''})]),
      (''en-instead'', re_seqs
        [re_wordb,
         re_alt [re_ilit ''instead'', re_ilit ''rather than'', re_seqs [re_ilit ''actually'', re_opt (re_lit '',''), re_ilit '' no''],
                 re_ilit ''undo that'', re_ilit ''revert that'', re_seqs [re_ilit ''roll'', re_opt (re_lit '' ''), re_ilit ''back''],
                 re_ilit ''not what i''],
         re_wordb])]"

definition command_start :: matcher where
  "command_start = re_alt [re_bol, re_seq (re_class (\<lambda>c. c \<in> {CHR '';'', CHR ''&'', CHR ''|''})) (re_star re_space)]"

definition revertCommands :: matcher where
  "revertCommands = re_seqs
     [command_start, re_lit ''git'', re_plus re_space,
      re_alt [re_seqs [re_lit ''checkout'', re_plus re_space,
                re_alt [re_lit ''--'', re_seqs [re_plus re_not_space, re_plus re_space, re_lit ''--''],
                        re_seqs [re_class (\<lambda>c. c \<noteq> CHR ''-''), re_star re_not_space, re_star re_space, re_eol]]],
              re_seq (re_lit ''restore'') re_wordb, re_seq (re_lit ''reset'') re_wordb, re_seq (re_lit ''revert'') re_wordb]]"

text \<open>\<^verbatim>\<open>stashCommand\<close> up to its second group, which then takes every byte up to the next space.\<close>

definition stashCommand :: matcher where
  "stashCommand = re_seqs [command_start, re_lit ''git'', re_plus re_space, re_lit ''stash'', re_wordb, re_star re_space]"

definition stashReadOnly :: "string list" where
  "stashReadOnly = [''list'', ''show'', ''pop'', ''apply'', ''branch'']"

subsection \<open>ClassifyPrompt and IsRevertCommand\<close>

fun classify_with :: "(string \<times> matcher) list \<Rightarrow> string \<Rightarrow> bool \<times> string" where
  "classify_with [] p = (False, '''')"
| "classify_with ((name, re) # rps) p = (if MatchString re p then (True, name) else classify_with rps p)"

definition ClassifyPrompt :: "string \<Rightarrow> bool \<times> string" where
  "ClassifyPrompt prompt =
     (let p = TrimSpace prompt in if p = '''' then (False, '''') else classify_with redirectPatterns p)"

definition IsRevertCommand :: "string \<Rightarrow> bool" where
  "IsRevertCommand cmd =
     (let c = TrimSpace cmd in
      if MatchString revertCommands c then True
      else case re_search stashCommand None c of
        [] \<Rightarrow> False
      | (_, rest) # _ \<Rightarrow> takeWhile re_not_space rest \<notin> set stashReadOnly)"

end
