(* ===== verification/Go_Filepath.thy ===== *)
theory Go_Filepath
  imports Go_Text
begin

section \<open>Package filepath on Unix\<close>

text \<open>
  \<^verbatim>\<open>Base\<close>, \<^verbatim>\<open>Dir\<close>, \<^verbatim>\<open>Join\<close> of two elements and \<^verbatim>\<open>Rel\<close>; \<^verbatim>\<open>Clean\<close> is that of package \<^verbatim>\<open>path\<close> and
  \<^verbatim>\<open>ToSlash\<close> and \<^verbatim>\<open>FromSlash\<close> are the identity. \<^verbatim>\<open>Rel\<close> compares the elements of the two paths from the left.
\<close>

definition filepath_Base :: "string \<Rightarrow> string" where
  "filepath_Base p =
     (if p = '''' then ''.''
      else let s = TrimRight_byte p (CHR ''/'') in
        if s = '''' then ''/'' else last (Split s (CHR ''/'')))"

text \<open>The path up to and with its last slash, cleaned.\<close>

definition filepath_Dir :: "string \<Rightarrow> string" where
  "filepath_Dir p = path_Clean (rev (dropWhile (\<lambda>c. c \<noteq> CHR ''/'') (rev p)))"

definition filepath_Join :: "string \<Rightarrow> string \<Rightarrow> string" where
  "filepath_Join a b =
     (if a = '''' then (if b = '''' then '''' else path_Clean b)
      else if b = '''' then path_Clean a else path_Clean (a @ ''/'' @ b))"

definition path_elements :: "string \<Rightarrow> string list" where
  "path_elements p = (if p = '''' then [] else if p = ''/'' then [''''] else Split p (CHR ''/''))"

fun strip_common :: "string list \<Rightarrow> string list \<Rightarrow> string list \<times> string list" where
  "strip_common (b # bs) (t # ts) = (if b = t then strip_common bs ts else (b # bs, t # ts))"
| "strip_common bs ts = (bs, ts)"

definition filepath_Rel :: "string \<Rightarrow> string \<Rightarrow> go_error + string" where
  "filepath_Rel basepath targpath =
     (let b0 = path_Clean basepath; targ = path_Clean targpath in
      if targ = b0 then Inr ''.''
      else let base = (if b0 = ''.'' then '''' else b0) in
        if HasPrefix base ''/'' \<noteq> HasPrefix targ ''/''
          then Inl (''Rel: can''@ [CHR 0x27] @ ''t make '' @ targpath @ '' relative to '' @ basepath)
        else case strip_common (path_elements base) (path_elements targ) of (bs, ts) \<Rightarrow>
          (if bs \<noteq> [] \<and> ts \<noteq> [] \<and> hd bs = ''..''
             then Inl (''Rel: can''@ [CHR 0x27] @ ''t make '' @ targpath @ '' relative to '' @ basepath)
           else if bs \<noteq> []
             then Inr (Join (replicate (length bs) ''..'') ''/'' @ (if ts \<noteq> [] then ''/'' @ Join ts ''/'' else []))
           else Inr (Join ts ''/'')))"

subsection \<open>Going up a path ends\<close>

definition weight :: "string list \<Rightarrow> nat" where
  "weight xs = sum_list (map (\<lambda>s. length s + 1) xs)"

lemma weight_simps [simp]: "weight [] = 0" "weight (x # xs) = length x + 1 + weight xs" "weight (xs @ ys) = weight xs + weight ys"
  "weight (rev xs) = weight xs"
  by (simp_all add: weight_def rev_map [symmetric])

lemma weight_clean: "weight (clean_segments r out segs) \<le> weight out + weight segs"
  by (induction r out segs rule: clean_segments.induct) (auto split: list.splits)

lemma weight_Split: "weight (Split p c) = length p + 1"
  by (induction p c rule: Split.induct) (auto split: list.splits)

lemma length_Join: "length (Join xs [c]) = weight xs - 1"
proof (induction xs "[c]" rule: Join.induct)
  case (3 x y ys)
  then show ?case
    by simp
qed simp_all

lemma clean_segments_rooted: "clean_segments r out ([] # segs) = clean_segments r out segs"
  by simp

lemma clean_segments_snoc: "clean_segments r out (segs @ [[]]) = clean_segments r out segs"
  by (induction r out segs rule: clean_segments.induct) (auto split: list.splits)

lemma path_Clean_length: "length (path_Clean p) \<le> max 1 (length p)"
proof (cases "HasPrefix p ''/''")
  case True
  then obtain q where q: "p = CHR ''/'' # q"
    by (auto simp: HasPrefix_iff)
  have "weight (clean_segments True [] (Split p (CHR ''/''))) \<le> length q + 1"
    using weight_clean [of True "[]" "Split q (CHR ''/'')"] weight_Split [of q] q by simp
  then show ?thesis
    using True q by (simp add: path_Clean_def Let_def length_Join)
next
  case False
  have "weight (clean_segments False [] (Split p (CHR ''/''))) \<le> length p + 1"
    using weight_clean [of False "[]" "Split p (CHR ''/'')"] weight_Split [of p] by simp
  then have "weight (clean_segments False [] (Split p (CHR ''/''))) - 1 \<le> max 1 (length p)"
    by linarith
  then show ?thesis
    using False by (simp add: path_Clean_def Let_def length_Join)
qed

lemma path_Clean_slash: "z \<noteq> [] \<Longrightarrow> path_Clean (z @ ''/'') = path_Clean z"
proof -
  assume z: "z \<noteq> []"
  have "Split (z @ ''/'') (CHR ''/'') = Split z (CHR ''/'') @ [[]]"
    by (induction z) (auto split: list.splits)
  moreover have "HasPrefix (z @ ''/'') ''/'' \<longleftrightarrow> HasPrefix z ''/''"
    using z by (cases z) auto
  ultimately show ?thesis
    by (simp add: path_Clean_def clean_segments_snoc)
qed

definition dir_measure :: "string \<Rightarrow> nat" where
  "dir_measure d = (if d = ''.'' then 0 else length d + 1)"

lemma filepath_Dir_smaller:
  assumes "filepath_Dir d \<noteq> d"
  shows "dir_measure (filepath_Dir d) < dir_measure d"
proof -
  define x where "x = rev (dropWhile (\<lambda>c. c \<noteq> CHR ''/'') (rev d))"
  define y where "y = rev (takeWhile (\<lambda>c. c \<noteq> CHR ''/'') (rev d))"
  have d: "d = x @ y"
    unfolding x_def y_def by (metis rev_append rev_rev_ident takeWhile_dropWhile_id)
  have dir: "filepath_Dir d = path_Clean x"
    by (simp add: filepath_Dir_def x_def)
  consider (none) "x = []" | (slash) z where "x = z @ ''/''"
  proof (cases "dropWhile (\<lambda>c. c \<noteq> CHR ''/'') (rev d)")
    case (Cons c cs)
    then have "c = CHR ''/''"
      using hd_dropWhile [of "\<lambda>c. c \<noteq> CHR ''/''" "rev d"] by simp
    then show thesis
      using that(2) [of "rev cs"] Cons by (simp add: x_def)
  qed (use that(1) in \<open>simp add: x_def\<close>)
  then show ?thesis
  proof cases
    case none
    then have "filepath_Dir d = ''.''"
      using dir by (simp add: path_Clean_def)
    then show ?thesis
      using assms by (auto simp: dir_measure_def)
  next
    case (slash z)
    have "length (path_Clean x) < length d"
    proof (cases "y = []")
      case False
      then show ?thesis
        using path_Clean_length [of x] d slash by (cases y) auto
    next
      case True
      then have z: "z \<noteq> []"
        using assms dir d slash by (auto simp: path_Clean_def)
      then show ?thesis
        using path_Clean_slash [OF z] path_Clean_length [of z] d slash True by (cases z) auto
    qed
    moreover have "d \<noteq> ''.''"
      using d slash by (cases z) auto
    ultimately show ?thesis
      using dir by (simp add: dir_measure_def)
  qed
qed

end
