(* ===== verification/Hooks.thy ===== *)
theory Hooks
  imports Supply Turn Go_Filepath Runtime
begin

section \<open>The hook service\<close>

text \<open>
  \<^verbatim>\<open>internal/app/hooks.go\<close>: the answers to hook events of coding tools from the read models, and the capture of
  sessions through the pipeline. Sessions and open turns are maps by session id in memory; a session that Go mutates
  through its pointer is written back to its entry. Whether a directory holds a \<^verbatim>\<open>.git\<close>, the clock (its readings within one
  event, in order) and the deadline of the caller are arguments. One event is one step.
\<close>

datatype hook_kind = HookSessionStart | HookPrompt | HookPreEdit | HookPostEdit | HookToolResult | HookSessionEnd
  | HookKindOther string

record hook_event =
  hv_Kind :: hook_kind
  hv_Tool :: string
  hv_SessionID :: string
  hv_CWD :: string
  hv_Files :: "string list"
  hv_ToolName :: string
  hv_OK :: bool
  hv_Command :: string
  hv_Prompt :: string
  hv_Reason :: string
  hv_At :: go_time

subsection \<open>Repositories\<close>

definition RepoID :: "string \<Rightarrow> string" where
  "RepoID root = filepath_Base (path_Clean root)"

function repo_root_from :: "(string \<Rightarrow> bool) \<Rightarrow> string \<Rightarrow> string \<times> bool" where
  "repo_root_from exists d =
     (if exists (filepath_Join d ''.git'') then (d, True)
      else let parent = filepath_Dir d in if parent = d then ('''', False) else repo_root_from exists parent)"
  by auto
termination
  by (relation "measure (dir_measure \<circ> snd)") (simp_all add: filepath_Dir_smaller)

definition FindRepoRoot :: "(string \<Rightarrow> bool) \<Rightarrow> string \<Rightarrow> string \<times> bool" where
  "FindRepoRoot exists dir = repo_root_from exists (path_Clean dir)"

declare repo_root_from.simps [simp del]

definition relPath :: "string \<Rightarrow> string \<Rightarrow> string \<times> bool" where
  "relPath root targ =
     (if root = '''' \<or> targ = '''' then ('''', False)
      else case filepath_Rel root targ of
        Inl _ \<Rightarrow> ('''', False)
      | Inr rel \<Rightarrow> if HasPrefix rel ''..'' then ('''', False) else (rel, True))"

subsection \<open>Sessions in memory\<close>

record live_session =
  ls_ID :: string
  ls_Tool :: string
  ls_CWD :: string
  ls_Root :: string
  ls_StartedAt :: go_time
  ls_LastAt :: go_time
  ls_Prompts :: int
  ls_Touched :: "string list"
  ls_Ended :: bool
  ls_EndReason :: string
  ls_recorded :: bool

record open_turn =
  ot_open :: bool
  ot_files :: "string list"

record hooks_memory =
  hm_sessions :: "(string \<times> live_session) list"
  hm_turns :: "(string \<times> open_turn) list"

record 'l hooks =
  ho_pipeline :: "('l, read_models) options option"
  ho_owner :: ID

datatype hook_error = HookError go_error | HookApp app_error

type_synonym 'l hooks_state = "hooks_memory \<times> ('l \<times> read_models)"

definition put_session :: "live_session \<Rightarrow> hooks_memory \<Rightarrow> hooks_memory" where
  "put_session s hm = hm\<lparr>hm_sessions := map_put (ls_ID s) s (hm_sessions hm)\<rparr>"

definition root_of :: "(string \<Rightarrow> bool) \<Rightarrow> string \<Rightarrow> string" where
  "root_of exists cwd = (case FindRepoRoot exists cwd of (root, ok) \<Rightarrow> if ok then root else '''')"

definition Hooks_session :: "(string \<Rightarrow> bool) \<Rightarrow> (nat \<Rightarrow> go_time) \<Rightarrow> hook_event \<Rightarrow> hooks_memory \<Rightarrow> live_session \<times> hooks_memory" where
  "Hooks_session exists clk ev hm =
     (let s0 = (case map_of (hm_sessions hm) (hv_SessionID ev) of
                  Some s \<Rightarrow> s
                | None \<Rightarrow> \<lparr>ls_ID = hv_SessionID ev, ls_Tool = hv_Tool ev, ls_CWD = hv_CWD ev, ls_Root = root_of exists (hv_CWD ev),
                    ls_StartedAt = clk 0, ls_LastAt = 0, ls_Prompts = 0, ls_Touched = [], ls_Ended = False, ls_EndReason = '''',
                    ls_recorded = False\<rparr>);
          s1 = (if ls_Root s0 = '''' \<and> hv_CWD ev \<noteq> '''' then s0\<lparr>ls_Root := root_of exists (hv_CWD ev)\<rparr> else s0);
          s2 = s1\<lparr>ls_LastAt := clk 1\<rparr> in
      (s2, hm\<lparr>hm_sessions := map_put (hv_SessionID ev) s2 (hm_sessions hm)\<rparr>))"

definition Hooks_Sessions :: "hooks_memory \<Rightarrow> live_session list" where
  "Hooks_Sessions hm = go_sort (\<lambda>a b. ls_StartedAt a > ls_StartedAt b) (map snd (hm_sessions hm))"

subsection \<open>Capture\<close>

definition agentFor :: "'l hooks \<Rightarrow> live_session \<Rightarrow> actor_ref" where
  "agentFor h s = \<lparr>ar_Kind = ActorAgent, ar_ID = ls_Tool s @ '':'' @ ls_ID s, ar_Key = '''', ar_Owner = ho_owner h\<rparr>"

text \<open>
  \<^verbatim>\<open>core.AsRejection\<close> on an error of the pipeline: a rejection that could not be recorded is joined with that error, and the walk does not
  look into a joined error.
\<close>

fun AsRejection :: "app_error \<Rightarrow> rejection option" where
  "AsRejection (ErrRejected rej None) = Some rej"
| "AsRejection _ = None"

definition Hooks_record :: "'l hooks \<Rightarrow> go_time \<Rightarrow> live_session \<Rightarrow> session_command \<Rightarrow> 'l \<times> read_models \<Rightarrow> hook_error option \<times> ('l \<times> read_models)" where
  "Hooks_record h now s cmd st =
     (case ho_pipeline h of
        None \<Rightarrow> (None, st)
      | Some opt \<Rightarrow>
          (case Pipeline_Handle opt app_handlers now (agentFor h s) (CmdSession cmd) st of
             ((_, None), st') \<Rightarrow> (None, st')
           | ((_, Some err), st') \<Rightarrow> (if AsRejection err \<noteq> None then None else Some (HookApp err), st')))"

definition sessionCmd :: "live_session \<Rightarrow> string \<Rightarrow> session_cmd" where
  "sessionCmd s idem = \<lparr>sm_Tool = ls_Tool s, sm_ID = ls_ID s, sm_Idem = idem\<rparr>"

definition closeTurn :: "'l hooks \<Rightarrow> go_time \<Rightarrow> live_session \<Rightarrow> turn_class \<Rightarrow> string \<Rightarrow> 'l hooks_state \<Rightarrow> hook_error option \<times> 'l hooks_state" where
  "closeTurn h now s class signal x =
     (case x of (hm, st) \<Rightarrow>
      case map_of (hm_turns hm) (ls_ID s) of
        None \<Rightarrow> (None, x)
      | Some t \<Rightarrow>
        if \<not> ot_open t \<and> length (ot_files t) = 0 then (None, x)
        else let hm' = hm\<lparr>hm_turns := map_put (ls_ID s) \<lparr>ot_open = False, ot_files = []\<rparr> (hm_turns hm)\<rparr> in
          if length (ot_files t) = 0 \<and> class = TurnAccept then (None, (hm', st))
          else case Hooks_record h now s (RecordTurn \<lparr>rn_Cmd = sessionCmd s '''', rn_Class = class, rn_Files = ot_files t,
                      rn_Signal = signal\<rparr>) st of (err, st') \<Rightarrow> (err, (hm', st')))"

definition Hooks_start :: "'l hooks \<Rightarrow> go_time \<Rightarrow> live_session \<Rightarrow> 'l hooks_state \<Rightarrow> hook_error option \<times> live_session \<times> 'l hooks_state" where
  "Hooks_start h now s x =
     (if ho_pipeline h = None then (None, s, x)
      else let s' = s\<lparr>ls_recorded := True\<rparr>; hm' = put_session s' (fst x) in
        if ls_recorded s then (None, s', (hm', snd x))
        else let repo = (if ls_Root s \<noteq> '''' then RepoID (ls_Root s) else '''') in
          case Hooks_record h now s' (StartSession \<lparr>sn_Cmd = sessionCmd s' (''session:start:'' @ ls_ID s'), sn_Repo = repo,
                 sn_Agent = agentFor h s'\<rparr>) (snd x) of (err, st') \<Rightarrow> (err, s', (hm', st')))"

subsection \<open>Facts about a file\<close>

definition constraintFact :: "constraint_summary \<Rightarrow> constraint_fact" where
  "constraintFact c =
     \<lparr>cf_ID = cu_ID c, cf_Kind = constraint_kind_string (cu_Kind c), cf_State = constraint_state_string (cu_State c),
      cf_Scope = cu_Scope c, cf_Body = cu_Body c, cf_Explanation = cu_Explanation c, cf_Anchors = cu_Anchors c, cf_Level = cu_Level c,
      cf_DenyEdit = (cu_Kind c = KindAutonomy \<and> cu_Checkable c = DenyEditMarker)\<rparr>"

fun anchor_state_string :: "anchor_state \<Rightarrow> string" where
  "anchor_state_string AStateNone = ''''"
| "anchor_state_string AStateRecorded = ''recorded''"
| "anchor_state_string AStateVerified = ''verified''"
| "anchor_state_string AStateReview = ''review''"
| "anchor_state_string AStateStale = ''stale''"
| "anchor_state_string AStateUnrealized = ''unrealized''"

text \<open>The closure \<^verbatim>\<open>addC\<close>: the constraints so far, whose ids are those seen.\<close>

definition addC :: "constraint_fact list \<Rightarrow> constraint_summary \<Rightarrow> constraint_fact list" where
  "addC fs c =
     (if cu_ID c \<in> set (map cf_ID fs) \<or> (cu_State c \<noteq> CStateVerified \<and> cu_State c \<noteq> CStateReview) then fs
      else fs @ [constraintFact c])"

definition file_anchors :: "anchor_index \<Rightarrow> string \<Rightarrow> anchor_summary list" where
  "file_anchors anchors rel =
     filter (\<lambda>a. \<not> (an_Scheme (au_Anchor a) \<noteq> SchemeCode \<or> an_Path (au_Anchor a) \<noteq> rel)) (AnchorIndex_All anchors)"

definition factsFor :: "ID \<Rightarrow> anchor_index \<Rightarrow> constraint_index \<Rightarrow> string \<Rightarrow> string \<Rightarrow> actor_kind \<Rightarrow> facts" where
  "factsFor owner anchors constraints repo rel actor =
     (let fileAnchor = Anchor_String \<lparr>an_Scheme = SchemeCode, an_Path = rel, an_Symbol = ''''\<rparr>;
          as = file_anchors anchors rel;
          c1 = foldl (\<lambda>fs a. foldl addC fs (BoundTo constraints (au_Key a))) [] as;
          c2 = foldl addC c1 (BoundTo constraints fileAnchor);
          c3 = foldl addC c2 (InForce constraints (zero_scope_key\<lparr>sk_Repo := repo, sk_PathGlob := rel, sk_Person := owner\<rparr>)) in
      \<lparr>fx_File = rel, fx_Repo = repo,
       fx_Anchors = map (\<lambda>a. \<lparr>af_Key = au_Key a, af_State = anchor_state_string (au_State a), af_MovedTo = au_MovedTo a\<rparr>) as,
       fx_Constraints = c3, fx_Actor = actor\<rparr>)"

text \<open>The loop of \<^verbatim>\<open>preEdit\<close>; \<open>live n\<close> is the state of the caller's context before the file \<open>n\<close>.\<close>

fun edit_facts :: "(nat \<Rightarrow> go_error option) \<Rightarrow> nat \<Rightarrow> ID \<Rightarrow> anchor_index \<Rightarrow> constraint_index \<Rightarrow> string \<Rightarrow> string list \<Rightarrow> facts list \<Rightarrow>
    go_error + facts list" where
  "edit_facts live n owner anchors constraints root [] fs = Inr fs"
| "edit_facts live n owner anchors constraints root (f # files) fs =
     (case live n of
        Some err \<Rightarrow> Inl err
      | None \<Rightarrow>
        (case relPath root f of
           (rel, False) \<Rightarrow> edit_facts live (n + 1) owner anchors constraints root files fs
         | (rel, True) \<Rightarrow> edit_facts live (n + 1) owner anchors constraints root files
                           (fs @ [factsFor owner anchors constraints (RepoID root) rel ActorAgent])))"

definition empty_answer :: response where
  "empty_answer = \<lparr>rp_Inject = '''', rp_Warn = [], rp_Block = None\<rparr>"

definition preEdit :: "(nat \<Rightarrow> go_error option) \<Rightarrow> ID \<Rightarrow> read_models \<Rightarrow> live_session \<Rightarrow> hook_event \<Rightarrow> response \<times> hook_error option" where
  "preEdit live owner p s ev =
     (case edit_facts live 0 owner (rm_anchors p) (rm_constraints p) (ls_Root s) (hv_Files ev) [] of
        Inl err \<Rightarrow> (empty_answer, Some (HookError err))
      | Inr fs \<Rightarrow> (Compose fs, None))"

subsection \<open>Hook\<close>

fun app_contains :: "string list \<Rightarrow> string \<Rightarrow> bool" where
  "app_contains [] s = False"
| "app_contains (x # xs) s = (if x = s then True else app_contains xs s)"

text \<open>One edited file of \<^verbatim>\<open>post_edit\<close>: the files that the session touched and those of the turn.\<close>

definition post_edit_file :: "string \<Rightarrow> string list \<times> string list \<Rightarrow> string \<Rightarrow> string list \<times> string list" where
  "post_edit_file root x f =
     (case relPath root f of
        (rel, ok) \<Rightarrow>
          if \<not> ok then x
          else (if app_contains (fst x) rel then fst x else fst x @ [rel], if app_contains (snd x) rel then snd x else snd x @ [rel]))"

definition Hook :: "'l hooks \<Rightarrow> (string \<Rightarrow> bool) \<Rightarrow> (nat \<Rightarrow> go_time) \<Rightarrow> (nat \<Rightarrow> go_error option) \<Rightarrow> hook_event \<Rightarrow> 'l hooks_state \<Rightarrow>
    (response \<times> hook_error option) \<times> 'l hooks_state" where
  "Hook h exists clk live ev x =
     (if hv_SessionID ev = '''' then ((empty_answer, Some (HookError ''hook: session id required'')), x)
      else case Hooks_session exists clk ev (fst x) of (s, hm) \<Rightarrow>
        (case hv_Kind ev of
           HookSessionStart \<Rightarrow>
             (case Hooks_start h (clk 2) s (hm, snd x) of (err, s', y) \<Rightarrow> ((empty_answer, err), y))
         | HookPrompt \<Rightarrow>
             (case Hooks_start h (clk 2) s (hm, snd x) of
                (Some err, s', y) \<Rightarrow> ((empty_answer, Some err), y)
              | (None, s', y) \<Rightarrow>
                let s'' = s'\<lparr>ls_Prompts := ls_Prompts s' + 1\<rparr>; y1 = (put_session s'' (fst y), snd y);
                    (class, signal) = (case ClassifyPrompt (hv_Prompt ev) of (redirect, sig) \<Rightarrow>
                      if redirect then (TurnRedirect, sig) else (TurnAccept, '''')) in
                (case closeTurn h (clk 3) s'' class signal y1 of
                   (Some err, y2) \<Rightarrow> ((empty_answer, Some err), y2)
                 | (None, y2) \<Rightarrow>
                     ((empty_answer, None),
                      ((fst y2)\<lparr>hm_turns := map_put (ls_ID s) \<lparr>ot_open = True, ot_files = []\<rparr> (hm_turns (fst y2))\<rparr>, snd y2))))
         | HookPreEdit \<Rightarrow> (preEdit live (ho_owner h) (snd (snd x)) s ev, (hm, snd x))
         | HookPostEdit \<Rightarrow>
             let t = (case map_of (hm_turns hm) (ls_ID s) of None \<Rightarrow> \<lparr>ot_open = True, ot_files = []\<rparr> | Some t \<Rightarrow> t);
                 (touched, files) = foldl (post_edit_file (ls_Root s)) (ls_Touched s, ot_files t) (hv_Files ev);
                 hm' = put_session (s\<lparr>ls_Touched := touched\<rparr>) hm in
             ((empty_answer, None), (hm'\<lparr>hm_turns := map_put (ls_ID s) (t\<lparr>ot_files := files\<rparr>) (hm_turns hm')\<rparr>, snd x))
         | HookToolResult \<Rightarrow>
             if IsRevertCommand (hv_Command ev)
             then (case closeTurn h (clk 2) s TurnRevert ''revert-command'' (hm, snd x) of (err, y) \<Rightarrow> ((empty_answer, err), y))
             else ((empty_answer, None), (hm, snd x))
         | HookSessionEnd \<Rightarrow>
             (case closeTurn h (clk 2) s TurnAccept '''' (hm, snd x) of
                (Some err, y) \<Rightarrow> ((empty_answer, Some err), y)
              | (None, y) \<Rightarrow>
                let s' = s\<lparr>ls_Ended := True, ls_EndReason := hv_Reason ev\<rparr>; y1 = (put_session s' (fst y), snd y) in
                if ho_pipeline h = None then ((empty_answer, None), y1)
                else (case Hooks_record h (clk 3) s' (EndSession \<lparr>en_Cmd = sessionCmd s' (''session:end:'' @ ls_ID s'),
                             en_Reason = hv_Reason ev, en_Summary = ''''\<rparr>) (snd y1) of
                        (err, st') \<Rightarrow> ((empty_answer, err), (fst y1, st'))))
         | HookKindOther k \<Rightarrow> ((empty_answer, Some (HookError (''hook: unknown event kind '' @ k))), (hm, snd x))))"

subsection \<open>Queries\<close>

fun new_ids :: "constraint_fact list \<Rightarrow> constraint_summary list \<Rightarrow> constraint_fact list" where
  "new_ids fs [] = fs"
| "new_ids fs (c # cs) = new_ids (if cu_ID c \<in> set (map cf_ID fs) then fs else fs @ [constraintFact c]) cs"

definition WhatTouches :: "anchor_index \<Rightarrow> constraint_index \<Rightarrow> string \<Rightarrow> string \<Rightarrow> go_error + touches" where
  "WhatTouches anchors constraints anchor repo =
     (case ParseAnchor anchor of
        Inl err \<Rightarrow> Inl err
      | Inr a \<Rightarrow>
        let key = Anchor_String a; rec = AnchorIndex_Get anchors key;
            c1 = new_ids [] (BoundTo constraints key);
            c2 = (if an_Scheme a = SchemeCode \<and> repo \<noteq> ''''
                  then new_ids c1 (InForce constraints (zero_scope_key\<lparr>sk_Repo := repo, sk_PathGlob := an_Path a\<rparr>)) else c1) in
        Inr \<lparr>tc_Anchor = key, tc_State = (if snd rec then anchor_state_string (au_State (fst rec)) else ''''),
             tc_MovedTo = (if snd rec then au_MovedTo (fst rec) else ''''), tc_Constraints = c2\<rparr>)"

definition Related :: "anchor_index \<Rightarrow> constraint_index \<Rightarrow> string \<Rightarrow> go_error + related" where
  "Related anchors constraints i =
     (case ConstraintIndex_Get constraints i of
        (c, True) \<Rightarrow>
          Inr \<lparr>rl_ID = i, rl_Kind = ''constraint'', rl_Anchors = cu_Anchors c, rl_Constraints = [], rl_Supersedes = cu_Supersedes c,
               rl_SupersededBy = cu_SupersededBy c, rl_MovedTo = '''', rl_State = constraint_state_string (cu_State c)\<rparr>
      | (_, False) \<Rightarrow>
        (case ParseAnchor i of
           Inr a \<Rightarrow>
             let key = Anchor_String a; rec = AnchorIndex_Get anchors key in
             Inr \<lparr>rl_ID = key, rl_Kind = ''anchor'', rl_Anchors = [], rl_Constraints = map cu_ID (BoundTo constraints key),
                  rl_Supersedes = '''', rl_SupersededBy = '''',
                  rl_MovedTo = (if snd rec then au_MovedTo (fst rec) else ''''),
                  rl_State = (if snd rec then anchor_state_string (au_State (fst rec)) else '''')\<rparr>
         | Inl _ \<Rightarrow> Inl (''related: unknown id '' @ i)))"

end
