(* ===== verification/Supply_Properties.thy ===== *)
theory Supply_Properties
  imports Supply_Facts Hooks Sample_Inputs
begin

section \<open>Properties of what coding tools are given\<close>

text \<open>
  Managed blocks in files of the user, and the answers of the hook service.
\<close>

subsection \<open>Managed blocks\<close>

text \<open>
  C15. Writing a managed block: afterwards the block is found with its hash and body, every other block reads as before and the file is
  still tidy. If the block was there, its text alone is replaced; otherwise the file is kept whole and the block
  is appended after a separator of at most two line breaks. Writing it again changes nothing.
\<close>

theorem block_upsert:
  assumes "tidy content" and "group_ok i" and "H body \<noteq> []" and "\<not> Contains_str body endTag"
  shows "FindBlock (UpsertBlock H content i body) i = (BlockHash H body, body, True) \<and>
    (\<forall>j. j \<noteq> i \<longrightarrow> FindBlock (UpsertBlock H content i body) j = FindBlock content j) \<and>
    tidy (UpsertBlock H content i body) \<and>
    UpsertBlock H (UpsertBlock H content i body) i body = UpsertBlock H content i body \<and>
    (if snd (snd (FindBlock content i))
     then \<exists>pre old post. content = pre @ render_block old @ post \<and> fst old = i \<and> FindBlock content i = (fst (snd old), snd (snd old), True) \<and>
       UpsertBlock H content i body = pre @ ManagedBlock H i body @ post
     else \<exists>sep. length sep \<le> 2 \<and> set sep \<subseteq> {CHR 0x0A} \<and> UpsertBlock H content i body = content @ sep @ ManagedBlock H i body @ newline)"
proof -
  obtain d where d: "doc_ok d" and c: "content = render d"
    using assms(1) by (auto simp: tidy_def)
  have new: "block_ok (new_block H i body)"
    using new_block_ok assms(2-4) by blast
  have "snd (snd (FindBlock content i)) \<longleftrightarrow> doc_has i (snd d)"
    using FindBlock_render [OF d] doc_has_find c by simp
  moreover have "tidy (UpsertBlock H content i body)"
    unfolding tidy_def using doc_upsert_ok [OF d new] UpsertBlock_render [OF d] c by metis
  ultimately show ?thesis
    using upsert_find [OF d new] upsert_again [OF d new] upsert_replaces [OF d, of i H body] upsert_appends [OF d, of i H body] c by simp
qed

text \<open>
  Removing a block undoes writing it: a block that was not there is written and removed again, and the file is as before up to
  the line breaks at its end.
\<close>

theorem block_remove:
  assumes "tidy content" and "group_ok i" and "H body \<noteq> []" and "\<not> Contains_str body endTag" and "\<not> snd (snd (FindBlock content i))"
  shows "RemoveBlock (UpsertBlock H content i body) i =
    (if TrimRight_byte content (CHR 0x0A) = '''' then '''' else TrimRight_byte content (CHR 0x0A) @ newline, True)"
proof -
  obtain d where d: "doc_ok d" and c: "content = render d"
    using assms(1) by (auto simp: tidy_def)
  let ?new = "new_block H i body"
  have new: "block_ok ?new" "fst ?new = i"
    using new_block_ok assms(2-4) by (blast, simp add: new_block_def)
  have absent: "\<not> doc_has i (snd d)"
    using FindBlock_render [OF d] doc_has_find c assms(5) by simp
  have up: "UpsertBlock H content i body = render (doc_upsert H i body d)" "doc_ok (doc_upsert H i body d)"
    using UpsertBlock_render [OF d] doc_upsert_ok [OF d new(1)] c by simp_all
  have "doc_has i (snd (doc_upsert H i body d))"
    using doc_has_find [of i "snd (doc_upsert H i body d)"] doc_upsert_find [of i H i body d] by simp
  moreover have "tail_remove i (fst (doc_upsert H i body d)) (snd (doc_upsert H i body d)) = content @ block_sep content"
    using remove_added [of ?new d] absent new(2) c by (simp add: doc_upsert_def)
  moreover have "set (block_sep content) \<subseteq> {CHR 0x0A}"
    by (simp add: block_sep_def)
  ultimately show ?thesis
    using RemoveBlock_render [OF up(2), of i] up(1) trim_newlines [of "block_sep content" content] by (simp add: Let_def)
qed

text \<open>A file of the user with one block, to which another is added.\<close>

definition sample_block :: block where
  "sample_block = (''notes'', ''0a1b'', ''kept'')"

definition sample_doc :: doc where
  "sample_doc = (''# Project'' @ newline, [(sample_block, newline @ ''more text'')])"

lemma sample_doc_ok: "doc_ok sample_doc"
  by (simp add: doc_ok_def sample_doc_def sample_block_def tail_ok_def group_ok_def re_nonspace_def text_ok_def Cut_Contains
      beginTag_def endTag_def)

lemma sample_tidy: "tidy (render sample_doc)"
  unfolding tidy_def using sample_doc_ok by blast

lemma sample_group: "group_ok ''context''"
  by (simp add: group_ok_def re_nonspace_def)

lemma sample_body: "\<not> Contains_str ''imported'' endTag"
  by (simp add: Cut_Contains endTag_def)

lemma sample_absent: "\<not> snd (snd (FindBlock (render sample_doc) ''context''))"
  using FindBlock_render [OF sample_doc_ok] by (simp add: sample_doc_def sample_block_def)

theorem block_upsert_witness:
  "FindBlock (UpsertBlock (\<lambda>_. ''digest'') (render sample_doc) ''context'' ''imported'') ''context'' =
      (BlockHash (\<lambda>_. ''digest'') ''imported'', ''imported'', True) \<and>
    FindBlock (UpsertBlock (\<lambda>_. ''digest'') (render sample_doc) ''context'' ''imported'') ''notes'' = (''0a1b'', ''kept'', True)"
  using block_upsert [OF sample_tidy sample_group _ sample_body, of "\<lambda>_. ''digest''"] FindBlock_render [OF sample_doc_ok, of "''notes''"]
  by (simp add: sample_doc_def sample_block_def)

theorem block_remove_witness:
  "RemoveBlock (UpsertBlock (\<lambda>_. ''digest'') (render sample_doc) ''context'' ''imported'') ''context'' =
    (render sample_doc @ newline, True)"
  using block_remove [OF sample_tidy sample_group _ sample_body sample_absent, of "\<lambda>_. ''digest''"]
  by (simp add: sample_doc_def sample_block_def render_def TrimRight_byte_def)

subsection \<open>The hook service\<close>

lemma denial_iff: "denial f cs \<noteq> None \<longleftrightarrow> fx_Actor f = ActorAgent \<and> (\<exists>c \<in> set cs. cf_DenyEdit c)"
  unfolding denial_def by (induction cs) auto

lemma Compose_block:
  "rp_Block (Compose fs) \<noteq> None \<longleftrightarrow> (\<exists>f \<in> set fs. fx_Actor f = ActorAgent \<and> (\<exists>c \<in> set (fx_Constraints f). cf_DenyEdit c))"
proof -
  have "rp_Block (snd (foldl compose_file x fs)) \<noteq> None \<longleftrightarrow>
      rp_Block (snd x) \<noteq> None \<or> (\<exists>f \<in> set fs. fx_Actor f = ActorAgent \<and> (\<exists>c \<in> set (fx_Constraints f). cf_DenyEdit c))" for x
  proof (induction fs arbitrary: x)
    case (Cons f fs)
    have "rp_Block (snd (compose_file x f)) \<noteq> None \<longleftrightarrow>
        rp_Block (snd x) \<noteq> None \<or> fx_Actor f = ActorAgent \<and> (\<exists>c \<in> set (fx_Constraints f). cf_DenyEdit c)"
      using denial_iff [of f "go_sort fact_less (fx_Constraints f)"]
      by (cases "silent f") (auto simp: compose_file_eq silent_def split: option.splits)
    then show ?case
      using Cons [of "compose_file x f"] by auto
  qed simp
  from this [of "('''', \<lparr>rp_Inject = '''', rp_Warn = [], rp_Block = None\<rparr>)"] show ?thesis
    by (cases "foldl compose_file ('''', \<lparr>rp_Inject = '''', rp_Warn = [], rp_Block = None\<rparr>) fs") (simp add: Compose_def)
qed

text \<open>A constraint in force.\<close>

definition standing :: "constraint_summary \<Rightarrow> bool" where
  "standing c \<longleftrightarrow> cu_State c = CStateVerified \<or> cu_State c = CStateReview"

lemma fold_addC:
  assumes "inj_on cu_ID E" "X \<subseteq> E" "set cs \<subseteq> E" "set fs = constraintFact ` X"
  shows "set (foldl addC fs cs) = constraintFact ` (X \<union> {c \<in> set cs. standing c})"
  using assms(2-4)
proof (induction cs arbitrary: fs X)
  case (Cons c cs)
  have "c \<in> X" if id: "cu_ID c \<in> set (map cf_ID fs)"
  proof -
    have "cu_ID c \<in> cf_ID ` constraintFact ` X"
      using id Cons(4) by auto
    then obtain c' where "c' \<in> X" "cu_ID c' = cu_ID c"
      by (auto simp: constraintFact_def)
    then show ?thesis
      using assms(1) Cons(2,3) by (auto simp: inj_on_def)
  qed
  then have "set (addC fs c) = constraintFact ` (X \<union> {c' \<in> {c}. standing c'})"
    using Cons(4) by (auto simp: addC_def standing_def)
  from Cons(1) [OF _ _ this] have "set (foldl addC (addC fs c) cs) = constraintFact ` (X \<union> {c' \<in> {c}. standing c'} \<union> {c \<in> set cs. standing c})"
    using Cons(2,3) by auto
  then show ?case
    by (simp add: Un_assoc) (rule arg_cong [of _ _ "image constraintFact"], auto)
qed simp

text \<open>The constraints that govern a file: bound to it or to an anchor recorded in it, or in force for its scope.\<close>

definition governs :: "ID \<Rightarrow> anchor_index \<Rightarrow> constraint_index \<Rightarrow> string \<Rightarrow> string \<Rightarrow> constraint_summary \<Rightarrow> bool" where
  "governs owner anchors constraints repo rel c \<longleftrightarrow> standing c \<and>
     ((\<exists>a \<in> set (map snd anchors). an_Scheme (au_Anchor a) = SchemeCode \<and> an_Path (au_Anchor a) = rel \<and> c \<in> set (BoundTo constraints (au_Key a))) \<or>
      c \<in> set (BoundTo constraints (Anchor_String \<lparr>an_Scheme = SchemeCode, an_Path = rel, an_Symbol = ''''\<rparr>)) \<or>
      c \<in> set (InForce constraints (zero_scope_key\<lparr>sk_Repo := repo, sk_PathGlob := rel, sk_Person := owner\<rparr>)))"

lemma BoundTo_subset: "set (BoundTo constraints key) \<subseteq> set (map snd constraints)"
  by (auto simp: BoundTo_def Let_def)

lemma InForce_subset: "set (InForce constraints target) \<subseteq> set (map snd constraints)"
  by (auto simp: InForce_def)

lemma factsFor_constraints:
  assumes "inj_on cu_ID (set (map snd constraints))"
  shows "set (fx_Constraints (factsFor owner anchors constraints repo rel actor)) =
    constraintFact ` {c. governs owner anchors constraints repo rel c}"
proof -
  let ?E = "set (map snd constraints)"
  let ?key = "Anchor_String \<lparr>an_Scheme = SchemeCode, an_Path = rel, an_Symbol = ''''\<rparr>"
  let ?target = "zero_scope_key\<lparr>sk_Repo := repo, sk_PathGlob := rel, sk_Person := owner\<rparr>"
  let ?bound = "\<lambda>as. {c. standing c \<and> (\<exists>a \<in> set as. c \<in> set (BoundTo constraints (au_Key a)))}"
  have fold: "set (foldl (\<lambda>fs a. foldl addC fs (BoundTo constraints (au_Key a))) [] as) = constraintFact ` ?bound as" for as
  proof (induction as rule: rev_induct)
    case (snoc a as)
    have "?bound as \<subseteq> ?E"
      using BoundTo_subset by blast
    from fold_addC [OF assms this BoundTo_subset snoc] show ?case
      by simp (rule arg_cong [of _ _ "image constraintFact"], auto)
  qed simp
  let ?X1 = "?bound (file_anchors anchors rel)"
  let ?X2 = "?X1 \<union> {c \<in> set (BoundTo constraints ?key). standing c}"
  have sub: "?X1 \<subseteq> ?E" "?X2 \<subseteq> ?E"
    using BoundTo_subset by blast+
  have "set (fx_Constraints (factsFor owner anchors constraints repo rel actor)) =
      constraintFact ` (?X2 \<union> {c \<in> set (InForce constraints ?target). standing c})"
    using fold_addC [OF assms sub(2) InForce_subset fold_addC [OF assms sub(1) BoundTo_subset fold]]
    by (simp add: factsFor_def Let_def)
  also have "?X2 \<union> {c \<in> set (InForce constraints ?target). standing c} = {c. governs owner anchors constraints repo rel c}"
    by (auto simp: governs_def file_anchors_def AnchorIndex_All_def)
  finally show ?thesis .
qed

lemma edit_facts_all:
  assumes "\<And>n. live n = None"
  shows "edit_facts live n owner anchors constraints root files fs = Inr (fs @
    map (\<lambda>f. factsFor owner anchors constraints (RepoID root) (fst (relPath root f)) ActorAgent) (filter (\<lambda>f. snd (relPath root f)) files))"
  by (induction files arbitrary: n fs) (auto simp: assms split: prod.splits bool.splits)

text \<open>
  C13. When an agent's edit is refused: the answer to an event before an edit, if the caller's deadline does not pass, blocks the edit
  exactly when an autonomy constraint that carries the marker \<^verbatim>\<open>deny-edit\<close> is in force and governs one of the files inside the repository:
  it is bound to the file or to an anchor recorded in it, or its scope contains the file. The ledger and the read models do not change.
\<close>

theorem hook_blocks:
  assumes "hv_Kind ev = HookPreEdit" and "hv_SessionID ev \<noteq> ''''" and "\<forall>n. live n = None"
    and "inj_on cu_ID (set (map snd (rm_constraints p)))"
    and "Hook h exists clk live ev (hm, (l, p)) = ((r, err), (hm', st))"
  shows "err = None \<and> st = (l, p) \<and>
    (rp_Block r \<noteq> None \<longleftrightarrow>
      (\<exists>f \<in> set (hv_Files ev). \<exists>rel c. relPath (ls_Root (fst (Hooks_session exists clk ev hm))) f = (rel, True) \<and>
         governs (ho_owner h) (rm_anchors p) (rm_constraints p) (RepoID (ls_Root (fst (Hooks_session exists clk ev hm)))) rel c \<and>
         cu_Kind c = KindAutonomy \<and> cu_Checkable c = DenyEditMarker))"
proof -
  let ?root = "ls_Root (fst (Hooks_session exists clk ev hm))"
  let ?facts = "\<lambda>rel. factsFor (ho_owner h) (rm_anchors p) (rm_constraints p) (RepoID ?root) rel ActorAgent"
  have hook: "r = Compose (map (\<lambda>f. ?facts (fst (relPath ?root f))) (filter (\<lambda>f. snd (relPath ?root f)) (hv_Files ev)))" "err = None" "st = (l, p)"
    using assms(1,2,5) edit_facts_all [of live] assms(3) by (auto simp: Hook_def preEdit_def split: prod.splits)
  have deny: "(\<exists>c \<in> set (fx_Constraints (?facts rel)). cf_DenyEdit c) \<longleftrightarrow>
      (\<exists>c. governs (ho_owner h) (rm_anchors p) (rm_constraints p) (RepoID ?root) rel c \<and> cu_Kind c = KindAutonomy \<and> cu_Checkable c = DenyEditMarker)" for rel
    unfolding factsFor_constraints [OF assms(4)] by (auto simp: constraintFact_def)
  have "fx_Actor (?facts rel) = ActorAgent" for rel
    by (simp add: factsFor_def Let_def)
  then have "rp_Block r \<noteq> None \<longleftrightarrow> (\<exists>f \<in> set (hv_Files ev). snd (relPath ?root f) \<and> (\<exists>c \<in> set (fx_Constraints (?facts (fst (relPath ?root f)))). cf_DenyEdit c))"
    unfolding hook(1) Compose_block by auto
  then show ?thesis
    using hook(2,3) unfolding deny by (auto simp: prod_eq_iff)
qed

text \<open>
  C14. What people type stays out: the answer to an event, the sessions in memory, the ledger and the read models after it depend on the text of
  a prompt only through its classification, and on the text of a shell command only through the question whether it undoes edits.
\<close>

theorem hook_private:
  assumes "ClassifyPrompt text = ClassifyPrompt (hv_Prompt ev)" and "IsRevertCommand cmd = IsRevertCommand (hv_Command ev)"
  shows "Hook h exists clk live (ev\<lparr>hv_Prompt := text, hv_Command := cmd\<rparr>) x = Hook h exists clk live ev x"
proof -
  let ?ev = "ev\<lparr>hv_Prompt := text, hv_Command := cmd\<rparr>"
  have session: "Hooks_session exists clk ?ev hm = Hooks_session exists clk ev hm" for hm
    by (cases "map_of (hm_sessions hm) (hv_SessionID ev)") (simp_all add: Hooks_session_def Let_def)
  have answer: "preEdit live owner p s ?ev = preEdit live owner p s ev" for owner p s
    by (simp add: preEdit_def)
  have fields: "hv_Kind ?ev = hv_Kind ev" "hv_SessionID ?ev = hv_SessionID ev" "hv_Files ?ev = hv_Files ev" "hv_Reason ?ev = hv_Reason ev"
    "hv_Prompt ?ev = text" "hv_Command ?ev = cmd"
    by simp_all
  show ?thesis
    unfolding Hook_def session answer fields assms ..
qed

subsection \<open>Repositories\<close>

text \<open>The directory \<open>n\<close> levels above a directory, and the first of several that holds a \<^verbatim>\<open>.git\<close>.\<close>

definition above :: "string \<Rightarrow> nat \<Rightarrow> string" where
  "above d n = (filepath_Dir ^^ n) d"

lemma above_simps [simp]: "above d 0 = d" "above d (Suc n) = above (filepath_Dir d) n"
  by (simp_all add: above_def funpow_swap1)

lemma above_top: "filepath_Dir d = d \<Longrightarrow> above d n = d"
  by (induction n) simp_all

definition first_repo :: "(string \<Rightarrow> bool) \<Rightarrow> string list \<Rightarrow> string \<times> bool" where
  "first_repo exists ds = (case List.find (\<lambda>d. exists (filepath_Join d ''.git'')) ds of Some d \<Rightarrow> (d, True) | None \<Rightarrow> ('''', False))"

lemma repo_root_from_first: "dir_measure d < N \<Longrightarrow> repo_root_from exists d = first_repo exists (map (above d) [0..<N])"
proof (induction N arbitrary: d)
  case (Suc N)
  have ds: "map (above d) [0..<Suc N] = d # map (above (filepath_Dir d)) [0..<N]"
    unfolding upt_conv_Cons [OF zero_less_Suc] list.map map_Suc_upt [symmetric] map_map by (simp add: comp_def)
  show ?case
  proof (cases "exists (filepath_Join d ''.git'') \<or> filepath_Dir d = d")
    case True
    moreover have "List.find (\<lambda>d. exists (filepath_Join d ''.git'')) (map (above d) [0..<N]) = None"
      if "filepath_Dir d = d" "\<not> exists (filepath_Join d ''.git'')"
      using that by (auto simp: find_None_iff above_top)
    ultimately show ?thesis
      unfolding ds by (subst repo_root_from.simps) (auto simp: first_repo_def)
  next
    case False
    then have "repo_root_from exists (filepath_Dir d) = first_repo exists (map (above (filepath_Dir d)) [0..<N])"
      using Suc filepath_Dir_smaller [of d] by simp
    then show ?thesis
      unfolding ds using False by (subst repo_root_from.simps) (simp add: first_repo_def)
  qed
qed simp

text \<open>
  The walk from a working directory to its repository ends: it returns the nearest directory above that holds a \<^verbatim>\<open>.git\<close>, or reports that
  there is none, after looking at no more directories than the cleaned path has characters, and two.
\<close>

theorem repo_root_nearest:
  "FindRepoRoot exists dir = first_repo exists (map (above (path_Clean dir)) [0..<length (path_Clean dir) + 2])"
  unfolding FindRepoRoot_def by (rule repo_root_from_first) (simp add: dir_measure_def)

subsection \<open>Concrete events\<close>

text \<open>An autonomy constraint for everything, that denies edits, and an edit of a file of a repository.\<close>

definition sample_denial :: constraint_summary where
  "sample_denial = zero_constraint_summary\<lparr>cu_ID := ''c'', cu_Kind := KindAutonomy, cu_State := CStateVerified, cu_Checkable := DenyEditMarker\<rparr>"

definition sample_models :: read_models where
  "sample_models = empty_models\<lparr>rm_constraints := [(''c'', sample_denial)]\<rparr>"

definition sample_edit :: hook_event where
  "sample_edit = \<lparr>hv_Kind = HookPreEdit, hv_Tool = ''tool'', hv_SessionID = ''s'', hv_CWD = ''/r'', hv_Files = [''/r/a''], hv_ToolName = '''',
     hv_OK = True, hv_Command = '''', hv_Prompt = '''', hv_Reason = '''', hv_At = 0\<rparr>"

definition sample_memory :: hooks_memory where
  "sample_memory = \<lparr>hm_sessions = [], hm_turns = []\<rparr>"

lemma sample_governs: "governs ''ada'' (rm_anchors sample_models) (rm_constraints sample_models) repo rel sample_denial"
  by (simp add: governs_def standing_def sample_denial_def sample_models_def empty_models_def InForce_def zero_constraint_summary_def
      Contains_def zero_scope_key_def)

lemma sample_root: "ls_Root (fst (Hooks_session (\<lambda>_. True) (\<lambda>_. 0) sample_edit sample_memory)) = ''/r''"
  by code_simp

lemma sample_rel: "relPath ''/r'' ''/r/a'' = (''a'', True)"
  by code_simp

theorem hook_blocks_witness:
  "rp_Block (fst (fst (Hook \<lparr>ho_pipeline = (None :: (unit, read_models) options option), ho_owner = ''ada''\<rparr> (\<lambda>_. True) (\<lambda>_. 0) (\<lambda>_. None)
     sample_edit (sample_memory, ((), sample_models))))) \<noteq> None"
proof -
  let ?h = "\<lparr>ho_pipeline = (None :: (unit, read_models) options option), ho_owner = ''ada''\<rparr>"
  obtain r err hm' st where hook:
    "Hook ?h (\<lambda>_. True) (\<lambda>_. 0) (\<lambda>_. None) sample_edit (sample_memory, ((), sample_models)) = ((r, err), (hm', st))"
    by (metis prod.collapse)
  have "inj_on cu_ID (set (map snd (rm_constraints sample_models)))"
    by (simp add: sample_models_def)
  from hook_blocks [OF _ _ _ this hook] sample_governs sample_rel show ?thesis
    unfolding sample_root hook by (simp add: sample_edit_def) (fastforce simp: sample_denial_def)
qed

theorem hook_private_witness:
  "Hook \<lparr>ho_pipeline = (None :: (unit, read_models) options option), ho_owner = ''ada''\<rparr> (\<lambda>_. True) (\<lambda>_. 0) (\<lambda>_. None)
     (sample_edit\<lparr>hv_Prompt := ''  '', hv_Command := '' ''\<rparr>) (sample_memory, ((), sample_models)) =
   Hook \<lparr>ho_pipeline = None, ho_owner = ''ada''\<rparr> (\<lambda>_. True) (\<lambda>_. 0) (\<lambda>_. None) sample_edit (sample_memory, ((), sample_models))"
proof -
  have trim: "TrimSpace ''  '' = TrimSpace ''''" "TrimSpace '' '' = TrimSpace ''''"
    by code_simp+
  show ?thesis
    by (rule hook_private) (simp_all only: sample_edit_def hook_event.select_convs ClassifyPrompt_def IsRevertCommand_def trim)
qed

end
