(* ===== verification/Symbols.thy ===== *)
theory Symbols
  imports Realization_Anchor Gate Go_Text "HOL-Library.Word" "HOL-Library.Monad_Syntax"
begin

section \<open>Symbols of source files\<close>

text \<open>
  \<^verbatim>\<open>internal/core/realization/syntax.go\<close>: the symbols of a parsed file, the material of their three-layer hashes, and moves
  between two snapshots. Offsets are 32-bit words and node indices are integers. An index or a slice out of range
  panics, and so does a walk over a cyclic tree, by exhausting the stack or not returning: all these are the value \<open>None\<close>. A walk that
  visits more nodes in a row than the file has repeats one of them, so the number of nodes, and one, is enough fuel. \<^verbatim>\<open>unicode.IsLetter\<close> and
  \<^verbatim>\<open>unicode.IsDigit\<close> are the arguments \<open>letter\<close> and \<open>digit\<close> (tables of the Unicode version), SHA-256 is \<open>H\<close>.
\<close>

record syntax_node =
  sn_Type :: string
  sn_Field :: string
  sn_Start :: "32 word"
  sn_End :: "32 word"
  sn_Named :: bool
  sn_Comment :: bool
  sn_Parent :: int
  sn_Children :: "int list"

record syntax_tree =
  sx_Nodes :: "syntax_node list"
  sx_Source :: bytes

definition node_at :: "syntax_tree \<Rightarrow> int \<Rightarrow> syntax_node option" where
  "node_at s i = (if 0 \<le> i \<and> i < int (length (sx_Nodes s)) then Some (sx_Nodes s ! nat i) else None)"

definition slice :: "bytes \<Rightarrow> 32 word \<Rightarrow> 32 word \<Rightarrow> bytes option" where
  "slice src lo hi = (if lo \<le> hi \<and> unat hi \<le> length src then Some (drop (unat lo) (take (unat hi) src)) else None)"

definition Syntax_Text :: "syntax_tree \<Rightarrow> int \<Rightarrow> string option" where
  "Syntax_Text s i = do { n \<leftarrow> node_at s i; slice (sx_Source s) (sn_Start n) (sn_End n) }"

record capture =
  ca_Role :: string
  ca_Node :: int

record symbol_match =
  sq_Captures :: "capture list"

record symbol =
  sb_Name :: string
  sb_Kind :: string
  sb_Exported :: bool
  sb_Start :: "32 word"
  sb_End :: "32 word"
  sb_Signature :: string
  sb_Body :: string
  sb_node :: int

definition zero_symbol :: symbol where
  "zero_symbol = \<lparr>sb_Name = '''', sb_Kind = '''', sb_Exported = False, sb_Start = 0, sb_End = 0, sb_Signature = '''', sb_Body = '''',
     sb_node = 0\<rparr>"

subsection \<open>Body: the S-expression of a subtree\<close>

fun sexp_children :: "(int \<Rightarrow> string option) \<Rightarrow> syntax_tree \<Rightarrow> int list \<Rightarrow> string option" where
  "sexp_children walk s [] = Some []"
| "sexp_children walk s (c # cs) =
     do { n \<leftarrow> node_at s c;
          here \<leftarrow> (if sn_Comment n then Some [] else map_option (\<lambda>t. '' '' @ t) (walk c));
          more \<leftarrow> sexp_children walk s cs;
          Some (here @ more) }"

fun sexp_walk :: "nat \<Rightarrow> syntax_tree \<Rightarrow> int \<Rightarrow> string option" where
  "sexp_walk 0 s i = None"
| "sexp_walk (Suc k) s i =
     do { n \<leftarrow> node_at s i;
          if sn_Comment n then Some []
          else if sn_Children n = []
          then (if sn_Named n then map_option (\<lambda>t. sn_Type n @ ''='' @ t) (Syntax_Text s i) else Some (sn_Type n))
          else map_option (\<lambda>t. ''('' @ sn_Type n @ t @ '')'') (sexp_children (sexp_walk k s) s (sn_Children n)) }"

definition sexp :: "syntax_tree \<Rightarrow> int \<Rightarrow> string option" where
  "sexp s i = sexp_walk (length (sx_Nodes s) + 1) s i"

subsection \<open>Signature\<close>

text \<open>\<^verbatim>\<open>string\<close> of one rune: its UTF-8 bytes.\<close>

definition encode_rune :: "nat \<Rightarrow> string" where
  "encode_rune r =
     map char_of (if r < 128 then [r]
       else if r < 2048 then [192 + r div 64, 128 + r mod 64]
       else if r < 65536 then [224 + r div 4096, 128 + r div 64 mod 64, 128 + r mod 64]
       else [240 + r div 262144, 128 + r div 4096 mod 64, 128 + r div 64 mod 64, 128 + r mod 64])"

definition isWord :: "(nat \<Rightarrow> bool) \<Rightarrow> (nat \<Rightarrow> bool) \<Rightarrow> nat \<Rightarrow> bool" where
  "isWord letter digit r \<longleftrightarrow> r = 95 \<or> r = 36 \<or> letter r \<or> digit r"

text \<open>The loop over the runes; the state is the output and the flag \<^verbatim>\<open>pending\<close>.\<close>

definition normalize_rune :: "(nat \<Rightarrow> bool) \<Rightarrow> nat list \<times> bool \<Rightarrow> nat \<Rightarrow> nat list \<times> bool" where
  "normalize_rune word x r =
     (if unicode_IsSpace r then (fst x, True)
      else let out = (if snd x \<and> length (fst x) > 0 \<and> word (last (fst x)) \<and> word r then fst x @ [32] else fst x) in
           (out @ [r], False))"

definition normalizeSignature :: "(nat \<Rightarrow> bool) \<Rightarrow> (nat \<Rightarrow> bool) \<Rightarrow> string \<Rightarrow> string" where
  "normalizeSignature letter digit str =
     concat (map encode_rune (fst (foldl (normalize_rune (isWord letter digit)) ([], False) (map fst (runes (TrimSpace str))))))"

subsection \<open>ExtractSymbols\<close>

record raw_symbol =
  rw_sym :: int
  rw_name :: int
  rw_body :: int

definition raw_capture :: "raw_symbol \<Rightarrow> capture \<Rightarrow> raw_symbol" where
  "raw_capture r c =
     (if ca_Role c = ''symbol'' then r\<lparr>rw_sym := ca_Node c\<rparr>
      else if ca_Role c = ''name'' then r\<lparr>rw_name := ca_Node c\<rparr>
      else if ca_Role c = ''body'' then r\<lparr>rw_body := ca_Node c\<rparr> else r)"

definition raw_symbols :: "symbol_match list \<Rightarrow> raw_symbol list" where
  "raw_symbols matches =
     filter (\<lambda>r. \<not> (rw_sym r < 0 \<or> rw_name r < 0))
       (map (\<lambda>m. foldl raw_capture \<lparr>rw_sym = -1, rw_name = -1, rw_body = -1\<rparr> (sq_Captures m)) matches)"

definition raw_less :: "syntax_tree \<Rightarrow> raw_symbol \<Rightarrow> raw_symbol \<Rightarrow> bool" where
  "raw_less s x y =
     (let a = sx_Nodes s ! nat (rw_sym x); b = sx_Nodes s ! nat (rw_sym y) in
      if sn_Start a \<noteq> sn_Start b then sn_Start a < sn_Start b else sn_End a > sn_End b)"

text \<open>The walk to the nearest enclosing symbol: its index in the output.\<close>

fun enclosing :: "nat \<Rightarrow> syntax_tree \<Rightarrow> (int \<times> nat) list \<Rightarrow> int \<Rightarrow> nat option option" where
  "enclosing 0 s byNode p = None"
| "enclosing (Suc k) s byNode p =
     (if p < 0 then Some None
      else case map_of byNode p of
        Some oi \<Rightarrow> Some (Some oi)
      | None \<Rightarrow> do { n \<leftarrow> node_at s p; enclosing k s byNode (sn_Parent n) })"

definition make_symbol :: "(nat \<Rightarrow> bool) \<Rightarrow> (nat \<Rightarrow> bool) \<Rightarrow> syntax_tree \<Rightarrow> (int \<times> nat) list \<Rightarrow> symbol list \<Rightarrow> raw_symbol \<Rightarrow> symbol option" where
  "make_symbol letter digit s byNode out r =
     do { n \<leftarrow> node_at s (rw_sym r);
          own \<leftarrow> Syntax_Text s (rw_name r);
          outer \<leftarrow> enclosing (length (sx_Nodes s) + 1) s byNode (sn_Parent n);
          let name = (case outer of None \<Rightarrow> own | Some oi \<Rightarrow> sb_Name (out ! oi) @ ''.'' @ own);
          exported \<leftarrow> (if sn_Parent n \<ge> 0 then map_option (\<lambda>p. sn_Type p = ''export_statement'') (node_at s (sn_Parent n)) else Some False);
          (headEnd, body) \<leftarrow> (if rw_body r \<ge> 0
             then do { b \<leftarrow> node_at s (rw_body r); t \<leftarrow> sexp s (rw_body r); Some (sn_Start b, t) }
             else Some (sn_End n, ''''));
          text \<leftarrow> slice (sx_Source s) (sn_Start n) headEnd;
          let sig = normalizeSignature letter digit text;
          Some \<lparr>sb_Name = name, sb_Kind = sn_Type n, sb_Exported = exported, sb_Start = sn_Start n, sb_End = sn_End n,
                sb_Signature = (if exported then ''export '' @ sig else sig), sb_Body = body, sb_node = rw_sym r\<rparr> }"

fun extract_loop :: "(nat \<Rightarrow> bool) \<Rightarrow> (nat \<Rightarrow> bool) \<Rightarrow> syntax_tree \<Rightarrow> (int \<times> nat) list \<Rightarrow> symbol list \<Rightarrow> raw_symbol list \<Rightarrow> symbol list option" where
  "extract_loop letter digit s byNode out [] = Some out"
| "extract_loop letter digit s byNode out (r # rs) =
     (if map_of byNode (rw_sym r) \<noteq> None then extract_loop letter digit s byNode out rs
      else do { y \<leftarrow> make_symbol letter digit s byNode out r;
                extract_loop letter digit s (map_put (rw_sym r) (length out) byNode) (out @ [y]) rs })"

text \<open>Sorting reads the node of every declaration, and the loop after it does: one out of range is a panic in any case.\<close>

definition ExtractSymbols :: "(nat \<Rightarrow> bool) \<Rightarrow> (nat \<Rightarrow> bool) \<Rightarrow> syntax_tree \<Rightarrow> symbol_match list \<Rightarrow> symbol list option" where
  "ExtractSymbols letter digit s matches =
     (let raws = raw_symbols matches in
      if list_all (\<lambda>r. node_at s (rw_sym r) \<noteq> None) raws
      then extract_loop letter digit s [] [] (go_sort (raw_less s) raws) else None)"

subsection \<open>Hashes\<close>

definition sha :: "(bytes \<Rightarrow> bytes) \<Rightarrow> string \<Rightarrow> string" where
  "sha H str = hex_encode (H str)"

definition FileHash :: "(bytes \<Rightarrow> bytes) \<Rightarrow> bytes \<Rightarrow> string" where
  "FileHash H src = hex_encode (H src)"

definition Hash3Of :: "(bytes \<Rightarrow> bytes) \<Rightarrow> symbol \<Rightarrow> string \<Rightarrow> hash3" where
  "Hash3Of H y fileHash = \<lparr>h3_Signature = sha H (sb_Signature y), h3_Body = sha H (sb_Body y), h3_File = fileHash\<rparr>"

definition GenericHash3 :: "(bytes \<Rightarrow> bytes) \<Rightarrow> bytes \<Rightarrow> hash3" where
  "GenericHash3 H src = (let h = FileHash H src in \<lparr>h3_Signature = h, h3_Body = h, h3_File = h\<rparr>)"

definition FindSymbol :: "symbol list \<Rightarrow> string \<Rightarrow> symbol \<times> bool" where
  "FindSymbol syms name = (case List.find (\<lambda>y. sb_Name y = name) syms of Some y \<Rightarrow> (y, True) | None \<Rightarrow> (zero_symbol, False))"

text \<open>Unsigned subtraction wraps.\<close>

definition smaller_containing :: "32 word \<Rightarrow> 32 word \<Rightarrow> symbol \<times> bool \<Rightarrow> symbol \<Rightarrow> symbol \<times> bool" where
  "smaller_containing start stop x y =
     (if sb_Start y \<le> start \<and> stop \<le> sb_End y \<and> (\<not> snd x \<or> sb_End y - sb_Start y < sb_End (fst x) - sb_Start (fst x))
      then (y, True) else x)"

definition SmallestContaining :: "symbol list \<Rightarrow> 32 word \<Rightarrow> 32 word \<Rightarrow> symbol \<times> bool" where
  "SmallestContaining syms start stop = foldl (smaller_containing start stop) (zero_symbol, False) syms"

subsection \<open>Moves\<close>

record move =
  mv_From :: anchor
  mv_To :: anchor

text \<open>Anchors of one snapshot that the other lacks, by signature.\<close>

definition missing_in :: "(string \<times> hash3) list \<Rightarrow> (string \<times> hash3) list \<Rightarrow> (string \<times> string list) list" where
  "missing_in other snap =
     foldl (\<lambda>m (a, h). if map_of other a = None then map_put (h3_Signature h) (map_get [] m (h3_Signature h) @ [a]) m else m) [] snap"

definition move_of :: "(string \<times> string list) list \<Rightarrow> string \<times> string list \<Rightarrow> move list" where
  "move_of arrived x =
     (case (snd x, map_get [] arrived (fst x)) of
        ([f], [t]) \<Rightarrow>
          (case (ParseAnchor f, ParseAnchor t) of
             (Inr f', Inr t') \<Rightarrow> [\<lparr>mv_From = f', mv_To = t'\<rparr>]
           | _ \<Rightarrow> [])
      | _ \<Rightarrow> [])"

definition DetectMoves :: "(string \<times> hash3) list \<Rightarrow> (string \<times> hash3) list \<Rightarrow> move list" where
  "DetectMoves before after =
     (let gone = missing_in after before; arrived = missing_in before after in
      go_sort (\<lambda>x y. Anchor_String (mv_From x) < Anchor_String (mv_From y)) (concat (map (move_of arrived) gone)))"

end
