(* ===== verification/Symbol_Facts.thy ===== *)
theory Symbol_Facts
  imports Symbols "HOL-Library.Sublist"
begin

section \<open>Facts about symbols and moves\<close>

text \<open>
  What the loops of \<open>Symbols\<close> compute: the anchors a snapshot lacks, the walks over a tree whose nodes are in preorder, and the
  normal form of a signature.
\<close>

subsection \<open>Moves\<close>

definition lacking :: "(string \<times> hash3) list \<Rightarrow> (string \<times> hash3) list \<Rightarrow> string \<Rightarrow> string list" where
  "lacking other snap sg = map fst (filter (\<lambda>x. map_of other (fst x) = None \<and> h3_Signature (snd x) = sg) snap)"

lemma missing_in_get: "map_get [] (missing_in other snap) sg = lacking other snap sg"
proof (induction snap rule: rev_induct)
  case (snoc x xs)
  then show ?case
    by (cases x) (auto simp: missing_in_def lacking_def)
qed (simp add: missing_in_def lacking_def map_get_def)

lemma missing_in_distinct: "distinct (map_keys (missing_in other snap))"
proof (induction snap rule: rev_induct)
  case (snoc x xs)
  then show ?case
    by (cases x) (auto simp: missing_in_def)
qed (simp add: missing_in_def)

lemma missing_in_mem: "(sg, as) \<in> set (missing_in other snap) \<Longrightarrow> as = lacking other snap sg"
  using missing_in_get [of other snap sg] missing_in_distinct [of other snap]
  by (simp add: map_get_def map_of_is_SomeI)

lemma missing_in_key: "lacking other snap sg \<noteq> [] \<Longrightarrow> (sg, lacking other snap sg) \<in> set (missing_in other snap)"
  using missing_in_get [of other snap sg]
  by (cases "map_of (missing_in other snap) sg") (auto simp: map_get_def dest: map_of_SomeD)

lemma lacking_single:
  assumes "distinct (map_keys snap)"
  shows "lacking other snap sg = [a] \<longleftrightarrow>
    (\<exists>h. map_of snap a = Some h \<and> map_of other a = None \<and> h3_Signature h = sg) \<and>
    (\<forall>b h. map_of snap b = Some h \<and> map_of other b = None \<and> h3_Signature h = sg \<longrightarrow> b = a)"
proof -
  have "distinct (lacking other snap sg)"
    unfolding lacking_def using assms by (simp add: distinct_map_filter)
  then have "lacking other snap sg = [a] \<longleftrightarrow> set (lacking other snap sg) = {a}"
    by (cases "lacking other snap sg"; cases "tl (lacking other snap sg)") auto
  moreover have "b \<in> set (lacking other snap sg) \<longleftrightarrow> (\<exists>h. map_of snap b = Some h \<and> map_of other b = None \<and> h3_Signature h = sg)" for b
    using assms by (auto simp: lacking_def image_iff intro!: bexI [of _ "(b, _)"] dest: map_of_SomeD)
  ultimately show ?thesis
    by blast
qed

lemma move_of_set:
  "m \<in> set (move_of arrived (sg, from)) \<longleftrightarrow>
    (\<exists>a b. from = [a] \<and> map_get [] arrived sg = [b] \<and> ParseAnchor a = Inr (mv_From m) \<and> ParseAnchor b = Inr (mv_To m))"
proof (cases "from")
  case (Cons a fs)
  then show ?thesis
    by (cases fs; cases "map_get [] arrived sg"; cases "tl (map_get [] arrived sg)"; cases "ParseAnchor a";
        cases "ParseAnchor (hd (map_get [] arrived sg))") (auto simp: move_of_def)
qed (simp add: move_of_def)

lemma DetectMoves_set:
  "m \<in> set (DetectMoves before after) \<longleftrightarrow>
    (\<exists>sg a b. lacking after before sg = [a] \<and> lacking before after sg = [b] \<and> ParseAnchor a = Inr (mv_From m) \<and> ParseAnchor b = Inr (mv_To m))"
proof
  assume "m \<in> set (DetectMoves before after)"
  then obtain sg as where x: "(sg, as) \<in> set (missing_in after before)" "m \<in> set (move_of (missing_in before after) (sg, as))"
    by (auto simp: DetectMoves_def Let_def)
  then show "\<exists>sg a b. lacking after before sg = [a] \<and> lacking before after sg = [b] \<and> ParseAnchor a = Inr (mv_From m) \<and> ParseAnchor b = Inr (mv_To m)"
    using missing_in_mem [OF x(1)] unfolding move_of_set missing_in_get by metis
next
  assume "\<exists>sg a b. lacking after before sg = [a] \<and> lacking before after sg = [b] \<and> ParseAnchor a = Inr (mv_From m) \<and> ParseAnchor b = Inr (mv_To m)"
  then obtain sg where sg: "lacking after before sg \<noteq> []" "m \<in> set (move_of (missing_in before after) (sg, lacking after before sg))"
    unfolding move_of_set missing_in_get by (metis list.distinct(1))
  then show "m \<in> set (DetectMoves before after)"
    using missing_in_key [OF sg(1)] by (auto simp: DetectMoves_def Let_def)
qed

subsection \<open>Walks over a tree in preorder\<close>

text \<open>
  What an adapter promises: parents come before their children, children are nodes of the file, and every range is one of the source.
\<close>

definition tree_ok :: "syntax_tree \<Rightarrow> bool" where
  "tree_ok s \<longleftrightarrow> (\<forall>i < length (sx_Nodes s). let n = sx_Nodes s ! i in
     sn_Parent n < int i \<and> (\<forall>c \<in> set (sn_Children n). int i < c \<and> c < int (length (sx_Nodes s))) \<and>
     sn_Start n \<le> sn_End n \<and> unat (sn_End n) \<le> length (sx_Source s))"

lemma node_at_Some: "node_at s i = Some n \<longleftrightarrow> 0 \<le> i \<and> i < int (length (sx_Nodes s)) \<and> n = sx_Nodes s ! nat i"
  by (auto simp: node_at_def)

lemma tree_okD:
  assumes "tree_ok s" "node_at s i = Some n"
  shows "sn_Parent n < i" "c \<in> set (sn_Children n) \<Longrightarrow> i < c \<and> c < int (length (sx_Nodes s))" "sn_Start n \<le> sn_End n"
    "unat (sn_End n) \<le> length (sx_Source s)"
proof -
  have i: "nat i < length (sx_Nodes s)" "int (nat i) = i" "n = sx_Nodes s ! nat i"
    using assms(2) by (auto simp: node_at_Some)
  then show "sn_Parent n < i" "c \<in> set (sn_Children n) \<Longrightarrow> i < c \<and> c < int (length (sx_Nodes s))" "sn_Start n \<le> sn_End n"
    "unat (sn_End n) \<le> length (sx_Source s)"
    using assms(1) unfolding tree_ok_def Let_def by metis+
qed

lemma Syntax_Text_defined: "tree_ok s \<Longrightarrow> node_at s i = Some n \<Longrightarrow> \<exists>t. Syntax_Text s i = Some t"
  using tree_okD(3,4) by (auto simp: Syntax_Text_def slice_def)

lemma sexp_children_defined:
  assumes "\<And>c n. c \<in> set cs \<Longrightarrow> node_at s c = Some n \<Longrightarrow> \<exists>t. walk c = Some t" "\<And>c. c \<in> set cs \<Longrightarrow> \<exists>n. node_at s c = Some n"
  shows "\<exists>t. sexp_children walk s cs = Some t"
  using assms
proof (induction cs)
  case (Cons c cs)
  obtain n t more where "node_at s c = Some n" "walk c = Some t" "sexp_children walk s cs = Some more"
    using Cons by (metis list.set_intros)
  then show ?case
    by simp
qed simp

lemma sexp_walk_defined:
  "tree_ok s \<Longrightarrow> node_at s i = Some n \<Longrightarrow> int (length (sx_Nodes s)) < int k + i \<Longrightarrow> \<exists>t. sexp_walk k s i = Some t"
proof (induction k arbitrary: i n)
  case 0
  then show ?case
    by (simp add: node_at_Some)
next
  case (Suc k)
  have "\<exists>t. sexp_children (sexp_walk k s) s (sn_Children n) = Some t"
  proof (rule sexp_children_defined)
    show "\<exists>m. node_at s c = Some m" if "c \<in> set (sn_Children n)" for c
      using tree_okD(2) [OF Suc.prems(1,2) that] Suc.prems(2) by (auto simp: node_at_Some)
    show "\<exists>t. sexp_walk k s c = Some t" if "c \<in> set (sn_Children n)" "node_at s c = Some m" for c m
      using tree_okD(2) [OF Suc.prems(1,2) that(1)] Suc.prems(3) by (intro Suc.IH [OF Suc.prems(1) that(2)]) simp
  qed
  then show ?case
    using Suc.prems Syntax_Text_defined [OF Suc.prems(1,2)] by auto
qed

lemma sexp_defined: "tree_ok s \<Longrightarrow> node_at s i = Some n \<Longrightarrow> \<exists>t. sexp s i = Some t"
  unfolding sexp_def by (rule sexp_walk_defined) (auto simp: node_at_Some)

lemma enclosing_defined:
  "tree_ok s \<Longrightarrow> p < int (length (sx_Nodes s)) \<Longrightarrow> p < int k \<Longrightarrow> \<exists>y. enclosing (Suc k) s byNode p = Some y"
proof (induction k arbitrary: p)
  case (Suc k)
  show ?case
  proof (cases "p < 0 \<or> map_of byNode p \<noteq> None")
    case False
    then obtain n where n: "node_at s p = Some n"
      using Suc.prems by (auto simp: node_at_def)
    then show ?thesis
      using False tree_okD(1) [OF Suc.prems(1) n] Suc.prems Suc.IH [of "sn_Parent n"] by auto
  qed auto
qed auto

text \<open>The captures of a match name nodes of the file, and a body starts in its declaration.\<close>

definition captures_ok :: "syntax_tree \<Rightarrow> raw_symbol \<Rightarrow> bool" where
  "captures_ok s r \<longleftrightarrow> node_at s (rw_sym r) \<noteq> None \<and> node_at s (rw_name r) \<noteq> None \<and>
     (rw_body r \<ge> 0 \<longrightarrow> (\<exists>b. node_at s (rw_body r) = Some b \<and> sn_Start (the (node_at s (rw_sym r))) \<le> sn_Start b))"

lemma make_symbol_defined:
  assumes "tree_ok s" "captures_ok s r"
  shows "\<exists>y. make_symbol letter digit s byNode out r = Some y"
proof -
  obtain n m where n: "node_at s (rw_sym r) = Some n" "node_at s (rw_name r) = Some m"
    using assms(2) by (auto simp: captures_ok_def)
  obtain own outer where "Syntax_Text s (rw_name r) = Some own" "enclosing (length (sx_Nodes s) + 1) s byNode (sn_Parent n) = Some outer"
    using Syntax_Text_defined [OF assms(1) n(2)] enclosing_defined [OF assms(1), of "sn_Parent n" "length (sx_Nodes s)" byNode]
      tree_okD(1) [OF assms(1) n(1)] n(1) by (auto simp: node_at_Some)
  moreover have "sn_Parent n \<ge> 0 \<Longrightarrow> \<exists>p. node_at s (sn_Parent n) = Some p"
    using tree_okD(1) [OF assms(1) n(1)] n(1) by (auto simp: node_at_Some)
  moreover have "\<exists>b t. node_at s (rw_body r) = Some b \<and> sexp s (rw_body r) = Some t \<and> slice (sx_Source s) (sn_Start n) (sn_Start b) \<noteq> None"
    if body: "rw_body r \<ge> 0"
  proof -
    obtain b where b: "node_at s (rw_body r) = Some b" "sn_Start n \<le> sn_Start b"
      using assms(2) body n by (auto simp: captures_ok_def)
    have "unat (sn_Start b) \<le> length (sx_Source s)"
      using tree_okD(3,4) [OF assms(1) b(1)] by (meson le_trans word_le_nat_alt)
    then show ?thesis
      using b sexp_defined [OF assms(1) b(1)] by (auto simp: slice_def)
  qed
  moreover have "slice (sx_Source s) (sn_Start n) (sn_End n) \<noteq> None"
    using tree_okD(3,4) [OF assms(1) n(1)] by (simp add: slice_def)
  ultimately show ?thesis
    using n by (cases "rw_body r \<ge> 0"; cases "sn_Parent n \<ge> 0") (auto simp: make_symbol_def Let_def)
qed

lemma make_symbol_node:
  "make_symbol letter digit s byNode out r = Some y \<Longrightarrow>
    sb_node y = rw_sym r \<and> (\<exists>n. node_at s (rw_sym r) = Some n \<and> sb_Start y = sn_Start n \<and> sb_End y = sn_End n)"
  by (auto simp: make_symbol_def Let_def split: Option.bind_splits if_splits)

definition symbol_at :: "syntax_tree \<Rightarrow> symbol \<Rightarrow> bool" where
  "symbol_at s y \<longleftrightarrow> (\<exists>n. node_at s (sb_node y) = Some n \<and> sb_Start y = sn_Start n \<and> sb_End y = sn_End n)"

lemma extract_loop_defined:
  assumes "tree_ok s" "\<forall>r \<in> set rs. captures_ok s r" "\<forall>i. map_of byNode i \<noteq> None \<longleftrightarrow> i \<in> sb_node ` set out" "distinct (map sb_node out)"
  shows "\<exists>ys. extract_loop letter digit s byNode out rs = Some (out @ ys) \<and> distinct (map sb_node (out @ ys)) \<and>
    sb_node ` set (out @ ys) = sb_node ` set out \<union> rw_sym ` set rs \<and> subseq (map sb_node ys) (map rw_sym rs) \<and> (\<forall>y \<in> set ys. symbol_at s y)"
  using assms(2-4)
proof (induction rs arbitrary: byNode out)
  case (Cons r rs)
  show ?case
  proof (cases "map_of byNode (rw_sym r) = None")
    case True
    obtain y where y: "make_symbol letter digit s byNode out r = Some y"
      using make_symbol_defined [OF assms(1)] Cons.prems(1) by (metis list.set_intros(1))
    note node = make_symbol_node [OF y]
    have new: "sb_node y \<notin> sb_node ` set out"
      using True Cons.prems(2) node by (metis)
    have keys: "\<forall>i. map_of (map_put (rw_sym r) (length out) byNode) i \<noteq> None \<longleftrightarrow> i \<in> sb_node ` set (out @ [y])"
      using Cons.prems(2) node by auto
    obtain ys where "extract_loop letter digit s (map_put (rw_sym r) (length out) byNode) (out @ [y]) rs = Some ((out @ [y]) @ ys)"
        "distinct (map sb_node ((out @ [y]) @ ys))" "sb_node ` set ((out @ [y]) @ ys) = sb_node ` set (out @ [y]) \<union> rw_sym ` set rs"
        "subseq (map sb_node ys) (map rw_sym rs)" "\<forall>y \<in> set ys. symbol_at s y"
      using Cons.IH [OF _ keys] Cons.prems(1,3) new by auto
    then show ?thesis
      using True y node by (intro exI [of _ "y # ys"]) (auto simp: symbol_at_def)
  next
    case False
    then have "rw_sym r \<in> sb_node ` set out"
      using Cons.prems(2) by blast
    moreover obtain ys where "extract_loop letter digit s byNode out rs = Some (out @ ys)" "distinct (map sb_node (out @ ys))"
        "sb_node ` set (out @ ys) = sb_node ` set out \<union> rw_sym ` set rs" "subseq (map sb_node ys) (map rw_sym rs)" "\<forall>y \<in> set ys. symbol_at s y"
      using Cons.IH [OF _ Cons.prems(2,3)] Cons.prems(1) by auto
    ultimately show ?thesis
      using False by (intro exI [of _ ys]) (auto intro: list_emb_Cons)
  qed
qed simp

subsection \<open>The normal form of a signature\<close>

text \<open>The words of a text, and their concatenation with a blank where two of them would run together.\<close>

function tokens :: "nat list \<Rightarrow> nat list list" where
  "tokens [] = []"
| "tokens (r # rs) =
     (if unicode_IsSpace r then tokens rs
      else (r # takeWhile (\<lambda>x. \<not> unicode_IsSpace x) rs) # tokens (dropWhile (\<lambda>x. \<not> unicode_IsSpace x) rs))"
  by pat_completeness auto
termination
  by (relation "measure length") (simp_all add: less_Suc_eq_le length_dropWhile_le)

definition join_token :: "(nat \<Rightarrow> bool) \<Rightarrow> nat list \<Rightarrow> nat list \<Rightarrow> nat list" where
  "join_token word out t = out @ (if out \<noteq> [] \<and> word (last out) \<and> word (hd t) then [32] else []) @ t"

lemma normalize_plain:
  "\<forall>x \<in> set t. \<not> unicode_IsSpace x \<Longrightarrow> foldl (normalize_rune word) (out, False) t = (out @ t, False)"
  by (induction t arbitrary: out) (simp_all add: normalize_rune_def)

lemma normalize_tokens:
  "snd x \<or> fst x = [] \<or> rs = [] \<or> unicode_IsSpace (hd rs) \<Longrightarrow>
    fst (foldl (normalize_rune word) x rs) = foldl (join_token word) (fst x) (tokens rs)"
proof (induction rs arbitrary: x rule: tokens.induct)
  case (2 r rs)
  show ?case
  proof (cases "unicode_IsSpace r")
    case True
    then show ?thesis
      using 2(1) [OF True, of "(fst x, True)"] by (simp add: normalize_rune_def)
  next
    case False
    let ?t = "takeWhile (\<lambda>x. \<not> unicode_IsSpace x) rs" and ?rs = "dropWhile (\<lambda>x. \<not> unicode_IsSpace x) rs"
    have "foldl (normalize_rune word) x (r # rs) = foldl (normalize_rune word) (foldl (normalize_rune word) (normalize_rune word x r) ?t) ?rs"
      by (metis foldl_Cons foldl_append takeWhile_dropWhile_id)
    also have "foldl (normalize_rune word) (normalize_rune word x r) ?t = (join_token word (fst x) (r # ?t), False)"
    proof -
      have "\<forall>x \<in> set ?t. \<not> unicode_IsSpace x"
        by (auto dest: set_takeWhileD)
      from normalize_plain [OF this] show ?thesis
        using False 2(3) by (auto simp: normalize_rune_def join_token_def Let_def)
    qed
    moreover have "?rs = [] \<or> unicode_IsSpace (hd ?rs)"
      by (metis hd_dropWhile)
    ultimately show ?thesis
      using False 2(2) [OF False, of "(join_token word (fst x) (r # ?t), False)"] by simp
  qed
qed simp

lemma join_token_punctuation:
  "t \<noteq> [] \<Longrightarrow> u \<noteq> [] \<Longrightarrow> \<not> (word (last t) \<and> word (hd u)) \<Longrightarrow> join_token word (join_token word out t) u = join_token word out (t @ u)"
  by (auto simp: join_token_def)

end
