(* ===== verification/Comment_Edits.thy ===== *)
theory Comment_Edits
  imports Symbol_Facts
begin

section \<open>Edits of comments\<close>

text \<open>
  A file before and after an edit that keeps its code: what is removed and what is inserted lies outside of the leaves of the code, so in comments and in the
  white space between tokens. Comments may come and go and change their length, and nodes then get other numbers and offsets. The walks over both trees
  find the same text.
\<close>

subsection \<open>Edit scripts\<close>

datatype edit = Keep char | Replace bytes bytes

fun flip :: "edit \<Rightarrow> edit" where
  "flip (Keep c) = Keep c"
| "flip (Replace old new) = Replace new old"

fun old_text :: "edit list \<Rightarrow> bytes" where
  "old_text [] = []"
| "old_text (Keep c # es) = c # old_text es"
| "old_text (Replace old new # es) = old @ old_text es"

definition new_text :: "edit list \<Rightarrow> bytes" where
  "new_text es = old_text (map flip es)"

text \<open>The offsets of the bytes that are removed, in the source before, and of those that are inserted, in the source after.\<close>

fun removed_from :: "nat \<Rightarrow> edit list \<Rightarrow> nat list" where
  "removed_from p [] = []"
| "removed_from p (Keep c # es) = removed_from (Suc p) es"
| "removed_from p (Replace old new # es) = [p..<p + length old] @ removed_from (p + length old) es"

definition removed :: "edit list \<Rightarrow> nat set" where
  "removed es = set (removed_from 0 es)"

definition inserted :: "edit list \<Rightarrow> nat set" where
  "inserted es = set (removed_from 0 (map flip es))"

text \<open>Which offset after the edit is the place of an offset before it. Where text is inserted, both ends of it are.\<close>

definition moved :: "edit list \<Rightarrow> nat \<Rightarrow> nat \<Rightarrow> bool" where
  "moved es p p' \<longleftrightarrow> (\<exists>k \<le> length es. p = length (old_text (take k es)) \<and> p' = length (new_text (take k es)))"

lemma old_text_append [simp]: "old_text (xs @ ys) = old_text xs @ old_text ys"
  by (induction xs rule: old_text.induct) simp_all

lemma new_text_append [simp]: "new_text (xs @ ys) = new_text xs @ new_text ys"
  by (simp add: new_text_def)

lemma removed_from_append [simp]: "removed_from p (xs @ ys) = removed_from p xs @ removed_from (p + length (old_text xs)) ys"
  by (induction p xs rule: removed_from.induct) (simp_all add: add.assoc)

lemma removed_from_bounds: "q \<in> set (removed_from p es) \<Longrightarrow> p \<le> q \<and> q < p + length (old_text es)"
  by (induction p es rule: removed_from.induct) fastforce+

lemma unedited_text: "removed_from p m = [] \<Longrightarrow> removed_from p' (map flip m) = [] \<Longrightarrow> new_text m = old_text m"
proof (induction m arbitrary: p p')
  case (Cons e m)
  then show ?case
    by (cases e) (auto simp: new_text_def)
qed (simp add: new_text_def)

text \<open>A range without an edit in it has the same text before and after.\<close>

lemma moved_cases:
  assumes "moved es a a'" "moved es b b'"
  obtains xs m ys where "es = xs @ m @ ys" "a = length (old_text xs)" "a' = length (new_text xs)" "b = length (old_text (xs @ m))" "b' = length (new_text (xs @ m))"
  | "b \<le> a" "b' \<le> a'"
proof -
  obtain k l where k: "k \<le> length es" "a = length (old_text (take k es))" "a' = length (new_text (take k es))"
    and l: "l \<le> length es" "b = length (old_text (take l es))" "b' = length (new_text (take l es))"
    using assms unfolding moved_def by blast
  show thesis
  proof (cases "k \<le> l")
    case True
    then have "take l es = take k es @ drop k (take l es)"
      by (metis append_take_drop_id min.absorb1 take_take)
    then show thesis
      using that(1) [of "take k es" "drop k (take l es)" "drop l es"] k l by (metis append.assoc append_take_drop_id)
  next
    case False
    then have "take k es = take l es @ drop l (take k es)"
      by (metis append_take_drop_id min.absorb1 nat_le_linear take_take)
    then show thesis
      using that(2) k l by (metis le_add1 length_append new_text_append old_text_append)
  qed
qed

lemma range_kept:
  assumes "moved es a a'" "moved es b b'" "a \<le> b" "a' \<le> b'" and "{a..<b} \<inter> removed es = {}" "{a'..<b'} \<inter> inserted es = {}"
  shows "drop a' (take b' (new_text es)) = drop a (take b (old_text es))"
  using assms(1,2)
proof (cases rule: moved_cases)
  case (1 xs m ys)
  have "set (removed_from a m) \<subseteq> {a..<b} \<inter> removed es" "set (removed_from a' (map flip m)) \<subseteq> {a'..<b'} \<inter> inserted es"
    using removed_from_bounds [of _ a m] removed_from_bounds [of _ a' "map flip m"] 1 by (auto simp: removed_def inserted_def new_text_def)
  then have "new_text m = old_text m"
    using assms(5,6) by (intro unedited_text [of a _ a']) auto
  then show ?thesis
    by (simp add: 1)
next
  case 2
  then show ?thesis
    using assms(3,4) by simp
qed

subsection \<open>Files that keep their code\<close>

definition code_at :: "syntax_tree \<Rightarrow> int \<Rightarrow> bool" where
  "code_at s i \<longleftrightarrow> (\<exists>n. node_at s i = Some n \<and> \<not> sn_Comment n)"

lemma code_at_code [code]: "code_at s i = (case node_at s i of None \<Rightarrow> False | Some n \<Rightarrow> \<not> sn_Comment n)"
  by (auto simp: code_at_def split: option.splits)

text \<open>The bytes of the leaves of the code: names, literals and tokens.\<close>

definition leaf_bytes :: "syntax_tree \<Rightarrow> nat set" where
  "leaf_bytes s = (\<Union>n \<in> set (sx_Nodes s). if sn_Comment n \<or> sn_Children n \<noteq> [] then {} else {unat (sn_Start n)..<unat (sn_End n)})"

text \<open>
  The node \<open>i\<close> of the code becomes the node \<open>g i\<close>: of the same type, at the place where its text now is, with the same parent, and with the
  same children but for comments.
\<close>

definition node_kept :: "edit list \<Rightarrow> (int \<Rightarrow> int) \<Rightarrow> syntax_tree \<Rightarrow> syntax_tree \<Rightarrow> syntax_node \<Rightarrow> syntax_node \<Rightarrow> bool" where
  "node_kept es g s s' n n' \<longleftrightarrow>
     \<not> sn_Comment n' \<and> sn_Type n' = sn_Type n \<and> sn_Named n' = sn_Named n \<and>
     moved es (unat (sn_Start n)) (unat (sn_Start n')) \<and> moved es (unat (sn_End n)) (unat (sn_End n')) \<and>
     (0 \<le> sn_Parent n \<longrightarrow> code_at s (sn_Parent n)) \<and> sn_Parent n' = g (sn_Parent n) \<and>
     (sn_Children n' = [] \<longleftrightarrow> sn_Children n = []) \<and>
     filter (code_at s') (sn_Children n') = map g (filter (code_at s) (sn_Children n))"

definition code_kept :: "edit list \<Rightarrow> (int \<Rightarrow> int) \<Rightarrow> syntax_tree \<Rightarrow> syntax_tree \<Rightarrow> bool" where
  "code_kept es g s s' \<longleftrightarrow>
     sx_Source s = old_text es \<and> sx_Source s' = new_text es \<and> removed es \<inter> leaf_bytes s = {} \<and> inserted es \<inter> leaf_bytes s' = {} \<and>
     g (-1) = -1 \<and> (\<forall>i. g i < 0 \<longleftrightarrow> i < 0) \<and> inj_on g {i. code_at s i} \<and>
     (\<forall>i n. node_at s i = Some n \<and> \<not> sn_Comment n \<longrightarrow> (\<exists>n'. node_at s' (g i) = Some n' \<and> node_kept es g s s' n n'))"

definition rename_match :: "(int \<Rightarrow> int) \<Rightarrow> symbol_match \<Rightarrow> symbol_match" where
  "rename_match g m = m\<lparr>sq_Captures := map (\<lambda>c. c\<lparr>ca_Node := g (ca_Node c)\<rparr>) (sq_Captures m)\<rparr>"

definition rename_raw :: "(int \<Rightarrow> int) \<Rightarrow> raw_symbol \<Rightarrow> raw_symbol" where
  "rename_raw g r = \<lparr>rw_sym = g (rw_sym r), rw_name = g (rw_name r), rw_body = g (rw_body r)\<rparr>"

text \<open>A range of nodes that the edit leaves alone, and the header of a declaration, up to its body.\<close>

definition untouched :: "edit list \<Rightarrow> 32 word \<times> 32 word \<Rightarrow> 32 word \<times> 32 word \<Rightarrow> bool" where
  "untouched es x x' \<longleftrightarrow>
     {unat (fst x)..<unat (snd x)} \<inter> removed es = {} \<and> {unat (fst x')..<unat (snd x')} \<inter> inserted es = {}"

definition node_range :: "syntax_tree \<Rightarrow> int \<Rightarrow> 32 word \<times> 32 word" where
  "node_range s i = (let n = sx_Nodes s ! nat i in (sn_Start n, sn_End n))"

definition header_range :: "syntax_tree \<Rightarrow> raw_symbol \<Rightarrow> 32 word \<times> 32 word" where
  "header_range s r =
     (let n = sx_Nodes s ! nat (rw_sym r) in
      (sn_Start n, if rw_body r \<ge> 0 then sn_Start (sx_Nodes s ! nat (rw_body r)) else sn_End n))"

text \<open>The captures of a query on both files: nodes of the code, and a name without an edit in it.\<close>

definition captures_kept :: "edit list \<Rightarrow> (int \<Rightarrow> int) \<Rightarrow> syntax_tree \<Rightarrow> syntax_tree \<Rightarrow> raw_symbol \<Rightarrow> bool" where
  "captures_kept es g s s' r \<longleftrightarrow>
     captures_ok s r \<and> captures_ok s' (rename_raw g r) \<and>
     code_at s (rw_sym r) \<and> code_at s (rw_name r) \<and> (0 \<le> rw_body r \<longrightarrow> code_at s (rw_body r)) \<and>
     untouched es (node_range s (rw_name r)) (node_range s' (g (rw_name r)))"

definition order_kept :: "(int \<Rightarrow> int) \<Rightarrow> syntax_tree \<Rightarrow> syntax_tree \<Rightarrow> raw_symbol list \<Rightarrow> bool" where
  "order_kept g s s' rs \<longleftrightarrow> (\<forall>x \<in> set rs. \<forall>y \<in> set rs. raw_less s' (rename_raw g x) (rename_raw g y) = raw_less s x y)"

lemma code_keptE:
  assumes "code_kept es g s s'" "code_at s i"
  obtains n n' where "node_at s i = Some n" "\<not> sn_Comment n" "node_at s' (g i) = Some n'" "node_kept es g s s' n n'"
  using assms unfolding code_kept_def code_at_def by blast

lemma code_kept_signs: "code_kept es g s s' \<Longrightarrow> g (-1) = -1 \<and> (g i < 0 \<longleftrightarrow> i < 0)"
  by (simp add: code_kept_def)

subsection \<open>The walks on both files\<close>

lemma slice_kept:
  assumes "code_kept es g s s'" "moved es (unat lo) (unat lo')" "moved es (unat hi) (unat hi')" "untouched es (lo, hi) (lo', hi')"
    and "slice (sx_Source s) lo hi = Some t" "slice (sx_Source s') lo' hi' = Some t'"
  shows "t' = t"
proof -
  have "lo \<le> hi" "lo' \<le> hi'" "t = drop (unat lo) (take (unat hi) (old_text es))" "t' = drop (unat lo') (take (unat hi') (new_text es))"
    using assms(1,5,6) by (auto simp: slice_def code_kept_def split: if_splits)
  then show ?thesis
    using range_kept [OF assms(2,3)] assms(4) by (simp add: untouched_def word_le_nat_alt)
qed

lemma node_at_range: "node_at s i = Some n \<Longrightarrow> node_range s i = (sn_Start n, sn_End n)"
  by (simp add: node_at_Some node_range_def Let_def)

lemma Syntax_Text_kept:
  assumes "code_kept es g s s'" "tree_ok s" "tree_ok s'" "code_at s i" "untouched es (node_range s i) (node_range s' (g i))"
  shows "\<exists>t. Syntax_Text s i = Some t \<and> Syntax_Text s' (g i) = Some t"
proof -
  obtain n n' where n: "node_at s i = Some n" "node_at s' (g i) = Some n'" "node_kept es g s s' n n'"
    using assms(1,4) by (rule code_keptE)
  obtain t t' where "Syntax_Text s i = Some t" "Syntax_Text s' (g i) = Some t'"
    using Syntax_Text_defined [OF assms(2) n(1)] Syntax_Text_defined [OF assms(3) n(2)] by blast
  then show ?thesis
    using slice_kept [OF assms(1), of "sn_Start n" "sn_Start n'" "sn_End n" "sn_End n'" t t'] n assms(5) node_at_range [OF n(1)] node_at_range [OF n(2)]
    by (simp add: Syntax_Text_def node_kept_def)
qed

lemma leaf_untouched:
  assumes "code_kept es g s s'" "node_at s i = Some n" "\<not> sn_Comment n" "sn_Children n = []" "node_at s' (g i) = Some n'" "node_kept es g s s' n n'"
  shows "untouched es (node_range s i) (node_range s' (g i))"
proof -
  have "n \<in> set (sx_Nodes s)" "n' \<in> set (sx_Nodes s')" "n = sx_Nodes s ! nat i" "n' = sx_Nodes s' ! nat (g i)"
    using assms(2,5) by (auto simp: node_at_Some)
  moreover have "\<not> sn_Comment n'" "sn_Children n' = []"
    using assms(4,6) by (auto simp: node_kept_def)
  ultimately have "{unat (sn_Start n)..<unat (sn_End n)} \<subseteq> leaf_bytes s" "{unat (sn_Start n')..<unat (sn_End n')} \<subseteq> leaf_bytes s'"
    using assms(3,4) by (auto simp: leaf_bytes_def intro!: bexI)
  then show ?thesis
    using assms(1) \<open>n = _\<close> \<open>n' = _\<close> by (auto simp: untouched_def node_range_def code_kept_def Let_def)
qed

text \<open>The children that are code, in order: what the walk over the children prints.\<close>

definition sexp_list :: "(int \<Rightarrow> string option) \<Rightarrow> int list \<Rightarrow> string option" where
  "sexp_list walk cs = map_option concat (those (map (\<lambda>c. map_option (\<lambda>t. CHR '' '' # t) (walk c)) cs))"

lemma sexp_list_Cons:
  "sexp_list walk (c # cs) = do { here \<leftarrow> map_option (\<lambda>t. CHR '' '' # t) (walk c); more \<leftarrow> sexp_list walk cs; Some (here @ more) }"
  by (cases "walk c"; cases "those (map (\<lambda>c. map_option (\<lambda>t. CHR '' '' # t) (walk c)) cs)") (simp_all add: sexp_list_def)

lemma sexp_children_code:
  "\<forall>c \<in> set cs. node_at s c \<noteq> None \<Longrightarrow> sexp_children walk s cs = sexp_list walk (filter (code_at s) cs)"
proof (induction cs)
  case (Cons c cs)
  then obtain n where "node_at s c = Some n"
    by auto
  then show ?case
    using Cons by (cases "sn_Comment n"; cases "walk c") (auto simp: sexp_list_Cons code_at_def)
qed (simp add: sexp_list_def)

lemma sexp_list_map:
  "\<forall>c \<in> set cs. \<forall>t. walk c = Some t \<longrightarrow> walk' (g c) = Some t \<Longrightarrow> sexp_list walk cs = Some t \<Longrightarrow> sexp_list walk' (map g cs) = Some t"
proof (induction cs arbitrary: t)
  case (Cons c cs)
  then obtain u v where "walk c = Some u" "sexp_list walk cs = Some v" "t = CHR '' '' # u @ v"
    by (auto simp: sexp_list_Cons bind_eq_Some_conv)
  then show ?case
    using Cons by (simp add: sexp_list_Cons)
qed (simp add: sexp_list_def)

lemma children_nodes: "tree_ok s \<Longrightarrow> node_at s i = Some n \<Longrightarrow> \<forall>c \<in> set (sn_Children n). node_at s c \<noteq> None"
proof
  fix c
  assume s: "tree_ok s" "node_at s i = Some n" "c \<in> set (sn_Children n)"
  then have "0 \<le> i"
    by (simp add: node_at_Some)
  then show "node_at s c \<noteq> None"
    using tree_okD(2) [OF s] by (simp add: node_at_def)
qed

lemma sexp_walk_kept:
  assumes "code_kept es g s s'" "tree_ok s" "tree_ok s'"
  shows "code_at s i \<Longrightarrow> sexp_walk k s i = Some t \<Longrightarrow> sexp_walk k s' (g i) = Some t"
proof (induction k arbitrary: i t)
  case (Suc k)
  obtain n n' where n: "node_at s i = Some n" "\<not> sn_Comment n" "node_at s' (g i) = Some n'" "node_kept es g s s' n n'"
    using assms(1) Suc.prems(1) by (rule code_keptE)
  have kept: "\<not> sn_Comment n'" "sn_Type n' = sn_Type n" "sn_Named n' = sn_Named n" "sn_Children n' = [] \<longleftrightarrow> sn_Children n = []"
      "filter (code_at s') (sn_Children n') = map g (filter (code_at s) (sn_Children n))"
    using n(4) by (auto simp: node_kept_def)
  show ?case
  proof (cases "sn_Children n = []")
    case True
    then show ?thesis
      using Syntax_Text_kept [OF assms Suc.prems(1) leaf_untouched [OF assms(1) n(1,2) _ n(3,4)]] Suc.prems(2) n kept by auto
  next
    case False
    obtain u where u: "sexp_children (sexp_walk k s) s (sn_Children n) = Some u" "t = ''('' @ sn_Type n @ u @ '')''"
      using Suc.prems(2) n False by auto
    have "sexp_list (sexp_walk k s') (map g (filter (code_at s) (sn_Children n))) = Some u"
      using u(1) Suc.IH unfolding sexp_children_code [OF children_nodes [OF assms(2) n(1)]] by (intro sexp_list_map) auto
    then show ?thesis
      using n kept False u(2) sexp_children_code [OF children_nodes [OF assms(3) n(3)], of "sexp_walk k s'"] by simp
  qed
qed simp

text \<open>More fuel does not change a walk that ends.\<close>

lemma sexp_children_mono:
  "\<forall>c \<in> set cs. \<forall>t. walk c = Some t \<longrightarrow> walk' c = Some t \<Longrightarrow> sexp_children walk s cs = Some t \<Longrightarrow> sexp_children walk' s cs = Some t"
proof (induction cs arbitrary: t)
  case (Cons c cs)
  then obtain n u v where n: "node_at s c = Some n" "(if sn_Comment n then Some [] else map_option (\<lambda>t. '' '' @ t) (walk c)) = Some u"
      "sexp_children walk s cs = Some v" "t = u @ v"
    by (auto simp: bind_eq_Some_conv)
  then show ?case
    using Cons by (auto split: if_splits)
qed simp

lemma sexp_walk_mono: "sexp_walk k s i = Some t \<Longrightarrow> k \<le> l \<Longrightarrow> sexp_walk l s i = Some t"
proof (induction k arbitrary: i t l)
  case (Suc k)
  then obtain l' where l: "l = Suc l'" "k \<le> l'"
    by (cases l) auto
  obtain n where n: "node_at s i = Some n"
    using Suc.prems(1) by (auto simp: bind_eq_Some_conv)
  show ?case
  proof (cases "sn_Comment n \<or> sn_Children n = []")
    case False
    then obtain u where "sexp_children (sexp_walk k s) s (sn_Children n) = Some u" "t = ''('' @ sn_Type n @ u @ '')''"
      using Suc.prems(1) n by auto
    moreover have "sexp_children (sexp_walk l' s) s (sn_Children n) = Some u" if "sexp_children (sexp_walk k s) s (sn_Children n) = Some u" for u
      using sexp_children_mono [OF _ that, of "sexp_walk l' s"] Suc.IH [OF _ l(2)] by blast
    ultimately show ?thesis
      using False n l(1) by simp
  qed (use Suc.prems n l in auto)
qed simp

lemma sexp_kept:
  assumes "code_kept es g s s'" "tree_ok s" "tree_ok s'" "code_at s i"
  shows "\<exists>t. sexp s i = Some t \<and> sexp s' (g i) = Some t"
proof -
  obtain n n' where n: "node_at s i = Some n" "node_at s' (g i) = Some n'"
    using assms(1,4) by (rule code_keptE)
  obtain t t' where t: "sexp s i = Some t" "sexp s' (g i) = Some t'"
    using sexp_defined [OF assms(2) n(1)] sexp_defined [OF assms(3) n(2)] by blast
  let ?k = "length (sx_Nodes s) + 1" and ?l = "length (sx_Nodes s') + 1"
  have "sexp_walk (max ?k ?l) s' (g i) = Some t" "sexp_walk (max ?k ?l) s' (g i) = Some t'"
    using sexp_walk_mono [OF sexp_walk_kept [OF assms(1-4)], of ?k t "max ?k ?l"] sexp_walk_mono [of ?l s' "g i" t' "max ?k ?l"] t
    by (simp_all add: sexp_def)
  then show ?thesis
    using t by simp
qed

lemma enclosing_mono: "enclosing k s b p = Some y \<Longrightarrow> k \<le> l \<Longrightarrow> enclosing l s b p = Some y"
proof (induction k arbitrary: p l)
  case (Suc k)
  then obtain l' where "l = Suc l'" "k \<le> l'"
    by (cases l) auto
  then show ?case
    using Suc by (auto simp: bind_eq_Some_conv split: if_splits option.splits)
qed simp

text \<open>The positions of the symbols found so far, in both runs.\<close>

definition renamed_keys :: "(int \<Rightarrow> int) \<Rightarrow> (int \<times> nat) list \<Rightarrow> (int \<times> nat) list" where
  "renamed_keys g b = map (\<lambda>x. (g (fst x), snd x)) b"

lemma map_of_renamed:
  assumes "inj_on g A" "fst ` set b \<subseteq> A" "i \<in> A"
  shows "map_of (renamed_keys g b) (g i) = map_of b i"
  using assms by (induction b) (auto simp: renamed_keys_def dest: inj_onD)

lemma map_put_renamed:
  assumes "inj_on g A" "fst ` set b \<subseteq> A" "i \<in> A"
  shows "map_put (g i) v (renamed_keys g b) = renamed_keys g (map_put i v b)"
  using assms by (induction b) (auto simp: renamed_keys_def dest: inj_onD)

lemma enclosing_step:
  assumes "code_kept es g s s'" "fst ` set b \<subseteq> {i. code_at s i}"
  shows "(0 \<le> p \<longrightarrow> code_at s p) \<Longrightarrow> enclosing k s b p = Some y \<Longrightarrow> enclosing k s' (renamed_keys g b) (g p) = Some y"
proof (induction k arbitrary: p)
  case (Suc k)
  show ?case
  proof (cases "p < 0")
    case False
    then have code: "code_at s p"
      using Suc.prems(1) by simp
    obtain n n' where n: "node_at s p = Some n" "node_at s' (g p) = Some n'" "node_kept es g s s' n n'"
      using assms(1) code by (rule code_keptE)
    have "map_of (renamed_keys g b) (g p) = map_of b p"
      using map_of_renamed [OF _ assms(2)] assms(1) code by (auto simp: code_kept_def)
    then show ?thesis
      using Suc.IH [of "sn_Parent n"] Suc.prems(2) n False code_kept_signs [OF assms(1), of p]
      by (auto simp: node_kept_def split: option.splits)
  qed (use Suc.prems code_kept_signs [OF assms(1), of p] in auto)
qed simp

lemma enclosing_kept:
  assumes "code_kept es g s s'" "tree_ok s" "tree_ok s'" "fst ` set b \<subseteq> {i. code_at s i}" "code_at s i" "node_at s i = Some n"
  shows "\<exists>y. enclosing (length (sx_Nodes s) + 1) s b (sn_Parent n) = Some y \<and>
    enclosing (length (sx_Nodes s') + 1) s' (renamed_keys g b) (g (sn_Parent n)) = Some y"
proof -
  obtain n' where n: "node_at s' (g i) = Some n'" "node_kept es g s s' n n'"
    using code_keptE [OF assms(1,5)] assms(6) by (metis option.inject)
  let ?k = "length (sx_Nodes s) + 1" and ?l = "length (sx_Nodes s') + 1" and ?b = "renamed_keys g b"
  have "sn_Parent n < int (length (sx_Nodes s))" "sn_Parent n' < int (length (sx_Nodes s'))" "sn_Parent n' = g (sn_Parent n)"
    using tree_okD(1) [OF assms(2,6)] tree_okD(1) [OF assms(3) n(1)] assms(6) n by (auto simp: node_at_Some node_kept_def)
  then obtain y y' where y: "enclosing ?k s b (sn_Parent n) = Some y" "enclosing ?l s' ?b (g (sn_Parent n)) = Some y'"
    using enclosing_defined [OF assms(2), of "sn_Parent n" "length (sx_Nodes s)" b]
      enclosing_defined [OF assms(3), of "sn_Parent n'" "length (sx_Nodes s')" ?b] by auto
  have "enclosing ?k s' ?b (g (sn_Parent n)) = Some y"
    using enclosing_step [OF assms(1,4) _ y(1)] n(2) by (auto simp: node_kept_def)
  then have "enclosing (max ?k ?l) s' ?b (g (sn_Parent n)) = Some y" "enclosing (max ?k ?l) s' ?b (g (sn_Parent n)) = Some y'"
    using enclosing_mono y(2) by (metis max.cobounded1, metis max.cobounded2)
  then show ?thesis
    using y by simp
qed

subsection \<open>The symbols of both files\<close>

definition symbol_kept :: "(int \<Rightarrow> int) \<Rightarrow> symbol \<Rightarrow> symbol \<Rightarrow> bool" where
  "symbol_kept g y y' \<longleftrightarrow>
     sb_Name y' = sb_Name y \<and> sb_Kind y' = sb_Kind y \<and> sb_Exported y' = sb_Exported y \<and> sb_Body y' = sb_Body y \<and> sb_node y' = g (sb_node y)"

definition header_kept :: "edit list \<Rightarrow> (int \<Rightarrow> int) \<Rightarrow> syntax_tree \<Rightarrow> syntax_tree \<Rightarrow> raw_symbol \<Rightarrow> bool" where
  "header_kept es g s s' r \<longleftrightarrow> untouched es (header_range s r) (header_range s' (rename_raw g r))"

lemma enclosing_index: "enclosing k s b p = Some (Some oi) \<Longrightarrow> oi \<in> snd ` set b"
  by (induction k arbitrary: p) (force simp: bind_eq_Some_conv split: if_splits option.splits dest: map_of_SomeD)+

text \<open>What one round of the loop computes, part by part.\<close>

definition exported_at :: "syntax_tree \<Rightarrow> syntax_node \<Rightarrow> bool" where
  "exported_at s n \<longleftrightarrow> sn_Parent n \<ge> 0 \<and> sn_Type (sx_Nodes s ! nat (sn_Parent n)) = ''export_statement''"

definition symbol_parts :: "(string \<Rightarrow> string) \<Rightarrow> syntax_tree \<Rightarrow> (int \<times> nat) list \<Rightarrow> symbol list \<Rightarrow> raw_symbol \<Rightarrow> symbol \<Rightarrow> bool" where
  "symbol_parts normal s b out r y \<longleftrightarrow> (\<exists>n own outer text.
     node_at s (rw_sym r) = Some n \<and> Syntax_Text s (rw_name r) = Some own \<and> enclosing (length (sx_Nodes s) + 1) s b (sn_Parent n) = Some outer \<and>
     slice (sx_Source s) (fst (header_range s r)) (snd (header_range s r)) = Some text \<and>
     y = \<lparr>sb_Name = (case outer of None \<Rightarrow> own | Some oi \<Rightarrow> sb_Name (out ! oi) @ ''.'' @ own), sb_Kind = sn_Type n, sb_Exported = exported_at s n,
           sb_Start = sn_Start n, sb_End = sn_End n, sb_Signature = (if exported_at s n then ''export '' @ normal text else normal text),
           sb_Body = (if rw_body r \<ge> 0 then the (sexp s (rw_body r)) else ''''), sb_node = rw_sym r\<rparr>)"

lemma make_symbol_parts:
  assumes "make_symbol letter digit s b out r = Some y"
  shows "symbol_parts (normalizeSignature letter digit) s b out r y"
proof -
  obtain n own outer where n: "node_at s (rw_sym r) = Some n" "Syntax_Text s (rw_name r) = Some own"
      "enclosing (length (sx_Nodes s) + 1) s b (sn_Parent n) = Some outer"
    using assms by (auto simp: make_symbol_def bind_eq_Some_conv)
  have node: "sx_Nodes s ! nat i = m" if "node_at s i = Some m" for i m
    using that by (simp add: node_at_Some)
  show ?thesis
    using assms n node [OF n(1)] unfolding symbol_parts_def make_symbol_def exported_at_def header_range_def
    by (cases "rw_body r \<ge> 0"; cases "sn_Parent n \<ge> 0") (auto simp: bind_eq_Some_conv Let_def dest!: node)
qed

lemma header_moved:
  assumes "code_kept es g s s'" "captures_kept es g s s' r"
  shows "moved es (unat (fst (header_range s r))) (unat (fst (header_range s' (rename_raw g r)))) \<and>
    moved es (unat (snd (header_range s r))) (unat (snd (header_range s' (rename_raw g r))))"
proof -
  have start: "moved es (unat (sn_Start (sx_Nodes s ! nat i))) (unat (sn_Start (sx_Nodes s' ! nat (g i)))) \<and>
      moved es (unat (sn_End (sx_Nodes s ! nat i))) (unat (sn_End (sx_Nodes s' ! nat (g i))))" if "code_at s i" for i
    using assms(1) that by (rule code_keptE) (auto simp: node_kept_def node_at_Some)
  show ?thesis
    using start [of "rw_sym r"] start [of "rw_body r"] assms(2) code_kept_signs [OF assms(1), of "rw_body r"]
    by (auto simp: header_range_def rename_raw_def captures_kept_def Let_def)
qed

lemma exported_kept:
  assumes "code_kept es g s s'" "node_kept es g s s' n n'"
  shows "exported_at s' n' = exported_at s n"
proof (cases "0 \<le> sn_Parent n")
  case True
  then have "code_at s (sn_Parent n)"
    using assms(2) by (simp add: node_kept_def)
  then have "sn_Type (sx_Nodes s' ! nat (g (sn_Parent n))) = sn_Type (sx_Nodes s ! nat (sn_Parent n))"
    using assms(1) by (elim code_keptE) (auto simp: node_at_Some node_kept_def)
  then show ?thesis
    using assms(2) True code_kept_signs [OF assms(1), of "sn_Parent n"] by (auto simp: exported_at_def node_kept_def)
qed (use assms(2) code_kept_signs [OF assms(1), of "sn_Parent n"] in \<open>auto simp: exported_at_def node_kept_def\<close>)

lemma make_symbol_kept:
  assumes "code_kept es g s s'" "tree_ok s" "tree_ok s'" "captures_kept es g s s' r"
    and "fst ` set b \<subseteq> {i. code_at s i}" "\<forall>x \<in> set b. snd x < length out" "map sb_Name out' = map sb_Name out"
  shows "\<exists>y y'. make_symbol letter digit s b out r = Some y \<and> make_symbol letter digit s' (renamed_keys g b) out' (rename_raw g r) = Some y' \<and>
    symbol_kept g y y' \<and> (header_kept es g s s' r \<longrightarrow> sb_Signature y' = sb_Signature y)"
proof -
  let ?r = "rename_raw g r" and ?b = "renamed_keys g b" and ?normal = "normalizeSignature letter digit"
  have r: "rw_sym ?r = g (rw_sym r)" "rw_name ?r = g (rw_name r)" "rw_body ?r = g (rw_body r)"
    by (simp_all add: rename_raw_def)
  have ok: "captures_ok s r" "captures_ok s' ?r" "code_at s (rw_sym r)" "code_at s (rw_name r)" "0 \<le> rw_body r \<longrightarrow> code_at s (rw_body r)"
      "untouched es (node_range s (rw_name r)) (node_range s' (g (rw_name r)))"
    using assms(4) by (auto simp: captures_kept_def)
  obtain y y' where y: "make_symbol letter digit s b out r = Some y" "make_symbol letter digit s' ?b out' ?r = Some y'"
    using make_symbol_defined [OF assms(2) ok(1)] make_symbol_defined [OF assms(3) ok(2)] by blast
  obtain n n' where n: "node_at s (rw_sym r) = Some n" "node_at s' (g (rw_sym r)) = Some n'" "node_kept es g s s' n n'"
    using assms(1) ok(3) by (rule code_keptE)
  obtain own where own: "Syntax_Text s (rw_name r) = Some own" "Syntax_Text s' (g (rw_name r)) = Some own"
    using Syntax_Text_kept [OF assms(1-3) ok(4,6)] by blast
  have parent: "sn_Parent n' = g (sn_Parent n)" "sn_Type n' = sn_Type n" "0 \<le> sn_Parent n \<longrightarrow> code_at s (sn_Parent n)"
    using n(3) by (auto simp: node_kept_def)
  obtain outer where outer: "enclosing (length (sx_Nodes s) + 1) s b (sn_Parent n) = Some outer"
      "enclosing (length (sx_Nodes s') + 1) s' ?b (sn_Parent n') = Some outer"
    using enclosing_kept [OF assms(1-3,5) ok(3) n(1)] parent(1) by auto
  have qual: "sb_Name (out' ! oi) = sb_Name (out ! oi)" if "outer = Some oi" for oi
    using enclosing_index [of _ s b "sn_Parent n" oi] outer(1) that assms(6,7) by (metis imageE length_map nth_map)
  have exported: "exported_at s' n' = exported_at s n"
    using assms(1) n(3) by (rule exported_kept)
  have body: "(if g (rw_body r) \<ge> 0 then the (sexp s' (g (rw_body r))) else '''') = (if rw_body r \<ge> 0 then the (sexp s (rw_body r)) else '''')"
    using sexp_kept [OF assms(1-3), of "rw_body r"] ok(5) code_kept_signs [OF assms(1), of "rw_body r"] by (auto simp: not_le)
  obtain t where t: "slice (sx_Source s) (fst (header_range s r)) (snd (header_range s r)) = Some t"
      "y = \<lparr>sb_Name = (case outer of None \<Rightarrow> own | Some oi \<Rightarrow> sb_Name (out ! oi) @ ''.'' @ own), sb_Kind = sn_Type n, sb_Exported = exported_at s n,
        sb_Start = sn_Start n, sb_End = sn_End n, sb_Signature = (if exported_at s n then ''export '' @ ?normal t else ?normal t),
        sb_Body = (if rw_body r \<ge> 0 then the (sexp s (rw_body r)) else ''''), sb_node = rw_sym r\<rparr>"
    using make_symbol_parts [OF y(1)] n(1) own(1) outer(1) by (clarsimp simp: symbol_parts_def)
  obtain t' where t': "slice (sx_Source s') (fst (header_range s' ?r)) (snd (header_range s' ?r)) = Some t'"
      "y' = \<lparr>sb_Name = (case outer of None \<Rightarrow> own | Some oi \<Rightarrow> sb_Name (out' ! oi) @ ''.'' @ own), sb_Kind = sn_Type n', sb_Exported = exported_at s' n',
        sb_Start = sn_Start n', sb_End = sn_End n', sb_Signature = (if exported_at s' n' then ''export '' @ ?normal t' else ?normal t'),
        sb_Body = (if g (rw_body r) \<ge> 0 then the (sexp s' (g (rw_body r))) else ''''), sb_node = g (rw_sym r)\<rparr>"
    using make_symbol_parts [OF y(2)] n(2) own(2) outer(2) by (clarsimp simp: symbol_parts_def r)
  have "t' = t" if "header_kept es g s s' r"
    using slice_kept [OF assms(1) _ _ _ t(1) t'(1)] header_moved [OF assms(1,4)] that by (simp add: header_kept_def)
  then show ?thesis
    using y t(2) t'(2) exported body parent(2) qual by (cases outer) (simp_all add: symbol_kept_def)
qed

definition symbol_same :: "edit list \<Rightarrow> (int \<Rightarrow> int) \<Rightarrow> syntax_tree \<Rightarrow> syntax_tree \<Rightarrow> raw_symbol list \<Rightarrow> symbol \<Rightarrow> symbol \<Rightarrow> bool" where
  "symbol_same es g s s' raws y y' \<longleftrightarrow> symbol_kept g y y' \<and>
     ((\<forall>r \<in> set raws. rw_sym r = sb_node y \<longrightarrow> header_kept es g s s' r) \<longrightarrow> sb_Signature y' = sb_Signature y)"

lemma map_put_subset: "set (map_put k v b) \<subseteq> insert (k, v) (set b)"
  by (induction b) auto

lemma symbol_same_names: "list_all2 (symbol_same es g s s' raws) out out' \<Longrightarrow> map sb_Name out' = map sb_Name out"
  by (induction rule: list_all2_induct) (simp_all add: symbol_same_def symbol_kept_def)

lemma extract_loop_kept:
  assumes "code_kept es g s s'" "tree_ok s" "tree_ok s'" "\<forall>r \<in> set raws. captures_kept es g s s' r"
  shows "set rs \<subseteq> set raws \<Longrightarrow> fst ` set b \<subseteq> {i. code_at s i} \<Longrightarrow> \<forall>x \<in> set b. snd x < length out \<Longrightarrow>
    list_all2 (symbol_same es g s s' raws) out out' \<Longrightarrow>
    \<exists>ys ys'. extract_loop letter digit s b out rs = Some ys \<and> extract_loop letter digit s' (renamed_keys g b) out' (map (rename_raw g) rs) = Some ys' \<and>
      list_all2 (symbol_same es g s s' raws) ys ys'"
proof (induction rs arbitrary: b out out')
  case (Cons r rs)
  have r: "captures_kept es g s s' r" "code_at s (rw_sym r)" "rw_sym (rename_raw g r) = g (rw_sym r)"
    using Cons.prems(1) assms(4) by (auto simp: captures_kept_def rename_raw_def)
  have inj: "inj_on g {i. code_at s i}"
    using assms(1) by (simp add: code_kept_def)
  have keys: "map_of (renamed_keys g b) (g (rw_sym r)) = map_of b (rw_sym r)"
      "map_put (g (rw_sym r)) v (renamed_keys g b) = renamed_keys g (map_put (rw_sym r) v b)" for v
    using map_of_renamed [OF inj Cons.prems(2)] map_put_renamed [OF inj Cons.prems(2)] r(2) by simp_all
  show ?case
  proof (cases "map_of b (rw_sym r) = None")
    case False
    then show ?thesis
      using Cons.IH [OF _ Cons.prems(2-4)] Cons.prems(1) by (simp add: r(3) keys)
  next
    case True
    obtain y y' where y: "make_symbol letter digit s b out r = Some y" "make_symbol letter digit s' (renamed_keys g b) out' (rename_raw g r) = Some y'"
        "symbol_kept g y y'" "header_kept es g s s' r \<longrightarrow> sb_Signature y' = sb_Signature y"
      using make_symbol_kept [OF assms(1-3) r(1) Cons.prems(2,3) symbol_same_names [OF Cons.prems(4)]] by blast
    have "symbol_same es g s s' raws y y'"
      using y make_symbol_node [OF y(1)] Cons.prems(1) by (simp add: symbol_same_def)
    then have "list_all2 (symbol_same es g s s' raws) (out @ [y]) (out' @ [y'])"
      using Cons.prems(4) by (simp add: list_all2_appendI)
    moreover have "fst ` set (map_put (rw_sym r) (length out) b) \<subseteq> {i. code_at s i}" "\<forall>x \<in> set (map_put (rw_sym r) (length out) b). snd x < length (out @ [y])"
      using map_put_subset [of "rw_sym r" "length out" b] Cons.prems(2,3) r(2) by fastforce+
    moreover have "length out' = length out"
      using Cons.prems(4) by (simp add: list_all2_lengthD)
    ultimately show ?thesis
      using Cons.IH [of "map_put (rw_sym r) (length out) b" "out @ [y]" "out' @ [y']"] Cons.prems(1) True y(1,2) by (simp add: r(3) keys)
  qed
qed simp

lemma go_insert_map:
  "\<forall>y \<in> set ys. lt' (f y) (f x) = lt y x \<Longrightarrow> go_insert lt' (f x) (map f ys) = map f (go_insert lt x ys)"
  by (induction ys) auto

lemma go_sort_map:
  "\<forall>x \<in> set xs. \<forall>y \<in> set xs. lt' (f x) (f y) = lt x y \<Longrightarrow> go_sort lt' (map f xs) = map f (go_sort lt xs)"
proof (induction xs)
  case (Cons x xs)
  then have "go_sort lt' (map f xs) = map f (go_sort lt xs)"
    by simp
  moreover have "\<forall>y \<in> set (go_sort lt xs). lt' (f y) (f x) = lt y x"
    using Cons.prems by simp
  ultimately show ?case
    using go_insert_map [of "go_sort lt xs" lt' f x lt] by (simp add: go_sort_def)
qed (simp add: go_sort_def)

lemma raw_symbols_rename:
  assumes "g (-1) = -1" "\<And>i. g i < 0 \<longleftrightarrow> i < 0"
  shows "raw_symbols (map (rename_match g) matches) = map (rename_raw g) (raw_symbols matches)"
proof -
  have "raw_capture (rename_raw g r) (c\<lparr>ca_Node := g (ca_Node c)\<rparr>) = rename_raw g (raw_capture r c)" for r c
    by (simp add: raw_capture_def rename_raw_def)
  then have "foldl raw_capture (rename_raw g r) (map (\<lambda>c. c\<lparr>ca_Node := g (ca_Node c)\<rparr>) cs) = rename_raw g (foldl raw_capture r cs)" for r cs
    by (induction cs arbitrary: r) simp_all
  from this [of "\<lparr>rw_sym = -1, rw_name = -1, rw_body = -1\<rparr>"]
  have "foldl raw_capture \<lparr>rw_sym = -1, rw_name = -1, rw_body = -1\<rparr> (sq_Captures (rename_match g m)) =
      rename_raw g (foldl raw_capture \<lparr>rw_sym = -1, rw_name = -1, rw_body = -1\<rparr> (sq_Captures m))" for m
    by (simp add: rename_match_def rename_raw_def assms(1))
  then show ?thesis
    by (simp add: raw_symbols_def filter_map comp_def rename_raw_def assms(2))
qed

lemma ExtractSymbols_kept:
  assumes "code_kept es g s s'" "tree_ok s" "tree_ok s'" "\<forall>r \<in> set (raw_symbols matches). captures_kept es g s s' r"
    and "order_kept g s s' (raw_symbols matches)"
  shows "\<exists>ys ys'. ExtractSymbols letter digit s matches = Some ys \<and> ExtractSymbols letter digit s' (map (rename_match g) matches) = Some ys' \<and>
    list_all2 (symbol_same es g s s' (raw_symbols matches)) ys ys'"
proof -
  let ?raws = "raw_symbols matches"
  have raws: "raw_symbols (map (rename_match g) matches) = map (rename_raw g) ?raws"
    using code_kept_signs [OF assms(1)] by (intro raw_symbols_rename) auto
  have sort: "go_sort (raw_less s') (map (rename_raw g) ?raws) = map (rename_raw g) (go_sort (raw_less s) ?raws)"
    using assms(5) unfolding order_kept_def by (rule go_sort_map)
  have "\<forall>r \<in> set ?raws. node_at s (rw_sym r) \<noteq> None \<and> node_at s' (rw_sym (rename_raw g r)) \<noteq> None"
    using assms(4) by (auto simp: captures_kept_def captures_ok_def)
  then show ?thesis
    using extract_loop_kept [OF assms(1-4), of "go_sort (raw_less s) ?raws" "[]" "[]" "[]" letter digit]
    by (auto simp: ExtractSymbols_def Let_def raws sort list_all_iff renamed_keys_def)
qed

end
