(* ===== verification/Verifier.thy ===== *)
theory Verifier
  imports Symbols Go_Filepath Runtime
begin

section \<open>Resolving and verifying anchors\<close>

text \<open>
  The resolver and the verifier of \<^verbatim>\<open>internal/app/anchors.go\<close>. The file system during one call and the source parser are
  arguments; the resolver's cache is threaded through, the verifier reads the anchor index of the read models and issues
  its commands to the pipeline, the command \<open>n\<close> of a call at the time \<open>clk n\<close>. As in \<open>Symbols\<close>, a panic is \<open>None\<close>.
\<close>

datatype service_error = ServiceError go_error | ServiceApp app_error | ServiceWrap go_error app_error

datatype stat_error = NotExist | StatError go_error

record file_info =
  fi_IsDir :: bool
  fi_ModTime :: go_time
  fi_Size :: int

record file_system =
  fs_Stat :: "string \<Rightarrow> stat_error + file_info"
  fs_ReadFile :: "string \<Rightarrow> go_error + bytes"

record syntax_parser =
  sp_Supports :: "string \<Rightarrow> bool"
  sp_LanguageName :: "string \<Rightarrow> string"
  sp_Parse :: "string \<Rightarrow> bytes \<Rightarrow> go_error + syntax_tree \<times> symbol_match list"

subsection \<open>Resolver\<close>

record resolved =
  rz_Anchor :: anchor
  rz_Hash :: hash3
  rz_Exists :: bool
  rz_Language :: string
  rz_Degraded :: bool

definition zero_resolved :: resolved where
  "zero_resolved = \<lparr>rz_Anchor = zero_anchor, rz_Hash = zero_hash3, rz_Exists = False, rz_Language = '''', rz_Degraded = False\<rparr>"

record parsed_file =
  pf_mtime :: go_time
  pf_size :: int
  pf_hash :: string
  pf_symbols :: "symbol list"
  pf_lang :: string

type_synonym resolver_cache = "(string \<times> parsed_file) list"

text \<open>The functions of the standard library that a resolver uses are part of its record.\<close>

record resolver =
  rv_Root :: string
  rv_Parser :: "syntax_parser option"
  rv_H :: "bytes \<Rightarrow> bytes"
  rv_letter :: "nat \<Rightarrow> bool"
  rv_digit :: "nat \<Rightarrow> bool"

definition ErrUnsupportedScheme :: go_error where
  "ErrUnsupportedScheme = ''resolver: only code:// anchors resolve in v0''"

text \<open>The parsed form of the bytes of a file.\<close>

definition parse_source :: "resolver \<Rightarrow> string \<Rightarrow> file_info \<Rightarrow> bytes \<Rightarrow> (go_error + parsed_file) option" where
  "parse_source r rel fi src =
     (let pf = \<lparr>pf_mtime = fi_ModTime fi, pf_size = fi_Size fi, pf_hash = FileHash (rv_H r) src, pf_symbols = [], pf_lang = ''generic''\<rparr> in
      case rv_Parser r of
        None \<Rightarrow> Some (Inr pf)
      | Some sp \<Rightarrow>
        if sp_Supports sp rel
        then (case sp_Parse sp rel src of
                Inl err \<Rightarrow> Some (Inl (Sprintf ''resolver: parse %s: %w'' [rel, err]))
              | Inr (syn, matches) \<Rightarrow>
                  do { syms \<leftarrow> ExtractSymbols (rv_letter r) (rv_digit r) syn matches;
                       Some (Inr (pf\<lparr>pf_symbols := syms, pf_lang := sp_LanguageName sp rel\<rparr>)) })
        else Some (Inr pf))"

definition load :: "resolver \<Rightarrow> file_system \<Rightarrow> string \<Rightarrow> resolver_cache \<Rightarrow> ((go_error + parsed_file option) \<times> resolver_cache) option" where
  "load r fs rel cache =
     (let full = filepath_Join (rv_Root r) rel in
      case fs_Stat fs full of
        Inl NotExist \<Rightarrow> Some (Inr None, cache)
      | Inl (StatError err) \<Rightarrow> Some (Inl err, cache)
      | Inr fi \<Rightarrow>
        if fi_IsDir fi then Some (Inr None, cache)
        else
          let fresh = (case fs_ReadFile fs full of
                 Inl err \<Rightarrow> Some (Inl err, cache)
               | Inr src \<Rightarrow>
                   do { pf \<leftarrow> parse_source r rel fi src;
                        Some (case pf of Inl err \<Rightarrow> (Inl err, cache) | Inr p \<Rightarrow> (Inr (Some p), map_put rel p cache)) }) in
          (case map_of cache rel of
             Some c \<Rightarrow> if pf_mtime c = fi_ModTime fi \<and> pf_size c = fi_Size fi then Some (Inr (Some c), cache) else fresh
           | None \<Rightarrow> fresh))"

definition fileSurfaceHash :: "(bytes \<Rightarrow> bytes) \<Rightarrow> parsed_file \<Rightarrow> hash3" where
  "fileSurfaceHash H pf =
     (let sigs = concat (map (\<lambda>y. sb_Name y @ ''|'' @ sb_Signature y @ [CHR 0x0A]) (pf_symbols pf));
          bodies = concat (map (\<lambda>y. sb_Name y @ ''|'' @ sb_Body y @ [CHR 0x0A]) (pf_symbols pf)) in
      \<lparr>h3_Signature = FileHash H sigs, h3_Body = FileHash H bodies, h3_File = pf_hash pf\<rparr>)"

text \<open>What an anchor resolves to in a loaded file.\<close>

definition resolve_in :: "(bytes \<Rightarrow> bytes) \<Rightarrow> anchor \<Rightarrow> parsed_file \<Rightarrow> resolved" where
  "resolve_in H a pf =
     (let res = \<lparr>rz_Anchor = a, rz_Hash = zero_hash3, rz_Exists = True, rz_Language = pf_lang pf, rz_Degraded = False\<rparr> in
      if pf_lang pf = ''generic''
      then res\<lparr>rz_Hash := \<lparr>h3_Signature = pf_hash pf, h3_Body = pf_hash pf, h3_File = pf_hash pf\<rparr>, rz_Degraded := (an_Symbol a \<noteq> '''')\<rparr>
      else if an_Symbol a = '''' then res\<lparr>rz_Hash := fileSurfaceHash H pf\<rparr>
      else case FindSymbol (pf_symbols pf) (an_Symbol a) of
        (y, ok) \<Rightarrow> if \<not> ok then res\<lparr>rz_Exists := False\<rparr> else res\<lparr>rz_Hash := Hash3Of H y (pf_hash pf)\<rparr>)"

definition Resolver_Resolve :: "resolver \<Rightarrow> file_system \<Rightarrow> anchor \<Rightarrow> resolver_cache \<Rightarrow> ((resolved \<times> go_error option) \<times> resolver_cache) option" where
  "Resolver_Resolve r fs a cache =
     (if an_Scheme a \<noteq> SchemeCode then Some ((zero_resolved\<lparr>rz_Anchor := a\<rparr>, Some ErrUnsupportedScheme), cache)
      else do { (pf, cache') \<leftarrow> load r fs (an_Path a) cache;
                Some (case pf of
                        Inl err \<Rightarrow> ((zero_resolved\<lparr>rz_Anchor := a\<rparr>, Some err), cache')
                      | Inr None \<Rightarrow> ((zero_resolved\<lparr>rz_Anchor := a\<rparr>, None), cache')
                      | Inr (Some p) \<Rightarrow> ((resolve_in (rv_H r) a p, None), cache')) })"

definition snapshot_symbol :: "(bytes \<Rightarrow> bytes) \<Rightarrow> string \<Rightarrow> parsed_file \<Rightarrow> (string \<times> hash3) list \<Rightarrow> symbol \<Rightarrow> (string \<times> hash3) list" where
  "snapshot_symbol H f pf out y =
     map_put (Anchor_String \<lparr>an_Scheme = SchemeCode, an_Path = f, an_Symbol = sb_Name y\<rparr>) (Hash3Of H y (pf_hash pf)) out"

fun snapshot_loop :: "resolver \<Rightarrow> file_system \<Rightarrow> (string \<times> hash3) list \<Rightarrow> string list \<Rightarrow> resolver_cache \<Rightarrow>
    ((go_error + (string \<times> hash3) list) \<times> resolver_cache) option" where
  "snapshot_loop r fs out [] cache = Some (Inr out, cache)"
| "snapshot_loop r fs out (f # files) cache =
     do { (pf, cache') \<leftarrow> load r fs f cache;
          (case pf of
             Inl err \<Rightarrow> Some (Inl err, cache')
           | Inr None \<Rightarrow> snapshot_loop r fs out files cache'
           | Inr (Some p) \<Rightarrow>
               if pf_lang p = ''generic'' then snapshot_loop r fs out files cache'
               else snapshot_loop r fs (foldl (snapshot_symbol (rv_H r) f p) out (pf_symbols p)) files cache') }"

definition Resolver_Snapshot :: "resolver \<Rightarrow> file_system \<Rightarrow> string list \<Rightarrow> resolver_cache \<Rightarrow>
    ((go_error + (string \<times> hash3) list) \<times> resolver_cache) option" where
  "Resolver_Snapshot r fs files cache = snapshot_loop r fs [] files cache"

subsection \<open>Verifier\<close>

record verify_result =
  vr_Key :: string
  vr_Before :: anchor_state
  vr_After :: anchor_state
  vr_Change :: hash_change
  vr_Exists :: bool
  vr_Language :: string
  vr_Degraded :: bool
  vr_Skipped :: string

record verify_report =
  vp_Ref :: string
  vp_Results :: "verify_result list"
  vp_Moves :: "move list"

definition VerifyReport_Count :: "verify_report \<Rightarrow> anchor_state \<Rightarrow> int" where
  "VerifyReport_Count r s = int (length (filter (\<lambda>x. vr_After x = s) (vp_Results r)))"

definition idemFor :: "string \<Rightarrow> string \<Rightarrow> string \<Rightarrow> string \<Rightarrow> string" where
  "idemFor op ref key observed = (if ref = '''' then '''' else op @ '':'' @ ref @ '':'' @ key @ '':'' @ observed)"

definition observation :: "resolved \<Rightarrow> string" where
  "observation r =
     (if \<not> rz_Exists r then ''missing''
      else take 12 (h3_Signature (rz_Hash r)) @ ''.'' @ take 12 (h3_Body (rz_Hash r)) @ ''.'' @ take 12 (h3_File (rz_Hash r)))"

record 'l verifier =
  vf_Pipeline :: "('l, read_models) options"
  vf_Resolver :: resolver

type_synonym 'l verifier_state = "resolver_cache \<times> ('l \<times> read_models)"

definition Verifier_Record :: "'l verifier \<Rightarrow> file_system \<Rightarrow> go_time \<Rightarrow> actor_ref \<Rightarrow> string \<Rightarrow> string \<Rightarrow> 'l verifier_state \<Rightarrow>
    ((resolved \<times> service_error option) \<times> 'l verifier_state) option" where
  "Verifier_Record v fs now actor key ref x =
     (case ParseAnchor key of
        Inl err \<Rightarrow> Some ((zero_resolved, Some (ServiceError err)), x)
      | Inr a \<Rightarrow>
        do { ((res, err), cache) \<leftarrow> Resolver_Resolve (vf_Resolver v) fs a (fst x);
             Some (case err of
                Some e \<Rightarrow> ((res, Some (ServiceError e)), (cache, snd x))
              | None \<Rightarrow>
                if \<not> rz_Exists res
                then ((res, Some (ServiceError (Sprintf ''record %s: not found in the working tree'' [key]))), (cache, snd x))
                else case Pipeline_Handle (vf_Pipeline v) app_handlers now actor
                       (CmdAnchor (RecordAnchor \<lparr>ra_Cmd = \<lparr>at_Key = Anchor_String a, at_Idem = idemFor ''record'' ref (Anchor_String a) (observation res)\<rparr>,
                          ra_Hash = rz_Hash res, ra_Ref = ref\<rparr>)) (snd x) of
                       ((_, herr), st) \<Rightarrow> ((res, map_option ServiceApp herr), (cache, st))) })"

definition verify_command :: "string \<Rightarrow> anchor_summary \<Rightarrow> resolved \<Rightarrow> command" where
  "verify_command ref an res =
     CmdAnchor (VerifyAnchor \<lparr>va_Cmd = \<lparr>at_Key = au_Key an, at_Idem = idemFor ''verify'' ref (au_Key an) (observation res)\<rparr>,
       va_Current = rz_Hash res, va_Exists = rz_Exists res, va_Ref = ref\<rparr>)"

definition skipped_result :: "anchor_summary \<Rightarrow> verify_result" where
  "skipped_result an = \<lparr>vr_Key = au_Key an, vr_Before = au_State an, vr_After = au_State an, vr_Change = HashNone, vr_Exists = False,
     vr_Language = '''', vr_Degraded = False, vr_Skipped = ''scheme not resolvable in v0''\<rparr>"

definition anchor_result :: "anchor_summary \<Rightarrow> anchor_state \<Rightarrow> resolved \<Rightarrow> verify_result" where
  "anchor_result an after res = \<lparr>vr_Key = au_Key an, vr_Before = au_State an, vr_After = after,
     vr_Change = (if rz_Exists res then Hash3_Cmp (au_Hash an) (rz_Hash res) else HashNone),
     vr_Exists = rz_Exists res, vr_Language = rz_Language res, vr_Degraded = rz_Degraded res, vr_Skipped = ''''\<rparr>"

text \<open>The loop over the recorded anchors: the report so far, the hashes of symbol anchors, the number of commands issued.\<close>

fun verify_loop :: "'l verifier \<Rightarrow> file_system \<Rightarrow> (nat \<Rightarrow> go_time) \<Rightarrow> actor_ref \<Rightarrow> string \<Rightarrow> string list option \<Rightarrow> nat \<Rightarrow>
    verify_report \<Rightarrow> (string \<times> hash3) list \<Rightarrow> anchor_summary list \<Rightarrow> 'l verifier_state \<Rightarrow>
    ((verify_report \<times> (string \<times> hash3) list \<times> nat \<times> service_error option) \<times> 'l verifier_state) option" where
  "verify_loop v fs clk actor ref files n rep before [] x = Some ((rep, before, n, None), x)"
| "verify_loop v fs clk actor ref files n rep before (an # ans) x =
     (if an_Scheme (au_Anchor an) \<noteq> SchemeCode
      then verify_loop v fs clk actor ref files n (rep\<lparr>vp_Results := vp_Results rep @ [skipped_result an]\<rparr>) before ans x
      else if (case files of None \<Rightarrow> False | Some fl \<Rightarrow> an_Path (au_Anchor an) \<notin> set fl)
      then verify_loop v fs clk actor ref files n rep before ans x
      else let before' = (if an_Symbol (au_Anchor an) \<noteq> '''' then map_put (au_Key an) (au_Hash an) before else before) in
        do { ((res, err), cache) \<leftarrow> Resolver_Resolve (vf_Resolver v) fs (au_Anchor an) (fst x);
             (case err of
                Some e \<Rightarrow> Some ((rep, before', n, Some (ServiceError e)), (cache, snd x))
              | None \<Rightarrow>
                (case Pipeline_Handle (vf_Pipeline v) app_handlers (clk n) actor (verify_command ref an res) (snd x) of
                   ((_, Some herr), st) \<Rightarrow> Some ((rep, before', Suc n, Some (ServiceApp herr)), (cache, st))
                 | ((_, None), st) \<Rightarrow>
                     let after = au_State (fst (AnchorIndex_Get (rm_anchors (snd st)) (au_Key an))) in
                     verify_loop v fs clk actor ref files (Suc n) (rep\<lparr>vp_Results := vp_Results rep @ [anchor_result an after res]\<rparr>) before' ans
                       (cache, st))) })"

definition move_command :: "string \<Rightarrow> (string \<times> hash3) list \<Rightarrow> move \<Rightarrow> command" where
  "move_command ref after m =
     (let from = Anchor_String (mv_From m); to = Anchor_String (mv_To m) in
      CmdAnchor (MoveAnchor \<lparr>ma_Cmd = \<lparr>at_Key = from, at_Idem = idemFor ''move'' ref from to\<rparr>, ma_To = to,
        ma_Hash = map_get zero_hash3 after to, ma_Ref = ref\<rparr>))"

fun move_loop :: "'l verifier \<Rightarrow> (nat \<Rightarrow> go_time) \<Rightarrow> actor_ref \<Rightarrow> string \<Rightarrow> (string \<times> hash3) list \<Rightarrow> nat \<Rightarrow> verify_report \<Rightarrow> move list \<Rightarrow>
    'l \<times> read_models \<Rightarrow> (verify_report \<times> service_error option) \<times> ('l \<times> read_models)" where
  "move_loop v clk actor ref after n rep [] st = ((rep, None), st)"
| "move_loop v clk actor ref after n rep (m # ms) st =
     (case Pipeline_Handle (vf_Pipeline v) app_handlers (clk n) actor (move_command ref after m) st of
        ((_, Some herr), st') \<Rightarrow> ((rep, Some (ServiceApp herr)), st')
      | ((_, None), st') \<Rightarrow> move_loop v clk actor ref after (Suc n) (rep\<lparr>vp_Moves := vp_Moves rep @ [m]\<rparr>) ms st')"

definition Verifier_Verify :: "'l verifier \<Rightarrow> file_system \<Rightarrow> (nat \<Rightarrow> go_time) \<Rightarrow> actor_ref \<Rightarrow> string \<Rightarrow> string list option \<Rightarrow>
    'l verifier_state \<Rightarrow> ((verify_report \<times> service_error option) \<times> 'l verifier_state) option" where
  "Verifier_Verify v fs clk actor ref files x =
     do { ((rep, before, n, err), y) \<leftarrow> verify_loop v fs clk actor ref files 0 \<lparr>vp_Ref = ref, vp_Results = [], vp_Moves = []\<rparr> []
            (AnchorIndex_All (rm_anchors (snd (snd x)))) x;
          (case (err, files) of
             (Some e, _) \<Rightarrow> Some ((rep, Some e), y)
           | (None, None) \<Rightarrow> Some ((rep, None), y)
           | (None, Some fl) \<Rightarrow>
               if length before = 0 then Some ((rep, None), y)
               else do { (snap, cache) \<leftarrow> Resolver_Snapshot (vf_Resolver v) fs fl (fst y);
                         Some (case snap of
                            Inl e \<Rightarrow> ((rep, Some (ServiceError e)), (cache, snd y))
                          | Inr after \<Rightarrow>
                              (case move_loop v clk actor ref after n rep (DetectMoves before after) (snd y) of
                                 (out, st) \<Rightarrow> (out, (cache, st)))) }) }"

end
