(* ===== verification/Deriver.thy ===== *)
theory Deriver
  imports Verifier
begin

section \<open>Deriving changes from commits\<close>

text \<open>
  \<^verbatim>\<open>internal/app/derive.go\<close>: a commit becomes a Change whose impact is the constraints that its symbols and files touch. The
  repository (\<^verbatim>\<open>port.Commits\<close>), the source parser and the new id are arguments; the indexes are those of the read models. A panic of
  the extraction of symbols is \<open>None\<close>.
\<close>

record commit =
  cm_SHA :: string
  cm_Parents :: "string list"
  cm_AuthorEmail :: string
  cm_Message :: string
  cm_At :: go_time

record file_change =
  fc_Path :: string
  fc_OldPath :: string
  fc_Status :: string

record commits =
  cs_Commit :: "string \<Rightarrow> go_error + commit"
  cs_ChangedIn :: "string \<Rightarrow> go_error + file_change list"
  cs_Content :: "string \<Rightarrow> string \<Rightarrow> go_error + bytes \<times> bool"

record derived =
  dr_ChangeID :: ID
  dr_SHA :: string
  dr_Files :: "string list"
  dr_Anchors :: "string list"
  dr_Constraints :: "ID list"
  dr_Sessions :: "string list"
  dr_Settled :: bool
  dr_Replayed :: bool

definition zero_derived :: derived where
  "zero_derived = \<lparr>dr_ChangeID = '''', dr_SHA = '''', dr_Files = [], dr_Anchors = [], dr_Constraints = [], dr_Sessions = [],
     dr_Settled = False, dr_Replayed = False\<rparr>"

record 'l deriver =
  dv_Pipeline :: "('l, read_models) options"
  dv_Commits :: commits
  dv_Parser :: "syntax_parser option"
  dv_Sessions :: bool
  dv_Repo :: string
  dv_SessionWindow :: duration
  dv_H :: "bytes \<Rightarrow> bytes"
  dv_letter :: "nat \<Rightarrow> bool"
  dv_digit :: "nat \<Rightarrow> bool"

subsection \<open>Anchors of a file change\<close>

definition symbolHashes :: "'l deriver \<Rightarrow> syntax_parser \<Rightarrow> string \<Rightarrow> bytes \<Rightarrow> (go_error + (string \<times> hash3) list) option" where
  "symbolHashes d sp path src =
     (case sp_Parse sp path src of
        Inl err \<Rightarrow> Some (Inl (Sprintf ''derive: parse %s: %w'' [path, err]))
      | Inr (syn, matches) \<Rightarrow>
          do { syms \<leftarrow> ExtractSymbols (dv_letter d) (dv_digit d) syn matches;
               let file = FileHash (dv_H d) src;
               Some (Inr (foldl (\<lambda>out y. map_put (Anchor_String \<lparr>an_Scheme = SchemeCode, an_Path = path, an_Symbol = sb_Name y\<rparr>)
                                         (Hash3Of (dv_H d) y file) out) [] syms)) })"

text \<open>The symbols of a file at a commit; a file that does not exist there has none.\<close>

definition symbols_at :: "'l deriver \<Rightarrow> syntax_parser \<Rightarrow> string \<Rightarrow> string \<Rightarrow> string \<Rightarrow> (go_error + (string \<times> hash3) list) option" where
  "symbols_at d sp rv at path =
     (case cs_Content (dv_Commits d) rv at of
        Inl err \<Rightarrow> Some (Inl err)
      | Inr (src, ok) \<Rightarrow> if ok then symbolHashes d sp path src else Some (Inr []))"

definition compare_symbols :: "(string \<times> hash3) list \<Rightarrow> (string \<times> hash3) list \<Rightarrow> string list" where
  "compare_symbols old new =
     map fst (filter (\<lambda>(a, h). case map_of new a of None \<Rightarrow> True | Some nh \<Rightarrow> hash_change_rank (Hash3_Cmp h nh) \<ge> hash_change_rank HashBody) old) @
     map fst (filter (\<lambda>(a, h). map_of old a = None) new)"

definition file_anchor :: "string \<Rightarrow> string" where
  "file_anchor path = Anchor_String \<lparr>an_Scheme = SchemeCode, an_Path = path, an_Symbol = ''''\<rparr>"

definition changedAnchors :: "'l deriver \<Rightarrow> string \<Rightarrow> string \<Rightarrow> file_change \<Rightarrow> (go_error + string list) option" where
  "changedAnchors d parent commitish fc =
     (case dv_Parser d of
        None \<Rightarrow> Some (Inr [file_anchor (fc_Path fc)])
      | Some sp \<Rightarrow>
        if \<not> sp_Supports sp (fc_Path fc) then Some (Inr [file_anchor (fc_Path fc)])
        else do {
          old \<leftarrow> (if parent \<noteq> '''' \<and> fc_Status fc \<noteq> ''A''
                  then symbols_at d sp parent (if fc_OldPath fc \<noteq> '''' then fc_OldPath fc else fc_Path fc) (fc_Path fc)
                  else Some (Inr []));
          (case old of
             Inl err \<Rightarrow> Some (Inl err)
           | Inr before \<Rightarrow>
               do { new \<leftarrow> (if fc_Status fc \<noteq> ''D'' then symbols_at d sp commitish (fc_Path fc) (fc_Path fc) else Some (Inr []));
                    Some (case new of
                       Inl err \<Rightarrow> Inl err
                     | Inr after \<Rightarrow>
                         let out = compare_symbols before after;
                             out' = (if length out = 0 \<and> (fc_Status fc = ''A'' \<or> fc_Status fc = ''D'') then [file_anchor (fc_Path fc)] else out) in
                         Inr (go_sort (<) out')) }) })"

text \<open>The loop over the changed files: files and the set of anchors so far, in the order in which they were added.\<close>

fun changed_loop :: "'l deriver \<Rightarrow> string \<Rightarrow> string \<Rightarrow> file_change list \<Rightarrow> string list \<Rightarrow> (string \<times> bool) list \<Rightarrow>
    (go_error option \<times> string list \<times> (string \<times> bool) list) option" where
  "changed_loop d parent commitish [] files seen = Some (None, files, seen)"
| "changed_loop d parent commitish (fc # fcs) files seen =
     do { r \<leftarrow> changedAnchors d parent commitish fc;
          (case r of
             Inl err \<Rightarrow> Some (Some err, files @ [fc_Path fc], seen)
           | Inr anchors \<Rightarrow>
               changed_loop d parent commitish fcs (files @ [fc_Path fc]) (foldl (\<lambda>s a. map_put a True s) seen anchors)) }"

subsection \<open>Impact\<close>

text \<open>The closure \<^verbatim>\<open>add\<close>: the constraints added so far, whose ids are those seen.\<close>

definition add_impact :: "ID list \<Rightarrow> constraint_summary \<Rightarrow> ID list" where
  "add_impact ids c =
     (if cu_ID c \<in> set ids \<or> (cu_State c \<noteq> CStateVerified \<and> cu_State c \<noteq> CStateReview) then ids else ids @ [cu_ID c])"

definition derive_impact :: "constraint_index \<Rightarrow> string \<Rightarrow> string list \<Rightarrow> string list \<Rightarrow> ID list" where
  "derive_impact constraints repo anchors files =
     (let bound = foldl (\<lambda>ids a. foldl add_impact ids (BoundTo constraints a)) [] anchors in
      foldl (\<lambda>ids f. foldl (\<lambda>ids c. if length (cu_Anchors c) = 0 then add_impact ids c else ids) ids
               (InForce constraints (zero_scope_key\<lparr>sk_Repo := repo, sk_PathGlob := f\<rparr>))) bound files)"

subsection \<open>Derive\<close>

definition existing_change :: "index_order \<Rightarrow> read_models \<Rightarrow> derived \<Rightarrow> string \<Rightarrow> derived option" where
  "existing_change order p out commitish =
     (case ChangeIndex_ByRef order (rm_changes p) commitish of
        (e, True) \<Rightarrow> Some (out\<lparr>dr_ChangeID := hs_ID e, dr_Replayed := True, dr_Settled := (hs_State e = StateSettled)\<rparr>)
      | (_, False) \<Rightarrow> None)"

definition open_command :: "'l deriver \<Rightarrow> actor_ref \<Rightarrow> ID \<Rightarrow> commit \<Rightarrow> derived \<Rightarrow> ID list \<Rightarrow> command" where
  "open_command d actor i c out impact =
     CmdChange (OpenChange \<lparr>oh_Cmd = \<lparr>hc_ID = i, hc_Idem = ''derive:'' @ cm_SHA c\<rparr>, oh_ChangeKind = KindRealization,
       oh_Mode = (if length (dr_Sessions out) > 0 then ModeSession else ModeManual), oh_Scope = zero_scope_key\<lparr>sk_Repo := dv_Repo d\<rparr>,
       oh_IntentRef = '''', oh_NoIntent = True,
       oh_Impact = \<lparr>im_Constraints = map (\<lambda>k. \<lparr>ir_Constraint = k, ir_Relation = RelReferences\<rparr>) impact, im_Decisions = [], im_Anchors = dr_Anchors out\<rparr>,
       oh_Proposal = Some \<lparr>pr_Ref = cm_SHA c, pr_Actor = actor, pr_At = cm_At c, pr_Sig = ''''\<rparr>,
       oh_Sessions = dr_Sessions out\<rparr>)"

definition settle_command :: "ID \<Rightarrow> commit \<Rightarrow> command" where
  "settle_command i c = CmdChange (Settle \<lparr>st_Cmd = \<lparr>hc_ID = i, hc_Idem = ''derive:settle:'' @ cm_SHA c\<rparr>, st_Derived = []\<rparr>)"

text \<open>From the open change on: the two commands, at the times \<open>clk 0\<close> and \<open>clk 1\<close>; \<open>order\<close> is that of the second look at the index.\<close>

definition derive_open :: "'l deriver \<Rightarrow> index_order \<Rightarrow> (nat \<Rightarrow> go_time) \<Rightarrow> actor_ref \<Rightarrow> ID \<Rightarrow> commit \<Rightarrow> derived \<Rightarrow> ID list \<Rightarrow> 'l \<times> read_models \<Rightarrow>
    (derived \<times> service_error option) \<times> ('l \<times> read_models)" where
  "derive_open d order clk actor i c out impact st =
     (case Pipeline_Handle (dv_Pipeline d) app_handlers (clk 0) actor (open_command d actor i c out impact) st of
        ((_, Some err), st') \<Rightarrow> ((out, Some (ServiceWrap (''derive '' @ cm_SHA c @ '': '') err)), st')
      | ((res, None), st') \<Rightarrow>
        (case (if re_Replayed res then existing_change order (snd st') out (cm_SHA c) else None) of
           Some old \<Rightarrow> ((old, None), st')
         | None \<Rightarrow>
           let out' = out\<lparr>dr_ChangeID := i\<rparr> in
           if length impact = 0
           then (case Pipeline_Handle (dv_Pipeline d) app_handlers (clk 1) actor (settle_command i c) st' of
                   ((_, Some err), st'') \<Rightarrow> ((out', Some (ServiceWrap (''settle '' @ cm_SHA c @ '': '') err)), st'')
                 | ((_, None), st'') \<Rightarrow> ((out'\<lparr>dr_Settled := True\<rparr>, None), st''))
           else ((out', None), st')))"

definition derive_commit :: "'l deriver \<Rightarrow> read_models \<Rightarrow> commit \<Rightarrow> string list \<Rightarrow> string list \<Rightarrow> derived \<times> ID list" where
  "derive_commit d p c files anchors =
     (let impact = go_sort (<) (derive_impact (rm_constraints p) (dv_Repo d) anchors files);
          window = (if dv_SessionWindow d = 0 then 24 * Hour else dv_SessionWindow d);
          sessions = (if dv_Sessions d then SessionIndex_Touching (rm_sessions p) (dv_Repo d) files (cm_At c - window) else []) in
      (zero_derived\<lparr>dr_SHA := cm_SHA c, dr_Files := files, dr_Anchors := anchors, dr_Constraints := impact, dr_Sessions := sessions\<rparr>, impact))"

text \<open>\<open>order 0\<close> and \<open>order 1\<close> are the orders in which the two loops over the index visit it.\<close>

definition Deriver_Derive :: "'l deriver \<Rightarrow> (nat \<Rightarrow> index_order) \<Rightarrow> (nat \<Rightarrow> go_time) \<Rightarrow> ID \<Rightarrow> actor_ref \<Rightarrow> string \<Rightarrow> 'l \<times> read_models \<Rightarrow>
    ((derived \<times> service_error option) \<times> ('l \<times> read_models)) option" where
  "Deriver_Derive d order clk i actor commitish st =
     (case cs_Commit (dv_Commits d) commitish of
        Inl err \<Rightarrow> Some ((zero_derived, Some (ServiceError err)), st)
      | Inr c \<Rightarrow>
        (case cs_ChangedIn (dv_Commits d) (cm_SHA c) of
           Inl err \<Rightarrow> Some ((zero_derived, Some (ServiceError err)), st)
         | Inr changes \<Rightarrow>
           do { (err, files, anchorSet) \<leftarrow>
                  changed_loop d (if length (cm_Parents c) > 0 then cm_Parents c ! 0 else '''') (cm_SHA c) changes [] [];
                Some (case err of
                   Some e \<Rightarrow> ((zero_derived\<lparr>dr_SHA := cm_SHA c, dr_Files := files\<rparr>, Some (ServiceError e)), st)
                 | None \<Rightarrow>
                   (case derive_commit d (snd st) c files (go_sort (<) (map fst anchorSet)) of
                      (out, impact) \<Rightarrow>
                        (case existing_change (order 0) (snd st) out (cm_SHA c) of
                           Some old \<Rightarrow> ((old, None), st)
                         | None \<Rightarrow> derive_open d (order 1) clk actor i c out impact st))) }))"

end
