(* ===== verification/Service_Facts.thy ===== *)
theory Service_Facts
  imports Views Deriver
begin

section \<open>Facts about the services over the pipeline\<close>

text \<open>
  What a command that returns without an error has done, as the services that issue commands need it, and what they lead to.
\<close>

subsection \<open>Accepted commands\<close>

definition decided :: "(mem_ledger, read_models) options \<Rightarrow> go_time \<Rightarrow> actor_ref \<Rightarrow> command \<Rightarrow> mem_ledger \<times> read_models \<Rightarrow> event list \<Rightarrow> bool" where
  "decided opt now actor cmd st events \<longleftrightarrow>
     (\<exists>evs dctx. stream_history opt (l_all (fst st)) (cmd_Stream cmd) evs \<and> context_for opt now actor cmd (snd st) = Inr dctx \<and>
        Now dctx = now \<and> Root_Decide (Replay Root_Apply (stream_zero (cmd_Stream cmd)) evs) cmd dctx = Inr events)"

lemma mem_Lookup_error: "mem_Lookup l s k = Inl err \<Longrightarrow> err = ErrNotFound"
  by (auto simp: mem_Lookup_def split: option.splits)

lemma replayed_no_events:
  assumes "handle opt zero now actor cmd st = ((res, err), st')" "re_Replayed res"
  shows "re_Events res = []"
proof -
  have "re_Events r = []" if "append_events opt now actor cmd dctx version events st = ((r, e), st'')" "re_Replayed r" for r e dctx version events st''
    using that by (auto simp: append_events_def Let_def zero_result_def split: sum.splits prod.splits if_splits option.splits)
  then have "re_Events r = []" if "decide_step opt zero now actor cmd st = ((r, e), st'')" "re_Replayed r" for r e st''
    using that by (auto simp: decide_step_def Let_def zero_result_def split: sum.splits prod.splits if_splits)
  then show ?thesis
    using assms by (auto simp: handle_def Let_def zero_result_def split: sum.splits prod.splits if_splits option.splits)
qed

lemma daemon_accepted:
  assumes json: "json_roundtrip mar un" and reach: "daemon_reaches H J mar un sg l p"
    and st: "Pipeline_Handle (daemon_options H J mar un) app_handlers now actor cmd (l, p) = ((res, None), (l', p'))"
  obtains (replayed) "Actor_Validate actor = None" "\<not> fresh_key l cmd" "re_Replayed res" "l' = l" "p' = p"
  | (unchanged) "Actor_Validate actor = None" "fresh_key l cmd" "decided (daemon_options H J mar un) now actor cmd (l, p) []" "l' = l" "p' = p"
  | (events) "Actor_Validate actor = None" "fresh_key l cmd" "\<not> re_Replayed res" "written_step (daemon_options H J mar un) now actor cmd (l, p) (l', p')"
proof -
  let ?opt = "daemon_options H J mar un"
  obtain zero where zero: "map_of app_handlers (cmd_Kind cmd) = Some zero"
    using handler_of_command by metis
  have h: "handle ?opt zero now actor cmd (l, p) = ((res, None), (l', p'))"
    using st zero by (simp add: Pipeline_Handle_def)
  have actor: "Actor_Validate actor = None"
    using h by (cases "Actor_Validate actor") (auto simp: handle_def Let_def split: prod.splits)
  show thesis
  proof (cases "fresh_key l cmd")
    case False
    then obtain prev where "cmd_Idem cmd \<noteq> ''''" "mem_Lookup l (cmd_Stream cmd) (cmd_Idem cmd) = Inr prev"
      using mem_Lookup_error by (cases "mem_Lookup l (cmd_Stream cmd) (cmd_Idem cmd)") (auto simp: fresh_key_def)
    then have "handle ?opt zero now actor cmd (l, p) =
        ((zero_result\<lparr>re_Stream := cmd_Stream cmd, re_Version := e_Ver prev, re_Replayed := True\<rparr>, None), (l, p))"
      using actor by (simp add: handle_def mem_port_def)
    then have "res = zero_result\<lparr>re_Stream := cmd_Stream cmd, re_Version := e_Ver prev, re_Replayed := True\<rparr>" "l' = l" "p' = p"
      using h by simp_all
    then show thesis
      using actor False by (intro replayed) simp_all
  next
    case True
    obtain evs dctx where out: "stream_history ?opt (l_all l) (cmd_Stream cmd) evs" "context_for ?opt now actor cmd p = Inr dctx" "Now dctx = now"
        "decision_outcome ?opt cmd (Root_Decide (Replay Root_Apply (stream_zero (cmd_Stream cmd)) evs) cmd dctx) (l, p) (res, None) (l', p')"
      using fresh_outcome [OF json reach actor True st] by blast
    obtain events where dec: "Root_Decide (Replay Root_Apply (stream_zero (cmd_Stream cmd)) evs) cmd dctx = Inr events"
      using out(4) by (cases "Root_Decide (Replay Root_Apply (stream_zero (cmd_Stream cmd)) evs) cmd dctx") (auto simp: decision_outcome_def)
    show thesis
    proof (cases "events = []")
      case True
      then have same: "l' = l" "p' = p"
        using out(4) dec by (auto simp: decision_outcome_def)
      have "decided ?opt now actor cmd (l, p) []"
        unfolding decided_def using out(1-3) dec True by auto
      then show thesis
        using actor \<open>fresh_key l cmd\<close> same by (intro unchanged)
    next
      case False
      then have "written ?opt cmd events (l_all l) (l_all l')" "re_Events res \<noteq> []"
        using out(4) dec by (auto simp: decision_outcome_def)
      then show thesis
        using events actor \<open>fresh_key l cmd\<close> replayed_no_events [OF h] decide_written_step [OF json reach reach_step [OF reach st] out(1,2) dec] by blast
    qed
  qed
qed

lemma notify_fields:
  "rm_constraints (notify daemon_projectors w (EvChange e) p) = rm_constraints p"
  "rm_sessions (notify daemon_projectors w (EvChange e) p) = rm_sessions p"
  "rm_changes (notify daemon_projectors w (EvChange e) p) = ChangeIndex_on e (rm_changes p)"
  by (simp_all add: daemon_projectors_def)

subsection \<open>Entries of the change index\<close>

text \<open>The orders in which a loop may visit the index.\<close>

definition loop_order :: "index_order \<Rightarrow> bool" where
  "loop_order order \<longleftrightarrow> (\<forall>c. mset (order c) = mset c)"

lemma loop_order_set: "loop_order order \<Longrightarrow> set (order c) = set c"
  unfolding loop_order_def by (metis set_mset_mset)

text \<open>A decided event puts the entry of its change; an entry that was there keeps its id and its references.\<close>

lemma Change_decide_entry:
  assumes "Change_Decide c m ctx = Inr es"
  shows "\<exists>e. es = [e] \<and> ch_State (Change_Apply c e) \<noteq> StateNone \<and>
    ch_ID (Change_Apply c e) = (if ch_State c = StateNone then hc_ID (Change_cmd_part m) else ch_ID c) \<and>
    (\<forall>idx. let k = ch_ID (Change_Apply c e); x = chg_get (ChangeIndex_on e idx) k in ChangeIndex_on e idx = map_put k x idx \<and>
       (if ch_State c = StateNone then hs_ID x = k
        else hs_ID x = hs_ID (chg_get idx (ch_ID c)) \<and> set (hs_Refs (chg_get idx (ch_ID c))) \<subseteq> set (hs_Refs x)))"
proof (cases m)
  case (OpenChange x)
  then show ?thesis
    using assms by (auto simp: change_open_def Let_def split: option.splits if_splits)
qed (use assms in \<open>auto simp: change_addProposal_Inr change_judge_Inr change_deploy_Inr change_recordOutcome_Inr
       change_settle_Inr Let_def split: if_splits\<close>)

text \<open>Keys are ids and occur once, and there is an entry exactly for the changes that were opened.\<close>

fun change_keys :: "change_index \<Rightarrow> string \<Rightarrow> aggregate_root \<Rightarrow> bool" where
  "change_keys idx s (AggChange c) \<longleftrightarrow> distinct (map_keys idx) \<and> (\<forall>x \<in> set idx. hs_ID (snd x) = fst x) \<and>
     (ch_State c \<noteq> StateNone \<longrightarrow> s = ChangeStream (ch_ID c)) \<and>
     (\<forall>k. s = ChangeStream k \<longrightarrow> (map_of idx k \<noteq> None \<longleftrightarrow> ch_State c \<noteq> StateNone))"
| "change_keys idx s _ \<longleftrightarrow> distinct (map_keys idx) \<and> (\<forall>x \<in> set idx. hs_ID (snd x) = fst x)"

declare change_keys.simps [simp del]

lemma change_keys_wf: "change_keys idx s a \<Longrightarrow> distinct (map_keys idx) \<and> (\<forall>x \<in> set idx. hs_ID (snd x) = fst x)"
  by (cases a) (simp_all add: change_keys.simps)

lemma ChangeStream_inject [simp]: "ChangeStream i = ChangeStream k \<longleftrightarrow> i = k"
  by (simp add: ChangeStream_def)

lemma map_put_ids: "\<forall>x \<in> set m. f (snd x) = fst x \<Longrightarrow> f v = k \<Longrightarrow> \<forall>x \<in> set (map_put k v m). f (snd x) = fst x"
  by (induction m) auto

lemma change_entry_put:
  assumes dec: "Change_Decide c m ctx = Inr es" and own: "change_keys idx (ChangeStream (hc_ID (Change_cmd_part m))) (AggChange c)"
  obtains e x where "es = [e]" "ch_State (Change_Apply c e) \<noteq> StateNone" "ch_ID (Change_Apply c e) = hc_ID (Change_cmd_part m)"
    "ChangeIndex_on e idx = map_put (hc_ID (Change_cmd_part m)) x idx" "hs_ID x = hc_ID (Change_cmd_part m)"
    "\<And>y. map_of idx (hc_ID (Change_cmd_part m)) = Some y \<Longrightarrow> set (hs_Refs y) \<subseteq> set (hs_Refs x)"
proof -
  let ?k = "hc_ID (Change_cmd_part m)"
  obtain e x where e: "es = [e]" "ch_State (Change_Apply c e) \<noteq> StateNone"
      "ch_ID (Change_Apply c e) = (if ch_State c = StateNone then ?k else ch_ID c)" "ChangeIndex_on e idx = map_put (ch_ID (Change_Apply c e)) x idx"
      "if ch_State c = StateNone then hs_ID x = ch_ID (Change_Apply c e)
        else hs_ID x = hs_ID (chg_get idx (ch_ID c)) \<and> set (hs_Refs (chg_get idx (ch_ID c))) \<subseteq> set (hs_Refs x)"
    using Change_decide_entry [OF dec] unfolding Let_def by blast
  have id: "ch_ID (Change_Apply c e) = ?k"
    using e(3) own by (auto simp: change_keys.simps split: if_splits)
  have own': "(\<forall>x \<in> set idx. hs_ID (snd x) = fst x) \<and> (ch_State c \<noteq> StateNone \<longrightarrow> ?k = ch_ID c) \<and> (map_of idx ?k \<noteq> None \<longleftrightarrow> ch_State c \<noteq> StateNone)"
    using own by (simp add: change_keys.simps del: map_of_eq_Some_iff)
  have put: "ChangeIndex_on e idx = map_put ?k x idx"
    using e(4) unfolding id .
  show thesis
  proof (cases "ch_State c = StateNone")
    case True
    then have none: "map_of idx ?k = None"
      using own by (simp add: change_keys.simps)
    have "hs_ID x = ?k"
      using e(5) id True by simp
    then show thesis
      using that [OF e(1,2) id put] none by simp
  next
    case False
    have k: "ch_ID c = ?k" "map_of idx ?k \<noteq> None" and ids: "\<forall>x \<in> set idx. hs_ID (snd x) = fst x"
      using own' False by (simp, blast, blast)
    obtain y where y: "map_of idx ?k = Some y"
      using k(2) by blast
    have "hs_ID y = ?k"
      using bspec [OF ids map_of_SomeD [OF y]] by simp
    moreover have "chg_get idx (ch_ID c) = y"
      using y k(1) by (simp add: map_get_def)
    ultimately show thesis
      using that [OF e(1,2) id put] e(5) y k(1) False by simp
  qed
qed

interpretation change_entries: stream_view change_keys "\<lambda>_. ChangeIndex_Handle" rm_changes
proof
  fix s show "change_keys (rm_changes empty_models) s (stream_zero s)"
    using stream_zero_cases [of s] by (auto simp: zero_change_def empty_models_def change_keys.simps)
next
  fix a c ctx es idx
  assume dec: "Root_Decide a c ctx = Inr es" and own: "change_keys idx (cmd_Stream c) a"
  from dec show "change_keys (fold ChangeIndex_Handle es idx) (cmd_Stream c) (Replay Root_Apply a es)"
  proof (cases rule: Root_Decide_cases)
    case (change x m xs)
    have own': "change_keys idx (ChangeStream (hc_ID (Change_cmd_part m))) (AggChange x)"
      using own change by simp
    obtain e y where "xs = [e]" "ch_State (Change_Apply x e) \<noteq> StateNone" "ch_ID (Change_Apply x e) = hc_ID (Change_cmd_part m)"
        "ChangeIndex_on e idx = map_put (hc_ID (Change_cmd_part m)) y idx" "hs_ID y = hc_ID (Change_cmd_part m)"
      by (rule change_entry_put [OF change(4) own'])
    then show ?thesis
      using change own map_put_ids [of idx hs_ID y "hc_ID (Change_cmd_part m)"] by (auto simp: Replay_lift fold_own change_keys.simps)
  qed (use own in \<open>simp_all add: Replay_lift fold_map_id change_keys.simps\<close>)
  show "change_keys (fold ChangeIndex_Handle es idx) t b"
    if "t \<noteq> cmd_Stream c" "change_keys idx t b" for t b
    using dec
  proof (cases rule: Root_Decide_cases)
    case (change x m xs)
    have own': "change_keys idx (ChangeStream (hc_ID (Change_cmd_part m))) (AggChange x)"
      using own change by simp
    obtain e y where y: "xs = [e]" "ChangeIndex_on e idx = map_put (hc_ID (Change_cmd_part m)) y idx" "hs_ID y = hc_ID (Change_cmd_part m)"
      by (rule change_entry_put [OF change(4) own'])
    then have "distinct (map_keys (map_put (hc_ID (Change_cmd_part m)) y idx)) \<and> (\<forall>x \<in> set (map_put (hc_ID (Change_cmd_part m)) y idx). hs_ID (snd x) = fst x)"
      using change_keys_wf [OF that(2)] map_put_ids [of idx hs_ID y] by simp
    then show ?thesis
      using y change that by (cases b) (auto simp: fold_own change_keys.simps)
  qed (use that in \<open>simp_all add: fold_map_id\<close>)
qed (simp_all add: daemon_projectors_def)

lemma change_index_wf:
  assumes "json_roundtrip mar un" "daemon_reaches H J mar un sg l p"
  shows "distinct (map_keys (rm_changes p)) \<and> (\<forall>x \<in> set (rm_changes p). hs_ID (snd x) = fst x)"
proof -
  have s: "ChangeStream '''' \<noteq> RejectedStream"
    by (simp add: ChangeStream_def)
  then obtain evs where "stream_history (daemon_options H J mar un) (l_all (fst (l, p))) (ChangeStream '''') evs"
    using daemon_ok(2) [OF assms] unfolding streams_ok_def by auto
  from change_keys_wf [OF change_entries.run_shown [OF assms(1,2) s this]] show ?thesis
    by simp
qed

text \<open>No command removes an entry or one of its references.\<close>

lemma change_entry_step:
  assumes json: "json_roundtrip mar un" and reach: "daemon_reaches H J mar un sg l p"
    and st: "Pipeline_Handle (daemon_options H J mar un) app_handlers now actor cmd (l, p) = (out, (l', p'))"
    and e: "map_of (rm_changes p) k = Some e"
  shows "\<exists>e'. map_of (rm_changes p') k = Some e' \<and> set (hs_Refs e) \<subseteq> set (hs_Refs e')"
  using daemon_step_cases [OF json reach st]
proof (elim disjE)
  assume "written_step (daemon_options H J mar un) now actor cmd (l, p) (l', p')"
  then obtain evs dctx events sealed where w: "stream_history (daemon_options H J mar un) (l_all l) (cmd_Stream cmd) evs"
      "Root_Decide (Replay Root_Apply (stream_zero (cmd_Stream cmd)) evs) cmd dctx = Inr events"
      "list_all2 (decodes (daemon_options H J mar un)) sealed events" "\<forall>e \<in> set sealed. e_Stream e = cmd_Stream cmd"
      "p' = project_log daemon_projectors sealed events p"
    by (auto simp: written_step_def)
  have idx: "rm_changes p' = fold ChangeIndex_Handle events (rm_changes p)"
    using change_entries.index_project_log [OF list_all2_lengthD [OF w(3)] w(4)] w(5) by simp
  have own: "change_keys (rm_changes p) (cmd_Stream cmd) (Replay Root_Apply (stream_zero (cmd_Stream cmd)) evs)"
    using change_entries.run_shown [OF json reach cmd_Stream_not_rejected] w(1) by simp
  from w(2) show ?thesis
  proof (cases rule: Root_Decide_cases)
    case (change x m xs)
    have own': "change_keys (rm_changes p) (ChangeStream (hc_ID (Change_cmd_part m))) (AggChange x)"
      using own change by simp
    obtain ev y where y: "xs = [ev]" "ChangeIndex_on ev (rm_changes p) = map_put (hc_ID (Change_cmd_part m)) y (rm_changes p)"
        "\<forall>z. map_of (rm_changes p) (hc_ID (Change_cmd_part m)) = Some z \<longrightarrow> set (hs_Refs z) \<subseteq> set (hs_Refs y)"
      by (rule change_entry_put [OF change(4) own']) blast
    show ?thesis
      using y(3) e by (cases "k = hc_ID (Change_cmd_part m)") (simp_all add: idx change y(1,2))
  qed (use e idx in \<open>simp_all add: fold_map_id\<close>)
next
  assume "rejected_step (l, p) (l', p')"
  then have "rm_changes p' = rm_changes p"
    by (auto simp: rejected_step_def change_entries.index_notify)
  then show ?thesis
    using e by simp
qed (use e in \<open>simp add: no_step_def\<close>)

lemma reachable_trans: "reachable opt st1 st2 \<Longrightarrow> reachable opt st0 st1 \<Longrightarrow> reachable opt st0 st2"
  by (induction rule: reachable.induct) (auto intro: reachable.intros)

lemma change_entry_kept:
  assumes "reachable (daemon_options H J mar un) st st'" "json_roundtrip mar un" "daemon_reaches H J mar un sg (fst st) (snd st)"
    and "map_of (rm_changes (snd st)) k = Some e"
  shows "\<exists>e'. map_of (rm_changes (snd st')) k = Some e' \<and> set (hs_Refs e) \<subseteq> set (hs_Refs e')"
  using assms(1)
proof (induction rule: reachable.induct)
  case (reach_step st1 now actor cmd out st2)
  obtain e1 where e1: "map_of (rm_changes (snd st1)) k = Some e1" "set (hs_Refs e) \<subseteq> set (hs_Refs e1)"
    using reach_step.IH by blast
  have "daemon_reaches H J mar un sg (fst st1) (snd st1)"
    using reachable_trans [OF reach_step(1)] assms(3) by simp
  moreover have "Pipeline_Handle (daemon_options H J mar un) app_handlers now actor cmd (fst st1, snd st1) = (out, (fst st2, snd st2))"
    using reach_step(2) by simp
  ultimately show ?case
    using change_entry_step [OF assms(2) _ _ e1(1)] e1(2) by (meson order_trans)
qed (use assms(4) in simp)

subsection \<open>Deriving a change\<close>

text \<open>The constraints that anchors and files touch.\<close>

definition in_charge :: "constraint_summary \<Rightarrow> bool" where
  "in_charge c \<longleftrightarrow> cu_State c = CStateVerified \<or> cu_State c = CStateReview"

definition touched :: "constraint_index \<Rightarrow> string \<Rightarrow> string list \<Rightarrow> string list \<Rightarrow> constraint_summary \<Rightarrow> bool" where
  "touched constraints repo anchors files c \<longleftrightarrow> in_charge c \<and>
     ((\<exists>a \<in> set anchors. c \<in> set (BoundTo constraints a)) \<or>
      cu_Anchors c = [] \<and> (\<exists>f \<in> set files. c \<in> set (InForce constraints (zero_scope_key\<lparr>sk_Repo := repo, sk_PathGlob := f\<rparr>))))"

lemma add_impact_fold:
  "distinct ids \<Longrightarrow> distinct (foldl add_impact ids cs) \<and> set (foldl add_impact ids cs) = set ids \<union> cu_ID ` {c \<in> set cs. in_charge c}"
proof (induction cs arbitrary: ids)
  case (Cons c cs)
  have "distinct (add_impact ids c)" "set (add_impact ids c) = set ids \<union> cu_ID ` {x \<in> {c}. in_charge x}"
    using Cons.prems by (auto simp: add_impact_def in_charge_def)
  then show ?case
    using Cons.IH [of "add_impact ids c"] by auto
qed simp

lemma add_impact_filter: "foldl (\<lambda>ids c. if length (cu_Anchors c) = 0 then add_impact ids c else ids) ids cs =
    foldl add_impact ids (filter (\<lambda>c. cu_Anchors c = []) cs)"
  by (induction cs arbitrary: ids) simp_all

lemma fold_fold_impact:
  "distinct ids \<Longrightarrow> distinct (foldl (\<lambda>ids x. foldl add_impact ids (f x)) ids xs) \<and>
    set (foldl (\<lambda>ids x. foldl add_impact ids (f x)) ids xs) = set ids \<union> cu_ID ` {c. in_charge c \<and> (\<exists>x \<in> set xs. c \<in> set (f x))}"
proof (induction xs arbitrary: ids)
  case (Cons x xs)
  then show ?case
    using add_impact_fold [OF Cons.prems, of "f x"] Cons.IH [of "foldl add_impact ids (f x)"] by auto
qed simp

lemma derive_impact_set:
  "distinct (derive_impact constraints repo anchors files) \<and>
    set (derive_impact constraints repo anchors files) = cu_ID ` {c. touched constraints repo anchors files c}"
proof -
  let ?bound = "foldl (\<lambda>ids a. foldl add_impact ids (BoundTo constraints a)) [] anchors"
  let ?wide = "\<lambda>f. filter (\<lambda>c. cu_Anchors c = []) (InForce constraints (zero_scope_key\<lparr>sk_Repo := repo, sk_PathGlob := f\<rparr>))"
  have "distinct ?bound" "set ?bound = cu_ID ` {c. in_charge c \<and> (\<exists>a \<in> set anchors. c \<in> set (BoundTo constraints a))}"
    using fold_fold_impact [of "[]" "BoundTo constraints" anchors] by simp_all
  moreover have "{c. touched constraints repo anchors files c} = {c. in_charge c \<and> (\<exists>a \<in> set anchors. c \<in> set (BoundTo constraints a))} \<union>
      {c. in_charge c \<and> (\<exists>f \<in> set files. c \<in> set (?wide f))}"
    by (auto simp: touched_def)
  ultimately show ?thesis
    using fold_fold_impact [of ?bound ?wide files] unfolding derive_impact_def Let_def add_impact_filter by (simp only: image_Un)
qed

text \<open>An id that no record of the ledger is named after.\<close>

definition new_change :: "mem_ledger \<Rightarrow> ID \<Rightarrow> bool" where
  "new_change l i \<longleftrightarrow> stream_log (l_all l) (ChangeStream i) = [] \<and> (\<forall>k. mem_Lookup l (ChangeStream i) k = Inl ErrNotFound)"

text \<open>What the derived change is opened with.\<close>

definition opened_for :: "'l deriver \<Rightarrow> actor_ref \<Rightarrow> ID \<Rightarrow> commit \<Rightarrow> derived \<Rightarrow> ID list \<Rightarrow> change_opened \<Rightarrow> bool" where
  "opened_for d actor i c out impact v \<longleftrightarrow>
     op_ID v = i \<and> op_ChangeKind v = KindRealization \<and> op_Mode v = (if dr_Sessions out = [] then ModeManual else ModeSession) \<and>
     op_Scope v = zero_scope_key\<lparr>sk_Repo := dv_Repo d\<rparr> \<and> op_NoIntent v \<and>
     im_Constraints (op_Impact v) = map (\<lambda>k. \<lparr>ir_Constraint = k, ir_Relation = RelReferences\<rparr>) impact \<and> im_Decisions (op_Impact v) = [] \<and>
     im_Anchors (op_Impact v) = dr_Anchors out \<and> op_Sessions v = dr_Sessions out \<and>
     op_Proposal v = Some \<lparr>pr_Ref = cm_SHA c, pr_Actor = actor, pr_At = cm_At c, pr_Sig = ''''\<rparr>"

lemma open_decision:
  assumes "stream_log es (ChangeStream i) = []" "stream_history opt es (ChangeStream i) evs"
    and "Root_Decide (Replay Root_Apply (stream_zero (ChangeStream i)) evs) (open_command d actor i c out impact) dctx = Inr events"
  shows "\<exists>v. events = [EvChange (ChangeOpened v)] \<and> opened_for d actor i c out impact v"
proof -
  have "evs = []"
    using assms(1,2) by (simp add: stream_history_def)
  moreover have "stream_zero (ChangeStream i) = AggChange zero_change"
    using cmd_zero_stream [of "open_command d actor i c out impact"] by (simp add: open_command_def)
  ultimately have "Root_Decide (AggChange zero_change) (open_command d actor i c out impact) dctx = Inr events"
    using assms(3) by simp
  then show ?thesis
    by (auto simp: open_command_def lift_events_Inr change_open_def opened_for_def Let_def split: if_splits option.splits)
qed

lemma open_written:
  assumes json: "json_roundtrip mar un" and reach: "daemon_reaches H J mar un sg l p" and new: "new_change l i"
    and st: "Pipeline_Handle (daemon_options H J mar un) app_handlers now actor (open_command d actor i c out impact) (l, p) = ((res, None), (l', p'))"
  shows "\<exists>w v. l_all l' = l_all l @ [w] \<and> e_Stream w = ChangeStream i \<and> e_Idem w = ''derive:'' @ cm_SHA c \<and>
    decodes (daemon_options H J mar un) w (EvChange (ChangeOpened v)) \<and> opened_for d actor i c out impact v \<and>
    \<not> re_Replayed res \<and> p' = notify daemon_projectors w (EvChange (ChangeOpened v)) p"
proof -
  let ?cmd = "open_command d actor i c out impact"
  have cmd: "cmd_Stream ?cmd = ChangeStream i" "cmd_Idem ?cmd = ''derive:'' @ cm_SHA c"
    by (simp_all add: open_command_def)
  have fresh: "fresh_key l ?cmd"
    using new by (simp add: fresh_key_def new_change_def cmd)
  have empty: "stream_log (l_all l) (ChangeStream i) = []"
    using new by (simp add: new_change_def)
  from json reach st show ?thesis
  proof (cases rule: daemon_accepted)
    case replayed
    then show ?thesis
      using fresh by simp
  next
    case unchanged
    then show ?thesis
      using open_decision [OF empty] unfolding decided_def cmd by fastforce
  next
    case events
    then show ?thesis
      unfolding written_step_def written_def cmd using open_decision [OF empty] by (fastforce simp: list_all2_Cons2)
  qed
qed

lemma settle_written:
  assumes json: "json_roundtrip mar un" and reach: "daemon_reaches H J mar un sg l p"
    and log: "stream_log (l_all l) (ChangeStream i) = [w]" "decodes (daemon_options H J mar un) w (EvChange (ChangeOpened v))" "op_ID v = i"
    and fresh: "fresh_key l (settle_command i c)"
    and st: "Pipeline_Handle (daemon_options H J mar un) app_handlers now actor (settle_command i c) (l, p) = ((res, None), (l', p'))"
  shows "\<exists>w' s. l_all l' = l_all l @ [w'] \<and> decodes (daemon_options H J mar un) w' (EvChange (Settled s)) \<and> se_ID s = i"
proof -
  let ?cmd = "settle_command i c" and ?opt = "daemon_options H J mar un"
  have cmd: "cmd_Stream ?cmd = ChangeStream i"
    by (simp add: settle_command_def)
  have decision: "\<exists>s. events = [EvChange (Settled s)] \<and> se_ID s = i"
    if d: "stream_history ?opt (l_all l) (ChangeStream i) evs" "Root_Decide (Replay Root_Apply (stream_zero (ChangeStream i)) evs) ?cmd dctx = Inr events"
    for evs dctx events
  proof -
    have "evs = [EvChange (ChangeOpened v)]"
      using d(1) log(1,2) by (auto simp: stream_history_def list_all2_Cons1 decodes_def)
    moreover have "stream_zero (ChangeStream i) = AggChange zero_change"
      using cmd_zero_stream [of ?cmd] by (simp add: settle_command_def)
    ultimately obtain x where "Root_Decide (AggChange x) ?cmd dctx = Inr events" "ch_ID x = i"
      using d(2) log(3) by (auto simp: Let_def split: option.splits)
    then show ?thesis
      by (auto simp: settle_command_def lift_events_Inr change_settle_Inr split: if_splits)
  qed
  from json reach st show ?thesis
  proof (cases rule: daemon_accepted)
    case replayed
    then show ?thesis
      using fresh by simp
  next
    case unchanged
    then show ?thesis
      using decision unfolding decided_def cmd by fastforce
  next
    case events
    then show ?thesis
      unfolding written_step_def cmd using decision by (fastforce simp: list_all2_Cons2)
  qed
qed

subsection \<open>Deriving once and again\<close>

text \<open>What a commit leads to before a change is looked up: the commit, its files and the anchors that they changed.\<close>

definition commit_changes :: "'l deriver \<Rightarrow> string \<Rightarrow> commit \<Rightarrow> string list \<Rightarrow> string list \<Rightarrow> bool" where
  "commit_changes d commitish c files anchors \<longleftrightarrow>
     (\<exists>changes seen. cs_Commit (dv_Commits d) commitish = Inr c \<and> cs_ChangedIn (dv_Commits d) (cm_SHA c) = Inr changes \<and>
        changed_loop d (if length (cm_Parents c) > 0 then cm_Parents c ! 0 else '''') (cm_SHA c) changes [] [] = Some (None, files, seen) \<and>
        anchors = go_sort (<) (map fst seen))"

lemma Deriver_Derive_changes:
  assumes "commit_changes d commitish c files anchors"
  shows "Deriver_Derive d order clk i actor commitish st =
    Some (case derive_commit d (snd st) c files anchors of (out, impact) \<Rightarrow>
      (case existing_change (order 0) (snd st) out (cm_SHA c) of
         Some old \<Rightarrow> ((old, None), st)
       | None \<Rightarrow> derive_open d (order 1) clk actor i c out impact st))"
  using assms unfolding commit_changes_def Deriver_Derive_def by (elim exE conjE) simp

lemma Deriver_Derive_returned:
  assumes "Deriver_Derive d order clk i actor commitish st = Some ((out, None), st')"
  obtains c files anchors where "commit_changes d commitish c files anchors"
proof -
  obtain c changes where c: "cs_Commit (dv_Commits d) commitish = Inr c" "cs_ChangedIn (dv_Commits d) (cm_SHA c) = Inr changes"
    using assms by (auto simp: Deriver_Derive_def split: sum.splits)
  obtain files seen where "changed_loop d (if length (cm_Parents c) > 0 then cm_Parents c ! 0 else '''') (cm_SHA c) changes [] [] = Some (None, files, seen)"
    using assms c by (auto simp: Deriver_Derive_def bind_eq_Some_conv split: option.splits)
  then show thesis
    using that c unfolding commit_changes_def by blast
qed

lemma find_found: "List.find P xs = Some x \<Longrightarrow> x \<in> set xs \<and> P x"
  by (induction xs) (auto split: if_splits)

lemma existing_change_Some:
  assumes "loop_order order" "existing_change order p out ref = Some old"
  shows "\<exists>k e. (k, e) \<in> set (rm_changes p) \<and> ref \<in> set (hs_Refs e) \<and>
    old = out\<lparr>dr_ChangeID := hs_ID e, dr_Replayed := True, dr_Settled := (hs_State e = StateSettled)\<rparr>"
proof -
  obtain e where e: "List.find (\<lambda>e. list_ex (\<lambda>r. r = ref) (hs_Refs e)) (map snd (order (rm_changes p))) = Some e"
      "old = out\<lparr>dr_ChangeID := hs_ID e, dr_Replayed := True, dr_Settled := (hs_State e = StateSettled)\<rparr>"
    using assms(2) by (auto simp: existing_change_def ChangeIndex_ByRef_def split: option.splits)
  have "e \<in> set (map snd (rm_changes p)) \<and> ref \<in> set (hs_Refs e)"
    using find_found [OF e(1)] loop_order_set [OF assms(1), of "rm_changes p"] by (auto simp: list_ex_iff)
  then obtain k where "(k, e) \<in> set (rm_changes p)" "ref \<in> set (hs_Refs e)"
    by auto
  then show ?thesis
    using e(2) by blast
qed

lemma existing_change_None:
  assumes "loop_order order"
  shows "existing_change order p out ref = None \<longleftrightarrow> (\<forall>x \<in> set (rm_changes p). ref \<notin> set (hs_Refs (snd x)))"
proof -
  have "existing_change order p out ref = None \<longleftrightarrow> List.find (\<lambda>e. list_ex (\<lambda>r. r = ref) (hs_Refs e)) (map snd (order (rm_changes p))) = None"
    by (auto simp: existing_change_def ChangeIndex_ByRef_def split: option.splits)
  then show ?thesis
    using loop_order_set [OF assms, of "rm_changes p"] by (auto simp: find_None_iff list_ex_iff)
qed

lemma settle_fresh:
  assumes "ledger_inv H J l" "ledger_inv H J l1" "new_change l i" "l_all l1 = l_all l @ [w]" "e_Idem w = ''derive:'' @ cm_SHA c"
  shows "fresh_key l1 (settle_command i c)"
proof -
  let ?k = "''derive:settle:'' @ cm_SHA c"
  have "\<nexists>e. mem_Lookup l (ChangeStream i) ?k = Inr e"
    using assms(3) by (simp add: new_change_def)
  then have "\<nexists>e. mem_Lookup l1 (ChangeStream i) ?k = Inr e"
    using assms(4,5) unfolding mem_Lookup_Inr [OF assms(1)] mem_Lookup_Inr [OF assms(2)] by (auto simp: env_idem_key_def idemKey_def)
  then show ?thesis
    using mem_Lookup_error by (cases "mem_Lookup l1 (ChangeStream i) ?k") (auto simp: fresh_key_def settle_command_def)
qed

text \<open>What the ledger gains: the record of the open change and, where nothing is touched, that of its settlement.\<close>

definition derive_records :: "(mem_ledger, read_models) options \<Rightarrow> 'l deriver \<Rightarrow> actor_ref \<Rightarrow> ID \<Rightarrow> commit \<Rightarrow> derived \<Rightarrow> ID list \<Rightarrow> envelope list \<Rightarrow> bool" where
  "derive_records opt d actor i c out impact es \<longleftrightarrow>
     (\<exists>w v rest. es = w # rest \<and> e_Stream w = ChangeStream i \<and> decodes opt w (EvChange (ChangeOpened v)) \<and> opened_for d actor i c out impact v \<and>
        (if impact = [] then \<exists>w' s. rest = [w'] \<and> decodes opt w' (EvChange (Settled s)) \<and> se_ID s = i else rest = []))"

lemma derive_open_written:
  assumes json: "json_roundtrip mar un" and reach: "daemon_reaches H J mar un sg l p" and new: "new_change l i"
    and d: "dv_Pipeline d = daemon_options H J mar un" and out: "\<not> dr_Settled out"
    and st: "derive_open d order clk actor i c out impact (l, p) = ((out', None), (l', p'))"
  shows "out' = out\<lparr>dr_ChangeID := i, dr_Settled := (impact = [])\<rparr> \<and> reachable (daemon_options H J mar un) (l, p) (l', p') \<and>
    (\<exists>es. l_all l' = l_all l @ es \<and> derive_records (daemon_options H J mar un) d actor i c out impact es) \<and>
    (\<exists>e. map_of (rm_changes p') i = Some e \<and> cm_SHA c \<in> set (hs_Refs e))"
proof -
  let ?opt = "daemon_options H J mar un"
  obtain res l1 p1 where h: "Pipeline_Handle ?opt app_handlers (clk 0) actor (open_command d actor i c out impact) (l, p) = ((res, None), (l1, p1))"
    using st d by (auto simp: derive_open_def split: prod.splits option.splits)
  obtain w v where w: "l_all l1 = l_all l @ [w]" "e_Stream w = ChangeStream i" "e_Idem w = ''derive:'' @ cm_SHA c"
      "decodes ?opt w (EvChange (ChangeOpened v))" "opened_for d actor i c out impact v"
      "p1 = notify daemon_projectors w (EvChange (ChangeOpened v)) p" and fresh: "\<not> re_Replayed res"
    using open_written [OF json reach new h] by blast
  note reach1 = reach_step [OF reachable.reach_start h] and run1 = reach_step [OF reach h]
  have id: "op_ID v = i"
    using w(5) by (simp add: opened_for_def)
  obtain u where u: "map_of (rm_changes p1) i = Some u" "cm_SHA c \<in> set (hs_Refs u)"
    using w(5,6) by (auto simp: notify_fields opened_for_def)
  show ?thesis
  proof (cases "impact = []")
    case False
    then have "out' = out\<lparr>dr_ChangeID := i\<rparr>" "l' = l1" "p' = p1"
      using st h d fresh by (simp_all add: derive_open_def)
    moreover have "derive_records ?opt d actor i c out impact [w]"
      using w False by (auto simp: derive_records_def)
    ultimately show ?thesis
      using u w(1) reach1 out False by auto
  next
    case True
    then obtain res' where h': "Pipeline_Handle ?opt app_handlers (clk 1) actor (settle_command i c) (l1, p1) = ((res', None), (l', p'))"
        "out' = out\<lparr>dr_ChangeID := i, dr_Settled := True\<rparr>"
      using st h d fresh by (auto simp: derive_open_def Let_def split: prod.splits option.splits)
    have "stream_log (l_all l1) (ChangeStream i) = [w]"
      using new w(1,2) by (simp add: new_change_def stream_log_def)
    moreover have "fresh_key l1 (settle_command i c)"
      by (rule settle_fresh [OF daemon_ok(1) [OF json reach] daemon_ok(1) [OF json run1] new w(1,3)])
    ultimately obtain w' s where s: "l_all l' = l_all l1 @ [w']" "decodes ?opt w' (EvChange (Settled s))" "se_ID s = i"
      using settle_written [OF json run1 _ w(4) id _ h'(1)] by blast
    have "derive_records ?opt d actor i c out impact [w, w']"
      using w s True by (auto simp: derive_records_def)
    moreover have "\<exists>e. map_of (rm_changes p') i = Some e \<and> cm_SHA c \<in> set (hs_Refs e)"
      using change_entry_step [OF json run1 h'(1) u(1)] u(2) by auto
    ultimately show ?thesis
      using h' w(1) s(1) reach_step [OF reach1 h'(1)] True by auto
  qed
qed

subsection \<open>Which anchors a commit changes\<close>

text \<open>Two states of a symbol differ where it appears, disappears, or changes in signature or body.\<close>

fun symbols_differ :: "hash3 option \<Rightarrow> hash3 option \<Rightarrow> bool" where
  "symbols_differ None None = False"
| "symbols_differ (Some h) (Some k) = (h3_Signature h \<noteq> h3_Signature k \<or> h3_Body h \<noteq> h3_Body k)"
| "symbols_differ _ _ = True"

text \<open>The symbols of a changed file in the parent and in the commit.\<close>

definition symbols_before :: "'l deriver \<Rightarrow> syntax_parser \<Rightarrow> string \<Rightarrow> file_change \<Rightarrow> (go_error + (string \<times> hash3) list) option" where
  "symbols_before d sp parent fc =
     (if parent = '''' \<or> fc_Status fc = ''A'' then Some (Inr [])
      else symbols_at d sp parent (if fc_OldPath fc = '''' then fc_Path fc else fc_OldPath fc) (fc_Path fc))"

definition symbols_after :: "'l deriver \<Rightarrow> syntax_parser \<Rightarrow> string \<Rightarrow> file_change \<Rightarrow> (go_error + (string \<times> hash3) list) option" where
  "symbols_after d sp rv fc = (if fc_Status fc = ''D'' then Some (Inr []) else symbols_at d sp rv (fc_Path fc) (fc_Path fc))"

text \<open>
  An anchor that a file change changes: a symbol that differs, or the file where it is not parsed, or was added or deleted without such a symbol.
\<close>

definition anchor_changed :: "'l deriver \<Rightarrow> string \<Rightarrow> string \<Rightarrow> file_change \<Rightarrow> string \<Rightarrow> bool" where
  "anchor_changed d parent rv fc a \<longleftrightarrow>
     (case dv_Parser d of
        None \<Rightarrow> a = file_anchor (fc_Path fc)
      | Some sp \<Rightarrow>
        if \<not> sp_Supports sp (fc_Path fc) then a = file_anchor (fc_Path fc)
        else \<exists>old new. symbols_before d sp parent fc = Some (Inr old) \<and> symbols_after d sp rv fc = Some (Inr new) \<and>
          (symbols_differ (map_of old a) (map_of new a) \<or>
           (\<forall>x. \<not> symbols_differ (map_of old x) (map_of new x)) \<and> fc_Status fc \<in> {''A'', ''D''} \<and> a = file_anchor (fc_Path fc)))"

lemma symbols_at_distinct: "symbols_at d sp rv at path = Some (Inr m) \<Longrightarrow> distinct (map_keys m)"
proof -
  have "distinct (map_keys (foldl (\<lambda>out y. map_put (f y) (g y) out) m ys))" if "distinct (map_keys m)" for f :: "symbol \<Rightarrow> string" and g :: "symbol \<Rightarrow> hash3" and m ys
    using that by (induction ys arbitrary: m) simp_all
  then show "symbols_at d sp rv at path = Some (Inr m) \<Longrightarrow> distinct (map_keys m)"
    by (auto simp: symbols_at_def symbolHashes_def Let_def bind_eq_Some_conv split: sum.splits prod.splits if_splits)
qed

lemma compare_symbols_set:
  assumes "distinct (map_keys old)" "distinct (map_keys new)"
  shows "set (compare_symbols old new) = {a. symbols_differ (map_of old a) (map_of new a)}"
proof -
  have "hash_change_rank HashBody \<le> hash_change_rank (Hash3_Cmp h k) \<longleftrightarrow> symbols_differ (Some h) (Some k)" for h k
    by (auto simp: Hash3_Cmp_def)
  then have gone: "(case map_of new a of None \<Rightarrow> True | Some nh \<Rightarrow> hash_change_rank HashBody \<le> hash_change_rank (Hash3_Cmp h nh)) \<longleftrightarrow>
      symbols_differ (Some h) (map_of new a)" for a h
    by (cases "map_of new a") simp_all
  have filtered: "a \<in> set (map fst (filter P m)) \<longleftrightarrow> (\<exists>h. map_of m a = Some h \<and> P (a, h))" if "distinct (map_keys m)" for m P and a :: string
    using that by (auto simp: image_iff intro: bexI [rotated])
  have "a \<in> set (compare_symbols old new) \<longleftrightarrow>
      (\<exists>h. map_of old a = Some h \<and> symbols_differ (Some h) (map_of new a)) \<or> (\<exists>k. map_of new a = Some k \<and> map_of old a = None)" for a
    unfolding compare_symbols_def set_append Un_iff filtered [OF assms(1)] filtered [OF assms(2)] by (simp only: prod.case gone)
  then have "a \<in> set (compare_symbols old new) \<longleftrightarrow> symbols_differ (map_of old a) (map_of new a)" for a
    by (cases "map_of old a"; cases "map_of new a") simp_all
  then show ?thesis
    by blast
qed

lemma changedAnchors_parsed:
  assumes "dv_Parser d = Some sp" "sp_Supports sp (fc_Path fc)"
  shows "changedAnchors d parent rv fc = do { old \<leftarrow> symbols_before d sp parent fc;
    (case old of
       Inl err \<Rightarrow> Some (Inl err)
     | Inr m \<Rightarrow> do { new \<leftarrow> symbols_after d sp rv fc;
         Some (case new of
           Inl err \<Rightarrow> Inl err
         | Inr n \<Rightarrow> Inr (go_sort (<) (if compare_symbols m n = [] \<and> (fc_Status fc = ''A'' \<or> fc_Status fc = ''D'') then [file_anchor (fc_Path fc)]
             else compare_symbols m n))) }) }"
proof -
  have "(if parent \<noteq> '''' \<and> fc_Status fc \<noteq> ''A'' then symbols_at d sp parent (if fc_OldPath fc \<noteq> '''' then fc_OldPath fc else fc_Path fc) (fc_Path fc)
      else Some (Inr [])) = symbols_before d sp parent fc"
    by (simp add: symbols_before_def)
  moreover have "(if fc_Status fc \<noteq> ''D'' then symbols_at d sp rv (fc_Path fc) (fc_Path fc) else Some (Inr [])) = symbols_after d sp rv fc"
    by (simp add: symbols_after_def)
  ultimately show ?thesis
    using assms unfolding changedAnchors_def by (simp only: option.case if_True not_True_eq_False if_False Let_def length_0_conv)
qed

lemma changedAnchors_set:
  assumes "changedAnchors d parent rv fc = Some (Inr as)"
  shows "set as = {a. anchor_changed d parent rv fc a}"
proof (cases "\<exists>sp. dv_Parser d = Some sp \<and> sp_Supports sp (fc_Path fc)")
  case False
  then have "as = [file_anchor (fc_Path fc)]"
    using assms by (auto simp: changedAnchors_def split: option.splits)
  then show ?thesis
    using False by (auto simp: anchor_changed_def split: option.splits)
next
  case True
  then obtain sp where sp: "dv_Parser d = Some sp" "sp_Supports sp (fc_Path fc)"
    by blast
  obtain old new where m: "symbols_before d sp parent fc = Some (Inr old)" "symbols_after d sp rv fc = Some (Inr new)"
    and out: "as = go_sort (<) (if compare_symbols old new = [] \<and> (fc_Status fc = ''A'' \<or> fc_Status fc = ''D'') then [file_anchor (fc_Path fc)]
      else compare_symbols old new)"
    using assms unfolding changedAnchors_parsed [OF sp]
    by (cases "symbols_before d sp parent fc"; cases "the (symbols_before d sp parent fc)"; cases "symbols_after d sp rv fc"; cases "the (symbols_after d sp rv fc)") auto
  have "distinct (map_keys old)" "distinct (map_keys new)"
    using m symbols_at_distinct by (fastforce simp: symbols_before_def symbols_after_def split: if_splits)+
  note differ = compare_symbols_set [OF this]
  have none: "compare_symbols old new = [] \<longleftrightarrow> (\<forall>x. \<not> symbols_differ (map_of old x) (map_of new x))"
    using differ by (metis (no_types, lifting) empty_Collect_eq set_empty)
  show ?thesis
  proof (cases "compare_symbols old new = []")
    case True
    then show ?thesis
      using none differ m sp out by (auto simp: anchor_changed_def)
  next
    case False
    then show ?thesis
      using none differ m sp out by (auto simp: anchor_changed_def)
  qed
qed

lemma keys_map_put: "fst ` set (map_put k v m) = insert k (fst ` set m)"
  by (induction m) auto

lemma changed_loop_set:
  "changed_loop d parent rv fcs files seen = Some (None, files', seen') \<Longrightarrow>
    files' = files @ map fc_Path fcs \<and> set (map_keys seen') = set (map_keys seen) \<union> {a. \<exists>fc \<in> set fcs. anchor_changed d parent rv fc a} \<and>
    (distinct (map_keys seen) \<longrightarrow> distinct (map_keys seen'))"
proof (induction fcs arbitrary: files seen)
  case (Cons fc fcs)
  then obtain as where as: "changedAnchors d parent rv fc = Some (Inr as)"
      "changed_loop d parent rv fcs (files @ [fc_Path fc]) (foldl (\<lambda>s a. map_put a True s) seen as) = Some (None, files', seen')"
    by (cases "changedAnchors d parent rv fc"; cases "the (changedAnchors d parent rv fc)") auto
  have "set (map_keys (foldl (\<lambda>s a. map_put a True s) seen as)) = set (map_keys seen) \<union> set as \<and>
      (distinct (map_keys seen) \<longrightarrow> distinct (map_keys (foldl (\<lambda>s a. map_put a True s) seen as)))" for as
    by (induction as arbitrary: seen) (auto simp: keys_map_put)
  then show ?case
    using Cons.IH [OF as(2)] changedAnchors_set [OF as(1)] by auto
qed simp

text \<open>The first parent, which the commit is compared with.\<close>

definition first_parent :: "commit \<Rightarrow> string" where
  "first_parent c = (case cm_Parents c of [] \<Rightarrow> '''' | q # _ \<Rightarrow> q)"

lemma commit_changes_spec:
  assumes "commit_changes d commitish c files anchors"
  shows "\<exists>changes. cs_Commit (dv_Commits d) commitish = Inr c \<and> cs_ChangedIn (dv_Commits d) (cm_SHA c) = Inr changes \<and> files = map fc_Path changes \<and>
    set anchors = {a. \<exists>fc \<in> set changes. anchor_changed d (first_parent c) (cm_SHA c) fc a} \<and> sorted anchors \<and> distinct anchors"
proof -
  obtain changes seen where c: "cs_Commit (dv_Commits d) commitish = Inr c" "cs_ChangedIn (dv_Commits d) (cm_SHA c) = Inr changes"
      "changed_loop d (if length (cm_Parents c) > 0 then cm_Parents c ! 0 else '''') (cm_SHA c) changes [] [] = Some (None, files, seen)"
      "anchors = go_sort (<) (map_keys seen)"
    using assms by (auto simp: commit_changes_def)
  have "(if length (cm_Parents c) > 0 then cm_Parents c ! 0 else '''') = first_parent c"
    by (cases "cm_Parents c") (simp_all add: first_parent_def)
  then show ?thesis
    using c(1,2,4) changed_loop_set [OF c(3)] go_sort_sort_key [of "\<lambda>x :: string. x"] by auto
qed

end
