(* ===== verification/Source_Properties.thy ===== *)
theory Source_Properties
  imports Comment_Edits Service_Facts Sample_Inputs
begin

section \<open>Properties of symbols, verification and derivation\<close>

text \<open>
  What the hashes of a symbol depend on, which moves are detected, that a verification that is repeated writes nothing, and what a derived change touches.
\<close>

subsection \<open>Symbols\<close>

lemma extract_defined:
  assumes "tree_ok s" and "\<forall>r \<in> set (raw_symbols matches). captures_ok s r"
  shows "\<exists>ys. ExtractSymbols letter digit s matches = Some ys \<and> distinct (map sb_node ys) \<and>
    sb_node ` set ys = rw_sym ` set (raw_symbols matches) \<and> sorted (map (\<lambda>y. (uint (sb_Start y), - uint (sb_End y))) ys)"
proof -
  let ?rs = "go_sort (raw_less s) (raw_symbols matches)"
  let ?k = "\<lambda>i. let n = sx_Nodes s ! nat i in (uint (sn_Start n), - uint (sn_End n))"
  have "raw_less s = (\<lambda>x y. ?k (rw_sym x) < ?k (rw_sym y))"
    by (intro ext) (auto simp: raw_less_def Let_def less_prod_def' word_less_def word_uint_eq_iff)
  then have sorted: "sorted (map ?k (map rw_sym ?rs))"
    by (simp add: go_sort_sort_key comp_def)
  obtain ys where ys: "extract_loop letter digit s [] [] ?rs = Some ys" "distinct (map sb_node ys)" "sb_node ` set ys = rw_sym ` set ?rs"
      "subseq (map sb_node ys) (map rw_sym ?rs)" "\<forall>y \<in> set ys. symbol_at s y"
    using extract_loop_defined [OF assms(1), of ?rs "[]" "[]" letter digit] assms(2) by auto
  have "map (\<lambda>y. (uint (sb_Start y), - uint (sb_End y))) ys = map ?k (map sb_node ys)"
    using ys(5) by (auto simp: symbol_at_def node_at_Some Let_def)
  moreover have "sorted (map ?k (map sb_node ys))"
  proof -
    obtain N where "map ?k (map sb_node ys) = nths (map ?k (map rw_sym ?rs)) N"
      using subseq_map [OF ys(4), of ?k] unfolding subseq_conv_nths by blast
    then show ?thesis
      using sorted_nths [OF sorted, of N] by (simp only:)
  qed
  ultimately have "sorted (map (\<lambda>y. (uint (sb_Start y), - uint (sb_End y))) ys)"
    by (simp only:)
  then show ?thesis
    using ys(1-3) assms(2) by (intro exI [of _ ys]) (auto simp: ExtractSymbols_def Let_def list_all_iff captures_ok_def)
qed

subsection \<open>A sample source\<close>

text \<open>A declaration whose body is a comment.\<close>

definition sample_tree :: "bytes \<Rightarrow> syntax_tree" where
  "sample_tree src = \<lparr>sx_Nodes =
     [\<lparr>sn_Type = ''program'', sn_Field = '''', sn_Start = 0, sn_End = 6, sn_Named = True, sn_Comment = False, sn_Parent = -1, sn_Children = [1]\<rparr>,
      \<lparr>sn_Type = ''function_declaration'', sn_Field = '''', sn_Start = 0, sn_End = 6, sn_Named = True, sn_Comment = False, sn_Parent = 0, sn_Children = [2, 3]\<rparr>,
      \<lparr>sn_Type = ''identifier'', sn_Field = ''name'', sn_Start = 0, sn_End = 1, sn_Named = True, sn_Comment = False, sn_Parent = 1, sn_Children = []\<rparr>,
      \<lparr>sn_Type = ''block'', sn_Field = ''body'', sn_Start = 1, sn_End = 6, sn_Named = True, sn_Comment = False, sn_Parent = 1, sn_Children = [4]\<rparr>,
      \<lparr>sn_Type = ''comment'', sn_Field = '''', sn_Start = 2, sn_End = 5, sn_Named = True, sn_Comment = True, sn_Parent = 3, sn_Children = []\<rparr>],
     sx_Source = src\<rparr>"

definition sample_matches :: "symbol_match list" where
  "sample_matches = [\<lparr>sq_Captures = [\<lparr>ca_Role = ''symbol'', ca_Node = 1\<rparr>, \<lparr>ca_Role = ''name'', ca_Node = 2\<rparr>, \<lparr>ca_Role = ''body'', ca_Node = 3\<rparr>]\<rparr>]"

definition ascii_letter :: "nat \<Rightarrow> bool" where
  "ascii_letter c \<longleftrightarrow> 97 \<le> c \<and> c \<le> 122"

lemma sample_raw: "raw_symbols sample_matches = [\<lparr>rw_sym = 1, rw_name = 2, rw_body = 3\<rparr>]"
  by code_simp

lemma sample_tree_ok: "tree_ok (sample_tree ''f{//c}'')"
  by code_simp

lemma sample_captures_ok: "\<forall>r \<in> set (raw_symbols sample_matches). captures_ok (sample_tree ''f{//c}'') r"
  by (simp add: sample_raw captures_ok_def node_at_def sample_tree_def)










text \<open>
  C25. Symbols are always extracted: on a tree in preorder whose ranges lie in the source, with captures that name its nodes, the walks end without a panic.
  Every declaration that was captured becomes exactly one symbol, in the order of the source and outer before inner.
\<close>

theorem extract_total:
  assumes "tree_ok s" and "\<forall>r \<in> set (raw_symbols matches). captures_ok s r"
  shows "\<exists>ys. ExtractSymbols letter digit s matches = Some ys \<and> distinct (map sb_node ys) \<and>
    sb_node ` set ys = rw_sym ` set (raw_symbols matches) \<and> sorted (map (\<lambda>y. (uint (sb_Start y), - uint (sb_End y))) ys)"
  using extract_defined [OF assms] .

theorem extract_total_witness:
  "\<exists>y. ExtractSymbols ascii_letter (\<lambda>_. False) (sample_tree ''f{//c}'') sample_matches = Some [y] \<and> sb_node y = 1"
proof -
  obtain ys where ys: "ExtractSymbols ascii_letter (\<lambda>_. False) (sample_tree ''f{//c}'') sample_matches = Some ys" "distinct (map sb_node ys)"
      "sb_node ` set ys = {1}"
    using extract_total [OF sample_tree_ok, of sample_matches ascii_letter "\<lambda>_. False"] sample_captures_ok by (auto simp: sample_raw)
  have "card (set (map sb_node ys)) = 1"
    using ys(3) by simp
  then have "length ys = 1"
    using distinct_card [OF ys(2)] by simp
  then show ?thesis
    using ys(1,3) by (auto simp: length_Suc_conv)
qed



text \<open>
  What a signature is compared by: its words in order, with one blank between two of them exactly where they would run together otherwise. White space next
  to punctuation makes no difference.
\<close>

theorem signature_normal_form:
  "normalizeSignature letter digit str =
      concat (map encode_rune (foldl (join_token (isWord letter digit)) [] (tokens (map fst (runes (TrimSpace str)))))) \<and>
    (\<forall>out t u. t \<noteq> [] \<and> u \<noteq> [] \<and> \<not> (isWord letter digit (last t) \<and> isWord letter digit (hd u)) \<longrightarrow>
      foldl (join_token (isWord letter digit)) out [t, u] = foldl (join_token (isWord letter digit)) out [t @ u])"
  using normalize_tokens [of "([], False)"] join_token_punctuation by (simp add: normalizeSignature_def)

text \<open>
  C27. A move is reported exactly when it is unambiguous: one anchor disappeared and one appeared with its signature, and no other anchor with that
  signature disappeared or appeared. The report does not depend on the order of the two maps but for that of the anchors that moved.
\<close>

theorem detect_moves:
  assumes "distinct (map fst before)" and "distinct (map fst after)"
  shows "m \<in> set (DetectMoves before after) \<longleftrightarrow>
    (\<exists>a b h k. ParseAnchor a = Inr (mv_From m) \<and> ParseAnchor b = Inr (mv_To m) \<and>
      map_of before a = Some h \<and> map_of after a = None \<and> map_of after b = Some k \<and> map_of before b = None \<and> h3_Signature h = h3_Signature k \<and>
      (\<forall>a' h'. map_of before a' = Some h' \<and> map_of after a' = None \<and> h3_Signature h' = h3_Signature h \<longrightarrow> a' = a) \<and>
      (\<forall>b' k'. map_of after b' = Some k' \<and> map_of before b' = None \<and> h3_Signature k' = h3_Signature h \<longrightarrow> b' = b))"
proof -
  have moves: "m \<in> set (DetectMoves before after) \<longleftrightarrow> (\<exists>a b h. ParseAnchor a = Inr (mv_From m) \<and> ParseAnchor b = Inr (mv_To m) \<and>
      map_of before a = Some h \<and> lacking after before (h3_Signature h) = [a] \<and> lacking before after (h3_Signature h) = [b])"
    unfolding DetectMoves_set using lacking_single [OF assms(1)] by metis
  have "map_of before a = Some h \<and> lacking after before (h3_Signature h) = [a] \<and> lacking before after (h3_Signature h) = [b] \<longleftrightarrow>
      (\<exists>k. map_of before a = Some h \<and> map_of after a = None \<and> map_of after b = Some k \<and> map_of before b = None \<and> h3_Signature h = h3_Signature k \<and>
        (\<forall>a' h'. map_of before a' = Some h' \<and> map_of after a' = None \<and> h3_Signature h' = h3_Signature h \<longrightarrow> a' = a) \<and>
        (\<forall>b' k'. map_of after b' = Some k' \<and> map_of before b' = None \<and> h3_Signature k' = h3_Signature h \<longrightarrow> b' = b))" for a b h
    unfolding lacking_single [OF assms(1)] lacking_single [OF assms(2)] by (cases "map_of after b") auto
  then show ?thesis
    unfolding moves by blast
qed

lemma ParseAnchor_samples:
  "ParseAnchor ''code://a.ts#f'' = Inr \<lparr>an_Scheme = SchemeCode, an_Path = ''a.ts'', an_Symbol = ''f''\<rparr>"
  "ParseAnchor ''code://b.ts#g'' = Inr \<lparr>an_Scheme = SchemeCode, an_Path = ''b.ts'', an_Symbol = ''g''\<rparr>"
  by code_simp+

theorem detect_moves_witness:
  "DetectMoves [(''code://a.ts#f'', \<lparr>h3_Signature = ''s'', h3_Body = ''b'', h3_File = ''x''\<rparr>)] [(''code://b.ts#g'', \<lparr>h3_Signature = ''s'', h3_Body = ''c'', h3_File = ''y''\<rparr>)] \<noteq> []"
proof -
  obtain a b where "ParseAnchor ''code://a.ts#f'' = Inr a" "ParseAnchor ''code://b.ts#g'' = Inr b"
    by (simp add: ParseAnchor_samples)
  then have "\<lparr>mv_From = a, mv_To = b\<rparr> \<in> set (DetectMoves [(''code://a.ts#f'', \<lparr>h3_Signature = ''s'', h3_Body = ''b'', h3_File = ''x''\<rparr>)]
      [(''code://b.ts#g'', \<lparr>h3_Signature = ''s'', h3_Body = ''c'', h3_File = ''y''\<rparr>)])"
    by (subst detect_moves) auto
  then show ?thesis
    by force
qed

subsection \<open>Derivation\<close>

lemma derive_outcome:
  assumes "json_roundtrip mar un" and "daemon_reaches H J mar un sg l p" and "dv_Pipeline d = daemon_options H J mar un"
    and "\<forall>n. loop_order (order n)" and "new_change l i" and "Deriver_Derive d order clk i actor commitish (l, p) = Some ((out, None), (l', p'))"
  obtains c files anchors impact where "commit_changes d commitish c files anchors"
    "impact = go_sort (<) (derive_impact (rm_constraints p) (dv_Repo d) anchors files)"
    "dr_SHA out = cm_SHA c" "dr_Files out = files" "dr_Anchors out = anchors" "dr_Constraints out = impact"
    "if dr_Replayed out
     then (l', p') = (l, p) \<and> (\<exists>e. map_of (rm_changes p) (dr_ChangeID out) = Some e \<and> cm_SHA c \<in> set (hs_Refs e) \<and> (dr_Settled out \<longleftrightarrow> hs_State e = StateSettled))
     else dr_ChangeID out = i \<and> (dr_Settled out \<longleftrightarrow> impact = []) \<and> (\<forall>x \<in> set (rm_changes p). cm_SHA c \<notin> set (hs_Refs (snd x))) \<and>
       reachable (daemon_options H J mar un) (l, p) (l', p') \<and>
       (\<exists>es. l_all l' = l_all l @ es \<and> derive_records (daemon_options H J mar un) d actor i c out impact es) \<and>
       (\<exists>e. map_of (rm_changes p') i = Some e \<and> cm_SHA c \<in> set (hs_Refs e))"
proof -
  let ?opt = "daemon_options H J mar un"
  obtain c files anchors where c: "commit_changes d commitish c files anchors"
    using assms(6) by (rule Deriver_Derive_returned)
  define impact where "impact = go_sort (<) (derive_impact (rm_constraints p) (dv_Repo d) anchors files)"
  obtain out0 where e: "derive_commit d p c files anchors = (out0, impact)" "\<not> dr_Settled out0" "\<not> dr_Replayed out0" "dr_SHA out0 = cm_SHA c" "dr_Files out0 = files"
      "dr_Anchors out0 = anchors" "dr_Constraints out0 = impact"
    by (simp add: derive_commit_def Let_def zero_derived_def impact_def)
  have run: "(case existing_change (order 0) p out0 (cm_SHA c) of Some old \<Rightarrow> ((old, None), (l, p))
      | None \<Rightarrow> derive_open d (order 1) clk actor i c out0 impact (l, p)) = ((out, None), (l', p'))"
    using assms(6) e(1) unfolding Deriver_Derive_changes [OF c] by simp
  show thesis
  proof (cases "existing_change (order 0) p out0 (cm_SHA c)")
    case (Some old)
    then have out: "out = old" "(l', p') = (l, p)"
      using run by simp_all
    obtain k x where x: "(k, x) \<in> set (rm_changes p)" "cm_SHA c \<in> set (hs_Refs x)"
        "old = out0\<lparr>dr_ChangeID := hs_ID x, dr_Replayed := True, dr_Settled := (hs_State x = StateSettled)\<rparr>"
      using existing_change_Some [OF assms(4) [rule_format] Some] by blast
    moreover have "hs_ID x = k" "map_of (rm_changes p) k = Some x"
      using change_index_wf [OF assms(1,2)] x(1) by auto
    ultimately show thesis
      using that [OF c impact_def] out e by auto
  next
    case None
    then have "derive_open d (order 1) clk actor i c out0 impact (l, p) = ((out, None), (l', p'))"
      using run by simp
    note w = derive_open_written [OF assms(1,2,5,3) e(2) this]
    have none: "\<forall>x \<in> set (rm_changes p). cm_SHA c \<notin> set (hs_Refs (snd x))"
      using None existing_change_None [OF assms(4) [rule_format]] by blast
    have "derive_records ?opt d actor i c out0 impact = derive_records ?opt d actor i c out impact"
      using w by (intro ext) (simp add: derive_records_def opened_for_def)
    then show thesis
      using that [OF c impact_def] w none e by simp
  qed
qed

text \<open>
  C18. What deriving a commit does: the anchors are exactly those that its file changes change, and the constraints, once and in order, exactly those
  verified or under review that are bound to such an anchor, or that have no anchor and govern one of its files. If a change that proposes the commit is known,
  nothing is written and one of these changes is the answer. Otherwise the change is opened with the id given, with exactly these constraints and anchors
  as its impact and the commit as its proposal, and it is settled at once, by the one record after it, exactly when nothing is touched.
\<close>

theorem derive_touches:
  assumes "json_roundtrip mar un" and "daemon_reaches H J mar un sg l p" and "dv_Pipeline d = daemon_options H J mar un"
    and "\<forall>n. loop_order (order n)" and "new_change l i" and "Deriver_Derive d order clk i actor commitish (l, p) = Some ((out, None), (l', p'))"
  shows "\<exists>c changes. cs_Commit (dv_Commits d) commitish = Inr c \<and> cs_ChangedIn (dv_Commits d) (cm_SHA c) = Inr changes \<and>
    dr_SHA out = cm_SHA c \<and> dr_Files out = map fc_Path changes \<and>
    set (dr_Anchors out) = {a. \<exists>fc \<in> set changes. anchor_changed d (first_parent c) (cm_SHA c) fc a} \<and> sorted (dr_Anchors out) \<and> distinct (dr_Anchors out) \<and>
    set (dr_Constraints out) = cu_ID ` {x. touched (rm_constraints p) (dv_Repo d) (dr_Anchors out) (dr_Files out) x} \<and>
    sorted (dr_Constraints out) \<and> distinct (dr_Constraints out) \<and>
    (if dr_Replayed out
     then (l', p') = (l, p) \<and> (\<exists>e. map_of (rm_changes p) (dr_ChangeID out) = Some e \<and> cm_SHA c \<in> set (hs_Refs e) \<and> (dr_Settled out \<longleftrightarrow> hs_State e = StateSettled))
     else dr_ChangeID out = i \<and> (dr_Settled out \<longleftrightarrow> dr_Constraints out = []) \<and> (\<forall>x \<in> set (rm_changes p). cm_SHA c \<notin> set (hs_Refs (snd x))) \<and>
       (\<exists>es. l_all l' = l_all l @ es \<and> derive_records (daemon_options H J mar un) d actor i c out (dr_Constraints out) es))"
proof -
  from assms obtain c files anchors impact where o: "commit_changes d commitish c files anchors"
      "impact = go_sort (<) (derive_impact (rm_constraints p) (dv_Repo d) anchors files)"
      "dr_SHA out = cm_SHA c" "dr_Files out = files" "dr_Anchors out = anchors" "dr_Constraints out = impact"
      "if dr_Replayed out
       then (l', p') = (l, p) \<and> (\<exists>e. map_of (rm_changes p) (dr_ChangeID out) = Some e \<and> cm_SHA c \<in> set (hs_Refs e) \<and> (dr_Settled out \<longleftrightarrow> hs_State e = StateSettled))
       else dr_ChangeID out = i \<and> (dr_Settled out \<longleftrightarrow> impact = []) \<and> (\<forall>x \<in> set (rm_changes p). cm_SHA c \<notin> set (hs_Refs (snd x))) \<and>
         reachable (daemon_options H J mar un) (l, p) (l', p') \<and>
         (\<exists>es. l_all l' = l_all l @ es \<and> derive_records (daemon_options H J mar un) d actor i c out impact es) \<and>
         (\<exists>e. map_of (rm_changes p') i = Some e \<and> cm_SHA c \<in> set (hs_Refs e))"
    by (rule derive_outcome)
  obtain changes where ch: "cs_Commit (dv_Commits d) commitish = Inr c" "cs_ChangedIn (dv_Commits d) (cm_SHA c) = Inr changes" "files = map fc_Path changes"
      "set anchors = {a. \<exists>fc \<in> set changes. anchor_changed d (first_parent c) (cm_SHA c) fc a}" "sorted anchors" "distinct anchors"
    using commit_changes_spec [OF o(1)] by blast
  have impact: "sorted impact" "distinct impact" "set impact = cu_ID ` {x. touched (rm_constraints p) (dv_Repo d) anchors files x}"
    using derive_impact_set [of "rm_constraints p" "dv_Repo d" anchors files] go_sort_sort_key [of "\<lambda>x :: string. x"] by (simp_all add: o(2))
  show ?thesis
    using ch impact o(3-7) by (intro exI [of _ c] exI [of _ changes]) (simp split: if_splits)
qed


subsection \<open>A sample derivation\<close>

text \<open>A commit of one file, without a parser; the events that it leads to are those that the sample encoding knows.\<close>

definition sample_commit :: commit where
  "sample_commit = \<lparr>cm_SHA = ''abc'', cm_Parents = [], cm_AuthorEmail = '''', cm_Message = '''', cm_At = 3\<rparr>"

definition sample_commits :: commits where
  "sample_commits = \<lparr>cs_Commit = \<lambda>_. Inr sample_commit, cs_ChangedIn = \<lambda>_. Inr [\<lparr>fc_Path = ''a.ts'', fc_OldPath = '''', fc_Status = ''M''\<rparr>],
     cs_Content = \<lambda>_ _. Inr ('''', False)\<rparr>"

definition sample_derived :: derived where
  "sample_derived = zero_derived\<lparr>dr_SHA := ''abc'', dr_Files := [''a.ts''], dr_Anchors := [''code://a.ts'']\<rparr>"

definition derived_open :: "ID list \<Rightarrow> event" where
  "derived_open impact = EvChange (ChangeOpened \<lparr>op_ID = ''c1'', op_ChangeKind = KindRealization, op_Mode = ModeManual,
     op_Scope = zero_scope_key\<lparr>sk_Repo := ''keelage''\<rparr>, op_IntentRef = '''', op_NoIntent = True,
     op_Impact = \<lparr>im_Constraints = map (\<lambda>k. \<lparr>ir_Constraint = k, ir_Relation = RelReferences\<rparr>) impact, im_Decisions = [], im_Anchors = [''code://a.ts'']\<rparr>,
     op_Proposal = Some \<lparr>pr_Ref = ''abc'', pr_Actor = ada, pr_At = 3, pr_Sig = ''''\<rparr>, op_Sessions = [], op_AutonomyApplied = L0, op_By = ada, op_At = 5\<rparr>)"

definition derived_settled :: event where
  "derived_settled = EvChange (Settled \<lparr>se_ID = ''c1'', se_Derived = [], se_At = 6\<rparr>)"

definition derive_marshal :: "event \<Rightarrow> go_error + bytes" where
  "derive_marshal e = (if e = derived_open [] then Inr ''opened'' else if e = derived_open [''k1''] then Inr ''touching'' else if e = derived_settled then Inr ''settled'' else Inl ''unsupported value'')"

definition derive_unmarshal :: "codec_key \<Rightarrow> bytes \<Rightarrow> go_error + event" where
  "derive_unmarshal k b = (if b = ''opened'' then Inr (derived_open []) else if b = ''touching'' then Inr (derived_open [''k1'']) else if b = ''settled'' then Inr derived_settled else Inl ''unexpected end of JSON input'')"

abbreviation derive_options :: "(mem_ledger, read_models) options" where
  "derive_options \<equiv> daemon_options sample_digest sample_json derive_marshal derive_unmarshal"

definition sample_deriver :: "mem_ledger deriver" where
  "sample_deriver = \<lparr>dv_Pipeline = derive_options, dv_Commits = sample_commits, dv_Parser = None, dv_Sessions = False, dv_Repo = ''keelage'',
     dv_SessionWindow = 0, dv_H = (\<lambda>x. x), dv_letter = ascii_letter, dv_digit = (\<lambda>_. False)\<rparr>"

lemma derive_roundtrip: "json_roundtrip derive_marshal derive_unmarshal"
  by (auto simp: json_roundtrip_def derive_marshal_def derive_unmarshal_def split: if_splits)

lemma sample_changes: "commit_changes sample_deriver ''HEAD'' sample_commit [''a.ts''] [''code://a.ts'']"
proof -
  have "changedAnchors sample_deriver '''' ''abc'' \<lparr>fc_Path = ''a.ts'', fc_OldPath = '''', fc_Status = ''M''\<rparr> = Some (Inr [''code://a.ts''])"
    by (simp add: changedAnchors_def sample_deriver_def file_anchor_def Anchor_String_def)
  then show ?thesis
    by (auto simp: commit_changes_def sample_deriver_def sample_commits_def sample_commit_def go_sort_def)
qed

lemma sample_derive_commit: "derive_commit sample_deriver empty_models sample_commit [''a.ts''] [''code://a.ts''] = (sample_derived, [])"
  by (simp add: derive_commit_def sample_deriver_def empty_models_def derive_impact_def BoundTo_def InForce_def go_sort_def sample_derived_def sample_commit_def zero_derived_def)

lemma derive_sealing: "sealing_works sample_json None"
  by (simp add: sealing_works_def sample_json_def)

lemma derive_actor: "Actor_Validate ada = None"
  by (simp add: Actor_Validate_def ada_def)

abbreviation derive_open_cmd :: "ID list \<Rightarrow> command" where
  "derive_open_cmd impact \<equiv> open_command sample_deriver ada ''c1'' sample_commit sample_derived impact"

lemma sample_open:
  assumes "impact \<in> {[], [''k1'']}"
  shows "\<exists>res l p w. Pipeline_Handle derive_options app_handlers 5 ada (derive_open_cmd impact) (NewLedger None, empty_models) = ((res, None), (l, p)) \<and>
    l_all l = [w] \<and> e_Stream w = ChangeStream ''c1'' \<and> e_Idem w = ''derive:abc'' \<and> decodes derive_options w (derived_open impact) \<and> \<not> re_Replayed res"
proof -
  have cmd: "cmd_Stream (derive_open_cmd impact) = ChangeStream ''c1''" "cmd_Idem (derive_open_cmd impact) = ''derive:abc''" "stream_zero (ChangeStream ''c1'') = AggChange zero_change"
    using cmd_zero_stream [of "derive_open_cmd impact"] by (simp_all add: open_command_def sample_commit_def)
  have new: "new_change (NewLedger None) ''c1''"
    by (simp add: new_change_def NewLedger_def stream_log_def mem_Lookup_def)
  have fresh: "fresh_key (NewLedger None) (derive_open_cmd impact)"
    by (simp add: fresh_key_def mem_Lookup_def NewLedger_def)
  have hist: "stream_history derive_options (l_all (NewLedger None)) (cmd_Stream (derive_open_cmd impact)) []"
    by (simp add: stream_history_def NewLedger_def history_start)
  obtain dctx where ctx: "context_for derive_options 5 ada (derive_open_cmd impact) empty_models = Inr dctx" "Now dctx = 5" "Actor dctx = ada" "Autonomy dctx = L0"
    using daemon_context [of sample_digest sample_json derive_marshal derive_unmarshal 5 ada "derive_open_cmd impact" empty_models]
    by (auto simp: empty_models_def Effective_def Resolve_def go_sort_def)
  have scope: "ScopeKey_Validate (zero_scope_key\<lparr>sk_Repo := ''keelage''\<rparr>) = None"
    by code_simp
  have anchors: "ParseAnchors_error [''code://a.ts''] = None"
    by code_simp
  have dec: "Root_Decide (Replay Root_Apply (stream_zero (cmd_Stream (derive_open_cmd impact))) []) (derive_open_cmd impact) dctx = Inr [derived_open impact]"
    unfolding cmd using ctx(2-4) anchors scope
    by (simp add: open_command_def derived_open_def change_open_def zero_change_def lift_events_def sample_deriver_def sample_derived_def sample_commit_def
        zero_derived_def change_mode_known_def Let_def)
  have enc: "\<forall>ev \<in> set [derived_open impact]. \<exists>b. derive_marshal ev = Inr b"
    using assms by (auto simp: derive_marshal_def)
  obtain res l p where h: "Pipeline_Handle derive_options app_handlers 5 ada (derive_open_cmd impact) (NewLedger None, empty_models) = ((res, None), (l, p))"
      "written derive_options (derive_open_cmd impact) [derived_open impact] [] (l_all l)"
    using accepted_written [OF derive_roundtrip reach_start derive_sealing derive_actor fresh hist ctx(1) dec _ enc] by (auto simp: NewLedger_def)
  then obtain w where "l_all l = [w]" "decodes derive_options w (derived_open impact)"
    by (auto simp: written_def list_all2_Cons2)
  then show ?thesis
    using open_written [OF derive_roundtrip reach_start new h(1)] h(1) by (auto simp: NewLedger_def sample_commit_def)
qed

lemma sample_derives:
  "\<exists>out st. Deriver_Derive sample_deriver (\<lambda>_ c. c) (\<lambda>n. 5 + int n) ''c1'' ada ''HEAD'' (NewLedger None, empty_models) = Some ((out, None), st) \<and>
    dr_Settled out \<and> \<not> dr_Replayed out \<and> dr_Anchors out = [''code://a.ts'']"
proof -
  obtain res l p w where h: "Pipeline_Handle derive_options app_handlers 5 ada (derive_open_cmd []) (NewLedger None, empty_models) = ((res, None), (l, p))"
      "l_all l = [w]" "e_Stream w = ChangeStream ''c1''" "e_Idem w = ''derive:abc''" "decodes derive_options w (derived_open [])" "\<not> re_Replayed res"
    using sample_open [of "[]"] by blast
  let ?cmd = "settle_command ''c1'' sample_commit"
  have reach: "daemon_reaches sample_digest sample_json derive_marshal derive_unmarshal None l p"
    using reach_step [OF reach_start h(1)] .
  have cmd: "cmd_Stream ?cmd = ChangeStream ''c1''" "stream_zero (ChangeStream ''c1'') = AggChange zero_change"
    using cmd_zero_stream [of ?cmd] by (simp_all add: settle_command_def)
  have new: "new_change (NewLedger None) ''c1''"
    by (simp add: new_change_def NewLedger_def stream_log_def mem_Lookup_def)
  have fresh: "fresh_key l ?cmd"
    using settle_fresh [OF daemon_ok(1) [OF derive_roundtrip reach_start] daemon_ok(1) [OF derive_roundtrip reach] new, of w sample_commit] h(2,4)
    by (simp add: NewLedger_def sample_commit_def)
  obtain evs where hist: "stream_history derive_options (l_all l) (cmd_Stream ?cmd) evs"
    using daemon_ok(2) [OF derive_roundtrip reach] cmd_Stream_not_rejected [of ?cmd] by (auto simp: streams_ok_def)
  then have evs: "evs = [derived_open []]"
    using h(2,3,5) by (auto simp: stream_history_def cmd stream_log_def list_all2_Cons1 decodes_def)
  obtain dctx where ctx: "context_for derive_options 6 ada ?cmd p = Inr dctx" "Now dctx = 6"
    using daemon_context by metis
  have dec: "Root_Decide (Replay Root_Apply (stream_zero (cmd_Stream ?cmd)) evs) ?cmd dctx = Inr [derived_settled]"
    unfolding cmd evs using ctx(2)
    by (simp add: settle_command_def derived_open_def derived_settled_def lift_events_def change_settle_def Impact_Empty_def zero_change_def Let_def)
  have enc: "\<forall>ev \<in> set [derived_settled]. \<exists>b. derive_marshal ev = Inr b"
    by (simp add: derive_marshal_def)
  obtain res' l' p' where h': "Pipeline_Handle derive_options app_handlers 6 ada ?cmd (l, p) = ((res', None), (l', p'))"
    using accepted_written [OF derive_roundtrip reach derive_sealing derive_actor fresh hist ctx(1) dec _ enc] by auto
  have "existing_change (\<lambda>c. c) empty_models sample_derived ''abc'' = None"
    by (simp add: existing_change_def ChangeIndex_ByRef_def empty_models_def)
  moreover have "dv_Pipeline sample_deriver = derive_options"
    by (simp add: sample_deriver_def)
  then have "derive_open sample_deriver (\<lambda>c. c) (\<lambda>n. 5 + int n) ada ''c1'' sample_commit sample_derived [] (NewLedger None, empty_models) =
      ((sample_derived\<lparr>dr_ChangeID := ''c1'', dr_Settled := True\<rparr>, None), (l', p'))"
    using h(1,6) h' by (simp add: derive_open_def Let_def)
  moreover have "cm_SHA sample_commit = ''abc''"
    by (simp add: sample_commit_def)
  ultimately show ?thesis
    unfolding Deriver_Derive_changes [OF sample_changes] by (simp add: sample_derive_commit) (simp add: sample_derived_def zero_derived_def)
qed

text \<open>The index visited as it is, or backwards.\<close>

lemma sample_order: "loop_order (\<lambda>c. c)" "loop_order rev"
  by (simp_all add: loop_order_def)

lemma sample_new: "new_change (NewLedger None) ''c1''"
  by (simp add: new_change_def NewLedger_def stream_log_def mem_Lookup_def)

lemma sample_pipeline: "dv_Pipeline sample_deriver = derive_options"
  by (simp add: sample_deriver_def)

theorem derive_touches_witness:
  "\<exists>out l p es v. Deriver_Derive sample_deriver (\<lambda>_ c. c) (\<lambda>n. 5 + int n) ''c1'' ada ''HEAD'' (NewLedger None, empty_models) = Some ((out, None), (l, p)) \<and>
    dr_Anchors out = [''code://a.ts''] \<and> l_all l = es \<and> length es = 2 \<and> decodes derive_options (hd es) (EvChange (ChangeOpened v)) \<and>
    im_Anchors (op_Impact v) = [''code://a.ts'']"
proof -
  obtain out l p where h: "Deriver_Derive sample_deriver (\<lambda>_ c. c) (\<lambda>n. 5 + int n) ''c1'' ada ''HEAD'' (NewLedger None, empty_models) = Some ((out, None), (l, p))"
      "dr_Settled out" "\<not> dr_Replayed out" "dr_Anchors out = [''code://a.ts'']"
    using sample_derives by (metis prod.collapse)
  have order: "\<forall>n :: nat. loop_order (\<lambda>c. c)"
    using sample_order by simp
  obtain es c where "l_all l = l_all (NewLedger None) @ es" "dr_Constraints out = []" "derive_records derive_options sample_deriver ada ''c1'' c out [] es"
    using derive_touches [OF derive_roundtrip reach_start sample_pipeline order sample_new h(1)] h(2,3) by auto
  then show ?thesis
    using h(1,4) by (auto simp: derive_records_def opened_for_def NewLedger_def intro!: exI)
qed


end
