(* ===== verification/Inbox.thy ===== *)
theory Inbox
  imports Hooks Rebuild
begin

section \<open>The inbox and the history of an anchor\<close>

text \<open>
  \<^verbatim>\<open>internal/app/inbox.go\<close>: what waits for a person, from the read models, and the records of the ledger that concern an anchor. The
  paging loop of \<^verbatim>\<open>History\<close> has no bound of its own: not returning is \<open>None\<close>. A precision in a format (\<^verbatim>\<open>%.8s\<close>) counts runes.
\<close>

subsection \<open>Inbox\<close>

record inbox_item =
  ib_Kind :: string
  ib_ID :: string
  ib_Scope :: string
  ib_Anchor :: string
  ib_State :: string
  ib_Cause :: string
  ib_At :: go_time

definition change_item :: "change_summary \<Rightarrow> inbox_item option" where
  "change_item c =
     (if hs_State c = StateSettled \<or> length (hs_Constraints c) = 0 then None
      else Some \<lparr>ib_Kind = ''change'', ib_ID = hs_ID c, ib_Scope = ScopeKey_String (hs_Scope c),
        ib_Anchor = (if length (hs_Anchors c) > 0
                     then hs_Anchors c ! 0 @ (if length (hs_Anchors c) > 1 then '' +'' @ Itoa (int (length (hs_Anchors c)) - 1) else [])
                     else ''''),
        ib_State = change_state_string (hs_State c),
        ib_Cause = ''references '' @ Itoa (int (length (hs_Constraints c))) @ '' constraint(s)'' @
                   (if hs_State c = StateProposed then ''; needs a judgment'' else []),
        ib_At = hs_UpdatedAt c\<rparr>)"

definition anchor_item :: "anchor_summary \<Rightarrow> inbox_item option" where
  "anchor_item a =
     (if au_State a = AStateStale \<or> au_State a = AStateReview \<or> au_State a = AStateUnrealized
      then Some \<lparr>ib_Kind = ''anchor'', ib_ID = au_Key a, ib_Scope = '''', ib_Anchor = au_Key a, ib_State = anchor_state_string (au_State a),
        ib_Cause = (if au_State a = AStateUnrealized
                    then ''no longer in the working tree'' @ (if au_MovedTo a \<noteq> '''' then ''; moved to '' @ au_MovedTo a else [])
                    else if au_State a = AStateReview then ''body changed since verification''
                    else ''signature changed since verification''),
        ib_At = au_UpdatedAt a\<rparr>
      else None)"

definition constraint_item :: "constraint_summary \<Rightarrow> inbox_item option" where
  "constraint_item c =
     (let item = \<lparr>ib_Kind = ''constraint'', ib_ID = cu_ID c, ib_Scope = ScopeKey_String (cu_Scope c), ib_Anchor = Join (cu_Anchors c) '','',
                  ib_State = constraint_state_string (cu_State c), ib_Cause = '''', ib_At = 0\<rparr> in
      if cu_State c = CStateGenerated then Some (item\<lparr>ib_Cause := ''drafted; not yet verified''\<rparr>)
      else if cu_State c = CStateReview then Some (item\<lparr>ib_Cause := ''under review''\<rparr>)
      else None)"

definition joinKeys :: "(string \<times> bool) list \<Rightarrow> string" where
  "joinKeys m = Join (go_sort (<) (map fst m)) '',''"

definition session_item :: "session_summary \<Rightarrow> inbox_item option" where
  "session_item s =
     (if length (su_Judgments s) = 0 \<or> su_State s = SessionStateShared then None
      else let files = foldl (\<lambda>m j. foldl (\<lambda>m f. map_put f True m) m (sj_Files j)) [] (su_Judgments s) in
        Some \<lparr>ib_Kind = ''session'', ib_ID = SessionSummary_Stream s, ib_Scope = su_Repo s, ib_Anchor = joinKeys files,
          ib_State = session_state_string (su_State s),
          ib_Cause = Sprintf ''%d judgment candidate(s) from %d turns'' [Itoa (int (length (su_Judgments s))), Itoa (su_Turns s)],
          ib_At = su_EndedAt s\<rparr>)"

definition item_less :: "inbox_item \<Rightarrow> inbox_item \<Rightarrow> bool" where
  "item_less a b = (if ib_At a \<noteq> ib_At b then ib_At a < ib_At b else ib_ID a < ib_ID b)"

definition Inbox :: "change_index \<Rightarrow> anchor_index \<Rightarrow> constraint_index \<Rightarrow> session_index option \<Rightarrow> inbox_item list" where
  "Inbox changes anchors constraints sessions =
     go_sort item_less
       (List.map_filter change_item (ChangeIndex_All changes) @ List.map_filter anchor_item (AnchorIndex_All anchors) @
        List.map_filter constraint_item (ConstraintIndex_All constraints) @
        (case sessions of None \<Rightarrow> [] | Some s \<Rightarrow> List.map_filter session_item (SessionIndex_All s)))"

subsection \<open>History\<close>

record history_entry =
  he_Seq :: int
  he_At :: go_time
  he_Kind :: string
  he_Stream :: string
  he_Actor :: string
  he_Summary :: string

fun mentions :: "event \<Rightarrow> string \<Rightarrow> bool" where
  "mentions (EvConstraint (ConstraintDrafted v)) key = app_contains (cd_Anchors v) key"
| "mentions (EvConstraint (ConstraintRebound v)) key = app_contains (cr_Anchors v) key"
| "mentions (EvChange (ChangeOpened v)) key = app_contains (im_Anchors (op_Impact v)) key"
| "mentions (EvGate (GateOpened v)) key = app_contains (go_Anchors v) key"
| "mentions (EvGate (GateDecided v)) key = app_contains (gd_Anchors v) key"
| "mentions _ key = False"

fun gate_decision_string :: "gate_decision \<Rightarrow> string" where
  "gate_decision_string GateAllow = ''allow''"
| "gate_decision_string GateDeny = ''deny''"
| "gate_decision_string GateAsk = ''ask''"
| "gate_decision_string (GateDecisionOther s) = s"

definition precision :: "nat \<Rightarrow> string \<Rightarrow> string" where
  "precision n s = concat (map snd (take n (runes s)))"

fun entry_summary :: "envelope \<Rightarrow> event \<Rightarrow> string" where
  "entry_summary e (EvAnchor (AnchorRecorded v)) =
     ''baseline sig='' @ precision 12 (h3_Signature (a1_Hash v)) @ '' at '' @ precision 8 (a1_Ref v)"
| "entry_summary e (EvAnchor (AnchorVerified v)) = ''verified ('' @ hash_change_string (a2_Change v) @ '') at '' @ precision 8 (a2_Ref v)"
| "entry_summary e (EvAnchor (AnchorStaled v)) =
     anchor_state_string (a3_State v) @ '': '' @ hash_change_string (a3_Cause v) @ '' changed at '' @ precision 8 (a3_Ref v)"
| "entry_summary e (EvAnchor (AnchorMoved v)) = ''moved to '' @ a4_To v"
| "entry_summary e (EvConstraint (ConstraintDrafted v)) = Sprintf ''constraint %s drafted: %s'' [cd_ID v, cd_Body v]"
| "entry_summary e (EvConstraint (ConstraintRebound v)) = Sprintf ''constraint %s rebound'' [cr_ID v]"
| "entry_summary e (EvChange (ChangeOpened v)) =
     Sprintf ''change %s opened (%s, %d constraint(s))'' [op_ID v, change_mode_string (op_Mode v), Itoa (int (length (im_Constraints (op_Impact v))))]"
| "entry_summary e (EvGate (GateOpened v)) = Sprintf ''gate %s asked (%s)'' [go_ID v, go_PolicyRef v]"
| "entry_summary e (EvGate (GateDecided v)) = Sprintf ''gate %s %s (%s)'' [gd_ID v, gate_decision_string (gd_Decision v), gd_PolicyRef v]"
| "entry_summary e _ = e_Kind e"

definition history_entry_of :: "envelope \<Rightarrow> event \<Rightarrow> history_entry" where
  "history_entry_of e ev = \<lparr>he_Seq = e_Seq e, he_At = e_TS e, he_Kind = e_Kind e, he_Stream = e_Stream e, he_Actor = ar_ID (e_Actor e),
     he_Summary = entry_summary e ev\<rparr>"

text \<open>The loop over one page: the number of the last record and the entries so far, or the error of a record of the anchor.\<close>

fun history_batch :: "('l, 'p) options \<Rightarrow> string \<Rightarrow> int \<times> history_entry list \<Rightarrow> envelope list \<Rightarrow> go_error + int \<times> history_entry list" where
  "history_batch opt key x [] = Inr x"
| "history_batch opt key x (e # es) =
     (if e_Stream e \<noteq> AnchorStream key \<and> \<not> app_contains (em_Refs (e_Meta e)) key
      then history_batch opt key
             (e_Seq e, snd x @ (case decode opt e of Inl _ \<Rightarrow> [] | Inr ev \<Rightarrow> if mentions ev key then [history_entry_of e ev] else [])) es
      else (case decode opt e of
              Inl err \<Rightarrow> Inl err
            | Inr ev \<Rightarrow> history_batch opt key (e_Seq e, snd x @ [history_entry_of e ev]) es))"

partial_function (option) history_pages :: "('l, 'p) options \<Rightarrow> 'l \<Rightarrow> string \<Rightarrow> int \<Rightarrow> history_entry list \<Rightarrow> (go_error + history_entry list) option" where
  "history_pages opt l key seq out =
     (case pl_ReadAll (o_Ledger opt) l (seq + 1) page of
        Inl err \<Rightarrow> Some (Inl (ledger_error_string err))
      | Inr batch \<Rightarrow>
          if length batch = 0 then Some (Inr out)
          else (case history_batch opt key (seq, out) batch of
                  Inl err \<Rightarrow> Some (Inl err)
                | Inr (seq', out') \<Rightarrow> if int (length batch) < page then Some (Inr out') else history_pages opt l key seq' out'))"

definition History :: "('l, 'p) options \<Rightarrow> 'l \<Rightarrow> string \<Rightarrow> (go_error + history_entry list) option" where
  "History opt l anchor =
     (case ParseAnchor anchor of
        Inl err \<Rightarrow> Some (Inl err)
      | Inr a \<Rightarrow> history_pages opt l (Anchor_String a) 0 [])"

end
