(* ===== verification/Inbox_Facts.thy ===== *)
theory Inbox_Facts
  imports Inbox Runtime_Facts
begin

section \<open>Facts about the history of an anchor\<close>

text \<open>
  That the paging loop of \<^verbatim>\<open>History\<close> returns on every ledger that keeps the contract of the port, with exactly the records that concern the anchor.
\<close>

definition concerns :: "string \<Rightarrow> envelope \<times> event \<Rightarrow> bool" where
  "concerns key x \<longleftrightarrow> e_Stream (fst x) = AnchorStream key \<or> key \<in> set (em_Refs (e_Meta (fst x))) \<or> mentions (snd x) key"

definition history_of :: "string \<Rightarrow> envelope list \<Rightarrow> event list \<Rightarrow> history_entry list" where
  "history_of key es evs = map (\<lambda>(e, ev). history_entry_of e ev) (filter (concerns key) (zip es evs))"

lemma history_of_append:
  "length xs = length us \<Longrightarrow> history_of key (xs @ ys) (us @ vs) = history_of key xs us @ history_of key ys vs"
  by (simp add: history_of_def)

lemma app_contains_iff: "app_contains xs s \<longleftrightarrow> s \<in> set xs"
  by (induction xs) auto

lemma history_batch_concerns:
  assumes "list_all2 (decodes opt) es evs"
  shows "history_batch opt key (seq, out) es = Inr (if es = [] then seq else e_Seq (last es), out @ history_of key es evs)"
  using assms
proof (induction arbitrary: seq out rule: list_all2_induct)
  case (Cons e es ev evs)
  then show ?case
    by (auto simp: history_of_def concerns_def decodes_def app_contains_iff)
qed (simp add: history_of_def)

context ledger_port
begin

lemma page_end:
  assumes "inv l" "n < length (log l)"
  shows "e_Seq (last (take 500 (drop n (log l)))) = int (n + length (take 500 (drop n (log l))))"
proof -
  let ?batch = "take 500 (drop n (log l))"
  let ?m = "n + length ?batch"
  have m: "n < ?m" "?m \<le> length (log l)"
    using assms(2) by auto
  have "last ?batch = log l ! (?m - 1)"
    using assms(2) by (simp add: last_conv_nth min_def) (auto simp: add.commute)
  then show ?thesis
    using log_ok_seq [OF log_wf [OF assms(1)], of "?m - 1"] m by simp
qed

lemma history_returns:
  assumes opt: "o_Ledger opt = P" and inv: "inv l"
    and dec: "list_all2 (decodes opt) (drop n (log l)) evs" and n: "n \<le> length (log l)"
  shows "history_pages opt l key (int n) out = Some (Inr (out @ history_of key (drop n (log l)) evs))"
  using dec n
proof (induction "length (log l) - n" arbitrary: n evs out rule: less_induct)
  case less
  let ?rest = "drop n (log l)"
  let ?batch = "take 500 ?rest"
  have rd: "pl_ReadAll (o_Ledger opt) l (int n + 1) page = Inr ?batch"
    using read_all [OF inv, of "int n + 1" page] by (simp add: opt)
  have len: "length ?rest = length evs"
    using less(2) by (rule list_all2_lengthD)
  have db: "list_all2 (decodes opt) ?batch (take 500 evs)" "list_all2 (decodes opt) (drop 500 ?rest) (drop 500 evs)"
    using less(2) by (rule list_all2_takeI, rule list_all2_dropI)
  show ?case
  proof (cases "?rest = []")
    case True
    then show ?thesis
      using rd len by (subst history_pages.simps) (simp add: history_of_def)
  next
    case False
    let ?m = "n + length ?batch"
    have rb: "history_batch opt key (int n, out) ?batch = Inr (int ?m, out @ history_of key ?batch (take 500 evs))"
      using history_batch_concerns [OF db(1), of key "int n" out] False page_end [OF inv, of n] by simp
    show ?thesis
    proof (cases "length ?rest < 500")
      case True
      then show ?thesis
        using rd rb False len by (subst history_pages.simps) (auto simp: history_of_def)
    next
      case full: False
      have "history_pages opt l key (int ?m) (out @ history_of key ?batch (take 500 evs)) =
          Some (Inr ((out @ history_of key ?batch (take 500 evs)) @ history_of key (drop ?m (log l)) (drop 500 evs)))"
        using less(1) [of ?m "drop 500 evs"] db(2) full by (auto simp: add.commute)
      moreover have "history_of key ?batch (take 500 evs) @ history_of key (drop 500 ?rest) (drop 500 evs) = history_of key ?rest evs"
        using history_of_append [of ?batch "take 500 evs" key "drop 500 ?rest" "drop 500 evs"] len by (simp only: append_take_drop_id length_take)
      ultimately show ?thesis
        using rd rb False full by (subst history_pages.simps) (simp add: add.commute)
    qed
  qed
qed

end

end
