(* ===== verification/Merkle.thy ===== *)
theory Merkle
  imports Gate Ledger "HOL-Library.Word"
begin

section \<open>The transparency log\<close>

text \<open>
  \<^verbatim>\<open>internal/merkle/merkle.go\<close>: leaves of the tree over ledger records, the perfect subtrees to store, proofs, signed checkpoints and their
  verification. The package \<^verbatim>\<open>transparency-dev/merkle\<close> (node ids, ranges, proofs, the RFC 6962 hasher) is outside: its functions are a record of
  arguments, over its type \<open>'n\<close> of node ids, its type \<open>'p\<close> of proof nodes and its type \<open>'r\<close> of ranges. Signatures are arguments as well. Sizes and
  indices are 64-bit words.
\<close>

type_synonym u64 = "64 word"

record ('n, 'p, 'r) merkle_lib =
  ml_HashLeaf :: "bytes \<Rightarrow> hash"
  ml_HashChildren :: "hash \<Rightarrow> hash \<Rightarrow> hash"
  ml_EmptyRoot :: hash
  ml_NewNodeID :: "u64 \<Rightarrow> u64 \<Rightarrow> 'n"
  ml_Level :: "'n \<Rightarrow> u64"
  ml_Index :: "'n \<Rightarrow> u64"
  ml_Parent :: "'n \<Rightarrow> 'n"
  ml_RangeNodes :: "u64 \<Rightarrow> u64 \<Rightarrow> 'n list"
  ml_NewRange :: "(hash \<Rightarrow> hash \<Rightarrow> hash) \<Rightarrow> u64 \<Rightarrow> u64 \<Rightarrow> hash list \<Rightarrow> go_error + 'r"
  ml_GetRootHash :: "'r \<Rightarrow> go_error + hash"
  ml_Inclusion :: "u64 \<Rightarrow> u64 \<Rightarrow> go_error + 'p"
  ml_Consistency :: "u64 \<Rightarrow> u64 \<Rightarrow> go_error + 'p"
  ml_IDs :: "'p \<Rightarrow> 'n list"
  ml_Rehash :: "'p \<Rightarrow> hash list \<Rightarrow> (hash \<Rightarrow> hash \<Rightarrow> hash) \<Rightarrow> go_error + hash list"
  ml_VerifyInclusion :: "u64 \<Rightarrow> u64 \<Rightarrow> hash \<Rightarrow> hash list \<Rightarrow> hash \<Rightarrow> go_error option"
  ml_VerifyConsistency :: "u64 \<Rightarrow> u64 \<Rightarrow> hash list \<Rightarrow> hash \<Rightarrow> hash \<Rightarrow> go_error option"

definition LeafHash :: "('n, 'p, 'r) merkle_lib \<Rightarrow> hash \<Rightarrow> hash \<Rightarrow> hash" where
  "LeafHash ml mh bh = ml_HashLeaf ml (mh @ bh)"

definition NewNodeID :: "('n, 'p, 'r) merkle_lib \<Rightarrow> u64 \<Rightarrow> u64 \<Rightarrow> 'n" where
  "NewNodeID ml level index = ml_NewNodeID ml level index"

definition HashChildren :: "('n, 'p, 'r) merkle_lib \<Rightarrow> hash \<Rightarrow> hash \<Rightarrow> hash" where
  "HashChildren ml l r = ml_HashChildren ml l r"

subsection \<open>Stored subtrees\<close>

text \<open>The loop of \<^verbatim>\<open>ParentsToStore\<close>: the current node, its hash and the output.\<close>

partial_function (option) parents_loop :: "('n, 'p, 'r) merkle_lib \<Rightarrow> ('n \<Rightarrow> go_error + hash) \<Rightarrow> 'n \<Rightarrow> hash \<Rightarrow> ('n \<times> hash) list \<Rightarrow>
    (go_error + ('n \<times> hash) list) option" where
  "parents_loop ml fetch cur h out =
     (if ml_Index ml cur mod 2 = 1
      then (case fetch (NewNodeID ml (ml_Level ml cur) (ml_Index ml cur - 1)) of
              Inl err \<Rightarrow> Some (Inl err)
            | Inr left \<Rightarrow>
              (let h' = HashChildren ml left h; cur' = ml_Parent ml cur in parents_loop ml fetch cur' h' (out @ [(cur', h')])))
      else Some (Inr out))"

definition ParentsToStore :: "('n, 'p, 'r) merkle_lib \<Rightarrow> u64 \<Rightarrow> hash \<Rightarrow> ('n \<Rightarrow> go_error + hash) \<Rightarrow> (go_error + ('n \<times> hash) list) option" where
  "ParentsToStore ml index leaf fetch = parents_loop ml fetch (NewNodeID ml 0 index) leaf [(NewNodeID ml 0 index, leaf)]"

fun fetch_hashes :: "('n \<Rightarrow> go_error + hash) \<Rightarrow> 'n list \<Rightarrow> go_error + hash list" where
  "fetch_hashes fetch [] = Inr []"
| "fetch_hashes fetch (i # is) =
     (case fetch i of
        Inl err \<Rightarrow> Inl err
      | Inr h \<Rightarrow> (case fetch_hashes fetch is of Inl err \<Rightarrow> Inl err | Inr hs \<Rightarrow> Inr (h # hs)))"

definition Merkle_Root :: "('n, 'p, 'r) merkle_lib \<Rightarrow> u64 \<Rightarrow> ('n \<Rightarrow> go_error + hash) \<Rightarrow> go_error + hash" where
  "Merkle_Root ml tsize fetch =
     (if tsize = 0 then Inr (ml_EmptyRoot ml)
      else case fetch_hashes fetch (ml_RangeNodes ml 0 tsize) of
        Inl err \<Rightarrow> Inl err
      | Inr hashes \<Rightarrow>
        (case ml_NewRange ml (HashChildren ml) 0 tsize hashes of
           Inl err \<Rightarrow> Inl err
         | Inr r \<Rightarrow> ml_GetRootHash ml r))"

subsection \<open>Proofs\<close>

definition fetchAll :: "('n, 'p, 'r) merkle_lib \<Rightarrow> 'p \<Rightarrow> ('n \<Rightarrow> go_error + hash) \<Rightarrow> go_error + hash list" where
  "fetchAll ml n fetch =
     (case fetch_hashes fetch (ml_IDs ml n) of
        Inl err \<Rightarrow> Inl err
      | Inr hashes \<Rightarrow> ml_Rehash ml n hashes (HashChildren ml))"

definition InclusionProof :: "('n, 'p, 'r) merkle_lib \<Rightarrow> u64 \<Rightarrow> u64 \<Rightarrow> ('n \<Rightarrow> go_error + hash) \<Rightarrow> go_error + hash list" where
  "InclusionProof ml index tsize fetch = (case ml_Inclusion ml index tsize of Inl err \<Rightarrow> Inl err | Inr n \<Rightarrow> fetchAll ml n fetch)"

definition ConsistencyProof :: "('n, 'p, 'r) merkle_lib \<Rightarrow> u64 \<Rightarrow> u64 \<Rightarrow> ('n \<Rightarrow> go_error + hash) \<Rightarrow> go_error + hash list" where
  "ConsistencyProof ml size1 size2 fetch = (case ml_Consistency ml size1 size2 of Inl err \<Rightarrow> Inl err | Inr n \<Rightarrow> fetchAll ml n fetch)"

definition VerifyInclusion :: "('n, 'p, 'r) merkle_lib \<Rightarrow> u64 \<Rightarrow> u64 \<Rightarrow> hash \<Rightarrow> hash list \<Rightarrow> hash \<Rightarrow> go_error option" where
  "VerifyInclusion ml index tsize leaf p root = ml_VerifyInclusion ml index tsize leaf p root"

definition VerifyConsistency :: "('n, 'p, 'r) merkle_lib \<Rightarrow> u64 \<Rightarrow> u64 \<Rightarrow> hash list \<Rightarrow> hash \<Rightarrow> hash \<Rightarrow> go_error option" where
  "VerifyConsistency ml size1 size2 p root1 root2 = ml_VerifyConsistency ml size1 size2 p root1 root2"

subsection \<open>Checkpoints\<close>

text \<open>\<^verbatim>\<open>time.RFC3339\<close> in UTC: the date of a number of days since January 1 of the year 1 in the Gregorian calendar.\<close>

fun month_day :: "int list \<Rightarrow> int \<Rightarrow> int \<Rightarrow> int \<times> int" where
  "month_day [] m d = (m, d + 1)"
| "month_day (len # ls) m d = (if d < len then (m, d + 1) else month_day ls (m + 1) (d - len))"

definition civil_date :: "int \<Rightarrow> int \<times> int \<times> int" where
  "civil_date days =
     (let n400 = days div 146097; d1 = days mod 146097;
          n100 = min 3 (d1 div 36524); d2 = d1 - n100 * 36524;
          n4 = d2 div 1461; d3 = d2 mod 1461;
          n1 = min 3 (d3 div 365); yday = d3 - n1 * 365;
          leap = (n1 = 3 \<and> (n4 \<noteq> 24 \<or> n100 = 3)) in
      (1 + 400 * n400 + 100 * n100 + 4 * n4 + n1,
       month_day [31, if leap then 29 else 28, 31, 30, 31, 30, 31, 31, 30, 31, 30] 1 yday))"

definition pad :: "nat \<Rightarrow> int \<Rightarrow> string" where
  "pad w i = (let s = Itoa i in replicate (w - length s) (CHR ''0'') @ s)"

definition rfc3339 :: "go_time \<Rightarrow> string" where
  "rfc3339 t =
     (let secs = t div Second; s = secs mod 86400 in
      case civil_date (secs div 86400) of (y, m, d) \<Rightarrow>
        pad 4 y @ ''-'' @ pad 2 m @ ''-'' @ pad 2 d @ ''T'' @ pad 2 (s div 3600) @ '':'' @ pad 2 (s div 60 mod 60) @ '':'' @ pad 2 (s mod 60) @ ''Z'')"

record checkpoint =
  cx_Org :: string
  cx_TreeSize :: u64
  cx_Root :: hash
  cx_At :: go_time
  cx_Sig :: bytes
  cx_KeyID :: string

definition Canonical :: "checkpoint \<Rightarrow> bytes" where
  "Canonical c = ''keelage-checkpoint/v1'' @ [CHR 0x0A] @ cx_Org c @ [CHR 0x0A] @ nat_digits (unat (cx_TreeSize c)) @ [CHR 0x0A] @
     hex_encode (cx_Root c) @ [CHR 0x0A] @ rfc3339 (cx_At c) @ [CHR 0x0A]"

text \<open>\<open>sign\<close> is \<^verbatim>\<open>ed25519.Sign\<close> with the private key; \<open>verify\<close> is \<^verbatim>\<open>ed25519.Verify\<close>.\<close>

definition Checkpoint_Sign :: "(bytes \<Rightarrow> bytes) \<Rightarrow> string \<Rightarrow> checkpoint \<Rightarrow> checkpoint" where
  "Checkpoint_Sign sign keyID c =
     (let c' = c\<lparr>cx_At := time_truncate (cx_At c) Second, cx_KeyID := keyID\<rparr> in c'\<lparr>cx_Sig := sign (Canonical c')\<rparr>)"

definition Checkpoint_Verify :: "(bytes \<Rightarrow> bytes \<Rightarrow> bytes \<Rightarrow> bool) \<Rightarrow> bytes \<Rightarrow> checkpoint \<Rightarrow> go_error option" where
  "Checkpoint_Verify verify pub c =
     (if length pub \<noteq> 32 \<or> \<not> verify pub (Canonical c) (cx_Sig c) then Some ''checkpoint: signature does not verify'' else None)"

subsection \<open>Bundles\<close>

record proof_bundle =
  bn_Org :: string
  bn_Seq :: int
  bn_LeafIndex :: u64
  bn_LeafHash :: hash
  bn_MetaHash :: hash
  bn_BodyHash :: hash
  bn_TreeSize :: u64
  bn_Proof :: "hash list"
  bn_Checkpoint :: checkpoint

fun bytes_equal :: "bytes \<Rightarrow> bytes \<Rightarrow> bool" where
  "bytes_equal [] [] = True"
| "bytes_equal (x # xs) (y # ys) = (x = y \<and> bytes_equal xs ys)"
| "bytes_equal _ _ = False"

definition VerifyBundle :: "('n, 'p, 'r) merkle_lib \<Rightarrow> (bytes \<Rightarrow> bytes \<Rightarrow> bytes \<Rightarrow> bool) \<Rightarrow> proof_bundle \<Rightarrow> bytes \<Rightarrow> go_error option" where
  "VerifyBundle ml verify b pub =
     (case Checkpoint_Verify verify pub (bn_Checkpoint b) of
        Some err \<Rightarrow> Some err
      | None \<Rightarrow>
        if cx_TreeSize (bn_Checkpoint b) \<noteq> bn_TreeSize b \<or> cx_Org (bn_Checkpoint b) \<noteq> bn_Org b
        then Some (Sprintf ''bundle: checkpoint is for %s@%d, proof for %s@%d''
               [cx_Org (bn_Checkpoint b), nat_digits (unat (cx_TreeSize (bn_Checkpoint b))), bn_Org b, nat_digits (unat (bn_TreeSize b))])
        else if \<not> bytes_equal (LeafHash ml (bn_MetaHash b) (bn_BodyHash b)) (bn_LeafHash b)
        then Some ''bundle: leaf hash does not match meta/body hashes''
        else VerifyInclusion ml (bn_LeafIndex b) (bn_TreeSize b) (bn_LeafHash b) (bn_Proof b) (cx_Root (bn_Checkpoint b)))"

record consistency_bundle =
  cb_Org :: string
  cb_From :: checkpoint
  cb_To :: checkpoint
  cb_Proof :: "hash list"

definition VerifyConsistencyBundle :: "('n, 'p, 'r) merkle_lib \<Rightarrow> (bytes \<Rightarrow> bytes \<Rightarrow> bytes \<Rightarrow> bool) \<Rightarrow> consistency_bundle \<Rightarrow> bytes \<Rightarrow> go_error option" where
  "VerifyConsistencyBundle ml verify b pub =
     (case Checkpoint_Verify verify pub (cb_From b) of
        Some err \<Rightarrow> Some (''from: '' @ err)
      | None \<Rightarrow>
        (case Checkpoint_Verify verify pub (cb_To b) of
           Some err \<Rightarrow> Some (''to: '' @ err)
         | None \<Rightarrow>
           if cx_Org (cb_From b) \<noteq> cb_Org b \<or> cx_Org (cb_To b) \<noteq> cb_Org b then Some ''bundle: org mismatch''
           else VerifyConsistency ml (cx_TreeSize (cb_From b)) (cx_TreeSize (cb_To b)) (cb_Proof b) (cx_Root (cb_From b)) (cx_Root (cb_To b))))"

definition HexList :: "hash list \<Rightarrow> string" where
  "HexList hs = Join (map hex_encode hs) '',''"

end
