(* ===== verification/Merkle_Facts.thy ===== *)
theory Merkle_Facts
  imports Merkle
begin

section \<open>Facts about the transparency log\<close>

text \<open>
  The hash of a perfect subtree over the leaves, what it means that a store holds all of them, and that appending a leaf completes exactly those that
  \<^verbatim>\<open>ParentsToStore\<close> lists; then, that the signed text of a checkpoint determines what it says.
\<close>

subsection \<open>Node ids\<close>

text \<open>What the package documents of node ids: a level and an index; the parent is one level up at half the index.\<close>

definition node_ids :: "('n, 'p, 'r) merkle_lib \<Rightarrow> bool" where
  "node_ids ml \<longleftrightarrow> (\<forall>level index. ml_Level ml (ml_NewNodeID ml level index) = level \<and> ml_Index ml (ml_NewNodeID ml level index) = index \<and>
     ml_Parent ml (ml_NewNodeID ml level index) = ml_NewNodeID ml (level + 1) (index div 2))"

definition node :: "('n, 'p, 'r) merkle_lib \<Rightarrow> nat \<Rightarrow> nat \<Rightarrow> 'n" where
  "node ml k i = NewNodeID ml (of_nat k) (of_nat i)"

lemma unat_of_nat_u64: "x < 2 ^ 64 \<Longrightarrow> unat (of_nat x :: u64) = x"
  by (simp add: unat_of_nat take_bit_nat_eq_self)

lemma of_nat_u64_inject: "x < 2 ^ 64 \<Longrightarrow> y < 2 ^ 64 \<Longrightarrow> (of_nat x :: u64) = of_nat y \<longleftrightarrow> x = y"
  by (metis unat_of_nat_u64)

lemma of_nat_u64_div: "x < 2 ^ 64 \<Longrightarrow> (of_nat x :: u64) div 2 = of_nat (x div 2)"
  using unat_of_nat_u64 [of x] unat_of_nat_u64 [of "x div 2"] by (simp add: word_unat_eq_iff unat_div_distrib)

lemma of_nat_u64_odd: "x < 2 ^ 64 \<Longrightarrow> (of_nat x :: u64) mod 2 = 1 \<longleftrightarrow> odd x"
  using unat_of_nat_u64 [of x] by (simp add: word_unat_eq_iff unat_mod_distrib odd_iff_mod_2_eq_one)

lemma node_inject:
  assumes "node_ids ml" "k \<le> 64" "k' \<le> 64" "i < 2 ^ 64" "i' < 2 ^ 64"
  shows "node ml k i = node ml k' i' \<longleftrightarrow> k = k' \<and> i = i'"
proof -
  have "ml_Level ml (node ml k i) = of_nat k" "ml_Index ml (node ml k i) = of_nat i" for k i
    using assms(1) by (simp_all add: node_ids_def node_def NewNodeID_def)
  then show ?thesis
    using assms of_nat_u64_inject [of k k'] of_nat_u64_inject [of i i'] by (metis le_less_trans numeral_less_iff power_numeral semiring_norm(76) less_exp)
qed

lemma node_step:
  assumes "node_ids ml" "i < 2 ^ 64"
  shows "ml_Index ml (node ml k i) mod 2 = 1 \<longleftrightarrow> odd i" "ml_Parent ml (node ml k i) = node ml (Suc k) (i div 2)"
    "odd i \<Longrightarrow> NewNodeID ml (ml_Level ml (node ml k i)) (ml_Index ml (node ml k i) - 1) = node ml k (i - 1)"
proof -
  show "ml_Index ml (node ml k i) mod 2 = 1 \<longleftrightarrow> odd i" "ml_Parent ml (node ml k i) = node ml (Suc k) (i div 2)"
    using assms of_nat_u64_odd [of i] of_nat_u64_div [of i] by (simp_all add: node_ids_def node_def NewNodeID_def add.commute)
  assume "odd i"
  then have "(of_nat i :: u64) - 1 = of_nat (i - 1)"
    by (cases i) simp_all
  then show "NewNodeID ml (ml_Level ml (node ml k i)) (ml_Index ml (node ml k i) - 1) = node ml k (i - 1)"
    using assms(1) by (simp add: node_ids_def node_def NewNodeID_def)
qed

subsection \<open>Perfect subtrees\<close>

fun perfect :: "('n, 'p, 'r) merkle_lib \<Rightarrow> hash list \<Rightarrow> nat \<Rightarrow> nat \<Rightarrow> hash" where
  "perfect ml leaves 0 i = leaves ! i"
| "perfect ml leaves (Suc k) i = HashChildren ml (perfect ml leaves k (2 * i)) (perfect ml leaves k (2 * i + 1))"

text \<open>The store holds every perfect subtree: at level \<open>k\<close> and index \<open>i\<close>, the one over the leaves from \<open>i * 2 ^ k\<close> to \<open>(i + 1) * 2 ^ k - 1\<close>.\<close>

definition stores :: "('n, 'p, 'r) merkle_lib \<Rightarrow> ('n \<Rightarrow> go_error + hash) \<Rightarrow> hash list \<Rightarrow> bool" where
  "stores ml fetch leaves \<longleftrightarrow> (\<forall>k i. (i + 1) * 2 ^ k \<le> length leaves \<longrightarrow> fetch (node ml k i) = Inr (perfect ml leaves k i))"

text \<open>The store after its caller stored the nodes that were returned.\<close>

definition stored :: "('n \<Rightarrow> go_error + hash) \<Rightarrow> ('n \<times> hash) list \<Rightarrow> 'n \<Rightarrow> go_error + hash" where
  "stored fetch out i = (case map_of out i of Some h \<Rightarrow> Inr h | None \<Rightarrow> fetch i)"

lemma perfect_append: "(i + 1) * 2 ^ k \<le> length leaves \<Longrightarrow> perfect ml (leaves @ rest) k i = perfect ml leaves k i"
proof (induction k arbitrary: i)
  case (Suc k)
  have "(2 * i + 1) * 2 ^ k \<le> length leaves" "(2 * i + 1 + 1) * 2 ^ k \<le> length leaves"
    using Suc.prems by (simp_all add: algebra_simps)
  then show ?case
    using Suc.IH by simp
qed (simp add: nth_append)

lemma level_cases:
  "{X k i | k i. Q k i} = {X 0 i | i. Q 0 i} \<union> {X k i | k i. (0 :: nat) < k \<and> Q k i}"
proof (intro set_eqI iffI)
  fix x
  assume "x \<in> {X k i | k i. Q k i}"
  then obtain k i where "x = X k i" "Q k i"
    by blast
  then show "x \<in> {X 0 i | i. Q 0 i} \<union> {X k i | k i. 0 < k \<and> Q k i}"
    by (cases "k = 0") auto
qed blast

lemma positive_levels: "{X k i | k i. (0 :: nat) < k \<and> Q k i} = {X (Suc k) i | k i. Q (Suc k) i}"
  by (metis (no_types, opaque_lifting) gr0_conv_Suc)

lemma parents_loop_parents:
  assumes ml: "node_ids ml" and store: "stores ml fetch leaves" and small: "length leaves < 2 ^ 64"
  shows "length leaves + 1 = (i + 1) * 2 ^ k \<Longrightarrow>
    \<exists>rest m. parents_loop ml fetch (node ml k i) (perfect ml (leaves @ [leaf]) k i) out = Some (Inr (out @ rest)) \<and>
      length rest = m \<and> 2 ^ (k + m) \<le> length leaves + 1 \<and>
      set rest = {(node ml (k + j) i', perfect ml (leaves @ [leaf]) (k + j) i') | j i'. j > 0 \<and> length leaves + 1 = (i' + 1) * 2 ^ (k + j)}"
proof (induction i arbitrary: k out rule: less_induct)
  case (less i)
  let ?L = "leaves @ [leaf]" and ?n = "length leaves + 1"
  have i: "i < 2 ^ 64"
  proof -
    have "i + 1 \<le> ?n"
      unfolding less.prems using mult_le_mono2 [of 1 "2 ^ k" "i + 1"] by simp
    then show ?thesis
      using small by linarith
  qed
  note step = node_step [OF ml i, of k]
  show ?case
  proof (cases "odd i")
    case False
    have "\<not> ?n = (i' + 1) * 2 ^ (k + j)" if "j > 0" for i' j
    proof
      assume "?n = (i' + 1) * 2 ^ (k + j)"
      then have "(i + 1) * 2 ^ k = ((i' + 1) * 2 ^ j) * 2 ^ k"
        using less.prems by (metis power_add mult.assoc mult.commute)
      then have "i + 1 = (i' + 1) * 2 ^ j"
        by (metis mult_right_cancel power_not_zero zero_neq_numeral)
      then show False
        using False that by (metis dvd_triv_right even_add even_mult_iff even_numeral even_power odd_one)
    qed
    then show ?thesis
      using less.prems False step(1) by (intro exI [of _ "[]"] exI [of _ 0]) (auto simp: parents_loop.simps)
  next
    case True
    let ?i = "i div 2"
    have i2: "i = 2 * ?i + 1"
      using True by simp
    have "i + 1 = (?i + 1) * 2"
      using True by (auto elim!: oddE)
    then have n: "?n = (?i + 1) * 2 ^ Suc k"
      using less.prems by (simp only: power_Suc mult.assoc)
    have "(i - 1 + 1) * 2 ^ k + 2 ^ k = length leaves + 1" "1 \<le> (2 :: nat) ^ k"
      using less.prems True by (cases i; simp)+
    then have "(i - 1 + 1) * 2 ^ k \<le> length leaves"
      by linarith
    then have "fetch (node ml k (i - 1)) = Inr (perfect ml ?L k (i - 1))"
      using store perfect_append unfolding stores_def by metis
    moreover have "HashChildren ml (perfect ml ?L k (i - 1)) (perfect ml ?L k i) = perfect ml ?L (Suc k) ?i"
      using True by (auto elim!: oddE)
    ultimately have run: "parents_loop ml fetch (node ml k i) (perfect ml ?L k i) out =
        parents_loop ml fetch (node ml (Suc k) ?i) (perfect ml ?L (Suc k) ?i) (out @ [(node ml (Suc k) ?i, perfect ml ?L (Suc k) ?i)])"
      using True step by (subst parents_loop.simps) (simp add: Let_def)
    have "?i < i"
      using i2 by linarith
    from less.IH [OF this n, of "out @ [(node ml (Suc k) ?i, perfect ml ?L (Suc k) ?i)]"]
    obtain rest where rest: "parents_loop ml fetch (node ml k i) (perfect ml ?L k i) out = Some (Inr (out @ (node ml (Suc k) ?i, perfect ml ?L (Suc k) ?i) # rest))"
        "2 ^ (Suc k + length rest) \<le> ?n"
        "set rest = {(node ml (Suc k + j) i', perfect ml ?L (Suc k + j) i') | j i'. j > 0 \<and> ?n = (i' + 1) * 2 ^ (Suc k + j)}"
      unfolding run by auto
    have one: "?n = (i' + 1) * 2 ^ Suc k \<longleftrightarrow> i' = ?i" for i'
      unfolding n by (metis add_right_cancel mult_cancel2 power_not_zero zero_neq_numeral)
    have "insert (node ml (Suc k) ?i, perfect ml ?L (Suc k) ?i) (set rest) =
        {(node ml (k + j) i', perfect ml ?L (k + j) i') | j i'. j > 0 \<and> ?n = (i' + 1) * 2 ^ (k + j)}"
      unfolding rest(3) by (subst (2) positive_levels, subst (2) level_cases) (use one in simp)
    then show ?thesis
      using rest(1,2) by (intro exI [of _ "(node ml (Suc k) ?i, perfect ml ?L (Suc k) ?i) # rest"] exI [of _ "Suc (length rest)"]) simp
  qed
qed

lemma ParentsToStore_stores:
  assumes ml: "node_ids ml" and store: "stores ml fetch leaves" and small: "length leaves < 2 ^ 64"
  shows "\<exists>out. ParentsToStore ml (of_nat (length leaves)) leaf fetch = Some (Inr out) \<and> length out \<le> 65 \<and>
    set out = {(node ml k i, perfect ml (leaves @ [leaf]) k i) | k i. length leaves + 1 = (i + 1) * 2 ^ k} \<and>
    stores ml (stored fetch out) (leaves @ [leaf])"
proof -
  let ?L = "leaves @ [leaf]" and ?n = "length leaves + 1"
  have leaf: "NewNodeID ml 0 (of_nat (length leaves)) = node ml 0 (length leaves)" "perfect ml ?L 0 (length leaves) = leaf"
    by (simp_all add: node_def)
  obtain rest where rest: "parents_loop ml fetch (node ml 0 (length leaves)) leaf [(node ml 0 (length leaves), leaf)] =
        Some (Inr ((node ml 0 (length leaves), leaf) # rest))" "2 ^ length rest \<le> ?n"
      "set rest = {(node ml j i, perfect ml ?L j i) | j i. j > 0 \<and> ?n = (i + 1) * 2 ^ j}"
    using parents_loop_parents [OF assms, of "length leaves" 0 leaf "[(node ml 0 (length leaves), leaf)]"] by auto
  let ?out = "(node ml 0 (length leaves), leaf) # rest"
  have range: "k \<le> 64 \<and> i < 2 ^ 64" if "(i + 1) * 2 ^ k \<le> ?n" for k i :: nat
  proof -
    have "2 ^ k \<le> ?n" "i + 1 \<le> ?n"
      using that mult_le_mono1 [of 1 "i + 1" "2 ^ k"] mult_le_mono2 [of 1 "2 ^ k" "i + 1"] by simp_all
    then have "(2 :: nat) ^ k \<le> 2 ^ 64" "i < 2 ^ 64"
      using small by linarith+
    then show ?thesis
      using power_le_imp_le_exp [of "2 :: nat" k 64] by simp
  qed
  have same: "k = k' \<and> i = i'" if "node ml k i = node ml k' i'" "(i + 1) * 2 ^ k \<le> ?n" "?n = (i' + 1) * 2 ^ k'" for k i k' i'
    using that(1) range [OF that(2)] range [of i' k'] that(3) node_inject [OF ml, of k k' i i'] by simp
  have out: "set ?out = {(node ml k i, perfect ml ?L k i) | k i. ?n = (i + 1) * 2 ^ k}"
    unfolding list.set rest(3) by (subst (2) level_cases) (simp add: leaf(2) eq_commute [of "length leaves"])
  have "stored fetch ?out (node ml k i) = Inr (perfect ml ?L k i)" if le: "(i + 1) * 2 ^ k \<le> ?n" for k i
  proof (cases "?n = (i + 1) * 2 ^ k")
    case True
    then have "(node ml k i, perfect ml ?L k i) \<in> set ?out"
      unfolding out by blast
    moreover have "h = perfect ml ?L k i" if "(node ml k i, h) \<in> set ?out" for h
      using that same [OF _ le] unfolding out by blast
    ultimately have "map_of ?out (node ml k i) = Some (perfect ml ?L k i)"
      by (metis map_of_SomeD weak_map_of_SomeI)
    then show ?thesis
      by (simp only: stored_def option.case)
  next
    case False
    have "node ml k i \<notin> fst ` set ?out"
      using False same [OF _ le] unfolding out by fastforce
    then have "map_of ?out (node ml k i) = None"
      by (rule map_of_eq_None_iff [THEN iffD2])
    then have "stored fetch ?out (node ml k i) = fetch (node ml k i)"
      by (simp only: stored_def option.case)
    then show ?thesis
      using store perfect_append [of i k leaves ml "[leaf]"] False le by (simp add: stores_def)
  qed
  moreover have "length ?out \<le> 65"
  proof -
    have "(2 :: nat) ^ length rest \<le> 2 ^ 64"
      using rest(2) small by linarith
    then show ?thesis
      using power_le_imp_le_exp [of "2 :: nat" "length rest" 64] by simp
  qed
  ultimately show ?thesis
    using rest(1) out by (intro exI [of _ ?out]) (simp add: ParentsToStore_def leaf stores_def)
qed

subsection \<open>The text of a checkpoint\<close>

lemma split_first: "c \<notin> set xs \<Longrightarrow> c \<notin> set xs' \<Longrightarrow> xs @ c # ys = xs' @ c # ys' \<longleftrightarrow> xs = xs' \<and> ys = ys'"
  by (induction xs arbitrary: xs'; case_tac xs') auto

lemma digits_value_zeros: "digits_value (replicate n (CHR ''0'') @ s) = digits_value s"
  by (induction n) (simp_all add: digits_value_def)

lemma pad_inject: "0 \<le> i \<Longrightarrow> 0 \<le> j \<Longrightarrow> pad w i = pad w j \<longleftrightarrow> i = j"
  by (metis pad_def Itoa_def digits_value_nat_digits digits_value_zeros not_less nat_0_le)

lemma pad_digits: "0 \<le> i \<Longrightarrow> c \<in> set (pad w i) \<Longrightarrow> CHR ''0'' \<le> c \<and> c \<le> CHR ''9''"
  using nat_digits_set by (auto simp: pad_def Itoa_def Let_def)

lemma month_day_bounds: "0 \<le> d \<Longrightarrow> m \<le> fst (month_day ls m d) \<and> 0 \<le> snd (month_day ls m d)"
proof (induction ls arbitrary: m d)
  case (Cons n ls)
  show ?case
    using Cons.prems Cons.IH [of "d - n" "m + 1"] by auto
qed simp

lemma month_day_inject: "0 \<le> d \<Longrightarrow> 0 \<le> d' \<Longrightarrow> month_day ls m d = month_day ls m d' \<Longrightarrow> d = d'"
proof (induction ls arbitrary: m d d')
  case (Cons n ls)
  show ?case
    using Cons.prems month_day_bounds [of "d - n" "m + 1" ls] month_day_bounds [of "d' - n" "m + 1" ls] Cons.IH [of "d - n" "d' - n" "m + 1"]
    by (auto split: if_splits dest: arg_cong [of _ _ fst])
qed simp

text \<open>A year is written in 400s, 100s, 4s and single years, each within its bound.\<close>

lemma civil_date_parts:
  assumes "0 \<le> days"
  obtains a b c e yday where "days = 146097 * a + 36524 * b + 1461 * c + 365 * e + yday" "0 \<le> a" "0 \<le> b" "b \<le> 3" "0 \<le> c" "c \<le> 24" "0 \<le> e" "e \<le> 3" "0 \<le> yday"
    "civil_date days = (1 + 400 * a + 100 * b + 4 * c + e,
      month_day [31, if e = 3 \<and> (c \<noteq> 24 \<or> b = 3) then 29 else 28, 31, 30, 31, 30, 31, 31, 30, 31, 30] 1 yday)"
proof -
  define a d1 where ad: "a = days div 146097" "d1 = days mod 146097"
  define b where "b = min 3 (d1 div 36524)"
  define d2 where "d2 = d1 - b * 36524"
  define c d3 where cd: "c = d2 div 1461" "d3 = d2 mod 1461"
  define e where "e = min 3 (d3 div 365)"
  have 1: "days = 146097 * a + d1" "0 \<le> a" "0 \<le> d1" "d1 < 146097"
    using assms by (simp_all add: ad)
  have 2: "0 \<le> b" "b \<le> 3" "0 \<le> d2" "d2 \<le> 36524"
    using 1 by (auto simp: b_def d2_def min_def)
  have 3: "d2 = 1461 * c + d3" "0 \<le> c" "c \<le> 24" "0 \<le> d3" "d3 < 1461"
    using 2 by (auto simp: cd)
  have 4: "0 \<le> e" "e \<le> 3" "0 \<le> d3 - e * 365"
    using 3 by (auto simp: e_def min_def)
  show thesis
  proof (rule that [of a b c e "d3 - e * 365"])
    show "days = 146097 * a + 36524 * b + 1461 * c + 365 * e + (d3 - e * 365)"
      using 1(1) 3(1) d2_def by linarith
    show "civil_date days = (1 + 400 * a + 100 * b + 4 * c + e,
        month_day [31, if e = 3 \<and> (c \<noteq> 24 \<or> b = 3) then 29 else 28, 31, 30, 31, 30, 31, 31, 30, 31, 30] 1 (d3 - e * 365))"
      unfolding civil_date_def Let_def ad [symmetric] b_def [symmetric] d2_def [symmetric] cd [symmetric] e_def [symmetric] ..
  qed (use 1 2 3 4 in simp_all)
qed

lemma radix: "0 \<le> r \<Longrightarrow> r < k \<Longrightarrow> 0 \<le> r' \<Longrightarrow> r' < k \<Longrightarrow> k * a + r = k * a' + r' \<Longrightarrow> a = a' \<and> r = r'" for k :: int
  by (metis add_left_cancel div_mult_self4 div_pos_pos_trivial add.commute add_0 less_le_trans not_less order.irrefl)

lemma civil_date_inject:
  assumes "0 \<le> days" "0 \<le> days'" "civil_date days = civil_date days'"
  shows "days = days'"
proof -
  obtain a b c e yday where d: "days = 146097 * a + 36524 * b + 1461 * c + 365 * e + yday" "0 \<le> a" "0 \<le> b" "b \<le> 3" "0 \<le> c" "c \<le> 24" "0 \<le> e" "e \<le> 3" "0 \<le> yday"
    "civil_date days = (1 + 400 * a + 100 * b + 4 * c + e,
      month_day [31, if e = 3 \<and> (c \<noteq> 24 \<or> b = 3) then 29 else 28, 31, 30, 31, 30, 31, 31, 30, 31, 30] 1 yday)"
    by (rule civil_date_parts [OF assms(1)])
  obtain a' b' c' e' yday' where d': "days' = 146097 * a' + 36524 * b' + 1461 * c' + 365 * e' + yday'" "0 \<le> a'" "0 \<le> b'" "b' \<le> 3" "0 \<le> c'" "c' \<le> 24" "0 \<le> e'" "e' \<le> 3" "0 \<le> yday'"
    "civil_date days' = (1 + 400 * a' + 100 * b' + 4 * c' + e',
      month_day [31, if e' = 3 \<and> (c' \<noteq> 24 \<or> b' = 3) then 29 else 28, 31, 30, 31, 30, 31, 31, 30, 31, 30] 1 yday')"
    by (rule civil_date_parts [OF assms(2)])
  have "400 * a + 100 * b + 4 * c + e = 400 * a' + 100 * b' + 4 * c' + e'"
    using assms(3) d(10) d'(10) by simp
  then have "a = a' \<and> 100 * b + (4 * c + e) = 100 * b' + (4 * c' + e')"
    using d(2-8) d'(2-8) by (intro radix [of _ 400]) auto
  moreover from this have "b = b' \<and> 4 * c + e = 4 * c' + e'"
    using d(2-8) d'(2-8) by (intro radix [of _ 100]) auto
  moreover from this have "c = c' \<and> e = e'"
    using d(2-8) d'(2-8) by (intro radix [of _ 4]) auto
  ultimately have "a = a'" "b = b'" "c = c'" "e = e'"
    by simp_all
  moreover from this have "yday = yday'"
    using month_day_inject [OF d(9) d'(9)] assms(3) unfolding d(10) d'(10) by (metis prod.inject)
  ultimately show ?thesis
    using d(1) d'(1) by simp
qed

lemma civil_date_bounds:
  assumes "0 \<le> days" "civil_date days = (y, m, d)"
  shows "0 \<le> y" "0 \<le> m" "0 \<le> d"
proof -
  obtain a b c e yday where p: "0 \<le> a" "0 \<le> b" "0 \<le> c" "0 \<le> e" "0 \<le> yday"
    "civil_date days = (1 + 400 * a + 100 * b + 4 * c + e,
      month_day [31, if e = 3 \<and> (c \<noteq> 24 \<or> b = 3) then 29 else 28, 31, 30, 31, 30, 31, 31, 30, 31, 30] 1 yday)"
    by (rule civil_date_parts [OF assms(1)])
  then have "y = 1 + 400 * a + 100 * b + 4 * c + e"
      "month_day [31, if e = 3 \<and> (c \<noteq> 24 \<or> b = 3) then 29 else 28, 31, 30, 31, 30, 31, 31, 30, 31, 30] 1 yday = (m, d)"
    using assms(2) by (simp_all only: prod.inject)
  then show "0 \<le> y" "0 \<le> m" "0 \<le> d"
    using p(1-5) month_day_bounds [OF p(5), of 1 "[31, if e = 3 \<and> (c \<noteq> 24 \<or> b = 3) then 29 else 28, 31, 30, 31, 30, 31, 31, 30, 31, 30]"]
    by (simp_all del: month_day.simps)
qed

lemma pad_free: "0 \<le> i \<Longrightarrow> c < CHR ''0'' \<or> CHR ''9'' < c \<Longrightarrow> c \<notin> set (pad w i)"
  using pad_digits by fastforce

lemma pad_split:
  assumes "0 \<le> i" "0 \<le> j" "c < CHR ''0'' \<or> CHR ''9'' < c"
  shows "pad w i @ c # xs = pad w j @ c # ys \<longleftrightarrow> i = j \<and> xs = ys"
  using assms split_first pad_free pad_inject by metis

lemma clock: "s = 3600 * (s div 3600) + 60 * (s div 60 mod 60) + s mod 60" for s :: int
proof -
  have "s div 3600 = s div 60 div 60"
    by (simp add: zdiv_zmult2_eq [symmetric])
  then show ?thesis
    using div_mult_mod_eq [of s 60] div_mult_mod_eq [of "s div 60" 60] by linarith
qed

lemma rfc3339_inject:
  assumes "0 \<le> t" "0 \<le> t'" "rfc3339 t = rfc3339 t'"
  shows "t div Second = t' div Second"
proof -
  define secs secs' where secs: "secs = t div Second" "secs' = t' div Second"
  have pos: "0 \<le> secs" "0 \<le> secs'"
    using assms(1,2) by (simp_all add: secs pos_imp_zdiv_nonneg_iff)
  obtain y m d y' m' d' where date: "civil_date (secs div 86400) = (y, m, d)" "civil_date (secs' div 86400) = (y', m', d')"
    by (metis prod_cases3)
  have days: "0 \<le> secs div 86400" "0 \<le> secs' div 86400"
    using pos by (simp_all add: pos_imp_zdiv_nonneg_iff)
  note b = civil_date_bounds [OF days(1) date(1)] civil_date_bounds [OF days(2) date(2)]
  have "y = y' \<and> m = m' \<and> d = d' \<and> secs mod 86400 div 3600 = secs' mod 86400 div 3600 \<and>
      secs mod 86400 div 60 mod 60 = secs' mod 86400 div 60 mod 60 \<and> secs mod 86400 mod 60 = secs' mod 86400 mod 60"
    using assms(3) b by (simp add: rfc3339_def Let_def secs [symmetric] date pad_split pad_inject pos_imp_zdiv_nonneg_iff)
  then have parts: "y = y'" "m = m'" "d = d'" "secs mod 86400 div 3600 = secs' mod 86400 div 3600"
      "secs mod 86400 div 60 mod 60 = secs' mod 86400 div 60 mod 60" "secs mod 86400 mod 60 = secs' mod 86400 mod 60"
    by blast+
  have "secs div 86400 = secs' div 86400"
    using civil_date_inject [OF days] parts(1-3) unfolding date by blast
  moreover have "secs mod 86400 = secs' mod 86400"
    using parts(4-6) clock [of "secs mod 86400"] clock [of "secs' mod 86400"] by linarith
  ultimately have "secs = secs'"
    using div_mult_mod_eq [of secs 86400] div_mult_mod_eq [of secs' 86400] by linarith
  then show ?thesis
    by (simp add: secs)
qed

lemma rfc3339_line: "0 \<le> t \<Longrightarrow> CHR 0x0A \<notin> set (rfc3339 t)"
proof -
  assume "0 \<le> t"
  then have day: "0 \<le> t div Second div 86400"
    by (simp add: pos_imp_zdiv_nonneg_iff)
  obtain y m d where date: "civil_date (t div Second div 86400) = (y, m, d)"
    by (metis prod_cases3)
  show ?thesis
    using civil_date_bounds [OF day date] by (simp add: rfc3339_def Let_def date pad_free pos_imp_zdiv_nonneg_iff)
qed

lemma nat_digits_line: "CHR 0x0A \<notin> set (nat_digits n)"
  using nat_digits_set [of "CHR 0x0A" n] by auto

lemma hex_line: "CHR 0x0A \<notin> set (hex_encode bs)"
proof -
  have "hex_digit n \<noteq> CHR 0x0A" if "n < 16" for n
    using that by (auto simp: hex_digit_def char_of_eq_iff take_bit_nat_eq_self)
  moreover have "of_char c div 16 < (16 :: nat)" for c :: char
  proof -
    have "(of_char c :: nat) < 256"
      by (metis mod_less_divisor of_char_mod_256 zero_less_numeral)
    then show ?thesis
      by (simp add: less_mult_imp_div_less)
  qed
  ultimately show ?thesis
    by (auto simp: hex_encode_def dest: sym)
qed

lemma Canonical_inject:
  assumes "CHR 0x0A \<notin> set (cx_Org c)" "CHR 0x0A \<notin> set (cx_Org c')" "0 \<le> cx_At c" "0 \<le> cx_At c'" "Canonical c = Canonical c'"
  shows "cx_Org c = cx_Org c' \<and> cx_TreeSize c = cx_TreeSize c' \<and> cx_Root c = cx_Root c' \<and> cx_At c div Second = cx_At c' div Second"
proof -
  have "cx_Org c = cx_Org c'" "nat_digits (unat (cx_TreeSize c)) = nat_digits (unat (cx_TreeSize c'))" "hex_encode (cx_Root c) = hex_encode (cx_Root c')"
      "rfc3339 (cx_At c) = rfc3339 (cx_At c')"
    using assms(5) by (simp_all add: Canonical_def split_first assms(1-4) nat_digits_line hex_line rfc3339_line)
  then show ?thesis
    using rfc3339_inject [OF assms(3,4)] by (simp add: hex_encode_inject word_unat_eq_iff)
qed

end
