(* ===== verification/PR_Bridge.thy ===== *)
theory PR_Bridge
  imports Team Supply Hooks Symbols
begin

section \<open>Login and the pull-request bridge\<close>

text \<open>
  \<^verbatim>\<open>internal/app/login.go\<close> and \<^verbatim>\<open>internal/app/prbridge.go\<close> with the objects of \<^verbatim>\<open>internal/port/github.go\<close>. The identity provider, the
  membership, the token issuer, the map of installations and the forge are arguments; the last two act on a state \<open>'g\<close> of the world outside. The
  tenants are the list of \<open>Orgs_Get\<close>. A replay of a tenant's ledger that does not return is \<open>None\<close>.
\<close>

text \<open>\<^verbatim>\<open>strings.ToLower\<close> on ASCII bytes; bytes outside ASCII stay as they are (logins of the forge are ASCII).\<close>

definition lower_byte :: "char \<Rightarrow> char" where
  "lower_byte c = (if CHR ''A'' \<le> c \<and> c \<le> CHR ''Z'' then char_of (of_char c + 32 :: nat) else c)"

definition ToLower :: "string \<Rightarrow> string" where
  "ToLower s = map lower_byte s"

subsection \<open>Login\<close>

record device_start =
  ds_DeviceCode :: string
  ds_UserCode :: string
  ds_VerificationURI :: string
  ds_ExpiresIn :: int
  ds_Interval :: int

record device_poll =
  dq_Status :: string
  dq_Token :: string
  dq_User :: string
  dq_Org :: string
  dq_Interval :: int

definition zero_poll :: device_poll where
  "zero_poll = \<lparr>dq_Status = '''', dq_Token = '''', dq_User = '''', dq_Org = '''', dq_Interval = 0\<rparr>"

record oauth_device =
  oa_Start :: "go_error + device_start"
  oa_Poll :: "string \<Rightarrow> go_error + string \<times> string \<times> int"

datatype login_error = LoginError go_error | LoginNotMember string string

text \<open>The arguments of \<^verbatim>\<open>IssueToken\<close> are org, user, kind, owner, label and lifetime; it changes the state \<open>'t\<close> of the issuer.\<close>

record 't login =
  lo_OAuth :: "oauth_device option"
  lo_IsMember :: "string \<Rightarrow> string \<Rightarrow> go_error + bool"
  lo_IssueToken :: "string \<Rightarrow> string \<Rightarrow> string \<Rightarrow> string \<Rightarrow> string \<Rightarrow> duration \<Rightarrow> 't \<Rightarrow> (go_error + string) \<times> 't"
  lo_TTL :: duration

definition Login_Start :: "'t login \<Rightarrow> go_error + device_start" where
  "Login_Start l = (case lo_OAuth l of None \<Rightarrow> Inl ''login: no identity provider configured'' | Some oa \<Rightarrow> oa_Start oa)"

definition Login_Poll :: "'t login \<Rightarrow> string \<Rightarrow> string \<Rightarrow> 't \<Rightarrow> (login_error + device_poll) \<times> 't" where
  "Login_Poll l org deviceCode t =
     (case lo_OAuth l of
        None \<Rightarrow> (Inl (LoginError ''login: no identity provider configured''), t)
      | Some oa \<Rightarrow>
        if org = '''' \<or> deviceCode = '''' then (Inl (LoginError ''login: org and device_code required''), t)
        else (case oa_Poll oa deviceCode of
          Inl err \<Rightarrow> (Inl (LoginError err), t)
        | Inr (status, name, interval) \<Rightarrow>
          if status \<noteq> ''ok'' then (Inr (zero_poll\<lparr>dq_Status := status, dq_Interval := interval\<rparr>), t)
          else let user = ToLower name in
            (case lo_IsMember l org user of
               Inl err \<Rightarrow> (Inl (LoginError err), t)
             | Inr ok \<Rightarrow>
               if \<not> ok then (Inl (LoginNotMember user org), t)
               else (case lo_IssueToken l org user ''human'' '''' ''device-login'' (lo_TTL l) t of
                 (Inl err, t') \<Rightarrow> (Inl (LoginError err), t')
               | (Inr tok, t') \<Rightarrow> (Inr (zero_poll\<lparr>dq_Status := ''ok'', dq_Token := tok, dq_User := user, dq_Org := org\<rparr>), t')))))"

subsection \<open>Events of the forge\<close>

record review_info =
  rw_ID :: int
  rw_State :: string
  rw_Body :: string
  rw_Login :: string
  rw_SubmittedAt :: go_time

record repo_event =
  rx_Kind :: string
  rx_Delivery :: string
  rx_Installation :: int
  rx_Account :: string
  rx_Owner :: string
  rx_Repo :: string
  rx_Number :: int
  rx_HeadSHA :: string
  rx_Title :: string
  rx_URL :: string
  rx_Review :: "review_info option"

record 'g pr_reporter =
  rq_UpsertComment :: "int \<Rightarrow> string \<Rightarrow> string \<Rightarrow> int \<Rightarrow> string \<Rightarrow> string \<Rightarrow> 'g \<Rightarrow> go_error option \<times> 'g"
  rq_Check :: "int \<Rightarrow> string \<Rightarrow> string \<Rightarrow> string \<Rightarrow> string \<Rightarrow> string \<Rightarrow> string \<Rightarrow> string \<Rightarrow> 'g \<Rightarrow> go_error option \<times> 'g"

record 'g installation_map =
  il_Link :: "int \<Rightarrow> string \<Rightarrow> 'g \<Rightarrow> go_error option \<times> 'g"
  il_Org :: "'g \<Rightarrow> int \<Rightarrow> ledger_error + string"

record ('l, 'g) pr_bridge =
  pb_Options :: "('l, server_models) options"
  pb_Open :: "string \<Rightarrow> go_error + 'l"
  pb_Reporter :: "'g pr_reporter option"
  pb_Installs :: "'g installation_map option"
  pb_Members :: "(string \<Rightarrow> string \<Rightarrow> go_error + bool) option"
  pb_Order :: index_order

record pr_report =
  po_Kind :: string
  po_Org :: string
  po_Change :: string
  po_Commented :: bool
  po_Check :: string
  po_Judged :: bool
  po_Skipped :: string

datatype bridge_error = BridgeError go_error | BridgeTeam team_error | BridgeApp app_error

type_synonym ('l, 'g) bridge_state = "(string \<times> ('l \<times> server_models)) list \<times> 'g"

definition CommentMarker :: string where
  "CommentMarker = ''<!-- keelage:pr -->''"

definition CheckName :: string where
  "CheckName = ''keelage''"

definition orgFor :: "('l, 'g) pr_bridge \<Rightarrow> 'g \<Rightarrow> repo_event \<Rightarrow> bridge_error + string" where
  "orgFor b g ev =
     (let fallback = (if rx_Owner ev \<noteq> '''' then Inr (rx_Owner ev) else Inl (BridgeError ''app: no org for delivery'')) in
      case pb_Installs b of
        None \<Rightarrow> fallback
      | Some il \<Rightarrow>
        if rx_Installation ev = 0 then fallback
        else (case il_Org il g (rx_Installation ev) of
          Inr org \<Rightarrow> Inr org
        | Inl err \<Rightarrow> if err \<noteq> ErrNotFound then Inl (BridgeError (ledger_error_string err)) else fallback))"

subsection \<open>Rendering\<close>

definition short :: "string \<Rightarrow> string" where
  "short s = (if length s > 8 then take 8 s else s)"

definition firstLine :: "string \<Rightarrow> string" where
  "firstLine s =
     (let s1 = TrimSpace s; s2 = fst (Cut s1 newline) in
      if length (runes s2) > 120 then concat (map encode_rune (take 117 (map fst (runes s2)))) @ [CHR 0xE2, CHR 0x80, CHR 0xA6] else s2)"

definition pr_constraint_line :: "server_models \<Rightarrow> ID \<Rightarrow> string" where
  "pr_constraint_line p i =
     (case ConstraintIndex_Get (sv_constraints p) i of
        (c, True) \<Rightarrow> ''- `'' @ cu_ID c @ ''` '' @ constraint_kind_string (cu_Kind c) @ '' ['' @ constraint_state_string (cu_State c) @ ''] '' @ em_dash @
                     '' '' @ firstLine (cu_Body c) @ newline
      | (_, False) \<Rightarrow> ''- `'' @ i @ ''`'' @ newline)"

definition pr_anchor_line :: "server_models \<Rightarrow> string \<Rightarrow> string" where
  "pr_anchor_line p a =
     (let state = (case AnchorIndex_Get (sv_anchors p) a of (s, found) \<Rightarrow> if found then '' ['' @ anchor_state_string (au_State s) @ '']'' else '''') in
      ''- `'' @ a @ ''`'' @ state @ newline)"

definition pr_header :: "change_summary \<Rightarrow> string" where
  "pr_header ch =
     ''### keelage '' @ middle_dot @ '' Change `'' @ hs_ID ch @ ''`'' @ newline @ newline @
     ''| | |'' @ newline @ ''|---|---|'' @ newline @
     ''| kind | '' @ change_kind_string (hs_Kind ch) @ '' ('' @ change_mode_string (hs_Mode ch) @ '') |'' @ newline @
     ''| state | **'' @ change_state_string (hs_State ch) @ ''** |'' @ newline @
     ''| autonomy applied | '' @ Level_String (hs_AutonomyApplied ch) @ '' |'' @ newline @
     ''| judgments | '' @ Itoa (hs_Judgments ch) @ '' |'' @ newline @
     ''| sessions | '' @ Itoa (int (length (hs_Sessions ch))) @ '' |'' @ newline @ newline"

text \<open>The body, the conclusion and the title.\<close>

definition renderPR :: "server_models \<Rightarrow> change_summary \<Rightarrow> bool \<Rightarrow> string \<Rightarrow> string \<times> string \<times> string" where
  "renderPR p ch ok commitish =
     (if \<not> ok
      then (CommentMarker @ newline @ ''### keelage'' @ newline @ newline @ ''No keelage record for `'' @ short commitish @ ''`.'' @ newline @ newline @
            ''The daemon records a Change per commit (`keelage change derive <sha>`), and `keelage sync push` shares it; the Action does the same headlessly.'' @
            newline, ''neutral'', ''no keelage record for '' @ short commitish)
      else
        let sb = CommentMarker @ newline @ pr_header ch @
              (if length (hs_Constraints ch) > 0
               then ''**Constraints touched**'' @ newline @ newline @ concat (map (pr_constraint_line p) (hs_Constraints ch)) @ newline else []) @
              (if length (hs_Anchors ch) > 0
               then ''**Anchors**'' @ newline @ newline @ concat (map (pr_anchor_line p) (hs_Anchors ch)) @ newline else []) in
        if hs_State ch = StateProposed \<and> length (hs_Constraints ch) > 0
        then (sb @ ''_Judgment pending: an approving or changes-requested review **with a reason** is recorded as the judgment._'' @ newline,
              ''neutral'', ''judgment pending on '' @ hs_ID ch)
        else if hs_State ch = StateProposed
        then (sb @ ''_No constraint impact: settles without a judgment._'' @ newline, ''success'', ''no constraint impact'')
        else (sb, ''success'', change_state_string (hs_State ch) @ '' '' @ middle_dot @ '' '' @ hs_ID ch))"

definition renderPRWithNote :: "server_models \<Rightarrow> change_summary \<Rightarrow> string \<Rightarrow> string \<Rightarrow> string" where
  "renderPRWithNote p ch commitish note = fst (renderPR p ch True commitish) @ newline @ ''> '' @ note @ newline"

subsection \<open>Handling a delivery\<close>

text \<open>The comment and then the check.\<close>

definition publish_report :: "'g pr_reporter \<Rightarrow> repo_event \<Rightarrow> string \<times> string \<times> string \<Rightarrow> pr_report \<Rightarrow> 'g \<Rightarrow> (pr_report \<times> bridge_error option) \<times> 'g" where
  "publish_report rq ev rendered rep g =
     (case rendered of (body, conclusion, title) \<Rightarrow>
      case rq_UpsertComment rq (rx_Installation ev) (rx_Owner ev) (rx_Repo ev) (rx_Number ev) CommentMarker body g of
        (Some err, g1) \<Rightarrow> ((rep, Some (BridgeError err)), g1)
      | (None, g1) \<Rightarrow>
        let rep1 = rep\<lparr>po_Commented := True\<rparr> in
        (case rq_Check rq (rx_Installation ev) (rx_Owner ev) (rx_Repo ev) (rx_HeadSHA ev) CheckName conclusion title body g1 of
           (Some err, g2) \<Rightarrow> ((rep1, Some (BridgeError err)), g2)
         | (None, g2) \<Rightarrow> ((rep1\<lparr>po_Check := conclusion\<rparr>, None), g2)))"

type_synonym ('l, 'g) bridge_result = "((pr_report \<times> bridge_error option) \<times> ('l, 'g) bridge_state) option"

definition describe :: "('l, 'g) pr_bridge \<Rightarrow> repo_event \<Rightarrow> pr_report \<Rightarrow> ('l, 'g) bridge_state \<Rightarrow> ('l, 'g) bridge_result" where
  "describe b ev rep x =
     (case orgFor b (snd x) ev of
        Inl err \<Rightarrow> Some ((rep, Some err), x)
      | Inr org \<Rightarrow>
        let rep1 = rep\<lparr>po_Org := org\<rparr> in
        (case Orgs_Get (pb_Options b) (pb_Open b) org (fst x) of
           None \<Rightarrow> None
         | Some (Inl err, orgs) \<Rightarrow> Some ((rep1, Some (BridgeTeam err)), (orgs, snd x))
         | Some (Inr st, orgs) \<Rightarrow>
           (case catchUp (pb_Options b) st of
              None \<Rightarrow> None
            | Some (Some err, st1) \<Rightarrow> Some ((rep1, Some (BridgeError err)), (map_put org st1 orgs, snd x))
            | Some (None, st1) \<Rightarrow>
              (case ChangeIndex_ByRef (pb_Order b) (sv_changes (snd st1)) (rx_HeadSHA ev) of (ch, ok) \<Rightarrow>
                let rep2 = (if ok then rep1\<lparr>po_Change := hs_ID ch\<rparr> else rep1); orgs1 = map_put org st1 orgs in
                (case pb_Reporter b of
                   None \<Rightarrow> Some ((rep2\<lparr>po_Skipped := ''no reporter''\<rparr>, None), (orgs1, snd x))
                 | Some rq \<Rightarrow>
                     (case publish_report rq ev (renderPR (snd st1) ch ok (rx_HeadSHA ev)) rep2 (snd x) of
                        (out, g) \<Rightarrow> Some (out, (orgs1, g))))))))"

text \<open>\<^verbatim>\<open>judge\<close>; \<open>now\<close> is the clock of the bridge and of the pipeline.\<close>

definition judge_command :: "repo_event \<Rightarrow> review_info \<Rightarrow> go_time \<Rightarrow> ID \<Rightarrow> actor_ref \<Rightarrow> command" where
  "judge_command ev rv now i reviewer =
     (let rid = Itoa (rw_ID rv) in
      CmdChange (Judge \<lparr>ju_Cmd = NewChangeCmd i (''gh-review:'' @ rid),
        ju_Judgment = \<lparr>jg_ID = ''ghr-'' @ rid, jg_Decision = (if rw_State rv = ''changes_requested'' then DecisionReject else DecisionAccept),
          jg_Reason = TrimSpace (rw_Body rv), jg_By = reviewer, jg_At = (if rw_SubmittedAt rv = 0 then now else rw_SubmittedAt rv),
          jg_Source = SourceReview, jg_Sig = ''''\<rparr>\<rparr>))"

definition judge :: "('l, server_models) options \<Rightarrow> index_order \<Rightarrow> repo_event \<Rightarrow> review_info \<Rightarrow> go_time \<Rightarrow> pr_report \<Rightarrow> 'l \<times> server_models \<Rightarrow>
    ((pr_report \<times> bool \<times> bridge_error option) \<times> ('l \<times> server_models)) option" where
  "judge opt order ev rv now rep st =
     (case catchUp opt st of
        None \<Rightarrow> None
      | Some (Some err, st1) \<Rightarrow> Some ((rep, False, Some (BridgeError err)), st1)
      | Some (None, st1) \<Rightarrow>
        (case ChangeIndex_ByRef order (sv_changes (snd st1)) (rx_HeadSHA ev) of
           (_, False) \<Rightarrow> Some ((rep\<lparr>po_Skipped := ''no change for '' @ rx_HeadSHA ev\<rparr>, False, None), st1)
         | (ch, True) \<Rightarrow>
           let rep1 = rep\<lparr>po_Change := hs_ID ch\<rparr>;
               reviewer = \<lparr>ar_Kind = ActorHuman, ar_ID = ToLower (rw_Login rv), ar_Key = '''', ar_Owner = ''''\<rparr> in
           (case Pipeline_Handle opt app_handlers now reviewer (judge_command ev rv now (hs_ID ch) reviewer) st1 of
              ((_, Some err), st2) \<Rightarrow>
                (case AsRejection err of
                   Some r \<Rightarrow> Some ((rep1\<lparr>po_Skipped := ''review not recorded: '' @ Code r @ '': '' @ Reason r\<rparr>, False, None), st2)
                 | None \<Rightarrow> Some ((rep1, False, Some (BridgeApp err)), st2))
            | ((res, None), st2) \<Rightarrow> Some ((rep1\<lparr>po_Judged := \<not> re_Replayed res\<rparr>, \<not> re_Replayed res, None), st2))))"

definition review_note :: string where
  "review_note = ''A review on a change with impact needs a reason: add one to the review body so keelage can record the judgment.''"

text \<open>What happens at the forge after a review was handled.\<close>

definition after_review :: "('l, 'g) pr_bridge \<Rightarrow> repo_event \<Rightarrow> pr_report \<Rightarrow> bool \<Rightarrow> bridge_error option \<Rightarrow> server_models \<Rightarrow> 'g \<Rightarrow>
    (pr_report \<times> bridge_error option) \<times> 'g" where
  "after_review b ev rep judged err p g =
     (let ch = fst (ChangeIndex_Get (sv_changes p) (po_Change rep));
          known = (err = None \<and> po_Change rep \<noteq> '''');
          nudge = (if known \<and> \<not> judged \<and> Contains_str (po_Skipped rep) ''no-reason''
                   then renderPRWithNote p ch (rx_HeadSHA ev) review_note else '''');
          rendered = (if known \<and> judged then renderPR p ch True (rx_HeadSHA ev) else ('''', '''', '''')) in
      case (err, pb_Reporter b) of
        (Some e, _) \<Rightarrow> ((rep, Some e), g)
      | (None, None) \<Rightarrow> ((rep, None), g)
      | (None, Some rq) \<Rightarrow>
        if nudge \<noteq> ''''
        then ((rep, None), snd (rq_UpsertComment rq (rx_Installation ev) (rx_Owner ev) (rx_Repo ev) (rx_Number ev) CommentMarker nudge g))
        else if \<not> judged then ((rep, None), g)
        else publish_report rq ev rendered rep g)"

definition review_member :: "('l, 'g) pr_bridge \<Rightarrow> string \<Rightarrow> review_info \<Rightarrow> bridge_error + bool" where
  "review_member b org rv =
     (case pb_Members b of
        None \<Rightarrow> Inr True
      | Some IsMember \<Rightarrow> (case IsMember org (ToLower (rw_Login rv)) of Inl err \<Rightarrow> Inl (BridgeError err) | Inr ok \<Rightarrow> Inr ok))"

definition review :: "('l, 'g) pr_bridge \<Rightarrow> go_time \<Rightarrow> repo_event \<Rightarrow> pr_report \<Rightarrow> ('l, 'g) bridge_state \<Rightarrow> ('l, 'g) bridge_result" where
  "review b now ev rep x =
     (case rx_Review ev of
        None \<Rightarrow> Some ((rep\<lparr>po_Skipped := ''no review''\<rparr>, None), x)
      | Some rv \<Rightarrow>
        if rw_State rv \<noteq> ''approved'' \<and> rw_State rv \<noteq> ''changes_requested''
        then Some ((rep\<lparr>po_Skipped := ''review state '' @ rw_State rv @ '' is not a judgment''\<rparr>, None), x)
        else (case orgFor b (snd x) ev of
          Inl err \<Rightarrow> Some ((rep, Some err), x)
        | Inr org \<Rightarrow>
          let rep1 = rep\<lparr>po_Org := org\<rparr> in
          (case review_member b org rv of
             Inl err \<Rightarrow> Some ((rep1, Some err), x)
           | Inr False \<Rightarrow> Some ((rep1\<lparr>po_Skipped := rw_Login rv @ '' is not a member of '' @ org\<rparr>, None), x)
           | Inr True \<Rightarrow>
             (case Orgs_Get (pb_Options b) (pb_Open b) org (fst x) of
                None \<Rightarrow> None
              | Some (Inl err, orgs) \<Rightarrow> Some ((rep1, Some (BridgeTeam err)), (orgs, snd x))
              | Some (Inr st, orgs) \<Rightarrow>
                (case judge (pb_Options b) (pb_Order b) ev rv now rep1 st of
                   None \<Rightarrow> None
                 | Some ((rep2, judged, err), st1) \<Rightarrow>
                   (case after_review b ev rep2 judged err (snd st1) (snd x) of (out, g) \<Rightarrow> Some (out, (map_put org st1 orgs, g))))))))"

definition PRBridge_Handle :: "('l, 'g) pr_bridge \<Rightarrow> go_time \<Rightarrow> repo_event \<Rightarrow> ('l, 'g) bridge_state \<Rightarrow> ('l, 'g) bridge_result" where
  "PRBridge_Handle b now ev x =
     (let rep = \<lparr>po_Kind = rx_Kind ev, po_Org = '''', po_Change = '''', po_Commented = False, po_Check = '''', po_Judged = False, po_Skipped = ''''\<rparr> in
      if rx_Kind ev = ''installation''
      then (case pb_Installs b of
              None \<Rightarrow> Some ((rep\<lparr>po_Skipped := ''no installation map''\<rparr>, None), x)
            | Some il \<Rightarrow>
              if rx_Account ev = '''' then Some ((rep\<lparr>po_Skipped := ''no installation map''\<rparr>, None), x)
              else (case il_Link il (rx_Installation ev) (rx_Account ev) (snd x) of
                      (err, g) \<Rightarrow> Some ((rep\<lparr>po_Org := rx_Account ev\<rparr>, map_option BridgeError err), (fst x, g))))
      else if rx_Kind ev = ''pr_opened'' \<or> rx_Kind ev = ''pr_synchronize'' then describe b ev rep x
      else if rx_Kind ev = ''pr_review'' then review b now ev rep x
      else Some ((rep\<lparr>po_Skipped := ''ignored event''\<rparr>, None), x))"

definition PRSink_HandleDelivery :: "('l, 'g) pr_bridge \<Rightarrow> go_time \<Rightarrow> (string \<Rightarrow> string \<Rightarrow> bytes \<Rightarrow> go_error + repo_event) \<Rightarrow> string \<Rightarrow> string \<Rightarrow> bytes \<Rightarrow>
    ('l, 'g) bridge_state \<Rightarrow> (((pr_report option \<times> bridge_error option) \<times> ('l, 'g) bridge_state) option)" where
  "PRSink_HandleDelivery b now parse event delivery body x =
     (case parse event delivery body of
        Inl err \<Rightarrow> Some ((None, Some (BridgeError err)), x)
      | Inr ev \<Rightarrow> map_option (\<lambda>((rep, err), y). ((Some rep, err), y)) (PRBridge_Handle b now ev x))"

end
