(* ===== verification/Service_Properties.thy ===== *)
theory Service_Properties
  imports System_Properties Source_Properties Inbox_Facts Merkle_Facts PR_Bridge
begin

section \<open>Properties of inbox, history, pull requests and transparency log\<close>

text \<open>
  What waits for a person is shown, the history of an anchor is complete, reviews are judgments of members only, and the transparency log
  stores what its proofs need and vouches for what it signed.
\<close>

subsection \<open>Inbox and history\<close>

text \<open>What waits for a person, said of the aggregates: the kind and the id of the item it must have.\<close>

fun waiting :: "aggregate_root \<Rightarrow> (string \<times> string) option" where
  "waiting (AggChange c) = (if ch_State c \<noteq> StateNone \<and> ch_State c \<noteq> StateSettled \<and> im_Constraints (ch_Impact c) \<noteq> []
     then Some (''change'', ch_ID c) else None)"
| "waiting (AggAnchor a) = (if aa_State a \<in> {AStateStale, AStateReview, AStateUnrealized} then Some (''anchor'', aa_Key a) else None)"
| "waiting (AggConstraint c) = (if co_State c \<in> {CStateGenerated, CStateReview} then Some (''constraint'', co_ID c) else None)"
| "waiting (AggSession n) = (if ss_State n \<noteq> SessionStateNone \<and> ss_State n \<noteq> SessionStateShared \<and> ss_Judgments n \<noteq> []
     then Some (''session'', SessionStream (ss_Tool n) (ss_ID n)) else None)"
| "waiting _ = None"

lemma map_get_mem: "map_get z m k \<noteq> z \<Longrightarrow> map_get z m k \<in> set (map snd m)"
  by (auto simp: map_get_def split: option.splits dest!: map_of_SomeD intro: rev_image_eqI)

lemma zero_states:
  "hs_State zero_change_summary = StateNone" "au_State zero_anchor_summary = AStateNone" "cu_State zero_constraint_summary = CStateNone"
  "su_State zero_session_summary = SessionStateNone"
  by (simp_all add: zero_change_summary_def zero_anchor_summary_def zero_constraint_summary_def zero_session_summary_def)

lemma map_filter_mem: "x \<in> set xs \<Longrightarrow> f x = Some y \<Longrightarrow> y \<in> set (List.map_filter f xs)"
  by (force simp: List.map_filter_def)

lemma shown_waiting:
  assumes "models_show p s a" and "waiting a = Some (kind, i)"
  shows "\<exists>item \<in> set (Inbox (rm_changes p) (rm_anchors p) (rm_constraints p) (Some (rm_sessions p))). ib_Kind item = kind \<and> ib_ID item = i"
proof (cases a)
  case (AggChange c)
  let ?e = "chg_get (rm_changes p) (ch_ID c)"
  have e: "hs_State ?e = ch_State c" "hs_Constraints ?e \<noteq> []" "hs_ID ?e = ch_ID c" "kind = ''change''" "i = ch_ID c" "ch_State c \<noteq> StateSettled" "ch_State c \<noteq> StateNone"
    using assms AggChange by (auto simp: models_show_def change_view_abs split: if_splits)
  then have "?e \<in> set (ChangeIndex_All (rm_changes p))"
    using map_get_mem [of zero_change_summary "rm_changes p" "ch_ID c"] zero_states(1) unfolding ChangeIndex_All_def set_go_sort by metis
  moreover obtain y where "change_item ?e = Some y" "ib_Kind y = kind" "ib_ID y = i"
    using e by (simp add: change_item_def)
  ultimately show ?thesis
    using map_filter_mem [of ?e _ change_item y] by (auto simp: Inbox_def)
next
  case (AggAnchor x)
  let ?e = "anc_get (rm_anchors p) (aa_Key x)"
  have e: "?e = anchor_abs x" "kind = ''anchor''" "i = aa_Key x" "aa_State x \<in> {AStateStale, AStateReview, AStateUnrealized}"
    using assms AggAnchor by (auto simp: models_show_def split: if_splits)
  have ne: "au_State ?e \<noteq> AStateNone"
    unfolding e(1) using e(4) by (auto simp: anchor_abs_def)
  have "?e \<in> set (AnchorIndex_All (rm_anchors p))"
    using map_get_mem [of zero_anchor_summary "rm_anchors p" "aa_Key x"] zero_states(2) ne unfolding AnchorIndex_All_def set_go_sort by metis
  moreover obtain y where "anchor_item ?e = Some y" "ib_Kind y = kind" "ib_ID y = i"
    using e(2-4) unfolding e(1) by (auto simp: anchor_item_def anchor_abs_def)
  ultimately show ?thesis
    using map_filter_mem [of ?e _ anchor_item y] by (auto simp: Inbox_def)
next
  case (AggConstraint c)
  let ?e = "con_get (rm_constraints p) (co_ID c)"
  have e: "?e = constraint_abs c" "kind = ''constraint''" "i = co_ID c" "co_State c \<in> {CStateGenerated, CStateReview}"
    using assms AggConstraint by (auto simp: models_show_def split: if_splits)
  have ne: "cu_State ?e \<noteq> CStateNone"
    unfolding e(1) using e(4) by (auto simp: constraint_abs_def)
  have "?e \<in> set (ConstraintIndex_All (rm_constraints p))"
    using map_get_mem [of zero_constraint_summary "rm_constraints p" "co_ID c"] zero_states(3) ne unfolding ConstraintIndex_All_def set_go_sort by metis
  moreover obtain y where "constraint_item ?e = Some y" "ib_Kind y = kind" "ib_ID y = i"
    using e(2-4) unfolding e(1) by (auto simp: constraint_item_def constraint_abs_def Let_def)
  ultimately show ?thesis
    using map_filter_mem [of ?e _ constraint_item y] by (auto simp: Inbox_def)
next
  case (AggSession n)
  let ?e = "ses_get (rm_sessions p) s"
  have e: "?e = session_abs n" "kind = ''session''" "i = SessionStream (ss_Tool n) (ss_ID n)" "ss_State n \<noteq> SessionStateNone" "ss_State n \<noteq> SessionStateShared" "ss_Judgments n \<noteq> []"
    using assms AggSession by (auto simp: models_show_def split: if_splits)
  have ne: "su_State ?e \<noteq> SessionStateNone"
    unfolding e(1) using e(4) by (simp add: session_abs_def)
  have "?e \<in> set (SessionIndex_All (rm_sessions p))"
    using map_get_mem [of zero_session_summary "rm_sessions p" s] zero_states(4) ne unfolding SessionIndex_All_def set_go_sort by metis
  moreover obtain y where "session_item ?e = Some y" "ib_Kind y = kind" "ib_ID y = i"
    using e(2-6) unfolding e(1) by (auto simp: session_item_def session_abs_def Let_def SessionSummary_Stream_def)
  ultimately show ?thesis
    using map_filter_mem [of ?e _ session_item y] by (auto simp: Inbox_def)
qed (use assms in auto)

lemma Inbox_sorted: "sorted (map (\<lambda>x. (ib_At x, ib_ID x)) (Inbox changes anchors constraints sessions))"
proof -
  have less: "item_less = (\<lambda>a b. (ib_At a, ib_ID a) < (ib_At b, ib_ID b))"
    by (intro ext) (auto simp: item_less_def less_prod_def')
  show ?thesis
    unfolding Inbox_def less by (subst go_sort_sort_key [of "\<lambda>x. (ib_At x, ib_ID x)"]) (rule sorted_sort_key)
qed

text \<open>
  C21. Nothing that waits for a person is forgotten: in every state of a run of the daemon, every open change that touches constraints, every anchor that
  went stale, waits for review or is gone, every constraint to verify or review and every session with judgment candidates that is not shared
  has an item in the inbox under its id, said of the aggregates that the ledger replays to. The items are in the order of their times.
\<close>

theorem inbox_complete:
  assumes "json_roundtrip mar un" and "daemon_reaches H J mar un sg l p" and "s \<noteq> RejectedStream"
    and "stream_history (daemon_options H J mar un) (l_all l) s evs" and "waiting (Replay Root_Apply (stream_zero s) evs) = Some (kind, i)"
  shows "sorted (map (\<lambda>x. (ib_At x, ib_ID x)) (Inbox (rm_changes p) (rm_anchors p) (rm_constraints p) (Some (rm_sessions p)))) \<and>
    (\<exists>item \<in> set (Inbox (rm_changes p) (rm_anchors p) (rm_constraints p) (Some (rm_sessions p))). ib_Kind item = kind \<and> ib_ID item = i)"
  using Inbox_sorted shown_waiting [OF history_shown [OF assms(1-4)] assms(5)] by blast

theorem inbox_complete_witness:
  "\<exists>l p. daemon_reaches sample_digest sample_json derive_marshal derive_unmarshal None l p \<and>
    (\<exists>item \<in> set (Inbox (rm_changes p) (rm_anchors p) (rm_constraints p) (Some (rm_sessions p))). ib_Kind item = ''change'' \<and> ib_ID item = ''c1'')"
proof -
  obtain res l p w where h: "Pipeline_Handle derive_options app_handlers 5 ada (derive_open_cmd [''k1'']) (NewLedger None, empty_models) = ((res, None), (l, p))"
      "l_all l = [w]" "e_Stream w = ChangeStream ''c1''" "decodes derive_options w (derived_open [''k1''])"
    using sample_open [of "[''k1'']"] by blast
  have reach: "daemon_reaches sample_digest sample_json derive_marshal derive_unmarshal None l p"
    using reach_step [OF reach_start h(1)] .
  have cmd: "cmd_Stream (derive_open_cmd [''k1'']) = ChangeStream ''c1''" "stream_zero (ChangeStream ''c1'') = AggChange zero_change"
    using cmd_zero_stream [of "derive_open_cmd [''k1'']"] by (simp_all add: open_command_def)
  have stream: "ChangeStream ''c1'' \<noteq> RejectedStream"
    using cmd_Stream_not_rejected [of "derive_open_cmd [''k1'']"] cmd(1) by simp
  obtain evs where hist: "stream_history derive_options (l_all l) (ChangeStream ''c1'') evs"
    using daemon_ok(2) [OF derive_roundtrip reach] stream by (auto simp: streams_ok_def)
  then have "evs = [derived_open [''k1'']]"
    using h(2-4) by (auto simp: stream_history_def stream_log_def list_all2_Cons1 decodes_def)
  then have "waiting (Replay Root_Apply (stream_zero (ChangeStream ''c1'')) evs) = Some (''change'', ''c1'')"
    by (simp add: cmd(2) derived_open_def Let_def)
  then show ?thesis
    using inbox_complete [OF derive_roundtrip reach stream hist] reach by blast
qed

text \<open>
  C22. The history of an anchor: in every state of a run of the daemon, it returns, and for an anchor it lists exactly the records of the ledger that are
  in its stream, refer to it or mention it in a constraint, a change or a gate, each once and in the order of the ledger.
\<close>

theorem history_complete:
  assumes "json_roundtrip mar un" and "daemon_reaches H J mar un sg l p"
  shows "\<exists>evs. list_all2 (decodes (daemon_options H J mar un)) (l_all l) evs \<and>
    History (daemon_options H J mar un) l anchor = Some (case ParseAnchor anchor of
      Inl err \<Rightarrow> Inl err | Inr a \<Rightarrow> Inr (history_of (Anchor_String a) (l_all l) evs))"
proof -
  note ok = daemon_ok [OF assms]
  obtain evs where evs: "list_all2 (decodes (daemon_options H J mar un)) (l_all l) evs"
    using ok(3) by (auto simp: models_ok_def)
  then show ?thesis
    using memory.history_returns [of "daemon_options H J mar un" H J l 0 evs _ "[]"] ok(1)
    by (intro exI [of _ evs]) (auto simp: History_def split: sum.splits)
qed

theorem history_complete_witness:
  "\<exists>evs. length evs = 1 \<and> History sample_options sample_ledger ''code://cmd/main.go'' = Some (Inr (history_of ''code://cmd/main.go'' (l_all sample_ledger) evs))"
proof -
  have "ParseAnchor ''code://cmd/main.go'' = Inr \<lparr>an_Scheme = SchemeCode, an_Path = ''cmd/main.go'', an_Symbol = ''''\<rparr>"
    by code_simp
  moreover have "Anchor_String \<lparr>an_Scheme = SchemeCode, an_Path = ''cmd/main.go'', an_Symbol = ''''\<rparr> = ''code://cmd/main.go''"
    by code_simp
  ultimately show ?thesis
    using history_complete [OF sample_json_roundtrip sample_reached, of "''code://cmd/main.go''"] sample_step(2)
    by (metis (no_types, lifting) list_all2_lengthD sum.case(2))
qed

subsection \<open>The transparency log\<close>

text \<open>
  C23. The log stores what its proofs are built from: if the store holds the hash of every perfect subtree over the leaves so far, then for a new leaf
  the walk up returns, after at most 65 nodes, exactly the nodes whose subtrees the leaf completes, with their hashes, and with these stored the
  store holds every perfect subtree over all the leaves. Sizes reach up to the largest index of 64 bits. The node ids behave as their package documents.
\<close>

theorem log_store_complete:
  assumes "node_ids ml" and "stores ml fetch leaves" and "length leaves < 2 ^ 64"
  shows "\<exists>out. ParentsToStore ml (of_nat (length leaves)) leaf fetch = Some (Inr out) \<and> length out \<le> 65 \<and>
    set out = {(node ml k i, perfect ml (leaves @ [leaf]) k i) | k i. length leaves + 1 = (i + 1) * 2 ^ k} \<and>
    stores ml (stored fetch out) (leaves @ [leaf])"
  using ParentsToStore_stores [OF assms] .

text \<open>A sample library: node ids are pairs, and hashes of inner nodes show their children. The rest is not used.\<close>

definition sample_merkle :: "(u64 \<times> u64, unit, unit) merkle_lib" where
  "sample_merkle = \<lparr>ml_HashLeaf = (\<lambda>b. ''l'' @ b), ml_HashChildren = (\<lambda>x y. ''('' @ x @ y @ '')''), ml_EmptyRoot = '''', ml_NewNodeID = Pair, ml_Level = fst, ml_Index = snd,
     ml_Parent = (\<lambda>(k, i). (k + 1, i div 2)), ml_RangeNodes = (\<lambda>_ _. []), ml_NewRange = (\<lambda>_ _ _ _. Inr ()), ml_GetRootHash = (\<lambda>_. Inr ''''),
     ml_Inclusion = (\<lambda>_ _. Inr ()), ml_Consistency = (\<lambda>_ _. Inr ()), ml_IDs = (\<lambda>_. []), ml_Rehash = (\<lambda>_ hs _. Inr hs),
     ml_VerifyInclusion = (\<lambda>_ _ leaf p root. if p = [] \<and> leaf = root then None else Some ''mismatch''), ml_VerifyConsistency = (\<lambda>_ _ _ _ _. None)\<rparr>"

theorem log_store_complete_witness:
  "\<exists>out. ParentsToStore sample_merkle 1 ''b'' (\<lambda>i. if i = (0, 0) then Inr ''a'' else Inl ''not found'') = Some (Inr out) \<and>
    ((1, 0), ''(ab)'') \<in> set out"
proof -
  let ?fetch = "\<lambda>i. if i = (0, 0) then Inr ''a'' else Inl ''not found''"
  have ids: "node_ids sample_merkle"
    by (simp add: node_ids_def sample_merkle_def)
  have store: "stores sample_merkle ?fetch [''a'']"
  proof -
    have only: "k = 0 \<and> i = 0" if "(i + 1) * 2 ^ k \<le> (1 :: nat)" for k i
    proof -
      have "2 ^ k \<le> (1 :: nat)" "i + 1 \<le> 1"
        using that mult_le_mono1 [of 1 "i + 1" "2 ^ k"] mult_le_mono2 [of 1 "2 ^ k" "i + 1"] by simp_all
      then show ?thesis
        using less_exp [of k] by linarith
    qed
    have zero: "?fetch (node sample_merkle 0 0) = Inr (perfect sample_merkle [''a''] 0 0)"
      by (simp add: node_def NewNodeID_def sample_merkle_def)
    show ?thesis
      unfolding stores_def
    proof (intro allI impI)
      fix k i
      assume "(i + 1) * 2 ^ k \<le> length [''a'']"
      then have "k = 0 \<and> i = 0"
        using only [of i k] by simp
      then show "?fetch (node sample_merkle k i) = Inr (perfect sample_merkle [''a''] k i)"
        using zero by blast
    qed
  qed
  have "((1, 0), ''(ab)'') \<in> {(node sample_merkle k i, perfect sample_merkle ([''a''] @ [''b'']) k i) | k i. length [''a''] + 1 = (i + 1) * 2 ^ k}"
    by (intro CollectI exI [of _ 1] exI [of _ 0]) (simp add: node_def NewNodeID_def HashChildren_def sample_merkle_def)
  then show ?thesis
    using log_store_complete [OF ids store, of "''b''"] by auto
qed

lemma bytes_equal_eq: "bytes_equal xs ys \<longleftrightarrow> xs = ys"
  by (induction xs ys rule: bytes_equal.induct) auto

text \<open>
  What \<^verbatim>\<open>keelage-server\<close> signs with its one key: the hashes of the records that its ledger seals and the texts of the checkpoints it issues. A signature
  that verifies was made by whoever has the key: ed25519 is taken to be unforgeable.
\<close>

definition server_signed :: "digest \<Rightarrow> meta_json \<Rightarrow> checkpoint set \<Rightarrow> bytes set" where
  "server_signed H J issued = Canonical ` issued \<union> {e_Hash e | e. \<exists>prev e0. Seal H J prev e0 = Inr e}"

definition unforgeable :: "(bytes \<Rightarrow> bytes \<Rightarrow> bytes \<Rightarrow> bool) \<Rightarrow> bytes \<Rightarrow> bytes set \<Rightarrow> bool" where
  "unforgeable verify pub made \<longleftrightarrow> (\<forall>m sig. verify pub m sig \<longrightarrow> m \<in> made)"

lemma pad_length: "w \<le> length (pad w i)"
  by (simp add: pad_def Let_def)

text \<open>The text of a checkpoint is longer than a digest, so a signature of a record is never one of a checkpoint.\<close>

lemma Canonical_length: "32 < length (Canonical c)"
proof -
  have parts: "20 \<le> length (pad 4 y @ ''-'' @ pad 2 m @ ''-'' @ pad 2 d @ ''T'' @ pad 2 h @ '':'' @ pad 2 k @ '':'' @ pad 2 s @ ''Z'')" for y m d h k s
    using pad_length [of 4 y] pad_length [of 2 m] pad_length [of 2 d] pad_length [of 2 h] pad_length [of 2 k] pad_length [of 2 s] by simp
  have "20 \<le> length (rfc3339 t)" for t
    unfolding rfc3339_def Let_def by (split prod.split, split prod.split) (intro allI impI parts)
  then have "20 \<le> length (rfc3339 (cx_At c))" .
  then show ?thesis
    unfolding Canonical_def length_append by simp
qed

lemma checkpoint_signed:
  assumes "\<forall>x. length (H x) = 32" and "unforgeable verify pub (server_signed H J issued)" and "verify pub (Canonical c) sig"
  shows "\<exists>c' \<in> issued. Canonical c = Canonical c'"
proof -
  have "Canonical c \<noteq> e_Hash e" if "Seal H J prev e0 = Inr e" for prev e0 e
    using that assms(1) Canonical_length [of c] by (auto simp: Seal_Inr)
  then show ?thesis
    using assms(2,3) unfolding unforgeable_def server_signed_def by blast
qed

text \<open>A text of a checkpoint has one line break for each of its five lines and those in the name of the organisation.\<close>

lemma Canonical_lines: "0 \<le> cx_At c \<Longrightarrow> count_list (Canonical c) (CHR 0x0A) = 5 + count_list (cx_Org c) (CHR 0x0A)"
  using nat_digits_line [of "unat (cx_TreeSize c)"] hex_line [of "cx_Root c"] rfc3339_line [of "cx_At c"]
  by (simp add: Canonical_def count_list_0_iff)

text \<open>
  C24. What an accepted proof bundle vouches for: the server signs checkpoints and the hashes of records with one key; if signatures cannot be forged, digests
  have 32 bytes, the names of organisations that checkpoints are issued for have no line break and times are not before the year 1, then an
  accepted bundle is backed by an issued checkpoint of its organisation with the tree size of the proof, the root that the inclusion proof leads to and the
  same second, and the leaf proved is that of the two hashes in the bundle. No signature of a record passes as one of a checkpoint.
\<close>

theorem bundle_sound:
  assumes "VerifyBundle ml verify b pub = None"
    and "\<forall>x. length (H x) = 32" and "unforgeable verify pub (server_signed H J issued)"
    and "\<forall>c \<in> issued. CHR 0x0A \<notin> set (cx_Org c)" and "\<forall>c \<in> insert (bn_Checkpoint b) issued. 0 \<le> cx_At c"
  shows "\<exists>c \<in> issued. cx_Org c = bn_Org b \<and> cx_TreeSize c = bn_TreeSize b \<and> cx_At c div Second = cx_At (bn_Checkpoint b) div Second \<and>
    ml_VerifyInclusion ml (bn_LeafIndex b) (cx_TreeSize c) (LeafHash ml (bn_MetaHash b) (bn_BodyHash b)) (bn_Proof b) (cx_Root c) = None"
proof -
  let ?cp = "bn_Checkpoint b"
  have ok: "verify pub (Canonical ?cp) (cx_Sig ?cp)" "cx_TreeSize ?cp = bn_TreeSize b" "cx_Org ?cp = bn_Org b"
      "bytes_equal (LeafHash ml (bn_MetaHash b) (bn_BodyHash b)) (bn_LeafHash b)"
      "ml_VerifyInclusion ml (bn_LeafIndex b) (bn_TreeSize b) (bn_LeafHash b) (bn_Proof b) (cx_Root ?cp) = None"
    using assms(1) by (auto simp: VerifyBundle_def Checkpoint_Verify_def VerifyInclusion_def split: if_splits)
  obtain c where c: "c \<in> issued" "Canonical ?cp = Canonical c"
    using checkpoint_signed [OF assms(2,3) ok(1)] by blast
  have line: "CHR 0x0A \<notin> set (cx_Org c)" "CHR 0x0A \<notin> set (cx_Org ?cp)"
    using Canonical_lines [of c] Canonical_lines [of ?cp] assms(4,5) c by (simp_all flip: count_list_0_iff)
  have "cx_Org ?cp = cx_Org c \<and> cx_TreeSize ?cp = cx_TreeSize c \<and> cx_Root ?cp = cx_Root c \<and> cx_At ?cp div Second = cx_At c div Second"
    using Canonical_inject [OF line(2,1) _ _ c(2)] assms(5) c(1) by blast
  then show ?thesis
    using c(1) ok bytes_equal_eq by metis
qed

text \<open>A sample: one checkpoint was issued, over a single leaf, and records were signed; a signature is the text itself, shortened.\<close>

definition sample_checkpoint :: checkpoint where
  "sample_checkpoint = \<lparr>cx_Org = ''acme'', cx_TreeSize = 1, cx_Root = ''lmb'', cx_At = 0, cx_Sig = ''keel'', cx_KeyID = ''k''\<rparr>"

definition sample_bundle :: proof_bundle where
  "sample_bundle = \<lparr>bn_Org = ''acme'', bn_Seq = 1, bn_LeafIndex = 0, bn_LeafHash = ''lmb'', bn_MetaHash = ''m'', bn_BodyHash = ''b'', bn_TreeSize = 1, bn_Proof = [],
     bn_Checkpoint = sample_checkpoint\<rparr>"

definition sample_sha :: digest where
  "sample_sha x = take 32 (x @ replicate 32 (CHR 0x00))"

definition sample_verify :: "bytes \<Rightarrow> bytes \<Rightarrow> bytes \<Rightarrow> bool" where
  "sample_verify pub m sig \<longleftrightarrow> (m = Canonical sample_checkpoint \<or> m = sample_sha (''prev'' @ sample_sha ''{}'' @ sample_sha ''{}'')) \<and> sig = take 4 m"

lemma sample_record_signed: "sample_sha (''prev'' @ sample_sha ''{}'' @ sample_sha ''{}'') \<in> server_signed sample_sha (\<lambda>_. Inr ''{}'') issued"
proof -
  let ?e0 = "sample_envelope\<lparr>e_Body := ''{}''\<rparr>"
  obtain e where "Seal sample_sha (\<lambda>_. Inr ''{}'') ''prev'' ?e0 = Inr e" "e_Hash e = sample_sha (''prev'' @ sample_sha ''{}'' @ sample_sha ''{}'')"
    by (simp add: Seal_Inr sample_envelope_def)
  then show ?thesis
    by (auto simp: server_signed_def)
qed

theorem bundle_sound_witness:
  "VerifyBundle sample_merkle sample_verify sample_bundle (replicate 32 (CHR 0x00)) = None \<and>
    unforgeable sample_verify (replicate 32 (CHR 0x00)) (server_signed sample_sha (\<lambda>_. Inr ''{}'') {sample_checkpoint}) \<and>
    ml_VerifyInclusion sample_merkle 0 1 (LeafHash sample_merkle ''m'' ''b'') [] ''lmb'' = None"
proof -
  have ok: "VerifyBundle sample_merkle sample_verify sample_bundle (replicate 32 (CHR 0x00)) = None"
    by (simp add: VerifyBundle_def Checkpoint_Verify_def VerifyInclusion_def LeafHash_def sample_merkle_def sample_bundle_def sample_verify_def)
      (simp add: sample_checkpoint_def Canonical_def)
  have signed: "unforgeable sample_verify (replicate 32 (CHR 0x00)) (server_signed sample_sha (\<lambda>_. Inr ''{}'') {sample_checkpoint})"
    using sample_record_signed by (auto simp: unforgeable_def sample_verify_def server_signed_def)
  have digest: "\<forall>x. length (sample_sha x) = 32"
    by (auto simp: sample_sha_def min_def)
  show ?thesis
    using bundle_sound [OF ok digest signed] ok signed by (simp add: sample_bundle_def sample_checkpoint_def)
qed

subsection \<open>Pull requests\<close>

lemma publish_report_keeps:
  assumes "publish_report rq ev rendered rep g = ((rep', err), g')"
  shows "po_Judged rep' = po_Judged rep \<and> po_Change rep' = po_Change rep"
  using assms by (auto simp: publish_report_def Let_def split: prod.splits option.splits)

lemma after_review_keeps:
  assumes "after_review b ev rep judged err p g = ((rep', err'), g')"
  shows "po_Judged rep' = po_Judged rep \<and> po_Change rep' = po_Change rep"
  using assms by (auto simp: after_review_def Let_def split: option.splits if_splits dest!: publish_report_keeps)

lemma judge_judged:
  assumes "judge opt order ev rv now rep st = Some ((rep', judged, err), st2)" and "po_Judged rep'" and "\<not> po_Judged rep"
  shows "\<exists>st1 res. catchUp opt st = Some (None, st1) \<and>
    (let reviewer = \<lparr>ar_Kind = ActorHuman, ar_ID = ToLower (rw_Login rv), ar_Key = '''', ar_Owner = ''''\<rparr> in
      Pipeline_Handle opt app_handlers now reviewer (judge_command ev rv now (po_Change rep') reviewer) st1 = ((res, None), st2)) \<and> \<not> re_Replayed res"
  using assms by (auto simp: judge_def Let_def split: option.splits prod.splits bool.splits)

text \<open>
  C28. Reviews are judgments of members: a delivery reports a judgment only for an approving or rejecting review whose author is a member of the organisation
  (where membership is checked), and then exactly the command with the review's decision, reason and author was handled by that organisation's pipeline,
  not as a replay. A review that is no judgment, or of someone who is not a member, changes neither a tenant nor the forge.
\<close>

theorem pr_review_guarded:
  assumes "PRBridge_Handle b now ev x = Some ((rep, err), y)" and "rx_Kind ev = ''pr_review''"
  shows "(po_Judged rep \<longrightarrow>
      (\<exists>rv org st orgs st1 i res st2. rx_Review ev = Some rv \<and> rw_State rv \<in> {''approved'', ''changes_requested''} \<and>
        orgFor b (snd x) ev = Inr org \<and> review_member b org rv = Inr True \<and> Orgs_Get (pb_Options b) (pb_Open b) org (fst x) = Some (Inr st, orgs) \<and>
        catchUp (pb_Options b) st = Some (None, st1) \<and>
        (let reviewer = \<lparr>ar_Kind = ActorHuman, ar_ID = ToLower (rw_Login rv), ar_Key = '''', ar_Owner = ''''\<rparr> in
          Pipeline_Handle (pb_Options b) app_handlers now reviewer (judge_command ev rv now i reviewer) st1 = ((res, None), st2)) \<and>
        \<not> re_Replayed res \<and> po_Change rep = i \<and> fst y = map_put org st2 orgs)) \<and>
    (\<forall>rv. rx_Review ev = Some rv \<and> (rw_State rv \<notin> {''approved'', ''changes_requested''} \<or>
        (\<exists>org. orgFor b (snd x) ev = Inr org \<and> review_member b org rv = Inr False)) \<longrightarrow> y = x \<and> \<not> po_Judged rep)"
proof -
  let ?rep = "\<lparr>po_Kind = rx_Kind ev, po_Org = '''', po_Change = '''', po_Commented = False, po_Check = '''', po_Judged = False, po_Skipped = ''''\<rparr>"
  have run: "review b now ev ?rep x = Some ((rep, err), y)"
    using assms by (simp add: PRBridge_Handle_def)
  have "y = x \<and> \<not> po_Judged rep" if "rx_Review ev = Some rv" "rw_State rv \<notin> {''approved'', ''changes_requested''} \<or>
      (\<exists>org. orgFor b (snd x) ev = Inr org \<and> review_member b org rv = Inr False)" for rv
    using run that by (auto simp: review_def Let_def split: if_splits sum.splits)
  moreover have "\<exists>rv org st orgs st1 i res st2. rx_Review ev = Some rv \<and> rw_State rv \<in> {''approved'', ''changes_requested''} \<and>
        orgFor b (snd x) ev = Inr org \<and> review_member b org rv = Inr True \<and> Orgs_Get (pb_Options b) (pb_Open b) org (fst x) = Some (Inr st, orgs) \<and>
        catchUp (pb_Options b) st = Some (None, st1) \<and>
        (let reviewer = \<lparr>ar_Kind = ActorHuman, ar_ID = ToLower (rw_Login rv), ar_Key = '''', ar_Owner = ''''\<rparr> in
          Pipeline_Handle (pb_Options b) app_handlers now reviewer (judge_command ev rv now i reviewer) st1 = ((res, None), st2)) \<and>
        \<not> re_Replayed res \<and> po_Change rep = i \<and> fst y = map_put org st2 orgs" if judged: "po_Judged rep"
  proof -
    obtain rv org where rv: "rx_Review ev = Some rv" "rw_State rv \<in> {''approved'', ''changes_requested''}" "orgFor b (snd x) ev = Inr org" "review_member b org rv = Inr True"
      using run judged by (auto simp: review_def Let_def split: option.splits if_splits sum.splits bool.splits)
    obtain st orgs where orgs: "Orgs_Get (pb_Options b) (pb_Open b) org (fst x) = Some (Inr st, orgs)"
      using run judged rv by (auto simp: review_def Let_def split: option.splits sum.splits)
    obtain rep2 j e st2 out g where j: "judge (pb_Options b) (pb_Order b) ev rv now (?rep\<lparr>po_Org := org\<rparr>) st = Some ((rep2, j, e), st2)"
        "after_review b ev rep2 j e (snd st2) (snd x) = ((rep, err), g)" "fst y = map_put org st2 orgs"
      using run rv orgs by (auto simp: review_def Let_def split: option.splits prod.splits)
    have keeps: "po_Judged rep2" "po_Change rep2 = po_Change rep"
      using after_review_keeps [OF j(2)] judged by simp_all
    obtain st1 res where q: "catchUp (pb_Options b) st = Some (None, st1)" "\<not> re_Replayed res"
        "let reviewer = \<lparr>ar_Kind = ActorHuman, ar_ID = ToLower (rw_Login rv), ar_Key = '''', ar_Owner = ''''\<rparr> in
          Pipeline_Handle (pb_Options b) app_handlers now reviewer (judge_command ev rv now (po_Change rep2) reviewer) st1 = ((res, None), st2)"
      using judge_judged [OF j(1) keeps(1)] by auto
    show ?thesis
      by (intro exI [of _ rv] exI [of _ org] exI [of _ st] exI [of _ orgs] exI [of _ st1] exI [of _ "po_Change rep2"] exI [of _ res] exI [of _ st2] conjI)
        (use rv orgs j(3) keeps(2) q in simp_all)
  qed
  ultimately show ?thesis
    by blast
qed

text \<open>A review of someone who is not a member.\<close>

definition sample_bridge :: "(mem_ledger, server_models) options \<Rightarrow> (mem_ledger, unit) pr_bridge" where
  "sample_bridge opt = \<lparr>pb_Options = opt, pb_Open = (\<lambda>_. Inr (NewLedger None)), pb_Reporter = None, pb_Installs = None, pb_Members = Some (\<lambda>_ _. Inr False), pb_Order = (\<lambda>c. c)\<rparr>"

definition sample_review :: repo_event where
  "sample_review = \<lparr>rx_Kind = ''pr_review'', rx_Delivery = ''d1'', rx_Installation = 0, rx_Account = '''', rx_Owner = ''acme'', rx_Repo = ''keelage'', rx_Number = 7,
     rx_HeadSHA = ''abc'', rx_Title = '''', rx_URL = '''',
     rx_Review = Some \<lparr>rw_ID = 1, rw_State = ''approved'', rw_Body = ''fine'', rw_Login = ''Eve'', rw_SubmittedAt = 5\<rparr>\<rparr>"

theorem pr_review_guarded_witness:
  "\<forall>opt. \<exists>rep. PRBridge_Handle (sample_bridge opt) 5 sample_review ([], ()) = Some ((rep, None), ([], ())) \<and> \<not> po_Judged rep"
proof
  fix opt
  obtain rep where h: "PRBridge_Handle (sample_bridge opt) 5 sample_review ([], ()) = Some ((rep, None), ([], ()))"
    by (simp add: PRBridge_Handle_def review_def sample_bridge_def sample_review_def orgFor_def review_member_def)
  have "rx_Kind sample_review = ''pr_review''" "rx_Review sample_review = Some \<lparr>rw_ID = 1, rw_State = ''approved'', rw_Body = ''fine'', rw_Login = ''Eve'', rw_SubmittedAt = 5\<rparr>"
      "orgFor (sample_bridge opt) () sample_review = Inr ''acme''"
      "review_member (sample_bridge opt) ''acme'' \<lparr>rw_ID = 1, rw_State = ''approved'', rw_Body = ''fine'', rw_Login = ''Eve'', rw_SubmittedAt = 5\<rparr> = Inr False"
    by (simp_all add: sample_bridge_def sample_review_def orgFor_def review_member_def)
  then show "\<exists>rep. PRBridge_Handle (sample_bridge opt) 5 sample_review ([], ()) = Some ((rep, None), ([], ())) \<and> \<not> po_Judged rep"
    using pr_review_guarded [OF h] h by auto
qed

end
