(* ===== verification/Sidecar.thy ===== *)
theory Sidecar
  imports Verifier PR_Bridge Turn
begin

section \<open>Files in the repository\<close>

text \<open>
  \<^verbatim>\<open>internal/app/sidecar.go\<close>: the manifest, the import of rule files and decision records into the ledger, and the rendering of
  context files with managed blocks. The disk is a state: the contents of files by their full path, and the directories that were made. Which
  operations of \<^verbatim>\<open>os\<close> fail, and what a failed one leaves behind, is an argument; one that succeeds has its documented effect. The listing of a
  directory and the tree below the root are arguments too; an entry that cannot be read is absent from them, as the walk skips it. The JSON of
  the manifest is an argument. New ids and the clock are sequences.
\<close>

subsection \<open>The disk\<close>

record disk =
  dk_Files :: "(string \<times> bytes) list"
  dk_Dirs :: "string list"

datatype dir_entry = FileEntry string | DirEntry string "dir_entry list"

record os_env =
  oe_Stat :: "disk \<Rightarrow> string \<Rightarrow> go_error option"
  oe_Read :: "disk \<Rightarrow> string \<Rightarrow> go_error option"
  oe_Write :: "disk \<Rightarrow> string \<Rightarrow> bytes \<Rightarrow> (go_error \<times> disk) option"
  oe_Mkdir :: "disk \<Rightarrow> string \<Rightarrow> (go_error \<times> disk) option"
  oe_Remove :: "disk \<Rightarrow> string \<Rightarrow> (go_error \<times> disk) option"
  oe_RemoveAll :: "disk \<Rightarrow> string \<Rightarrow> (go_error \<times> disk) option"
  oe_Tree :: "disk \<Rightarrow> string \<Rightarrow> dir_entry list"
  oe_ReadDir :: "disk \<Rightarrow> string \<Rightarrow> go_error + (string \<times> bool) list"

definition os_Stat :: "os_env \<Rightarrow> disk \<Rightarrow> string \<Rightarrow> stat_error option" where
  "os_Stat env d p =
     (case oe_Stat env d p of
        Some e \<Rightarrow> Some (StatError e)
      | None \<Rightarrow> if map_of (dk_Files d) p = None \<and> p \<notin> set (dk_Dirs d) then Some NotExist else None)"

definition os_ReadFile :: "os_env \<Rightarrow> disk \<Rightarrow> string \<Rightarrow> stat_error + bytes" where
  "os_ReadFile env d p =
     (case oe_Read env d p of
        Some e \<Rightarrow> Inl (StatError e)
      | None \<Rightarrow> (case map_of (dk_Files d) p of None \<Rightarrow> Inl NotExist | Some b \<Rightarrow> Inr b))"

definition os_WriteFile :: "os_env \<Rightarrow> string \<Rightarrow> bytes \<Rightarrow> disk \<Rightarrow> go_error option \<times> disk" where
  "os_WriteFile env p b d =
     (case oe_Write env d p b of Some (e, d') \<Rightarrow> (Some e, d') | None \<Rightarrow> (None, d\<lparr>dk_Files := map_put p b (dk_Files d)\<rparr>))"

definition os_MkdirAll :: "os_env \<Rightarrow> string \<Rightarrow> disk \<Rightarrow> go_error option \<times> disk" where
  "os_MkdirAll env p d =
     (case oe_Mkdir env d p of
        Some (e, d') \<Rightarrow> (Some e, d')
      | None \<Rightarrow> (None, if p \<in> set (dk_Dirs d) then d else d\<lparr>dk_Dirs := p # dk_Dirs d\<rparr>))"

definition os_Remove :: "os_env \<Rightarrow> string \<Rightarrow> disk \<Rightarrow> stat_error option \<times> disk" where
  "os_Remove env p d =
     (case oe_Remove env d p of
        Some (e, d') \<Rightarrow> (Some (StatError e), d')
      | None \<Rightarrow>
          if map_of (dk_Files d) p = None then (Some NotExist, d) else (None, d\<lparr>dk_Files := AList.delete p (dk_Files d)\<rparr>))"

definition below :: "string \<Rightarrow> string \<Rightarrow> bool" where
  "below p q \<longleftrightarrow> q = p \<or> HasPrefix q (p @ ''/'')"

definition os_RemoveAll :: "os_env \<Rightarrow> string \<Rightarrow> disk \<Rightarrow> go_error option \<times> disk" where
  "os_RemoveAll env p d =
     (case oe_RemoveAll env d p of
        Some (e, d') \<Rightarrow> (Some e, d')
      | None \<Rightarrow> (None, \<lparr>dk_Files = filter (\<lambda>x. \<not> below p (fst x)) (dk_Files d), dk_Dirs = filter (\<lambda>q. \<not> below p q) (dk_Dirs d)\<rparr>))"

definition stat_error_string :: "string \<Rightarrow> stat_error \<Rightarrow> go_error" where
  "stat_error_string p e = (case e of NotExist \<Rightarrow> ''open '' @ p @ '': no such file or directory'' | StatError s \<Rightarrow> s)"

subsection \<open>The manifest\<close>

definition ManifestPath :: string where
  "ManifestPath = ''.keelage/manifest.json''"

definition LoadManifest :: "os_env \<Rightarrow> (bytes \<Rightarrow> manifest \<Rightarrow> go_error + manifest) \<Rightarrow> disk \<Rightarrow> string \<Rightarrow> string \<Rightarrow> go_error + manifest" where
  "LoadManifest env unmarshal d root repo =
     (let p = filepath_Join root ManifestPath;
          m = \<lparr>mf_Version = 1, mf_Repo = repo, mf_Adapters = [], mf_Imports = [], mf_Rendered = [], mf_Gitignore = False, mf_UpdatedAt = 0\<rparr> in
      case os_ReadFile env d p of
        Inl NotExist \<Rightarrow> Inr m
      | Inl (StatError e) \<Rightarrow> Inl e
      | Inr b \<Rightarrow> (case unmarshal b m of Inl err \<Rightarrow> Inl (''manifest: '' @ err) | Inr m' \<Rightarrow> Inr m'))"

definition SaveManifest :: "os_env \<Rightarrow> (manifest \<Rightarrow> go_error + bytes) \<Rightarrow> string \<Rightarrow> go_time \<Rightarrow> manifest \<times> disk \<Rightarrow> go_error option \<times> (manifest \<times> disk)" where
  "SaveManifest env marshal root now x =
     (let m = (fst x)\<lparr>mf_UpdatedAt := now\<rparr>; p = filepath_Join root ManifestPath in
      case os_MkdirAll env (filepath_Dir p) (snd x) of
        (Some e, d) \<Rightarrow> (Some e, (m, d))
      | (None, d) \<Rightarrow>
        (case marshal m of
           Inl err \<Rightarrow> (Some err, (m, d))
         | Inr b \<Rightarrow> (case os_WriteFile env p (b @ newline) d of (err, d') \<Rightarrow> (err, (m, d')))))"

definition ManifestExists :: "os_env \<Rightarrow> disk \<Rightarrow> string \<Rightarrow> bool" where
  "ManifestExists env d root \<longleftrightarrow> os_Stat env d (filepath_Join root ManifestPath) = None"

subsection \<open>Import\<close>

record absorb_result =
  ab_Path :: string
  ab_Kind :: string
  ab_ObjectID :: string
  ab_Action :: string
  ab_Scope :: string

record 'l importer =
  ip_Pipeline :: "('l, read_models) options"
  ip_Root :: string
  ip_Repo :: string
  ip_OnlyFiles :: "string list option"
  ip_Scope :: "scope_key option"
  ip_NewID :: "nat \<Rightarrow> ID"
  ip_Clock :: "nat \<Rightarrow> go_time"
  ip_H :: "bytes \<Rightarrow> bytes"

text \<open>What an import changes: ledger and read models, the manifest, and how many ids were made and commands handled.\<close>

record 'l import_state =
  is_State :: "'l \<times> read_models"
  is_Manifest :: manifest
  is_IDs :: nat
  is_Commands :: nat

definition import_handle :: "'l importer \<Rightarrow> actor_ref \<Rightarrow> command \<Rightarrow> 'l import_state \<Rightarrow> app_error option \<times> 'l import_state" where
  "import_handle im actor cmd x =
     (case Pipeline_Handle (ip_Pipeline im) app_handlers (ip_Clock im (is_Commands x)) actor cmd (is_State x) of
        ((_, err), st) \<Rightarrow> (err, x\<lparr>is_State := st, is_Commands := is_Commands x + 1\<rparr>))"

definition ruleFileNames :: "string list" where
  "ruleFileNames = [''CLAUDE.md'', ''AGENTS.md'']"

definition adrDirs :: "string list" where
  "adrDirs = [''docs/adr'', ''doc/adr'', ''adr'']"

text \<open>
  \<^verbatim>\<open>adrTitle\<close>: at the start of a line a \<open>#\<close>, white space (which may span lines), and the rest of that line without white space at its end.
  A body without white space at its end has something behind that white space.
\<close>

definition title_at :: "string \<Rightarrow> string option" where
  "title_at s =
     (case s of
        x # c # rest \<Rightarrow>
          if x = CHR ''#'' \<and> re_space c
          then let line = takeWhile (\<lambda>y. y \<noteq> CHR 0x0A) (dropWhile re_space rest) in
               (if line = [] then None else Some (rev (dropWhile re_space (rev line))))
          else None
      | _ \<Rightarrow> None)"

fun adr_title :: "bool \<Rightarrow> string \<Rightarrow> string option" where
  "adr_title start [] = None"
| "adr_title start (x # xs) =
     (case (if start then title_at (x # xs) else None) of
        Some t \<Rightarrow> Some t
      | None \<Rightarrow> adr_title (x = CHR 0x0A) xs)"

definition skip_dir :: "string \<Rightarrow> bool" where
  "skip_dir name \<longleftrightarrow> name = ''.git'' \<or> name = ''node_modules'' \<or> name = ''.keelage'' \<or> HasPrefix name ''.'' \<and> name \<noteq> ''.claude''"

fun walk_entry :: "string \<Rightarrow> dir_entry \<Rightarrow> string list"
  and walk_entries :: "string \<Rightarrow> dir_entry list \<Rightarrow> string list" where
  "walk_entry prefix (FileEntry name) = map (\<lambda>_. prefix @ name) (filter (\<lambda>rf. name = rf) ruleFileNames)"
| "walk_entry prefix (DirEntry name es) = (if skip_dir name then [] else walk_entries (prefix @ name @ ''/'') es)"
| "walk_entries prefix [] = []"
| "walk_entries prefix (e # es) = walk_entry prefix e @ walk_entries prefix es"

definition Importer_ruleFiles :: "'l importer \<Rightarrow> os_env \<Rightarrow> disk \<Rightarrow> string list" where
  "Importer_ruleFiles im env d = go_sort (<) (walk_entries '''' (oe_Tree env d (ip_Root im)))"

fun adr_files_in :: "'l importer \<Rightarrow> os_env \<Rightarrow> disk \<Rightarrow> string list \<Rightarrow> string list" where
  "adr_files_in im env d [] = []"
| "adr_files_in im env d (dir # dirs) =
     (case oe_ReadDir env d (filepath_Join (ip_Root im) dir) of
        Inl _ \<Rightarrow> adr_files_in im env d dirs
      | Inr entries \<Rightarrow>
          map (\<lambda>(name, _). dir @ ''/'' @ name)
            (filter (\<lambda>(name, isDir). \<not> (isDir \<or> \<not> HasSuffix name ''.md'' \<or> ToLower name = ''readme.md'' \<or> HasPrefix name ''template'')) entries))"

definition adrFiles :: "'l importer \<Rightarrow> os_env \<Rightarrow> disk \<Rightarrow> string list" where
  "adrFiles im env d = go_sort (<) (adr_files_in im env d adrDirs)"

definition ruleScope :: "'l importer \<Rightarrow> string \<Rightarrow> scope_key" where
  "ruleScope im rel =
     (case ip_Scope im of
        Some k \<Rightarrow> k
      | None \<Rightarrow>
          let dir = filepath_Dir rel in
          if dir = ''.'' \<or> dir = '''' then zero_scope_key\<lparr>sk_Repo := ip_Repo im\<rparr>
          else zero_scope_key\<lparr>sk_Repo := ip_Repo im, sk_PathGlob := dir @ ''/**''\<rparr>)"

definition draft_rule :: "ID \<Rightarrow> string \<Rightarrow> string \<Rightarrow> scope_key \<Rightarrow> string \<Rightarrow> ID \<Rightarrow> command" where
  "draft_rule i rel h scope content supersedes =
     CmdConstraint (DraftConstraint \<lparr>dc_ID = i, dc_Idem = ''import:'' @ rel @ '':'' @ h, dc_ConstraintKind = KindRule, dc_Scope = scope,
       dc_Body = content, dc_Checkable = '''', dc_Origin = [], dc_Authored = True, dc_Explanation = ''imported from '' @ rel, dc_Level = L0,
       dc_Supersedes = supersedes, dc_Anchors = []\<rparr>)"

text \<open>The commands after the draft: verification, then the supersession, whose rejection is ignored.\<close>

definition rule_verify :: "'l importer \<Rightarrow> actor_ref \<Rightarrow> bool \<Rightarrow> ID \<Rightarrow> 'l import_state \<Rightarrow> app_error option \<times> 'l import_state" where
  "rule_verify im actor verify i x =
     (if verify then import_handle im actor (CmdConstraint (VerifyConstraint \<lparr>cm_ID = i, cm_Idem = ''''\<rparr>)) x else (None, x))"

definition rule_supersede :: "'l importer \<Rightarrow> actor_ref \<Rightarrow> import_record \<times> bool \<Rightarrow> ID \<Rightarrow> 'l import_state \<Rightarrow> app_error option \<times> 'l import_state" where
  "rule_supersede im actor prev i x =
     (if snd prev
      then (case import_handle im actor (CmdConstraint (SupersedeConstraint \<lparr>su_Cmd = \<lparr>cm_ID = im_ObjectID (fst prev), cm_Idem = ''''\<rparr>, su_By = i\<rparr>)) x of
              (Some err, x') \<Rightarrow> (if AsRejection err \<noteq> None then None else Some err, x')
            | (None, x') \<Rightarrow> (None, x'))
      else (None, x))"

text \<open>The rest of \<^verbatim>\<open>absorbRule\<close> for a file that is new or changed.\<close>

definition rule_changed :: "'l importer \<Rightarrow> actor_ref \<Rightarrow> bool \<Rightarrow> string \<Rightarrow> string \<Rightarrow> string \<Rightarrow> scope_key \<Rightarrow> absorb_result \<Rightarrow> import_record \<times> bool \<Rightarrow>
    'l import_state \<Rightarrow> (absorb_result \<times> service_error option) \<times> 'l import_state" where
  "rule_changed im actor verify rel content h scope res p x =
     (let i = ip_NewID im (is_IDs x); x0 = x\<lparr>is_IDs := is_IDs x + 1\<rparr>; (prev, had) = p in
      case import_handle im actor (draft_rule i rel h scope content (if had then im_ObjectID prev else '''')) x0 of
        (Some err, x1) \<Rightarrow> ((res, Some (ServiceWrap (''import '' @ rel @ '': '') err)), x1)
      | (None, x1) \<Rightarrow>
        (case rule_verify im actor verify i x1 of
           (Some err, x2) \<Rightarrow> ((res, Some (ServiceApp err)), x2)
         | (None, x2) \<Rightarrow>
           (case rule_supersede im actor p i x2 of
              (Some err, x3) \<Rightarrow> ((res, Some (ServiceApp err)), x3)
            | (None, x3) \<Rightarrow>
                ((res\<lparr>ab_Action := (if had then ''updated'' else ''imported''), ab_ObjectID := i\<rparr>, None),
                 x3\<lparr>is_Manifest := SetImport (is_Manifest x3) \<lparr>im_Path = rel, im_Kind = ''rule'', im_ObjectID = i, im_Hash = h,
                      im_Scope = ScopeKey_String scope\<rparr>\<rparr>))))"

definition absorbRule :: "'l importer \<Rightarrow> os_env \<Rightarrow> disk \<Rightarrow> actor_ref \<Rightarrow> bool \<Rightarrow> string \<Rightarrow> 'l import_state \<Rightarrow>
    (absorb_result \<times> service_error option) \<times> 'l import_state" where
  "absorbRule im env d actor verify rel x =
     (let full = filepath_Join (ip_Root im) rel in
      case os_ReadFile env d full of
        Inl e \<Rightarrow> ((\<lparr>ab_Path = '''', ab_Kind = '''', ab_ObjectID = '''', ab_Action = '''', ab_Scope = ''''\<rparr>, Some (ServiceError (stat_error_string full e))), x)
      | Inr raw \<Rightarrow>
        let (stripped, ok) = RemoveBlock raw PointerBlockID;
            content = TrimSpace (if ok then stripped else raw);
            res = \<lparr>ab_Path = rel, ab_Kind = ''rule'', ab_ObjectID = '''', ab_Action = '''', ab_Scope = ''''\<rparr> in
        if content = '''' then ((res\<lparr>ab_Action := ''skipped''\<rparr>, None), x)
        else
          let h = FileHash (ip_H im) content; scope = ruleScope im rel; res1 = res\<lparr>ab_Scope := ScopeKey_String scope\<rparr>;
              (prev, had) = FindImport (is_Manifest x) rel in
          if had \<and> im_Hash prev = h then ((res1\<lparr>ab_ObjectID := im_ObjectID prev, ab_Action := ''unchanged''\<rparr>, None), x)
          else rule_changed im actor verify rel content h scope res1 (prev, had) x)"

definition adr_verify :: "'l importer \<Rightarrow> actor_ref \<Rightarrow> bool \<Rightarrow> ID \<Rightarrow> 'l import_state \<Rightarrow> app_error option \<times> 'l import_state" where
  "adr_verify im actor verify i x =
     (if verify then import_handle im actor (CmdDecision (VerifyDecision \<lparr>dn_ID = i, dn_Idem = ''''\<rparr>)) x else (None, x))"

text \<open>The rest of \<^verbatim>\<open>absorbADR\<close> for a file that is new or changed.\<close>

definition adr_changed :: "'l importer \<Rightarrow> actor_ref \<Rightarrow> bool \<Rightarrow> string \<Rightarrow> string \<Rightarrow> string \<Rightarrow> string \<Rightarrow> scope_key \<Rightarrow> absorb_result \<Rightarrow> import_record \<times> bool \<Rightarrow>
    'l import_state \<Rightarrow> (absorb_result \<times> service_error option) \<times> 'l import_state" where
  "adr_changed im actor verify rel title body h scope res p x =
     (let (prev, had) = p;
          i = (if had then im_ObjectID prev else ip_NewID im (is_IDs x)); x0 = (if had then x else x\<lparr>is_IDs := is_IDs x + 1\<rparr>);
          key = \<lparr>dn_ID = i, dn_Idem = ''import:'' @ rel @ '':'' @ h\<rparr>;
          cmd = (if had then ReviseDecision \<lparr>rd_Cmd = key, rd_Title = title, rd_Body = body\<rparr>
                 else DraftDecision \<lparr>dd_Cmd = key, dd_Title = title, dd_Body = body, dd_Scope = scope, dd_From = [], dd_Anchors = [], dd_Supersedes = ''''\<rparr>) in
      case import_handle im actor (CmdDecision cmd) x0 of
        (Some err, x1) \<Rightarrow> ((res, Some (ServiceWrap ((if had then ''revise '' else ''import '') @ rel @ '': '') err)), x1)
      | (None, x1) \<Rightarrow>
        (case adr_verify im actor verify i x1 of
           (Some err, x2) \<Rightarrow> ((res, Some (ServiceApp err)), x2)
         | (None, x2) \<Rightarrow>
             ((res\<lparr>ab_ObjectID := i, ab_Action := (if had then ''updated'' else ''imported'')\<rparr>, None),
              x2\<lparr>is_Manifest := SetImport (is_Manifest x2) \<lparr>im_Path = rel, im_Kind = ''adr'', im_ObjectID = i, im_Hash = h, im_Scope = ab_Scope res\<rparr>\<rparr>)))"

definition absorbADR :: "'l importer \<Rightarrow> os_env \<Rightarrow> disk \<Rightarrow> actor_ref \<Rightarrow> bool \<Rightarrow> string \<Rightarrow> 'l import_state \<Rightarrow>
    (absorb_result \<times> service_error option) \<times> 'l import_state" where
  "absorbADR im env d actor verify rel x =
     (let full = filepath_Join (ip_Root im) rel in
      case os_ReadFile env d full of
        Inl e \<Rightarrow> ((\<lparr>ab_Path = '''', ab_Kind = '''', ab_ObjectID = '''', ab_Action = '''', ab_Scope = ''''\<rparr>, Some (ServiceError (stat_error_string full e))), x)
      | Inr raw \<Rightarrow>
        let body = TrimSpace raw; scope = zero_scope_key\<lparr>sk_Repo := ip_Repo im\<rparr>;
            res = \<lparr>ab_Path = rel, ab_Kind = ''adr'', ab_ObjectID = '''', ab_Action = '''', ab_Scope = ScopeKey_String scope\<rparr> in
        if body = '''' then ((res\<lparr>ab_Action := ''skipped''\<rparr>, None), x)
        else
          let title = (case adr_title True body of Some t \<Rightarrow> t | None \<Rightarrow> TrimSuffix (filepath_Base rel) ''.md'');
              h = FileHash (ip_H im) body; (prev, had) = FindImport (is_Manifest x) rel in
          if had \<and> im_Hash prev = h then ((res\<lparr>ab_ObjectID := im_ObjectID prev, ab_Action := ''unchanged''\<rparr>, None), x)
          else adr_changed im actor verify rel title body h scope res (prev, had) x)"

text \<open>One loop of \<^verbatim>\<open>Absorb\<close>: the results so far, with the error that ended it.\<close>

fun absorb_loop :: "(string \<Rightarrow> 'l import_state \<Rightarrow> (absorb_result \<times> service_error option) \<times> 'l import_state) \<Rightarrow> string list \<Rightarrow> absorb_result list \<Rightarrow>
    'l import_state \<Rightarrow> (absorb_result list \<times> service_error option) \<times> 'l import_state" where
  "absorb_loop f [] out x = ((out, None), x)"
| "absorb_loop f (rel # rels) out x =
     (case f rel x of
        ((_, Some err), x') \<Rightarrow> ((out, Some err), x')
      | ((r, None), x') \<Rightarrow> absorb_loop f rels (out @ [r]) x')"

definition Absorb :: "'l importer \<Rightarrow> os_env \<Rightarrow> disk \<Rightarrow> actor_ref \<Rightarrow> bool \<Rightarrow> 'l import_state \<Rightarrow>
    (absorb_result list \<times> service_error option) \<times> 'l import_state" where
  "Absorb im env d actor verify x =
     (case ip_OnlyFiles im of
        Some only \<Rightarrow>
          absorb_loop (absorbRule im env d actor verify) (filter (\<lambda>rel. os_Stat env d (filepath_Join (ip_Root im) rel) = None) only) [] x
      | None \<Rightarrow>
        (case absorb_loop (absorbRule im env d actor verify) (Importer_ruleFiles im env d) [] x of
           ((out, Some err), x1) \<Rightarrow> ((out, Some err), x1)
         | ((out, None), x1) \<Rightarrow> absorb_loop (absorbADR im env d actor verify) (adrFiles im env d) out x1))"

subsection \<open>Rendering\<close>

record renderer =
  rn_Repo :: string
  rn_Root :: string
  rn_Tool :: string
  rn_Version :: string
  rn_Person :: string

definition own_object :: "manifest \<Rightarrow> ID \<Rightarrow> bool" where
  "own_object m i \<longleftrightarrow> map_of (ImportedObjectIDs m) i = Some True"

definition plan_anchor :: "anchor_summary \<Rightarrow> anchor_fact option" where
  "plan_anchor a =
     (if au_State a = AStateStale \<or> au_State a = AStateReview \<or> au_State a = AStateUnrealized
      then Some \<lparr>af_Key = au_Key a, af_State = anchor_state_string (au_State a), af_MovedTo = au_MovedTo a\<rparr> else None)"

definition Plan :: "renderer \<Rightarrow> read_models \<Rightarrow> manifest \<Rightarrow> render_input \<times> file_op list" where
  "Plan r p m =
     (let wide = filter (\<lambda>c. \<not> own_object m (cu_ID c)) (InForce (rm_constraints p) (zero_scope_key\<lparr>sk_Repo := rn_Repo r, sk_Person := rn_Person r\<rparr>));
          narrow = filter (\<lambda>c. \<not> (own_object m (cu_ID c) \<or> sk_Repo (cu_Scope c) \<noteq> rn_Repo r \<or> sk_PathGlob (cu_Scope c) = '''' \<or>
                     (cu_State c \<noteq> CStateVerified \<and> cu_State c \<noteq> CStateReview))) (ConstraintIndex_All (rm_constraints p));
          pathByID = foldl (\<lambda>out i. map_put (im_ObjectID i) (im_Path i) out) [] (mf_Imports m);
          decisions = filter (\<lambda>e. \<not> (du_State e = DecisionStateRetired \<or> (sk_Repo (du_Scope e) \<noteq> '''' \<and> sk_Repo (du_Scope e) \<noteq> rn_Repo r)))
                        (DecisionIndex_All (rm_decisions p));
          inp = \<lparr>ri_Repo = rn_Repo r, ri_Tool = rn_Tool r, ri_Constraints = map constraintFact (wide @ narrow),
                 ri_Decisions = map (\<lambda>e. \<lparr>df_ID = du_ID e, df_Title = du_Title e, df_State = decision_state_string (du_State e),
                   df_Path = map_get '''' pathByID (du_ID e)\<rparr>) decisions,
                 ri_Anchors = List.map_filter plan_anchor (AnchorIndex_All (rm_anchors p))\<rparr> in
      (inp, RenderClaudeCode inp))"

record apply_result =
  ay_Path :: string
  ay_Action :: string

text \<open>One operation of \<^verbatim>\<open>Apply\<close>: the result or the error, the manifest and the disk.\<close>

definition apply_managed :: "(bytes \<Rightarrow> bytes) \<Rightarrow> os_env \<Rightarrow> renderer \<Rightarrow> bool \<Rightarrow> file_op \<Rightarrow> manifest \<times> disk \<Rightarrow> (go_error + apply_result) \<times> (manifest \<times> disk)" where
  "apply_managed H env r force op x =
     (let full = filepath_Join (rn_Root r) (fo_Path op);
          rendered = SetRendered (fst x) \<lparr>rf_Path = fo_Path op, rf_Tool = rn_Tool r, rf_Hash = BlockHash H (fo_Content op), rf_Managed = True, rf_BlockID = fo_BlockID op\<rparr> in
      case os_ReadFile env (snd x) full of
        Inl (StatError e) \<Rightarrow> (Inl e, x)
      | rd \<Rightarrow>
        let cur = (case rd of Inr b \<Rightarrow> b | Inl _ \<Rightarrow> ''''); (h, body, present) = FindBlock cur (fo_BlockID op); (prev, ok) = FindRendered (fst x) (fo_Path op) in
        if ok \<and> present \<and> \<not> force \<and> (h \<noteq> BlockHash H body \<or> rf_Hash prev \<noteq> h)
        then (Inr \<lparr>ay_Path = fo_Path op, ay_Action = ''diverged''\<rparr>, x)
        else if present \<and> body = fo_Content op
        then (Inr \<lparr>ay_Path = fo_Path op, ay_Action = ''unchanged''\<rparr>, (rendered, snd x))
        else (case os_WriteFile env full (UpsertBlock H cur (fo_BlockID op) (fo_Content op)) (snd x) of
                (Some e, d) \<Rightarrow> (Inl e, (fst x, d))
              | (None, d) \<Rightarrow> (Inr \<lparr>ay_Path = fo_Path op, ay_Action = ''written''\<rparr>, (rendered, d))))"

definition apply_plain :: "(bytes \<Rightarrow> bytes) \<Rightarrow> os_env \<Rightarrow> renderer \<Rightarrow> file_op \<Rightarrow> manifest \<times> disk \<Rightarrow> (go_error + apply_result) \<times> (manifest \<times> disk)" where
  "apply_plain H env r op x =
     (let full = filepath_Join (rn_Root r) (fo_Path op);
          rendered = SetRendered (fst x) \<lparr>rf_Path = fo_Path op, rf_Tool = rn_Tool r, rf_Hash = FileHash H (fo_Content op), rf_Managed = False, rf_BlockID = ''''\<rparr> in
      if os_ReadFile env (snd x) full = Inr (fo_Content op)
      then (Inr \<lparr>ay_Path = fo_Path op, ay_Action = ''unchanged''\<rparr>, (rendered, snd x))
      else (case os_MkdirAll env (filepath_Dir full) (snd x) of
              (Some e, d) \<Rightarrow> (Inl e, (fst x, d))
            | (None, d) \<Rightarrow>
              (case os_WriteFile env full (fo_Content op) d of
                 (Some e, d') \<Rightarrow> (Inl e, (fst x, d'))
               | (None, d') \<Rightarrow> (Inr \<lparr>ay_Path = fo_Path op, ay_Action = ''written''\<rparr>, (rendered, d')))))"

fun apply_loop :: "(bytes \<Rightarrow> bytes) \<Rightarrow> os_env \<Rightarrow> renderer \<Rightarrow> bool \<Rightarrow> file_op list \<Rightarrow> apply_result list \<Rightarrow> manifest \<times> disk \<Rightarrow>
    (apply_result list \<times> go_error option) \<times> (manifest \<times> disk)" where
  "apply_loop H env r force [] out x = ((out, None), x)"
| "apply_loop H env r force (op # ops) out x =
     (case (if fo_Managed op then apply_managed H env r force op x else apply_plain H env r op x) of
        (Inl e, x') \<Rightarrow> ((out, Some e), x')
      | (Inr res, x') \<Rightarrow> apply_loop H env r force ops (out @ [res]) x')"

definition Renderer_Apply :: "(bytes \<Rightarrow> bytes) \<Rightarrow> os_env \<Rightarrow> renderer \<Rightarrow> bool \<Rightarrow> file_op list \<Rightarrow> manifest \<times> disk \<Rightarrow>
    (apply_result list \<times> go_error option) \<times> (manifest \<times> disk)" where
  "Renderer_Apply H env r force ops x =
     (case apply_loop H env r force ops [] x of
        ((out, Some e), x') \<Rightarrow> ((out, Some e), x')
      | ((out, None), (m, d)) \<Rightarrow> ((out, None), (m\<lparr>mf_Adapters := map_put (rn_Tool r) (rn_Version r) (mf_Adapters m)\<rparr>, d)))"

subsection \<open>The ignore file, and removal\<close>

definition gitignoreLine :: string where
  "gitignoreLine = ''.keelage/context/''"

definition EnsureGitignore :: "os_env \<Rightarrow> string \<Rightarrow> manifest \<times> disk \<Rightarrow> (bool \<times> go_error option) \<times> (manifest \<times> disk)" where
  "EnsureGitignore env root x =
     (let p = filepath_Join root ''.gitignore'' in
      case os_ReadFile env (snd x) p of
        Inl (StatError e) \<Rightarrow> ((False, Some e), x)
      | rd \<Rightarrow>
        let cur = (case rd of Inr b \<Rightarrow> b | Inl _ \<Rightarrow> '''') in
        if list_ex (\<lambda>l. TrimSpace l = gitignoreLine \<or> TrimSpace l = ''.keelage/'') (Split cur (CHR 0x0A)) then ((False, None), x)
        else
          let next = (if cur \<noteq> '''' \<and> \<not> HasSuffix cur newline then cur @ newline else cur) @ gitignoreLine @ newline in
          (case os_WriteFile env p next (snd x) of
             (Some e, d) \<Rightarrow> ((False, Some e), (fst x, d))
           | (None, d) \<Rightarrow> ((True, None), ((fst x)\<lparr>mf_Gitignore := True\<rparr>, d))))"

text \<open>One rendered file of \<^verbatim>\<open>Uninit\<close>: a result, nothing, or an error.\<close>

definition uninit_file :: "os_env \<Rightarrow> string \<Rightarrow> rendered_file \<Rightarrow> disk \<Rightarrow> (go_error + apply_result option) \<times> disk" where
  "uninit_file env root rf d =
     (let full = filepath_Join root (rf_Path rf) in
      if rf_Managed rf
      then (case os_ReadFile env d full of
              Inl NotExist \<Rightarrow> (Inr None, d)
            | Inl (StatError e) \<Rightarrow> (Inl e, d)
            | Inr cur \<Rightarrow>
              (case RemoveBlock cur (rf_BlockID rf) of
                 (_, False) \<Rightarrow> (Inr None, d)
               | (next, True) \<Rightarrow>
                 (case (if TrimSpace next = '''' then (case os_Remove env full d of (e, d') \<Rightarrow> (map_option (stat_error_string full) e, d'))
                        else os_WriteFile env full next d) of
                    (Some e, d') \<Rightarrow> (Inl e, d')
                  | (None, d') \<Rightarrow> (Inr (Some \<lparr>ay_Path = rf_Path rf, ay_Action = ''restored''\<rparr>), d'))))
      else (case os_Remove env full d of
              (Some (StatError e), d') \<Rightarrow> (Inl e, d')
            | (_, d') \<Rightarrow> (Inr (Some \<lparr>ay_Path = rf_Path rf, ay_Action = ''removed''\<rparr>), d')))"

fun uninit_files :: "os_env \<Rightarrow> string \<Rightarrow> rendered_file list \<Rightarrow> apply_result list \<Rightarrow> disk \<Rightarrow> (apply_result list \<times> go_error option) \<times> disk" where
  "uninit_files env root [] out d = ((out, None), d)"
| "uninit_files env root (rf # rfs) out d =
     (case uninit_file env root rf d of
        (Inl e, d') \<Rightarrow> ((out, Some e), d')
      | (Inr res, d') \<Rightarrow> uninit_files env root rfs (out @ (case res of None \<Rightarrow> [] | Some y \<Rightarrow> [y])) d')"

definition uninit_gitignore :: "os_env \<Rightarrow> string \<Rightarrow> apply_result list \<Rightarrow> disk \<Rightarrow> (apply_result list \<times> go_error option) \<times> disk" where
  "uninit_gitignore env root out d =
     (let p = filepath_Join root ''.gitignore'' in
      case os_ReadFile env d p of
        Inl _ \<Rightarrow> ((out, None), d)
      | Inr cur \<Rightarrow>
        let kept = filter (\<lambda>l. TrimSpace l \<noteq> gitignoreLine) (Split (TrimRight_byte cur (CHR 0x0A)) (CHR 0x0A)) in
        (case (if kept = [] \<or> kept = [''''] then (None, snd (os_Remove env p d)) else os_WriteFile env p (Join kept newline @ newline) d) of
           (Some e, d') \<Rightarrow> ((out, Some e), d')
         | (None, d') \<Rightarrow> ((out @ [\<lparr>ay_Path = ''.gitignore'', ay_Action = ''restored''\<rparr>], None), d')))"

definition Uninit :: "os_env \<Rightarrow> string \<Rightarrow> manifest \<Rightarrow> disk \<Rightarrow> (apply_result list \<times> go_error option) \<times> disk" where
  "Uninit env root m d =
     (case uninit_files env root (mf_Rendered m) [] d of
        ((out, Some e), d1) \<Rightarrow> ((out, Some e), d1)
      | ((out, None), d1) \<Rightarrow>
        (case (if mf_Gitignore m then uninit_gitignore env root out d1 else ((out, None), d1)) of
           ((out1, Some e), d2) \<Rightarrow> ((out1, Some e), d2)
         | ((out1, None), d2) \<Rightarrow>
           (case os_RemoveAll env (filepath_Join root ''.keelage'') d2 of
              (Some e, d3) \<Rightarrow> ((out1, Some e), d3)
            | (None, d3) \<Rightarrow> ((out1 @ [\<lparr>ay_Path = ''.keelage'', ay_Action = ''removed''\<rparr>], None), d3))))"

end
