(* ===== verification/Sidecar_Properties.thy ===== *)
theory Sidecar_Properties
  imports Sidecar Supply_Properties
begin

section \<open>Properties of rendered files\<close>

text \<open>
  What rendering into a repository does to its files, operation by operation: what the user edited is left alone, the rest has the
  content asked for, and doing it again changes nothing.
\<close>

definition op_path :: "renderer \<Rightarrow> file_op \<Rightarrow> string" where
  "op_path r op = filepath_Join (rn_Root r) (fo_Path op)"

definition file_at :: "disk \<Rightarrow> string \<Rightarrow> bytes" where
  "file_at d p = (case map_of (dk_Files d) p of Some b \<Rightarrow> b | None \<Rightarrow> '''')"

definition apply_op :: "(bytes \<Rightarrow> bytes) \<Rightarrow> os_env \<Rightarrow> renderer \<Rightarrow> bool \<Rightarrow> file_op \<Rightarrow> manifest \<times> disk \<Rightarrow> (go_error + apply_result) \<times> (manifest \<times> disk)" where
  "apply_op H env r force op x = (if fo_Managed op then apply_managed H env r force op x else apply_plain H env r op x)"

lemma apply_loop_op:
  "apply_loop H env r force (op # ops) out x =
     (case apply_op H env r force op x of (Inl e, x') \<Rightarrow> ((out, Some e), x') | (Inr res, x') \<Rightarrow> apply_loop H env r force ops (out @ [res]) x')"
  by (simp add: apply_op_def)

subsection \<open>The manifest\<close>

lemma set_by_other: "k \<noteq> key v \<Longrightarrow> List.find (\<lambda>x. key x = k) (set_by key v xs) = List.find (\<lambda>x. key x = k) xs"
  by (induction xs) auto

lemma set_by_found: "List.find (\<lambda>x. key x = key v) (set_by key v xs) = Some v"
  by (induction xs) auto

lemma set_by_same: "List.find (\<lambda>x. key x = key v) xs = Some v \<Longrightarrow> set_by key v xs = xs"
  by (induction xs) (auto split: if_splits)

lemma FindRendered_set:
  "FindRendered (SetRendered m v) (rf_Path v) = (v, True)"
  "q \<noteq> rf_Path v \<Longrightarrow> FindRendered (SetRendered m v) q = FindRendered m q"
  "FindRendered m (rf_Path v) = (v, True) \<Longrightarrow> SetRendered m v = m"
  by (auto simp: FindRendered_def SetRendered_def set_by_found set_by_other set_by_same split: option.splits)

lemma update_again: "map_put k v (map_put k v m) = map_put k v m"
  by (induction m) auto

subsection \<open>One operation\<close>

definition rendered_as :: "(bytes \<Rightarrow> bytes) \<Rightarrow> renderer \<Rightarrow> file_op \<Rightarrow> rendered_file" where
  "rendered_as H r op = \<lparr>rf_Path = fo_Path op, rf_Tool = rn_Tool r,
     rf_Hash = (if fo_Managed op then BlockHash H (fo_Content op) else FileHash H (fo_Content op)), rf_Managed = fo_Managed op,
     rf_BlockID = (if fo_Managed op then fo_BlockID op else '''')\<rparr>"

text \<open>An operation touches its own file and its own record only.\<close>

lemma apply_op_frame:
  assumes "apply_op H env r force op x = (Inr res, x')"
  shows "(\<forall>p. p \<noteq> op_path r op \<longrightarrow> map_of (dk_Files (snd x')) p = map_of (dk_Files (snd x)) p) \<and>
    (\<forall>q. q \<noteq> fo_Path op \<longrightarrow> FindRendered (fst x') q = FindRendered (fst x) q) \<and> ay_Path res = fo_Path op"
  using assms
  by (auto simp: apply_op_def apply_managed_def apply_plain_def op_path_def os_WriteFile_def os_MkdirAll_def FindRendered_set Let_def
      split: if_splits sum.splits stat_error.splits prod.splits option.splits)

text \<open>A block that the user edited: the manifest has the file, and header and text of the block do not agree with each other and the record.\<close>

definition edited :: "(bytes \<Rightarrow> bytes) \<Rightarrow> renderer \<Rightarrow> manifest \<times> disk \<Rightarrow> file_op \<Rightarrow> bool" where
  "edited H r x op \<longleftrightarrow> fo_Managed op \<and>
     (case FindBlock (file_at (snd x) (op_path r op)) (fo_BlockID op) of (h, body, present) \<Rightarrow>
        present \<and> snd (FindRendered (fst x) (fo_Path op)) \<and> (h \<noteq> BlockHash H body \<or> rf_Hash (fst (FindRendered (fst x) (fo_Path op))) \<noteq> h))"

text \<open>The file that an operation asks for: its content, or the present file with its block.\<close>

definition file_after :: "(bytes \<Rightarrow> bytes) \<Rightarrow> renderer \<Rightarrow> disk \<Rightarrow> file_op \<Rightarrow> bytes" where
  "file_after H r d op =
     (let cur = file_at d (op_path r op) in
      if \<not> fo_Managed op then fo_Content op
      else if snd (FindBlock cur (fo_BlockID op)) = (fo_Content op, True) then cur
      else UpsertBlock H cur (fo_BlockID op) (fo_Content op))"

lemma FindBlock_empty: "FindBlock '''' i = ('''', '''', False)"
  by (simp add: FindBlock_def block_matches.simps)

lemma apply_managed_outcome:
  assumes "apply_managed H env r force op x = (Inr res, x')" "fo_Managed op"
  shows "if \<not> force \<and> edited H r x op then ay_Action res = ''diverged'' \<and> x' = x
    else ay_Action res \<noteq> ''diverged'' \<and> map_of (dk_Files (snd x')) (op_path r op) = Some (file_after H r (snd x) op) \<and>
      FindRendered (fst x') (fo_Path op) = (rendered_as H r op, True)"
proof -
  let ?cur = "file_at (snd x) (op_path r op)"
  have rec: "rendered_as H r op = \<lparr>rf_Path = fo_Path op, rf_Tool = rn_Tool r, rf_Hash = BlockHash H (fo_Content op), rf_Managed = True, rf_BlockID = fo_BlockID op\<rparr>"
    using assms(2) by (simp add: rendered_as_def)
  obtain h body present prev ok where f: "FindBlock ?cur (fo_BlockID op) = (h, body, present)" "FindRendered (fst x) (fo_Path op) = (prev, ok)"
    by (metis prod_cases3 surj_pair)
  have rd: "os_ReadFile env (snd x) (op_path r op) = Inr ?cur \<and> map_of (dk_Files (snd x)) (op_path r op) = Some ?cur \<or>
      os_ReadFile env (snd x) (op_path r op) = Inl NotExist \<and> ?cur = '''' \<and> \<not> present"
    using assms f(1) FindBlock_empty by (auto simp: apply_managed_def Let_def op_path_def os_ReadFile_def file_at_def split: option.splits)
  have put: "FindRendered (SetRendered (fst x) (rendered_as H r op)) (fo_Path op) = (rendered_as H r op, True)"
    using FindRendered_set(1) [of "fst x" "rendered_as H r op"] by (simp add: rec)
  from rd have "(if ok \<and> present \<and> \<not> force \<and> (h \<noteq> BlockHash H body \<or> rf_Hash prev \<noteq> h) then (Inr \<lparr>ay_Path = fo_Path op, ay_Action = ''diverged''\<rparr>, x)
      else if present \<and> body = fo_Content op
      then (Inr \<lparr>ay_Path = fo_Path op, ay_Action = ''unchanged''\<rparr>, (SetRendered (fst x) (rendered_as H r op), snd x))
      else (case os_WriteFile env (op_path r op) (UpsertBlock H ?cur (fo_BlockID op) (fo_Content op)) (snd x) of
              (Some e, d) \<Rightarrow> (Inl e, (fst x, d))
            | (None, d) \<Rightarrow> (Inr \<lparr>ay_Path = fo_Path op, ay_Action = ''written''\<rparr>, (SetRendered (fst x) (rendered_as H r op), d)))) = (Inr res, x')"
    using assms(1) f unfolding rec by (elim disjE) (auto simp: apply_managed_def Let_def op_path_def split: if_splits)
  then show ?thesis
    using f rd put assms(2) by (auto simp: edited_def file_after_def Let_def os_WriteFile_def split: if_splits option.splits)
qed

text \<open>The outcome of one operation that returns without an error.\<close>

lemma apply_op_outcome:
  assumes "apply_op H env r force op x = (Inr res, x')"
  shows "if \<not> force \<and> edited H r x op then ay_Action res = ''diverged'' \<and> x' = x
    else ay_Action res \<noteq> ''diverged'' \<and> map_of (dk_Files (snd x')) (op_path r op) = Some (file_after H r (snd x) op) \<and>
      FindRendered (fst x') (fo_Path op) = (rendered_as H r op, True)"
proof (cases "fo_Managed op")
  case True
  then show ?thesis
    using apply_managed_outcome assms by (simp add: apply_op_def)
next
  case False
  then show ?thesis
    using assms FindRendered_set(1) [of "fst x" "rendered_as H r op"]
    by (auto simp: apply_op_def apply_plain_def op_path_def rendered_as_def edited_def file_after_def Let_def os_ReadFile_def os_WriteFile_def os_MkdirAll_def
        split: if_splits prod.splits option.splits)
qed

subsection \<open>A list of operations\<close>

text \<open>What the list leaves of one operation, in terms of the state before it.\<close>

definition applied :: "(bytes \<Rightarrow> bytes) \<Rightarrow> renderer \<Rightarrow> bool \<Rightarrow> manifest \<times> disk \<Rightarrow> manifest \<times> disk \<Rightarrow> file_op \<Rightarrow> apply_result \<Rightarrow> bool" where
  "applied H r force x y op z \<longleftrightarrow> ay_Path z = fo_Path op \<and>
     (if \<not> force \<and> edited H r x op
      then ay_Action z = ''diverged'' \<and> map_of (dk_Files (snd y)) (op_path r op) = map_of (dk_Files (snd x)) (op_path r op) \<and>
        FindRendered (fst y) (fo_Path op) = FindRendered (fst x) (fo_Path op)
      else ay_Action z \<noteq> ''diverged'' \<and> map_of (dk_Files (snd y)) (op_path r op) = Some (file_after H r (snd x) op) \<and>
        FindRendered (fst y) (fo_Path op) = (rendered_as H r op, True))"


lemma apply_op_applied: "apply_op H env r force op x = (Inr res, x') \<Longrightarrow> applied H r force x x' op res"
  using apply_op_outcome apply_op_frame by (simp add: applied_def) metis

text \<open>An operation on another file is not seen.\<close>

lemma op_unseen:
  assumes "map_of (dk_Files (snd x')) (op_path r op) = map_of (dk_Files (snd x)) (op_path r op)" "FindRendered (fst x') (fo_Path op) = FindRendered (fst x) (fo_Path op)"
  shows "edited H r x' op = edited H r x op" "file_after H r (snd x') op = file_after H r (snd x) op"
    "applied H r force x y op z \<longleftrightarrow> applied H r force x' y op z" "applied H r force y x op z \<longleftrightarrow> applied H r force y x' op z"
proof -
  have at: "file_at (snd x') (op_path r op) = file_at (snd x) (op_path r op)"
    using assms(1) by (simp add: file_at_def)
  show e: "edited H r x' op = edited H r x op"
    unfolding edited_def at assms(2) ..
  show f: "file_after H r (snd x') op = file_after H r (snd x) op"
    unfolding file_after_def at ..
  show "applied H r force x y op z \<longleftrightarrow> applied H r force x' y op z" "applied H r force y x op z \<longleftrightarrow> applied H r force y x' op z"
    unfolding applied_def e f assms by simp_all
qed

lemma apply_op_other:
  assumes "apply_op H env r force op' x = (Inr res, x')" "op_path r op \<noteq> op_path r op'"
  shows "map_of (dk_Files (snd x')) (op_path r op) = map_of (dk_Files (snd x)) (op_path r op)" "FindRendered (fst x') (fo_Path op) = FindRendered (fst x) (fo_Path op)"
proof -
  have "fo_Path op \<noteq> fo_Path op'"
    using assms(2) by (auto simp: op_path_def)
  then show "map_of (dk_Files (snd x')) (op_path r op) = map_of (dk_Files (snd x)) (op_path r op)" "FindRendered (fst x') (fo_Path op) = FindRendered (fst x) (fo_Path op)"
    using apply_op_frame [OF assms(1)] assms(2) by simp_all
qed

lemma apply_loop_Cons:
  assumes "apply_loop H env r force (op # ops) out x = ((all, None), y)"
  obtains z x' where "apply_op H env r force op x = (Inr z, x')" "apply_loop H env r force ops (out @ [z]) x' = ((all, None), y)"
  using assms unfolding apply_loop_op by (auto split: prod.splits sum.splits)

lemma apply_loop_frame:
  assumes "apply_loop H env r force ops out x = ((all, None), y)"
  shows "(p \<notin> op_path r ` set ops \<longrightarrow> map_of (dk_Files (snd y)) p = map_of (dk_Files (snd x)) p) \<and>
    (q \<notin> fo_Path ` set ops \<longrightarrow> FindRendered (fst y) q = FindRendered (fst x) q)"
  using assms
proof (induction ops arbitrary: out x)
  case (Cons op ops)
  obtain z x' where step: "apply_op H env r force op x = (Inr z, x')" "apply_loop H env r force ops (out @ [z]) x' = ((all, None), y)"
    using apply_loop_Cons [OF Cons.prems] .
  show ?case
    using Cons.IH [OF step(2)] apply_op_frame [OF step(1)] by simp
qed simp

lemma apply_loop_applied:
  assumes "apply_loop H env r force ops out x = ((all, None), y)" "distinct (map (op_path r) ops)"
  shows "\<exists>res. all = out @ res \<and> list_all2 (applied H r force x y) ops res"
  using assms
proof (induction ops arbitrary: out x)
  case (Cons op ops)
  obtain z x' where step: "apply_op H env r force op x = (Inr z, x')" "apply_loop H env r force ops (out @ [z]) x' = ((all, None), y)"
    using apply_loop_Cons [OF Cons.prems(1)] .
  obtain res where res: "all = (out @ [z]) @ res" "list_all2 (applied H r force x' y) ops res"
    using Cons.IH [OF step(2)] Cons.prems(2) by auto
  have "op_path r op \<notin> op_path r ` set ops" "fo_Path op \<notin> fo_Path ` set ops"
    using Cons.prems(2) by (auto simp: op_path_def)
  then have "applied H r force x y op z"
    using apply_op_applied [OF step(1)] apply_loop_frame [OF step(2)] op_unseen(4) by metis
  moreover have "applied H r force x y op' z'" if "op' \<in> set ops" "applied H r force x' y op' z'" for op' z'
  proof -
    have "op_path r op' \<noteq> op_path r op"
      using that(1) Cons.prems(2) by (metis distinct.simps(2) image_eqI list.set_map list.simps(9))
    then show ?thesis
      using op_unseen(3) apply_op_other [OF step(1)] that(2) by metis
  qed
  then have "list_all2 (applied H r force x y) ops res"
    using res(2) by (auto simp: list_all2_conv_all_nth)
  ultimately show ?case
    using res(1) by simp
qed simp

text \<open>A file that a block can be kept in: it is tidy, and a block with the text to write has the hash of that text.\<close>

definition op_ok :: "(bytes \<Rightarrow> bytes) \<Rightarrow> renderer \<Rightarrow> disk \<Rightarrow> file_op \<Rightarrow> bool" where
  "op_ok H r d op \<longleftrightarrow> (fo_Managed op \<longrightarrow> group_ok (fo_BlockID op) \<and> H (fo_Content op) \<noteq> [] \<and> \<not> Contains_str (fo_Content op) endTag \<and>
     tidy (file_at d (op_path r op)) \<and>
     (case FindBlock (file_at d (op_path r op)) (fo_BlockID op) of (h, body, present) \<Rightarrow>
        present \<and> body = fo_Content op \<longrightarrow> h = BlockHash H (fo_Content op)))"

lemma upsert_found:
  assumes "tidy content" "group_ok i" "H body \<noteq> []" "\<not> Contains_str body endTag"
  shows "FindBlock (UpsertBlock H content i body) i = (BlockHash H body, body, True)"
proof -
  obtain e where e: "doc_ok e" "content = render e"
    using assms(1) by (auto simp: tidy_def)
  show ?thesis
    using upsert_find [OF e(1), of H i body i] new_block_ok [of i H body] assms(2-4) e(2) by simp
qed

lemma file_after_block:
  assumes "op_ok H r d op" "fo_Managed op"
  shows "FindBlock (file_after H r d op) (fo_BlockID op) = (BlockHash H (fo_Content op), fo_Content op, True)"
  using assms upsert_found [of "file_at d (op_path r op)" "fo_BlockID op" H "fo_Content op"]
  by (cases "FindBlock (file_at d (op_path r op)) (fo_BlockID op)") (auto simp: op_ok_def file_after_def Let_def)

text \<open>An operation that was applied changes nothing the next time.\<close>

definition again :: "apply_result \<Rightarrow> apply_result" where
  "again z = (if ay_Action z = ''diverged'' then z else z\<lparr>ay_Action := ''unchanged''\<rparr>)"

lemma applied_again:
  assumes "applied H r force x y op z" "op_ok H r (snd x) op" "oe_Read env (snd y) (op_path r op) = None"
  shows "apply_op H env r False op y = (Inr (again z), y)"
proof (cases "\<not> force \<and> edited H r x op")
  case True
  then have keep: "map_of (dk_Files (snd y)) (op_path r op) = map_of (dk_Files (snd x)) (op_path r op)" "FindRendered (fst y) (fo_Path op) = FindRendered (fst x) (fo_Path op)"
      and z: "z = \<lparr>ay_Path = fo_Path op, ay_Action = ''diverged''\<rparr>"
    using assms(1) by (auto simp: applied_def)
  have e: "edited H r y op"
    using op_unseen(1) [OF keep] True by simp
  then have "map_of (dk_Files (snd y)) (op_path r op) \<noteq> None"
    using FindBlock_empty by (auto simp: edited_def file_at_def split: option.splits)
  then have "os_ReadFile env (snd y) (filepath_Join (rn_Root r) (fo_Path op)) = Inr (file_at (snd y) (filepath_Join (rn_Root r) (fo_Path op)))"
    using assms(3) by (auto simp: os_ReadFile_def op_path_def file_at_def)
  then show ?thesis
    using e by (auto simp: z again_def edited_def apply_op_def apply_managed_def Let_def op_path_def split: prod.splits)
next
  case False
  then have b: "map_of (dk_Files (snd y)) (op_path r op) = Some (file_after H r (snd x) op)" and rec: "FindRendered (fst y) (fo_Path op) = (rendered_as H r op, True)"
      and z: "again z = \<lparr>ay_Path = fo_Path op, ay_Action = ''unchanged''\<rparr>"
    using assms(1) unfolding applied_def again_def by auto
  have read: "os_ReadFile env (snd y) (filepath_Join (rn_Root r) (fo_Path op)) = Inr (file_after H r (snd x) op)"
    using b(1) assms(3) by (simp add: os_ReadFile_def op_path_def)
  have "SetRendered (fst y) (rendered_as H r op) = fst y"
    using rec by (intro FindRendered_set(3)) (simp add: rendered_as_def)
  then show ?thesis
    using rec read z file_after_block [OF assms(2)]
    by (cases "fo_Managed op") (simp_all add: apply_op_def apply_managed_def apply_plain_def rendered_as_def file_after_def Let_def)
qed

lemma apply_loop_again:
  assumes "list_all2 (applied H r force x y) ops res" "\<forall>op \<in> set ops. op_ok H r (snd x) op \<and> oe_Read env (snd y) (op_path r op) = None"
  shows "apply_loop H env r False ops out y = ((out @ map again res, None), y)"
  using assms
proof (induction ops res arbitrary: out rule: list_all2_induct)
  case (Cons op ops z res)
  then show ?case
    using applied_again [OF Cons(1)] by (simp add: apply_loop_op del: apply_loop.simps(2))
qed simp

subsection \<open>Properties\<close>

lemma Renderer_Apply_loop:
  assumes "Renderer_Apply H env r force ops x = ((res, None), y)"
  obtains m where "apply_loop H env r force ops [] x = ((res, None), (m, snd y))" "fst y = m\<lparr>mf_Adapters := map_put (rn_Tool r) (rn_Version r) (mf_Adapters m)\<rparr>"
  using assms by (auto simp: Renderer_Apply_def split: prod.splits option.splits)

lemma FindRendered_adapters: "FindRendered (m\<lparr>mf_Adapters := a\<rparr>) q = FindRendered m q"
  by (simp add: FindRendered_def)

lemma Renderer_Apply_applied:
  assumes "Renderer_Apply H env r force ops x = ((res, None), y)" "distinct (map (op_path r) ops)"
  shows "list_all2 (applied H r force x y) ops res"
proof -
  obtain m where m: "apply_loop H env r force ops [] x = ((res, None), (m, snd y))" "fst y = m\<lparr>mf_Adapters := map_put (rn_Tool r) (rn_Version r) (mf_Adapters m)\<rparr>"
    using Renderer_Apply_loop [OF assms(1)] .
  then have "FindRendered (fst y) q = FindRendered m q" for q
    by (simp add: FindRendered_adapters)
  then show ?thesis
    using apply_loop_applied [OF m(1) assms(2)] by (auto simp: applied_def elim!: list_all2_mono)
qed


text \<open>
  C17. Rendering is stable. When \<^verbatim>\<open>Apply\<close> returned without an error, the files of its blocks were tidy and can be read, and a
  block that had the text to write had the hash of that text in its header, then rendering the same again writes nothing and leaves the manifest
  as it is: what was diverged is reported as diverged again, and all else as unchanged.
\<close>

theorem render_again:
  assumes "Renderer_Apply H env r force ops x = ((res, None), y)" and "distinct (map (op_path r) ops)"
    and "\<forall>op \<in> set ops. op_ok H r (snd x) op" and "\<forall>op \<in> set ops. oe_Read env (snd y) (op_path r op) = None"
  shows "Renderer_Apply H env r False ops y = ((map again res, None), y)"
proof -
  obtain m where m: "fst y = m\<lparr>mf_Adapters := map_put (rn_Tool r) (rn_Version r) (mf_Adapters m)\<rparr>"
    using Renderer_Apply_loop [OF assms(1)] .
  then have "(fst y)\<lparr>mf_Adapters := map_put (rn_Tool r) (rn_Version r) (mf_Adapters (fst y))\<rparr> = fst y"
    by (simp add: update_again)
  then show ?thesis
    using apply_loop_again [OF Renderer_Apply_applied [OF assms(1,2)], of env "[]"] assms(3,4)
    by (cases y) (simp add: Renderer_Apply_def)
qed

subsection \<open>A rendered file\<close>

text \<open>A disk on which nothing fails, a file of the user, and a block and a file to render.\<close>

definition calm :: os_env where
  "calm = \<lparr>oe_Stat = (\<lambda>_ _. None), oe_Read = (\<lambda>_ _. None), oe_Write = (\<lambda>_ _ _. None), oe_Mkdir = (\<lambda>_ _. None), oe_Remove = (\<lambda>_ _. None),
     oe_RemoveAll = (\<lambda>_ _. None), oe_Tree = (\<lambda>_ _. [FileEntry ''CLAUDE.md'']), oe_ReadDir = (\<lambda>_ _. Inl ''no such directory'')\<rparr>"

definition sample_renderer :: renderer where
  "sample_renderer = \<lparr>rn_Repo = ''keelage'', rn_Root = ''/r'', rn_Tool = ''claude-code'', rn_Version = ''1'', rn_Person = ''ada''\<rparr>"

definition sample_ops :: "file_op list" where
  "sample_ops = [\<lparr>fo_Path = ''CLAUDE.md'', fo_Content = ''imported'', fo_Delete = False, fo_Managed = True, fo_BlockID = ''context''\<rparr>,
     \<lparr>fo_Path = ''rules.md'', fo_Content = ''rules'', fo_Delete = False, fo_Managed = False, fo_BlockID = ''''\<rparr>]"

definition sample_manifest :: manifest where
  "sample_manifest = \<lparr>mf_Version = 1, mf_Repo = ''keelage'', mf_Adapters = [], mf_Imports = [], mf_Rendered = [], mf_Gitignore = False, mf_UpdatedAt = 0\<rparr>"

definition sample_disk :: disk where
  "sample_disk = \<lparr>dk_Files = [(''/r/CLAUDE.md'', render sample_doc)], dk_Dirs = [''/r'']\<rparr>"

lemma sample_paths: "filepath_Join ''/r'' ''CLAUDE.md'' = ''/r/CLAUDE.md''" "filepath_Join ''/r'' ''rules.md'' = ''/r/rules.md''" "filepath_Dir ''/r/rules.md'' = ''/r''"
  by code_simp+

lemma sample_find: "FindBlock (render sample_doc) ''context'' = ('''', '''', False)"
  using FindBlock_render [OF sample_doc_ok, of "''context''"] by (simp add: sample_doc_def sample_block_def)

lemma sample_rendered:
  "\<exists>y. Renderer_Apply (\<lambda>_. ''digest'') calm sample_renderer False sample_ops (sample_manifest, sample_disk) =
    (([\<lparr>ay_Path = ''CLAUDE.md'', ay_Action = ''written''\<rparr>, \<lparr>ay_Path = ''rules.md'', ay_Action = ''written''\<rparr>], None), y)"
  by (simp add: Renderer_Apply_def sample_ops_def sample_renderer_def apply_managed_def apply_plain_def os_ReadFile_def os_WriteFile_def os_MkdirAll_def calm_def
      sample_disk_def sample_manifest_def sample_paths sample_find FindRendered_def Let_def)

lemma sample_distinct: "distinct (map (op_path sample_renderer) sample_ops)"
  by (simp add: sample_ops_def op_path_def sample_renderer_def sample_paths)

lemma sample_op_ok: "\<forall>op \<in> set sample_ops. op_ok (\<lambda>_. ''digest'') sample_renderer sample_disk op"
  using sample_tidy sample_group sample_body sample_find
  by (simp add: sample_ops_def op_ok_def op_path_def sample_renderer_def sample_paths file_at_def sample_disk_def)


theorem render_again_witness:
  "\<exists>res y. Renderer_Apply (\<lambda>_. ''digest'') calm sample_renderer False sample_ops (sample_manifest, sample_disk) = ((res, None), y) \<and>
    Renderer_Apply (\<lambda>_. ''digest'') calm sample_renderer False sample_ops y =
      (([\<lparr>ay_Path = ''CLAUDE.md'', ay_Action = ''unchanged''\<rparr>, \<lparr>ay_Path = ''rules.md'', ay_Action = ''unchanged''\<rparr>], None), y)"
proof -
  obtain y where h: "Renderer_Apply (\<lambda>_. ''digest'') calm sample_renderer False sample_ops (sample_manifest, sample_disk) =
      (([\<lparr>ay_Path = ''CLAUDE.md'', ay_Action = ''written''\<rparr>, \<lparr>ay_Path = ''rules.md'', ay_Action = ''written''\<rparr>], None), y)"
    using sample_rendered by blast
  have "\<forall>op \<in> set sample_ops. oe_Read calm (snd y) (op_path sample_renderer op) = None"
    by (simp add: calm_def)
  then have "Renderer_Apply (\<lambda>_. ''digest'') calm sample_renderer False sample_ops y =
      ((map again [\<lparr>ay_Path = ''CLAUDE.md'', ay_Action = ''written''\<rparr>, \<lparr>ay_Path = ''rules.md'', ay_Action = ''written''\<rparr>], None), y)"
    using render_again [OF h sample_distinct] sample_op_ok by simp
  then show ?thesis
    using h by (simp add: again_def)
qed

end
