(* ===== verification/Import_Properties.thy ===== *)
theory Import_Properties
  imports Sidecar_Properties Runtime_Facts
begin

section \<open>Properties of the import\<close>

text \<open>
  The contract of a step of the import, kept by the steps for rule files and for decision records, and what follows for the whole import.
\<close>

lemma FindImport_set:
  "FindImport (SetImport m v) (im_Path v) = (v, True)"
  "q \<noteq> im_Path v \<Longrightarrow> FindImport (SetImport m v) q = FindImport m q"
  by (auto simp: FindImport_def SetImport_def set_by_found set_by_other split: option.splits)

lemma import_handle_manifest: "import_handle im actor cmd x = (err, x') \<Longrightarrow> is_Manifest x' = is_Manifest x"
  by (auto simp: import_handle_def split: prod.splits)

lemma rule_commands_manifest:
  "rule_verify im actor verify i x = (err, x') \<Longrightarrow> is_Manifest x' = is_Manifest x"
  "rule_supersede im actor prev i x = (err, x') \<Longrightarrow> is_Manifest x' = is_Manifest x"
  "adr_verify im actor verify i x = (err, x') \<Longrightarrow> is_Manifest x' = is_Manifest x"
  by (auto simp: rule_verify_def rule_supersede_def adr_verify_def dest: import_handle_manifest split: if_splits prod.splits option.splits)

text \<open>The result of importing a file once more.\<close>

definition same_again :: "absorb_result \<Rightarrow> absorb_result" where
  "same_again z = (if ab_Action z = ''skipped'' then z else z\<lparr>ab_Action := ''unchanged''\<rparr>)"

text \<open>
  The contract of a step of the import: the record of another path is kept, and where the record of its own path is kept the step does
  nothing the next time.
\<close>

locale absorber =
  fixes f :: "string \<Rightarrow> 'l import_state \<Rightarrow> (absorb_result \<times> service_error option) \<times> 'l import_state"
  assumes others: "f rel x = ((z, None), x') \<Longrightarrow> q \<noteq> rel \<Longrightarrow> FindImport (is_Manifest x') q = FindImport (is_Manifest x) q"
    and repeats: "f rel x = ((z, None), x') \<Longrightarrow> FindImport (is_Manifest y) rel = FindImport (is_Manifest x') rel \<Longrightarrow> f rel y = ((same_again z, None), y)"
begin

lemma loop_others:
  assumes "absorb_loop f rels out x = ((all, None), x')" "q \<notin> set rels"
  shows "FindImport (is_Manifest x') q = FindImport (is_Manifest x) q"
  using assms
proof (induction rels arbitrary: out x)
  case (Cons rel rels)
  then obtain z x1 where "f rel x = ((z, None), x1)" "absorb_loop f rels (out @ [z]) x1 = ((all, None), x')"
    by (auto split: prod.splits option.splits)
  then show ?case
    using Cons.IH others [of rel x z x1 q] Cons.prems(2) by auto
qed simp

lemma loop_repeats:
  assumes "absorb_loop f rels out x = ((all, None), x')" "distinct rels" "\<forall>q \<in> set rels. FindImport (is_Manifest y) q = FindImport (is_Manifest x') q"
  shows "\<exists>res. all = out @ res \<and> (\<forall>out'. absorb_loop f rels out' y = ((out' @ map same_again res, None), y))"
  using assms
proof (induction rels arbitrary: out x)
  case (Cons rel rels)
  then obtain z x1 where step: "f rel x = ((z, None), x1)" "absorb_loop f rels (out @ [z]) x1 = ((all, None), x')"
    by (auto split: prod.splits option.splits)
  obtain res where res: "all = (out @ [z]) @ res" "\<forall>out'. absorb_loop f rels out' y = ((out' @ map same_again res, None), y)"
    using Cons.IH [OF step(2)] Cons.prems(2,3) by auto
  have "FindImport (is_Manifest y) rel = FindImport (is_Manifest x1) rel"
    using loop_others [OF step(2)] Cons.prems(2,3) by simp
  then have "f rel y = ((same_again z, None), y)"
    using repeats [OF step(1)] by blast
  then show ?case
    using res by (intro exI [of _ "z # res"]) simp
qed simp

end

text \<open>What a new or changed file leaves: its record, with the object that the result names.\<close>

lemma rule_changed_recorded:
  assumes "rule_changed im actor verify rel content h scope res p x = ((z, None), x')" "ab_Action res \<noteq> ''skipped''"
  shows "is_Manifest x' = SetImport (is_Manifest x) \<lparr>im_Path = rel, im_Kind = ''rule'', im_ObjectID = ab_ObjectID z, im_Hash = h, im_Scope = ScopeKey_String scope\<rparr> \<and>
    same_again z = res\<lparr>ab_ObjectID := ab_ObjectID z, ab_Action := ''unchanged''\<rparr>"
  using assms
  by (auto simp: rule_changed_def Let_def same_again_def dest!: import_handle_manifest rule_commands_manifest split: prod.splits option.splits if_splits)

lemma adr_changed_recorded:
  assumes "adr_changed im actor verify rel title body h scope res p x = ((z, None), x')"
  shows "is_Manifest x' = SetImport (is_Manifest x) \<lparr>im_Path = rel, im_Kind = ''adr'', im_ObjectID = ab_ObjectID z, im_Hash = h, im_Scope = ab_Scope res\<rparr> \<and>
    same_again z = res\<lparr>ab_ObjectID := ab_ObjectID z, ab_Action := ''unchanged''\<rparr>"
  using assms
  by (auto simp: adr_changed_def Let_def same_again_def dest!: import_handle_manifest rule_commands_manifest split: prod.splits option.splits if_splits)

text \<open>The common shape of the two steps, once the file has been read.\<close>

definition absorb_step :: "bool \<Rightarrow> string \<Rightarrow> string \<Rightarrow> absorb_result \<Rightarrow> absorb_result \<Rightarrow>
    (import_record \<times> bool \<Rightarrow> 'l import_state \<Rightarrow> (absorb_result \<times> service_error option) \<times> 'l import_state) \<Rightarrow>
    'l import_state \<Rightarrow> (absorb_result \<times> service_error option) \<times> 'l import_state" where
  "absorb_step none rel h skipped res change x =
     (if none then ((skipped\<lparr>ab_Action := ''skipped''\<rparr>, None), x)
      else case FindImport (is_Manifest x) rel of (prev, had) \<Rightarrow>
        if had \<and> im_Hash prev = h then ((res\<lparr>ab_ObjectID := im_ObjectID prev, ab_Action := ''unchanged''\<rparr>, None), x)
        else change (prev, had) x)"

lemma absorb_step_outcome:
  assumes "absorb_step none rel h skipped res change x = ((z, None), x')"
    and "\<And>p z x x'. change p x = ((z, None), x') \<Longrightarrow> \<exists>v. is_Manifest x' = SetImport (is_Manifest x) v \<and> im_Path v = rel \<and> im_Hash v = h \<and>
      im_ObjectID v = ab_ObjectID z \<and> same_again z = res\<lparr>ab_ObjectID := ab_ObjectID z, ab_Action := ''unchanged''\<rparr>"
  shows "q \<noteq> rel \<Longrightarrow> FindImport (is_Manifest x') q = FindImport (is_Manifest x) q"
    and "FindImport (is_Manifest y) rel = FindImport (is_Manifest x') rel \<Longrightarrow> absorb_step none rel h skipped res change y = ((same_again z, None), y)"
proof -
  obtain prev had where fi: "FindImport (is_Manifest x) rel = (prev, had)"
    by fastforce
  consider "none" "z = skipped\<lparr>ab_Action := ''skipped''\<rparr>" "x' = x"
    | "\<not> none" "had \<and> im_Hash prev = h" "z = res\<lparr>ab_ObjectID := im_ObjectID prev, ab_Action := ''unchanged''\<rparr>" "x' = x"
    | "\<not> none" "change (prev, had) x = ((z, None), x')"
    using assms(1) unfolding absorb_step_def fi by (cases "none"; cases "had \<and> im_Hash prev = h") simp_all
  note outcome = this
  show "q \<noteq> rel \<Longrightarrow> FindImport (is_Manifest x') q = FindImport (is_Manifest x) q"
  proof (rule outcome, goal_cases)
    case 3
    then show ?case
      using assms(2) [of "(prev, had)" x z x'] FindImport_set(2) by metis
  qed simp_all
  show "FindImport (is_Manifest y) rel = FindImport (is_Manifest x') rel \<Longrightarrow> absorb_step none rel h skipped res change y = ((same_again z, None), y)"
  proof (rule outcome, goal_cases)
    case 3
    then obtain v where "is_Manifest x' = SetImport (is_Manifest x) v" "im_Path v = rel" "im_Hash v = h" "im_ObjectID v = ab_ObjectID z"
        "same_again z = res\<lparr>ab_ObjectID := ab_ObjectID z, ab_Action := ''unchanged''\<rparr>"
      using assms(2) by blast
    then show ?case
      using 3(1,2) FindImport_set(1) [of "is_Manifest x" v] by (simp add: absorb_step_def)
  qed (use fi in \<open>simp_all add: absorb_step_def same_again_def\<close>)
qed

abbreviation rule_result :: "string \<Rightarrow> string \<Rightarrow> absorb_result" where
  "rule_result rel scope \<equiv> \<lparr>ab_Path = rel, ab_Kind = ''rule'', ab_ObjectID = '''', ab_Action = '''', ab_Scope = scope\<rparr>"

abbreviation adr_result :: "string \<Rightarrow> string \<Rightarrow> absorb_result" where
  "adr_result rel scope \<equiv> \<lparr>ab_Path = rel, ab_Kind = ''adr'', ab_ObjectID = '''', ab_Action = '''', ab_Scope = scope\<rparr>"

lemma absorbRule_as_step:
  assumes "os_ReadFile env d (filepath_Join (ip_Root im) rel) = Inr raw"
  obtains content h where "absorbRule im env d actor verify rel =
      absorb_step (content = '''') rel h (rule_result rel '''') (rule_result rel (ScopeKey_String (ruleScope im rel)))
        (rule_changed im actor verify rel content h (ruleScope im rel) (rule_result rel (ScopeKey_String (ruleScope im rel))))"
proof -
  obtain stripped ok where rb: "RemoveBlock raw PointerBlockID = (stripped, ok)"
    by fastforce
  define content where "content = TrimSpace (if ok then stripped else raw)"
  have "absorbRule im env d actor verify rel x =
      absorb_step (content = '''') rel (FileHash (ip_H im) content) (rule_result rel '''') (rule_result rel (ScopeKey_String (ruleScope im rel)))
        (rule_changed im actor verify rel content (FileHash (ip_H im) content) (ruleScope im rel) (rule_result rel (ScopeKey_String (ruleScope im rel)))) x" for x
    by (cases "FindImport (is_Manifest x) rel") (simp add: absorbRule_def absorb_step_def assms rb Let_def flip: content_def)
  then show ?thesis
    using that by blast
qed

lemma absorbADR_as_step:
  assumes "os_ReadFile env d (filepath_Join (ip_Root im) rel) = Inr raw"
  obtains title body h scope where "absorbADR im env d actor verify rel =
      absorb_step (body = '''') rel h (adr_result rel (ScopeKey_String scope)) (adr_result rel (ScopeKey_String scope))
        (adr_changed im actor verify rel title body h scope (adr_result rel (ScopeKey_String scope)))"
proof -
  define title where "title = (case adr_title True (TrimSpace raw) of Some t \<Rightarrow> t | None \<Rightarrow> TrimSuffix (filepath_Base rel) ''.md'')"
  define scope where "scope = zero_scope_key\<lparr>sk_Repo := ip_Repo im\<rparr>"
  have "absorbADR im env d actor verify rel x =
      absorb_step (TrimSpace raw = '''') rel (FileHash (ip_H im) (TrimSpace raw)) (adr_result rel (ScopeKey_String scope)) (adr_result rel (ScopeKey_String scope))
        (adr_changed im actor verify rel title (TrimSpace raw) (FileHash (ip_H im) (TrimSpace raw)) scope (adr_result rel (ScopeKey_String scope))) x" for x
    by (cases "FindImport (is_Manifest x) rel") (simp add: absorbADR_def absorb_step_def assms Let_def flip: title_def scope_def)
  then show ?thesis
    using that by blast
qed

lemma absorbRule_outcome:
  assumes "absorbRule im env d actor verify rel x = ((z, None), x')"
  shows "q \<noteq> rel \<Longrightarrow> FindImport (is_Manifest x') q = FindImport (is_Manifest x) q"
    "FindImport (is_Manifest y) rel = FindImport (is_Manifest x') rel \<Longrightarrow> absorbRule im env d actor verify rel y = ((same_again z, None), y)"
proof -
  obtain raw where "os_ReadFile env d (filepath_Join (ip_Root im) rel) = Inr raw"
    using assms by (cases "os_ReadFile env d (filepath_Join (ip_Root im) rel)") (auto simp: absorbRule_def Let_def)
  then obtain content h where st: "absorbRule im env d actor verify rel =
      absorb_step (content = '''') rel h (rule_result rel '''') (rule_result rel (ScopeKey_String (ruleScope im rel)))
        (rule_changed im actor verify rel content h (ruleScope im rel) (rule_result rel (ScopeKey_String (ruleScope im rel))))"
    by (rule absorbRule_as_step)
  show "q \<noteq> rel \<Longrightarrow> FindImport (is_Manifest x') q = FindImport (is_Manifest x) q"
    by (rule absorb_step_outcome(1) [OF assms [unfolded st]]) (auto dest!: rule_changed_recorded)
  show "FindImport (is_Manifest y) rel = FindImport (is_Manifest x') rel \<Longrightarrow> absorbRule im env d actor verify rel y = ((same_again z, None), y)"
    unfolding st by (rule absorb_step_outcome(2) [OF assms [unfolded st]]) (auto dest!: rule_changed_recorded)
qed

lemma absorbADR_outcome:
  assumes "absorbADR im env d actor verify rel x = ((z, None), x')"
  shows "q \<noteq> rel \<Longrightarrow> FindImport (is_Manifest x') q = FindImport (is_Manifest x) q"
    "FindImport (is_Manifest y) rel = FindImport (is_Manifest x') rel \<Longrightarrow> absorbADR im env d actor verify rel y = ((same_again z, None), y)"
proof -
  obtain raw where "os_ReadFile env d (filepath_Join (ip_Root im) rel) = Inr raw"
    using assms by (cases "os_ReadFile env d (filepath_Join (ip_Root im) rel)") (auto simp: absorbADR_def Let_def)
  then obtain title body h scope where st: "absorbADR im env d actor verify rel =
      absorb_step (body = '''') rel h (adr_result rel (ScopeKey_String scope)) (adr_result rel (ScopeKey_String scope))
        (adr_changed im actor verify rel title body h scope (adr_result rel (ScopeKey_String scope)))"
    by (rule absorbADR_as_step)
  show "q \<noteq> rel \<Longrightarrow> FindImport (is_Manifest x') q = FindImport (is_Manifest x) q"
    by (rule absorb_step_outcome(1) [OF assms [unfolded st]]) (auto dest!: adr_changed_recorded)
  show "FindImport (is_Manifest y) rel = FindImport (is_Manifest x') rel \<Longrightarrow> absorbADR im env d actor verify rel y = ((same_again z, None), y)"
    unfolding st by (rule absorb_step_outcome(2) [OF assms [unfolded st]]) (auto dest!: adr_changed_recorded)
qed

interpretation rules: absorber "absorbRule im env d actor verify" for im env d actor verify
  by unfold_locales (fact absorbRule_outcome)+

interpretation adrs: absorber "absorbADR im env d actor verify" for im env d actor verify
  by unfold_locales (fact absorbADR_outcome)+

text \<open>
  C20. The import is stable. When \<^verbatim>\<open>Absorb\<close> returned without an error, no file is both a rule file and a decision record, and the
  files are as they were, then importing again issues no command: ledger, read models and manifest stay as they are, and every file is reported
  as before, as skipped if it is empty and otherwise as unchanged with the same object.
\<close>

theorem import_again:
  assumes "Absorb im env d actor verify x = ((out, None), x')"
    and "case ip_OnlyFiles im of Some only \<Rightarrow> distinct only | None \<Rightarrow> distinct (Importer_ruleFiles im env d @ adrFiles im env d)"
  shows "Absorb im env d actor verify x' = ((map same_again out, None), x')"
proof (cases "ip_OnlyFiles im")
  case (Some only)
  let ?rels = "filter (\<lambda>rel. os_Stat env d (filepath_Join (ip_Root im) rel) = None) only"
  have "absorb_loop (absorbRule im env d actor verify) ?rels [] x = ((out, None), x')"
    using assms(1) Some by (simp add: Absorb_def)
  then show ?thesis
    using rules.loop_repeats [of im env d actor verify ?rels "[]" x out x' x'] assms(2) Some by (auto simp: Absorb_def)
next
  case None
  obtain o1 x1 where r: "absorb_loop (absorbRule im env d actor verify) (Importer_ruleFiles im env d) [] x = ((o1, None), x1)"
    and a: "absorb_loop (absorbADR im env d actor verify) (adrFiles im env d) o1 x1 = ((out, None), x')"
    using assms(1) None by (auto simp: Absorb_def split: prod.splits option.splits)
  have dist: "distinct (Importer_ruleFiles im env d)" "distinct (adrFiles im env d)" "set (Importer_ruleFiles im env d) \<inter> set (adrFiles im env d) = {}"
    using assms(2) None by auto
  obtain o2 where o2: "out = o1 @ o2" "\<forall>o'. absorb_loop (absorbADR im env d actor verify) (adrFiles im env d) o' x' = ((o' @ map same_again o2, None), x')"
    using adrs.loop_repeats [OF a dist(2), of x'] by auto
  have "\<forall>q \<in> set (Importer_ruleFiles im env d). FindImport (is_Manifest x') q = FindImport (is_Manifest x1) q"
    using adrs.loop_others [OF a] dist(3) by blast
  then have "absorb_loop (absorbRule im env d actor verify) (Importer_ruleFiles im env d) [] x' = ((map same_again o1, None), x')"
    using rules.loop_repeats [OF r dist(1), of x'] by auto
  then show ?thesis
    using o2 None by (simp add: Absorb_def)
qed

subsection \<open>An imported file\<close>

definition import_drafted :: event where
  "import_drafted = EvConstraint (ConstraintDrafted \<lparr>cd_ID = ''k1'', cd_ConstraintKind = KindRule, cd_Scope = zero_scope_key\<lparr>sk_Repo := ''keelage''\<rparr>,
     cd_Body = ''x'', cd_Checkable = '''', cd_Origin = [], cd_Authored = True, cd_Explanation = ''imported from CLAUDE.md'', cd_Level = L0,
     cd_Supersedes = '''', cd_Anchors = [], cd_At = 5\<rparr>)"

definition import_marshal :: "event \<Rightarrow> go_error + bytes" where
  "import_marshal e = (if e = import_drafted then Inr ''drafted'' else Inl ''unsupported value'')"

definition import_unmarshal :: "codec_key \<Rightarrow> bytes \<Rightarrow> go_error + event" where
  "import_unmarshal k b = (if b = ''drafted'' then Inr import_drafted else Inl ''unexpected end of JSON input'')"

abbreviation import_options :: "(mem_ledger, read_models) options" where
  "import_options \<equiv> daemon_options sample_digest sample_json import_marshal import_unmarshal"

definition sample_importer :: "mem_ledger importer" where
  "sample_importer = \<lparr>ip_Pipeline = import_options, ip_Root = ''/r'', ip_Repo = ''keelage'', ip_OnlyFiles = None, ip_Scope = None,
     ip_NewID = (\<lambda>_. ''k1''), ip_Clock = (\<lambda>n. 5 + int n), ip_H = (\<lambda>_. ''A'')\<rparr>"

definition import_text :: bytes where
  "import_text = ''x'' @ newline"

definition import_disk :: disk where
  "import_disk = \<lparr>dk_Files = [(''/r/CLAUDE.md'', import_text)], dk_Dirs = [''/r'']\<rparr>"

definition import_start :: "mem_ledger import_state" where
  "import_start = \<lparr>is_State = (NewLedger None, empty_models), is_Manifest = sample_manifest, is_IDs = 0, is_Commands = 0\<rparr>"

abbreviation import_draft :: command where
  "import_draft \<equiv> draft_rule ''k1'' ''CLAUDE.md'' ''41'' (zero_scope_key\<lparr>sk_Repo := ''keelage''\<rparr>) ''x'' ''''"

lemma import_texts:
  "RemoveBlock import_text PointerBlockID = (import_text, False)" "hex_encode ''A'' = ''41''" "filepath_Dir ''CLAUDE.md'' = ''.''"
  by code_simp+

lemma import_walk: "walk_entries '''' [FileEntry ''CLAUDE.md''] = [''CLAUDE.md'']" "ParseAnchors_error [] = None"
  by (simp_all add: ruleFileNames_def ParseAnchors_error_def)

lemma import_trim: "TrimSpace import_text = ''x''"
proof -
  have "runes newline = [(10, newline)]"
    by (subst runes.simps) (simp add: DecodeRuneInString_def decode_rune_bytes_def runes.simps [of "[]"])
  then have "runes import_text = [(120, ''x''), (10, newline)]"
    by (subst runes.simps) (simp add: DecodeRuneInString_def decode_rune_bytes_def import_text_def)
  then show ?thesis
    by (simp add: TrimSpace_def unicode_IsSpace_def)
qed

lemma import_scope: "ScopeKey_Validate (zero_scope_key\<lparr>sk_Repo := ''keelage''\<rparr>) = None"
  by (simp add: ScopeKey_Validate_None axis_values_def zero_scope_key_def valid_axis_def)

lemma import_files: "Importer_ruleFiles sample_importer calm d = [''CLAUDE.md'']" "adrFiles sample_importer calm d = []"
  by (simp_all add: Importer_ruleFiles_def adrFiles_def adrDirs_def calm_def import_walk go_sort_def del: walk_entries.simps walk_entry.simps)

lemma import_only: "ip_OnlyFiles sample_importer = None"
  by (simp add: sample_importer_def)

lemma import_drafts: "\<exists>res l p. Pipeline_Handle import_options app_handlers 5 ada import_draft (NewLedger None, empty_models) = ((res, None), (l, p))"
proof -
  have rt: "json_roundtrip import_marshal import_unmarshal"
    by (simp add: json_roundtrip_def import_marshal_def import_unmarshal_def)
  have seal: "sealing_works sample_json None" "Actor_Validate ada = None"
    by (simp_all add: sealing_works_def sample_json_def Actor_Validate_def ada_def)
  have fresh: "fresh_key (NewLedger None) import_draft"
    by (simp add: fresh_key_def mem_Lookup_def NewLedger_def)
  have hist: "stream_history import_options (l_all (NewLedger None)) (cmd_Stream import_draft) []"
    by (simp add: stream_history_def NewLedger_def history_start)
  obtain dctx where ctx: "context_for import_options 5 ada import_draft empty_models = Inr dctx" "Now dctx = 5"
    using daemon_context by metis
  have dec: "Root_Decide (Replay Root_Apply (stream_zero (cmd_Stream import_draft)) []) import_draft dctx = Inr [import_drafted]"
    unfolding cmd_zero_stream [symmetric] using ctx(2)
    by (simp add: draft_rule_def import_drafted_def constraint_draft_def zero_constraint_def lift_events_def import_walk import_scope)
  show ?thesis
    using accepted_written [OF rt reach_start seal fresh hist ctx(1) dec] by (auto simp: import_marshal_def)
qed

lemma sample_imported:
  "\<exists>x'. Absorb sample_importer calm import_disk ada False import_start =
    (([\<lparr>ab_Path = ''CLAUDE.md'', ab_Kind = ''rule'', ab_ObjectID = ''k1'', ab_Action = ''imported'', ab_Scope = ScopeKey_String (zero_scope_key\<lparr>sk_Repo := ''keelage''\<rparr>)\<rparr>], None), x')"
proof -
  obtain res l p where h: "Pipeline_Handle import_options app_handlers 5 ada import_draft (NewLedger None, empty_models) = ((res, None), (l, p))"
    using import_drafts by blast
  have read: "os_ReadFile calm import_disk ''/r/CLAUDE.md'' = Inr (import_text)"
    by (simp add: os_ReadFile_def calm_def import_disk_def)
  have scope: "ruleScope sample_importer ''CLAUDE.md'' = zero_scope_key\<lparr>sk_Repo := ''keelage''\<rparr>"
    by (simp add: ruleScope_def sample_importer_def import_texts)
  have opt: "ip_Pipeline sample_importer = import_options" "ip_Clock sample_importer 0 = 5" "ip_NewID sample_importer 0 = ''k1''" "ip_Root sample_importer = ''/r''"
      "ip_OnlyFiles sample_importer = None" "FileHash (ip_H sample_importer) ''x'' = ''41''"
    by (simp_all add: sample_importer_def FileHash_def import_texts)
  have none: "FindImport sample_manifest ''CLAUDE.md'' = (zero_import, False)"
    by (simp add: FindImport_def sample_manifest_def)
  show ?thesis
    by (simp add: Absorb_def opt import_files absorbRule_def sample_paths read import_texts import_trim scope Let_def none import_start_def rule_changed_def import_handle_def h
        rule_verify_def rule_supersede_def)
qed

theorem import_again_witness:
  "\<exists>out x'. Absorb sample_importer calm import_disk ada False import_start = ((out, None), x') \<and> map ab_Action out = [''imported''] \<and>
    Absorb sample_importer calm import_disk ada False x' = ((map same_again out, None), x')"
proof -
  obtain out x' where h: "Absorb sample_importer calm import_disk ada False import_start = ((out, None), x')" "map ab_Action out = [''imported'']"
    using sample_imported by force
  have "Absorb sample_importer calm import_disk ada False x' = ((map same_again out, None), x')"
    by (rule import_again [OF h(1)]) (simp add: import_files import_only)
  then show ?thesis
    using h by (intro exI conjI)
qed

end
