(* ===== verification/Spec2Isabelle.thy ===== *)
theory Spec2Isabelle
  imports Core_Properties Harness_Properties Accountability_Properties System_Properties Team_Properties Supply_Properties
    Source_Properties Service_Properties Sidecar_Properties Import_Properties
begin

text \<open>
  \<^bold>\<open>Keelage: a verification library of the daemon's core\<close>

  Keelage keeps, beside a code base, a tamper-evident record of the rules that coding agents
  work under, the changes they make and who answered for them. The daemon handles commands: a
  command names a stream, the aggregate of the stream is replayed from the ledger, decides
  events or a rejection, the events are sealed into a hash chain, appended, and projected into
  read models, from which the context of later decisions is built.

  \<^bold>\<open>Parts and theories\<close> (paths under \<^verbatim>\<open>src/internal\<close> unless said otherwise)

  \<^item> \<open>Go_Prelude\<close>, \<open>Go_Path\<close>: what the sources use of the Go library: strings, sorting, maps as
    association lists (one list order stands for one iteration order), decimal
    printing, \<^verbatim>\<open>path.Clean\<close> and \<^verbatim>\<open>path.Match\<close>.
  \<^item> \<open>Core_Types\<close>, \<open>Anchor_Key\<close>, \<open>Scope_Key\<close>: \<^verbatim>\<open>core/ids.go\<close>, \<^verbatim>\<open>level.go\<close>, \<^verbatim>\<open>context.go\<close>, \<^verbatim>\<open>event.go\<close>,
    \<^verbatim>\<open>anchor.go\<close>, \<^verbatim>\<open>hash3.go\<close>, \<^verbatim>\<open>scope.go\<close>. The locale \<open>aggregate\<close> is the contract of an aggregate: an
    invariant of the zero value that every decision keeps; \<open>history\<close> is the set of event lists
    that decisions produce.
  \<^item> \<open>Harness_Scope\<close>, \<open>Harness_Constraint\<close>, \<open>Harness_Decision\<close>: the aggregates of \<^verbatim>\<open>core/harness\<close>;
    \<open>Change\<close>, \<open>Gate\<close>, \<open>Session\<close>: those of \<^verbatim>\<open>core/accountability\<close>; \<open>Realization_Anchor\<close>: that of
    \<^verbatim>\<open>core/realization/anchor.go\<close>. Each has its commands and events as records, one
    definition per case of \<^verbatim>\<open>Decide\<close>, \<^verbatim>\<open>Apply\<close>, and an interpretation of \<open>aggregate\<close>.
  \<^item> \<open>Envelope\<close>, \<open>Codec\<close>, \<open>Ledger\<close>: \<^verbatim>\<open>core/envelope.go\<close>, \<^verbatim>\<open>core/codec.go\<close>, \<^verbatim>\<open>port/ledger.go\<close> and
    \<^verbatim>\<open>adapter/memory/ledger.go\<close>. The locale \<open>ledger_port\<close> states what the comments of
    \<^verbatim>\<open>port.Ledger\<close> promise over the sequence of all records; the in-memory ledger interprets it.
  \<^item> \<open>Wire\<close>, \<open>Wire_Facts\<close>, \<open>Pipeline\<close>, \<open>Pipeline_Facts\<close>: \<^verbatim>\<open>app/wire.go\<close>, \<^verbatim>\<open>app/pipeline.go\<close>, \<^verbatim>\<open>app/rejected.go\<close>;
    the sum of all aggregates, the registered events and handlers, and what the pipeline
    guarantees over any ledger with the contract.
  \<^item> \<open>Projection\<close>, \<open>Projection_Facts\<close>, \<open>Indexes\<close>, \<open>Rebuild\<close>: \<^verbatim>\<open>app/projection.go\<close>, \<^verbatim>\<open>decisions.go\<close>, \<^verbatim>\<open>sessions.go\<close>,
    \<^verbatim>\<open>cursor.go\<close>, the index of \<^verbatim>\<open>anchors.go\<close>, and \<^verbatim>\<open>rebuild.go\<close>. The locale \<open>projection_of\<close> is the
    refinement of one aggregate by one index.
  \<^item> \<open>Runtime\<close>, \<open>Runtime_Facts\<close>, \<open>Views\<close>: the assembly of \<^verbatim>\<open>cmd/keelage/runtime.go\<close>, its reachable states as an
    inductive relation, the steps of a run, and the locale \<open>stream_view\<close> which lifts the
    refinement of one index to interleaved runs over all streams.

  \<^item> \<open>Team\<close>, \<open>Team_Facts\<close>: \<^verbatim>\<open>app/team.go\<close> with the objects of \<^verbatim>\<open>port/sync.go\<close>: one tenant of the team server, the receiver
    of pushed records, pages of the team layer and the gate broker. The locale \<open>origin_port\<close> extends \<open>ledger_port\<close> by what
    \<^verbatim>\<open>port.OriginLedger\<close> promises; the in-memory ledger interprets it. \<open>org_reaches\<close> is the set of states of a tenant.
  \<^item> \<open>Sync\<close>, \<open>Sync_Facts\<close>: \<^verbatim>\<open>app/sync.go\<close>, the daemon's push and pull against a client that is an argument.
  \<^item> \<open>Go_Text\<close>, \<open>Go_Filepath\<close>: substrings, white space and \<^verbatim>\<open>path/filepath\<close> of the Go library.
  \<^item> \<open>Supply_Blocks\<close>, \<open>Supply_Facts\<close>, \<open>Supply\<close>, \<open>Turn\<close>: \<^verbatim>\<open>core/supply\<close>. Managed blocks of a file (\<^verbatim>\<open>render.go\<close>) over the matches of their
    regular expression, and the abstraction of a tidy file as texts and blocks in turn; the answer to an edit (\<^verbatim>\<open>hook.go\<close>), the manifest,
    the rendered context, and the regular expressions that classify prompts and commands (\<^verbatim>\<open>turn.go\<close>).
  \<^item> \<open>Hooks\<close>: \<^verbatim>\<open>app/hooks.go\<close>, the hook service over the read models and the pipeline, with its sessions in memory.
  \<^item> \<open>Symbols\<close>, \<open>Symbol_Facts\<close>: \<^verbatim>\<open>core/realization/syntax.go\<close>, the symbols of a parsed file, what their hashes are taken of, and moves.
  \<^item> \<open>Verifier\<close>, \<open>Deriver\<close>, \<open>Service_Facts\<close>: the resolver and the verifier of \<^verbatim>\<open>app/anchors.go\<close> and \<^verbatim>\<open>app/derive.go\<close>, the change that a
    commit becomes; what a command that returned without an error has done.
  \<^item> \<open>Inbox\<close>, \<open>Inbox_Facts\<close>: \<^verbatim>\<open>app/inbox.go\<close>, what waits for a person and the history of an anchor, over any ledger with the contract.
  \<^item> \<open>PR_Bridge\<close>: \<^verbatim>\<open>app/login.go\<close> and \<^verbatim>\<open>app/prbridge.go\<close> with the objects of \<^verbatim>\<open>port/github.go\<close>.
  \<^item> \<open>Sidecar\<close>: \<^verbatim>\<open>app/sidecar.go\<close>, the manifest, the import of rule files and decision records, and the rendering of files with managed
    blocks, over a disk. Which file operations fail is an argument.
  \<^item> \<open>Merkle\<close>, \<open>Merkle_Facts\<close>: \<^verbatim>\<open>merkle/merkle.go\<close>, the transparency log, and the abstraction of its store as the hashes of perfect subtrees.

  \<^bold>\<open>Parameters\<close>. SHA-256 (\<open>H\<close>), the JSON text of envelope metadata (\<open>J\<close>), \<^verbatim>\<open>encoding/json\<close> on events (\<open>mar\<close>,
  \<open>un\<close>), the signer, the verification of signatures, the registry of daemons, whether
  a file exists, the contents of files and commits, the source parser, the package of Merkle trees, the forge, failures of the file system, and the deadline of a caller are arguments. What is relied on is a named hypothesis where it is used: \<open>json_roundtrip\<close> (what was
  encoded decodes to itself), \<open>sealing_works\<close>, \<open>node_ids\<close> (node ids are a level and an index), or the absence of collisions on the two chains compared.

  \<^bold>\<open>Properties\<close>. \<open>System_Properties\<close>: soundness of the record in every run, read models equal to a rebuild and showing
  the replayed aggregates, the outcome of a command, accepted commands are written,
  retries change nothing, rejections are recorded. \<open>Accountability_Properties\<close> and
  \<open>Harness_Properties\<close>: the rules on changes, gates, sessions, anchors, scopes, constraints and
  decisions over every history. \<open>Core_Properties\<close>: the chain, the ledger, the codec, scope
  keys and anchors. \<open>Team_Properties\<close>: soundness of a tenant's record, what a push answers, repeated pushes, what a daemon
  offers and what a pull leaves in its cache. \<open>Supply_Properties\<close>: managed blocks keep the file of the user, which edits the hook service blocks, that it
  keeps no text of the user, and the search for the repository. \<open>Source_Properties\<close>: symbols are extracted without a panic and do not depend on comments, which
  moves are reported, what a derived change touches and that deriving again writes nothing. \<open>Service_Properties\<close>: the inbox and the history are complete,
  reviews are judgments of members, the log stores what its proofs need and an accepted bundle is backed by an issued checkpoint. \<open>Sidecar_Properties\<close>: rendering leaves edited
  blocks alone and is stable. \<open>Import_Properties\<close>: the locale \<open>absorber\<close> is the contract of a step of the import, which both kinds of files keep; importing
  again issues no command. \<open>Sample_Inputs\<close> has the inputs of the witnesses.

  \<^bold>\<open>Loops\<close>. Loops are structural recursion or, for the matches of a regular expression and the walk up the directories, recursion
  with a measure; but the paging loops of \<^verbatim>\<open>Replay\<close>, \<^verbatim>\<open>Syncer.Push\<close>, \<^verbatim>\<open>Syncer.Pull\<close> and \<^verbatim>\<open>History\<close> and the walk of \<^verbatim>\<open>ParentsToStore\<close> are partial
  functions whose value \<open>None\<close> is non-termination; \<open>daemon_rebuild\<close>, \<open>sync_push_offers\<close>, \<open>pull_team_layer\<close>, \<open>history_complete\<close> and
  \<open>log_store_complete\<close> prove that they return. The walks over a syntax tree have the number of its nodes and one as fuel, which a tree without a
  cycle does not use up (\<open>extract_total\<close>).

  \<^bold>\<open>Not modelled\<close>. The daemon stores its records in SQLite; the runs here use the in-memory ledger, which has the same
  contract. Calls are sequential: a method of the ledger is atomic under its mutex, and two
  commands that race meet as a version conflict of \<open>mem_Append\<close>. Times are nanosecond counts since the year 1;
  their RFC 3339 form is that of checkpoints only and is not printed in messages. The transport, command-line and database adapters and
  the source parser are input and output.
\<close>

end
